(* ===== verification/OltinPrelude.thy ===== *)
theory OltinPrelude
  imports Main "HOL-Library.Multiset" "HOL-Library.Sublist" "HOL-Library.Signed_Division"
begin

text \<open>
  Shared vocabulary of the development: the fragment of the ECMAScript string, BigInt and
  Error semantics the TypeScript sources use, the result type every fallible operation
  returns, and the list lemmas the component theories share.

  Conventions.  A \<^verbatim>\<open>bigint\<close> is an \<^typ>\<open>int\<close>; BigInt division is the truncating \<open>sdiv\<close>.
  A string is a list of code units below 256 (\<^typ>\<open>char\<close>): every identifier, decimal, address
  and mnemonic the programs compare is in that range.  A thrown \<^verbatim>\<open>Error\<close> is the left
  injection of a sum, so each \<^verbatim>\<open>throw\<close> and early return of the source is a branch here.
\<close>

section \<open>Collections\<close>

named_theorems js_simps "evaluation rules for the ECMAScript primitives"

section \<open>Results\<close>

type_synonym ('e, 'a) result = "'e + 'a"

definition rbind :: "'e + 'a \<Rightarrow> ('a \<Rightarrow> 'e + 'b) \<Rightarrow> 'e + 'b" where
  "rbind m f = (case m of Inl e \<Rightarrow> Inl e | Inr x \<Rightarrow> f x)"

lemma rbind_simps [simp]:
  "rbind (Inl e) f = Inl e"
  "rbind (Inr x) f = f x"
  by (simp_all add: rbind_def)

lemma rbind_Inr_iff: "rbind m f = Inr y \<longleftrightarrow> (\<exists>x. m = Inr x \<and> f x = Inr y)"
  by (cases m) auto

lemma rbind_Inl_iff: "rbind m f = Inl e \<longleftrightarrow> m = Inl e \<or> (\<exists>x. m = Inr x \<and> f x = Inl e)"
  by (cases m) auto

section \<open>Characters and digits\<close>

definition code :: "char \<Rightarrow> nat" where
  "code c = of_char c"

definition is_digit :: "char \<Rightarrow> bool" where
  "is_digit c \<longleftrightarrow> 48 \<le> code c \<and> code c \<le> 57"

definition digit_val :: "char \<Rightarrow> nat" where
  "digit_val c = code c - 48"

definition digit_char :: "nat \<Rightarrow> char" where
  "digit_char d = char_of (48 + d)"

definition digits_val :: "string \<Rightarrow> nat" where
  "digits_val s = foldl (\<lambda>a c. 10 * a + digit_val c) 0 s"

fun show_nat :: "nat \<Rightarrow> string" where
  "show_nat n = (if n < 10 then [digit_char n] else show_nat (n div 10) @ [digit_char (n mod 10)])"

declare show_nat.simps [simp del]

definition show_int :: "int \<Rightarrow> string" where
  "show_int n = (if n < 0 then CHR ''-'' # show_nat (nat (- n)) else show_nat (nat n))"

lemma code_digit_char: "d < 10 \<Longrightarrow> code (digit_char d) = 48 + d"
  by (simp add: code_def digit_char_def)

lemma is_digit_digit_char [simp]: "d < 10 \<Longrightarrow> is_digit (digit_char d)"
  by (simp add: is_digit_def code_digit_char)

lemma digit_val_digit_char [simp]: "d < 10 \<Longrightarrow> digit_val (digit_char d) = d"
  by (simp add: digit_val_def code_digit_char)

lemma digit_val_less: "is_digit c \<Longrightarrow> digit_val c < 10"
  by (auto simp: is_digit_def digit_val_def)

lemma digit_char_digit_val [simp]: "is_digit c \<Longrightarrow> digit_char (digit_val c) = c"
  by (simp add: is_digit_def digit_val_def digit_char_def code_def)

lemma digits_val_Nil [simp]: "digits_val [] = 0"
  by (simp add: digits_val_def)

lemma digits_val_snoc [simp]: "digits_val (s @ [c]) = 10 * digits_val s + digit_val c"
  by (simp add: digits_val_def)

lemma digits_val_append: "digits_val (s @ t) = digits_val s * 10 ^ length t + digits_val t"
proof (induction t rule: rev_induct)
  case Nil
  show ?case by simp
next
  case (snoc c t)
  have "digits_val (s @ t @ [c]) = 10 * digits_val (s @ t) + digit_val c"
    using digits_val_snoc [of "s @ t" c] by simp
  with snoc show ?case by (simp add: algebra_simps)
qed

lemma digits_val_single [simp]: "digits_val [c] = digit_val c"
  by (simp add: digits_val_def)

lemma digits_val_zeros [simp]: "digits_val (replicate k CHR ''0'') = 0"
proof (induction k)
  case 0
  show ?case by simp
next
  case (Suc k)
  then show ?case
    using digits_val_append [of "[CHR ''0'']" "replicate k CHR ''0''"]
    by (simp add: digit_val_def code_def)
qed

lemma digits_val_bound: "list_all is_digit s \<Longrightarrow> digits_val s < 10 ^ length s"
proof (induction s rule: rev_induct)
  case Nil
  show ?case by simp
next
  case (snoc c s)
  then have "digits_val s < 10 ^ length s" and "digit_val c < 10"
    using digit_val_less by (auto simp: list_all_iff)
  then show ?case by simp
qed

lemma show_nat_induct [case_names step]:
  fixes n :: nat
  assumes "\<And>n. (10 \<le> n \<Longrightarrow> P (n div 10)) \<Longrightarrow> P n"
  shows "P n"
proof (induction n rule: less_induct)
  case (less n)
  show ?case by (rule assms) (use less in auto)
qed

lemma digits_val_show_nat [simp]: "digits_val (show_nat n) = n"
proof (induction n rule: show_nat_induct)
  case (step n)
  then show ?case by (cases "n < 10") (simp_all add: show_nat.simps [of n])
qed

lemma show_nat_digits [simp]: "list_all is_digit (show_nat n)"
proof (induction n rule: show_nat_induct)
  case (step n)
  then show ?case by (cases "n < 10") (simp_all add: show_nat.simps [of n])
qed

lemma show_nat_not_Nil [simp]: "show_nat n \<noteq> []"
  by (subst show_nat.simps) simp

lemma show_nat_inject: "show_nat m = show_nat n \<longleftrightarrow> m = n"
  by (metis digits_val_show_nat)

lemma set_show_nat: "c \<in> set (show_nat n) \<Longrightarrow> is_digit c"
  using show_nat_digits [of n] by (simp add: list_all_iff)

lemma show_int_inject: "0 \<le> m \<Longrightarrow> 0 \<le> n \<Longrightarrow> show_int m = show_int n \<longleftrightarrow> m = n"
  by (auto simp: show_int_def show_nat_inject)

section \<open>String methods\<close>

text \<open>\<^verbatim>\<open>String.prototype.trim\<close>: white space and line terminators below U+0100.\<close>

definition js_space :: "char \<Rightarrow> bool" where
  "js_space c \<longleftrightarrow> code c \<in> {9, 10, 11, 12, 13, 32, 160}"

definition js_trim :: "string \<Rightarrow> string" where
  "js_trim s = rev (dropWhile js_space (rev (dropWhile js_space s)))"

definition js_lower_char :: "char \<Rightarrow> char" where
  "js_lower_char c =
     (if (65 \<le> code c \<and> code c \<le> 90) \<or> (192 \<le> code c \<and> code c \<le> 222 \<and> code c \<noteq> 215)
      then char_of (code c + 32) else c)"

text \<open>\<^verbatim>\<open>String.prototype.toLowerCase\<close>.\<close>

definition js_lower :: "string \<Rightarrow> string" where
  "js_lower s = map js_lower_char s"

text \<open>\<^verbatim>\<open>String.prototype.split\<close> with a one-character separator.\<close>

fun js_split :: "char \<Rightarrow> string \<Rightarrow> string list" where
  "js_split sep [] = [[]]"
| "js_split sep (c # cs) =
     (if c = sep then [] # js_split sep cs
      else (case js_split sep cs of [] \<Rightarrow> [[c]] | w # ws \<Rightarrow> (c # w) # ws))"

definition js_join :: "string \<Rightarrow> string list \<Rightarrow> string" where
  "js_join sep ws = (case ws of [] \<Rightarrow> [] | w # r \<Rightarrow> w @ concat (map (\<lambda>x. sep @ x) r))"

text \<open>\<^verbatim>\<open>startsWith\<close> and \<^verbatim>\<open>endsWith\<close>.\<close>

definition js_startsWith :: "string \<Rightarrow> string \<Rightarrow> bool" where
  "js_startsWith s p \<longleftrightarrow> take (length p) s = p"

definition js_endsWith :: "string \<Rightarrow> string \<Rightarrow> bool" where
  "js_endsWith s p \<longleftrightarrow> length p \<le> length s \<and> drop (length s - length p) s = p"

text \<open>\<^verbatim>\<open>padEnd(n, "0")\<close>.\<close>

definition pad_end_zeros :: "nat \<Rightarrow> string \<Rightarrow> string" where
  "pad_end_zeros n s = s @ replicate (n - length s) CHR ''0''"

text \<open>\<^verbatim>\<open>BigInt(s)\<close> of a string: \<^term>\<open>None\<close> is the thrown SyntaxError.\<close>

definition hex_val :: "char \<Rightarrow> nat option" where
  "hex_val c =
     (if is_digit c then Some (digit_val c)
      else if 97 \<le> code c \<and> code c \<le> 102 then Some (code c - 87)
      else if 65 \<le> code c \<and> code c \<le> 70 then Some (code c - 55) else None)"

fun radix_val :: "nat \<Rightarrow> nat \<Rightarrow> string \<Rightarrow> nat option" where
  "radix_val b acc [] = Some acc"
| "radix_val b acc (c # cs) =
     (case hex_val c of
        None \<Rightarrow> None
      | Some d \<Rightarrow> if d < b then radix_val b (b * acc + d) cs else None)"

definition all_digits :: "string \<Rightarrow> bool" where
  "all_digits s \<longleftrightarrow> s \<noteq> [] \<and> list_all is_digit s"

definition prefixed :: "string \<Rightarrow> nat option" where
  "prefixed t =
     (if length t < 3 \<or> hd t \<noteq> CHR ''0'' then None
      else if t ! 1 = CHR ''x'' \<or> t ! 1 = CHR ''X'' then radix_val 16 0 (drop 2 t)
      else if t ! 1 = CHR ''o'' \<or> t ! 1 = CHR ''O'' then radix_val 8 0 (drop 2 t)
      else if t ! 1 = CHR ''b'' \<or> t ! 1 = CHR ''B'' then radix_val 2 0 (drop 2 t)
      else None)"

definition js_BigInt :: "string \<Rightarrow> int option" where
  "js_BigInt s =
     (let t = js_trim s in
      if list_all is_digit t then Some (int (digits_val t))
      else if hd t = CHR ''-'' then (if all_digits (tl t) then Some (- int (digits_val (tl t))) else None)
      else if hd t = CHR ''+'' then (if all_digits (tl t) then Some (int (digits_val (tl t))) else None)
      else map_option int (prefixed t))"

lemma is_digit_not_space: "is_digit c \<Longrightarrow> \<not> js_space c"
  by (auto simp: is_digit_def js_space_def)

lemma dropWhile_none: "list_all (\<lambda>c. \<not> P c) s \<Longrightarrow> dropWhile P s = s"
  by (cases s) auto

lemma js_trim_no_space: "list_all (\<lambda>c. \<not> js_space c) s \<Longrightarrow> js_trim s = s"
  by (simp add: js_trim_def dropWhile_none list_all_rev)

lemma js_trim_idem [simp]: "js_trim (js_trim s) = js_trim s"
proof -
  define a where "a = dropWhile js_space s"
  define b where "b = dropWhile js_space (rev a)"
  have hd_a: "a \<noteq> [] \<Longrightarrow> \<not> js_space (hd a)"
    unfolding a_def by (rule hd_dropWhile) simp
  obtain p where p: "rev a = p @ b"
    unfolding b_def by (metis takeWhile_dropWhile_id)
  have "dropWhile js_space (rev b) = rev b"
  proof (cases "rev b")
    case Nil
    then show ?thesis by simp
  next
    case (Cons c r)
    have "a = rev b @ rev p" using p by (metis rev_append rev_rev_ident)
    with Cons hd_a have "\<not> js_space c" by simp
    with Cons show ?thesis by simp
  qed
  moreover have "dropWhile js_space b = b"
    unfolding b_def by (rule dropWhile_idem)
  ultimately show ?thesis
    by (simp add: js_trim_def a_def [symmetric] b_def [symmetric])
qed

lemma js_trim_ends:
  assumes "js_trim s \<noteq> []"
  shows "\<not> js_space (hd (js_trim s))" and "\<not> js_space (last (js_trim s))"
proof -
  define a where "a = dropWhile js_space s"
  define b where "b = dropWhile js_space (rev a)"
  have t: "js_trim s = rev b" by (simp add: js_trim_def a_def b_def)
  then have ne: "b \<noteq> []" using assms by simp
  then show "\<not> js_space (last (js_trim s))"
    using hd_dropWhile [of js_space "rev a"] by (simp add: t last_rev b_def)
  have "rev a = takeWhile js_space (rev a) @ b" by (simp add: b_def)
  then have a: "a = rev b @ rev (takeWhile js_space (rev a))" by (metis rev_append rev_rev_ident)
  then have "a \<noteq> []" and "hd a = hd (rev b)" using ne by (metis Nil_is_append_conv rev_is_Nil_conv, metis hd_append2 rev_is_Nil_conv)
  then show "\<not> js_space (hd (js_trim s))"
    using hd_dropWhile [of js_space s] by (simp add: t a_def)
qed

lemma js_trim_id:
  assumes "s \<noteq> [] \<Longrightarrow> \<not> js_space (hd s) \<and> \<not> js_space (last s)"
  shows "js_trim s = s"
proof (cases "s = []")
  case True
  then show ?thesis by (simp add: js_trim_def)
next
  case False
  have "dropWhile js_space s = s" using assms False by (simp add: dropWhile_eq_self_iff)
  moreover have "dropWhile js_space (rev s) = rev s"
    using assms False by (simp add: dropWhile_eq_self_iff hd_rev)
  ultimately show ?thesis by (simp add: js_trim_def)
qed

lemma js_space_lower [simp]: "js_space (js_lower_char c) = js_space c"
proof -
  have "code (js_lower_char c) = (if (65 \<le> code c \<and> code c \<le> 90) \<or> (192 \<le> code c \<and> code c \<le> 222 \<and> code c \<noteq> 215)
      then code c + 32 else code c)"
    by (auto simp: js_lower_char_def code_def)
  then show ?thesis by (auto simp: js_space_def)
qed

lemma js_trim_lower_trim: "js_trim (js_lower (js_trim s)) = js_lower (js_trim s)"
proof (rule js_trim_id)
  assume "js_lower (js_trim s) \<noteq> []"
  then have "js_trim s \<noteq> []" by (simp add: js_lower_def)
  with js_trim_ends [OF this] show "\<not> js_space (hd (js_lower (js_trim s))) \<and> \<not> js_space (last (js_lower (js_trim s)))"
    by (simp add: js_lower_def hd_map last_map)
qed

lemma js_trim_digits [simp]: "list_all is_digit s \<Longrightarrow> js_trim s = s"
  by (rule js_trim_no_space) (auto simp: list_all_iff is_digit_not_space)

lemma js_BigInt_digits [simp]: "list_all is_digit s \<Longrightarrow> js_BigInt s = Some (int (digits_val s))"
  by (simp add: js_BigInt_def)

lemma js_BigInt_show_nat [simp]: "js_BigInt (show_nat n) = Some (int n)"
  by simp

lemma js_split_not_Nil [simp]: "js_split sep s \<noteq> []"
  by (induction s) (auto split: list.splits)

lemma js_split_no_sep: "sep \<notin> set s \<Longrightarrow> js_split sep s = [s]"
  by (induction s) auto

lemma js_split_append: "sep \<notin> set s \<Longrightarrow> js_split sep (s @ sep # t) = s # js_split sep t"
  by (induction s) auto

lemma append_sep_inject:
  assumes "c \<notin> set a" and "c \<notin> set a'"
  shows "a @ c # b = a' @ c # b' \<longleftrightarrow> a = a' \<and> b = b'"
  using assms
proof (induction a arbitrary: a')
  case Nil
  then show ?case by (cases a') auto
next
  case (Cons x a)
  then show ?case by (cases a') auto
qed

lemma replicate_numeral: "replicate (numeral k) x = x # replicate (pred_numeral k) x"
  by (simp add: numeral_eq_Suc)

text \<open>Evaluation of the string primitives on literals.\<close>

lemma bit_Suc_0_0 [js_simps]: "bit (Suc 0) 0"
  by (simp add: bit_0)

declare js_trim_def [js_simps] js_space_def [js_simps] code_def [js_simps] is_digit_def [js_simps]
  digit_val_def [js_simps] digits_val_def [js_simps] js_BigInt_def [js_simps]
  pad_end_zeros_def [js_simps] replicate_numeral [js_simps] js_lower_def [js_simps]
  char_of_def [js_simps] js_lower_char_def [js_simps] js_startsWith_def [js_simps] js_endsWith_def [js_simps]

section \<open>Integer division\<close>

lemma le_div_iff_mult_le: "0 < (c::int) \<Longrightarrow> k \<le> x div c \<longleftrightarrow> k * c \<le> x"
proof
  assume "0 < c" and "k \<le> x div c"
  then have "k * c \<le> (x div c) * c" by simp
  also have "\<dots> \<le> x" using \<open>0 < c\<close> by (simp add: minus_mod_eq_div_mult [symmetric])
  finally show "k * c \<le> x" .
next
  assume "0 < c" and "k * c \<le> x"
  then have "k * c div c \<le> x div c" by (intro zdiv_mono1)
  with \<open>0 < c\<close> show "k \<le> x div c" by simp
qed

lemma div_less_iff_less_mult: "0 < (c::int) \<Longrightarrow> x div c < k \<longleftrightarrow> x < k * c"
  using le_div_iff_mult_le [of c k x] by linarith

lemma sdiv_pos_nonneg: "0 \<le> (a::int) \<Longrightarrow> 0 < b \<Longrightarrow> a sdiv b = a div b"
  by (cases "a = 0") (simp_all add: signed_divide_int_def)

lemma sdiv_neg_divisor: "0 \<le> (a::int) \<Longrightarrow> b < 0 \<Longrightarrow> a sdiv b \<le> 0"
  by (cases "a = 0") (simp_all add: signed_divide_int_def pos_imp_zdiv_nonneg_iff)

section \<open>Order statistics\<close>

lemma sorted_nth_ge:
  fixes xs :: "'a::linorder list"
  assumes "sorted xs" and "k < length xs" and "length (filter (\<lambda>x. x < lo) xs) \<le> k"
  shows "lo \<le> xs ! k"
proof (rule ccontr)
  assume "\<not> lo \<le> xs ! k"
  then have below: "\<forall>i \<le> k. xs ! i < lo"
    using assms(1,2) by (meson le_less_trans not_le sorted_nth_mono)
  have "filter (\<lambda>x. x < lo) (take (Suc k) xs) = take (Suc k) xs"
    using below by (auto simp: filter_id_conv in_set_conv_nth less_Suc_eq_le)
  then have "length (filter (\<lambda>x. x < lo) (take (Suc k) xs)) = Suc k"
    using assms(2) by simp
  moreover have "length (filter (\<lambda>x. x < lo) (take (Suc k) xs @ drop (Suc k) xs))
      \<ge> length (filter (\<lambda>x. x < lo) (take (Suc k) xs))"
    by (subst filter_append) simp
  ultimately show False using assms(3) by simp
qed

lemma sorted_nth_le:
  fixes xs :: "'a::linorder list"
  assumes "sorted xs" and "k < length xs" and "length (filter (\<lambda>x. hi < x) xs) < length xs - k"
  shows "xs ! k \<le> hi"
proof (rule ccontr)
  assume "\<not> xs ! k \<le> hi"
  then have above: "\<forall>i. k \<le> i \<longrightarrow> i < length xs \<longrightarrow> hi < xs ! i"
    using assms(1) by (meson less_le_trans not_le sorted_nth_mono)
  have "filter (\<lambda>x. hi < x) (drop k xs) = drop k xs"
    using above assms(2) by (auto simp: filter_id_conv in_set_conv_nth)
  then have "length (filter (\<lambda>x. hi < x) (drop k xs)) = length xs - k"
    by simp
  moreover have "length (filter (\<lambda>x. hi < x) (take k xs @ drop k xs))
      \<ge> length (filter (\<lambda>x. hi < x) (drop k xs))"
    by (subst filter_append) simp
  ultimately show False using assms(3) by simp
qed

lemma length_filter_sort [simp]: "length (filter P (sort xs)) = length (filter P xs)"
  by (simp add: filter_sort)

lemma length_filter_partition3:
  fixes lo hi :: "'a::linorder"
  assumes "lo \<le> hi"
  shows "length (filter (\<lambda>x. x < lo) xs) + length (filter (\<lambda>x. lo \<le> x \<and> x \<le> hi) xs)
       + length (filter (\<lambda>x. hi < x) xs) = length xs"
  using assms by (induction xs) auto

lemma floor_avg_between:
  fixes a b lo hi :: int
  assumes "lo \<le> a" and "a \<le> hi" and "lo \<le> b" and "b \<le> hi"
  shows "lo \<le> (a + b) div 2 \<and> (a + b) div 2 \<le> hi"
  using assms by linarith

end
