(* ===== verification/JsNumber.thy ===== *)
theory JsNumber
  imports OltinPrelude
begin

text \<open>
  The fragment of the ECMAScript Number type the programs use: \<^verbatim>\<open>Number(s)\<close> of a string and
  the comparison of an integer with the result.  A finite value is the exact fraction its literal
  denotes, numerator over a positive denominator; the rounding to a double, which only separates literals closer than one part
  in \<open>2 ^ 52\<close>, is not modelled.  Every comparison with NaN is false, as in the language.
\<close>

datatype js_number = NaN | PosInf | NegInf | Fin int nat

text \<open>The optional exponent of a decimal literal: \<^term>\<open>None\<close> is a syntax error.\<close>

definition exponent_part :: "string \<Rightarrow> int option" where
  "exponent_part s =
     (if s = [] then Some 0
      else if hd s \<noteq> CHR ''e'' \<and> hd s \<noteq> CHR ''E'' then None
      else let r = tl s in
        if r \<noteq> [] \<and> hd r = CHR ''-''
        then (if all_digits (tl r) then Some (- int (digits_val (tl r))) else None)
        else if r \<noteq> [] \<and> hd r = CHR ''+''
        then (if all_digits (tl r) then Some (int (digits_val (tl r))) else None)
        else (if all_digits r then Some (int (digits_val r)) else None))"

definition unsigned_decimal :: "string \<Rightarrow> js_number" where
  "unsigned_decimal t =
     (if t = ''Infinity'' then PosInf
      else let ip = takeWhile is_digit t; r1 = dropWhile is_digit t;
               fr = (if r1 \<noteq> [] \<and> hd r1 = CHR ''.'' then takeWhile is_digit (tl r1) else []);
               r2 = (if r1 \<noteq> [] \<and> hd r1 = CHR ''.'' then dropWhile is_digit (tl r1) else r1) in
        if ip = [] \<and> fr = [] then NaN
        else case exponent_part r2 of
          None \<Rightarrow> NaN
        | Some e \<Rightarrow>
            (let k = e - int (length fr); n = int (digits_val (ip @ fr)) in
             if 0 \<le> k then Fin (n * 10 ^ nat k) 1 else Fin n (10 ^ nat (- k))))"

definition negate_number :: "js_number \<Rightarrow> js_number" where
  "negate_number x = (case x of NaN \<Rightarrow> NaN | PosInf \<Rightarrow> NegInf | NegInf \<Rightarrow> PosInf | Fin n d \<Rightarrow> Fin (- n) d)"

definition js_Number :: "string \<Rightarrow> js_number" where
  "js_Number s =
     (let t = js_trim s in
      if t = [] then Fin 0 1
      else if hd t = CHR ''-'' then negate_number (unsigned_decimal (tl t))
      else if hd t = CHR ''+'' then unsigned_decimal (tl t)
      else case prefixed t of Some n \<Rightarrow> Fin (int n) 1 | None \<Rightarrow> unsigned_decimal t)"

text \<open>\<^verbatim>\<open>a > n\<close> for an integral \<open>a\<close>.\<close>

definition int_gt :: "int \<Rightarrow> js_number \<Rightarrow> bool" where
  "int_gt a x = (case x of NaN \<Rightarrow> False | PosInf \<Rightarrow> False | NegInf \<Rightarrow> True | Fin n d \<Rightarrow> n < a * int d)"

lemma int_gt_simps [simp]:
  "\<not> int_gt a NaN"
  "\<not> int_gt a PosInf"
  "int_gt a NegInf"
  "int_gt a (Fin m 1) \<longleftrightarrow> m < a"
  by (simp_all add: int_gt_def)

lemma unsigned_decimal_digits:
  assumes "list_all is_digit t" and "t \<noteq> []"
  shows "unsigned_decimal t = Fin (int (digits_val t)) 1"
proof -
  have "t \<noteq> ''Infinity''" using assms by (auto simp: is_digit_def code_def)
  moreover have tw: "takeWhile is_digit t = t" and dw: "dropWhile is_digit t = []"
    using assms by (simp_all add: list_all_iff)
  ultimately show ?thesis
    using assms(2) by (simp add: unsigned_decimal_def exponent_part_def Let_def tw dw)
qed

end
