(* ===== verification/KeeperDecision.thy ===== *)
theory KeeperDecision
  imports JsNumber
begin

text \<open>
  The post/skip/refuse decisions of \<^verbatim>\<open>contracts/scripts/keeper-lib.ts\<close>: the price-feed
  decision (XAU, UZS), the reserve decision, the two source-age verdicts, and the exit-code
  contract the keepers share.  The reason strings the source formats for the log are kept as
  structured values carrying the numbers the source interpolates.
\<close>

section \<open>Exit codes and decisions\<close>

definition EXIT_POSTED :: int where "EXIT_POSTED = 0"
definition EXIT_SKIPPED :: int where "EXIT_SKIPPED = 2"
definition EXIT_FAILED :: int where "EXIT_FAILED = 1"

lemmas exit_defs = EXIT_POSTED_def EXIT_SKIPPED_def EXIT_FAILED_def

record decide_input =
  di_current :: int
  di_currentUpdatedAt :: int
  di_next :: int
  di_now :: int
  di_minDelta :: int
  di_maxJumpBps :: int
  di_heartbeatAge :: int

datatype reason =
    FirstPost
  | HeartbeatDue int int int        \<comment> \<open>age, heartbeatAge, current\<close>
  | Unchanged int int int int int   \<comment> \<open>current, next, minDelta, age, heartbeatAge\<close>
  | WildDeviation int int int int   \<comment> \<open>jumpBps, maxJumpBps, current, next\<close>
  | WithinGuard int                 \<comment> \<open>jumpBps\<close>
  | Confirmed int int int           \<comment> \<open>jumpBps, current, next\<close>
  | NeedsConfirm int int int int    \<comment> \<open>jumpBps, maxJumpBps, current, next\<close>

datatype decision = Post reason | Skip reason | Refuse reason

section \<open>Price feeds\<close>

definition decidePost :: "decide_input \<Rightarrow> decision" where
  "decidePost i =
     (let current = di_current i; nxt = di_next i in
      if current > 0 then
        (let age = di_now i - di_currentUpdatedAt i;
             delta = (if nxt > current then nxt - current else current - nxt) in
         if delta \<le> di_minDelta i then
           (if age \<ge> di_heartbeatAge i then Post (HeartbeatDue age (di_heartbeatAge i) current)
            else Skip (Unchanged current nxt (di_minDelta i) age (di_heartbeatAge i)))
         else
           (let jumpBps = (delta * 10000) sdiv current in
            if jumpBps > di_maxJumpBps i
            then Refuse (WildDeviation jumpBps (di_maxJumpBps i) current nxt)
            else Post (WithinGuard jumpBps)))
      else Post FirstPost)"

section \<open>The reserve feed\<close>

record decide_reserve_input =
  dr_current :: int
  dr_currentUpdatedAt :: int
  dr_next :: int
  dr_now :: int
  dr_heartbeatAge :: int
  dr_maxJumpBps :: int
  dr_confirm :: "string option"

definition decideReservePost :: "decide_reserve_input \<Rightarrow> decision" where
  "decideReservePost i =
     (let current = dr_current i; nxt = dr_next i in
      if current = 0 then Post FirstPost
      else if nxt = current then
        (let age = dr_now i - dr_currentUpdatedAt i in
         if age \<ge> dr_heartbeatAge i then Post (HeartbeatDue age (dr_heartbeatAge i) current)
         else Skip (Unchanged current nxt 0 age (dr_heartbeatAge i)))
      else
        (let delta = (if nxt > current then nxt - current else current - nxt);
             jumpBps = (delta * 10000) sdiv current in
         if jumpBps > dr_maxJumpBps i then
           (if dr_confirm i = Some (show_int nxt) then Post (Confirmed jumpBps current nxt)
            else Refuse (NeedsConfirm jumpBps (dr_maxJumpBps i) current nxt))
         else Post (WithinGuard jumpBps)))"

section \<open>Source-age verdicts\<close>

datatype age_verdict = AgeOk | AgeWarn int | AgeRefuse int

definition checkSourceAge :: "int \<Rightarrow> int \<Rightarrow> int \<Rightarrow> age_verdict" where
  "checkSourceAge ageSeconds maxSourceAge warnAge =
     (if ageSeconds > maxSourceAge then AgeRefuse ageSeconds
      else if ageSeconds > warnAge then AgeWarn ageSeconds
      else AgeOk)"

definition checkCbuAge :: "int \<Rightarrow> js_number \<Rightarrow> js_number \<Rightarrow> age_verdict" where
  "checkCbuAge ageDays warnDays maxDays =
     (if ageDays < -1 then AgeRefuse ageDays
      else if int_gt ageDays maxDays then AgeRefuse ageDays
      else if int_gt ageDays warnDays then AgeWarn ageDays
      else AgeOk)"

section \<open>Basis-point arithmetic\<close>

text \<open>The truncated quotient the guard compares is a statement about the exact ratio.\<close>

lemma jump_exceeds_iff:
  fixes d c m :: int
  assumes "0 \<le> d" and "0 < c"
  shows "(d * 10000) sdiv c > m \<longleftrightarrow> (m + 1) * c \<le> d * 10000"
proof -
  have "(d * 10000) sdiv c = d * 10000 div c"
    using assms by (simp add: sdiv_pos_nonneg)
  moreover have "m < d * 10000 div c \<longleftrightarrow> m + 1 \<le> d * 10000 div c"
    by linarith
  ultimately show ?thesis
    using le_div_iff_mult_le [OF assms(2), of "m + 1" "d * 10000"] by simp
qed

lemma jump_within_iff:
  fixes d c m :: int
  assumes "0 \<le> d" and "0 < c"
  shows "\<not> (d * 10000) sdiv c > m \<longleftrightarrow> d * 10000 < (m + 1) * c"
  using jump_exceeds_iff [OF assms] by (simp add: not_le)

lemma delta_abs: "(if b > a then b - a else a - b) = \<bar>b - (a::int)\<bar>"
  by auto

lemmas decision_defs = decidePost_def decideReservePost_def Let_def delta_abs

section \<open>Properties of the decisions\<close>

text \<open>
  The price-feed decision is exactly the documented three-way guard.  Over a published
  positive answer it skips iff the move is within \<^verbatim>\<open>minDelta\<close> and the reading is younger than
  the heartbeat, refuses iff the move exceeds \<^verbatim>\<open>minDelta\<close> and reaches the next whole basis
  point above \<^verbatim>\<open>maxJumpBps\<close> (whatever the age: the guard beats the heartbeat), and posts in
  every other case.
\<close>

lemma decidePost_three_way:
  assumes "0 < di_current i"
  shows "((\<exists>r. decidePost i = Skip r) \<longleftrightarrow>
            \<bar>di_next i - di_current i\<bar> \<le> di_minDelta i
            \<and> di_now i - di_currentUpdatedAt i < di_heartbeatAge i)
       \<and> ((\<exists>r. decidePost i = Refuse r) \<longleftrightarrow>
            di_minDelta i < \<bar>di_next i - di_current i\<bar>
            \<and> (di_maxJumpBps i + 1) * di_current i \<le> \<bar>di_next i - di_current i\<bar> * 10000)
       \<and> ((\<exists>r. decidePost i = Post r) \<longleftrightarrow>
            (\<bar>di_next i - di_current i\<bar> \<le> di_minDelta i
             \<and> di_heartbeatAge i \<le> di_now i - di_currentUpdatedAt i)
            \<or> (di_minDelta i < \<bar>di_next i - di_current i\<bar>
             \<and> \<bar>di_next i - di_current i\<bar> * 10000 < (di_maxJumpBps i + 1) * di_current i))"
  using assms jump_exceeds_iff [OF abs_ge_zero assms]
  by (auto simp: decision_defs not_le not_less)

definition sample_input :: decide_input where
  "sample_input = \<lparr>di_current = 400000000000, di_currentUpdatedAt = 1000000,
     di_next = 800000000000, di_now = 1003600, di_minDelta = 0, di_maxJumpBps = 1000,
     di_heartbeatAge = 1800\<rparr>"

lemma decidePost_three_way_witness: "\<exists>r. decidePost sample_input = Refuse r"
  using decidePost_three_way [of sample_input] by (simp add: sample_input_def)

text \<open>
  A reserve figure that authorizes minting is never changed silently: when a positive
  reserve is on chain and the keeper decides to post, the figure is the same, or the change is
  below the next whole basis point above the guard, or the operator confirmed exactly the new
  figure through RESERVE_CONFIRM.  It refuses precisely on an unconfirmed change beyond the
  guard.
\<close>

lemma reserve_change_needs_confirm:
  assumes "0 < dr_current i"
  shows "((\<exists>r. decideReservePost i = Post r) \<longrightarrow>
            dr_next i = dr_current i
            \<or> \<bar>dr_next i - dr_current i\<bar> * 10000 < (dr_maxJumpBps i + 1) * dr_current i
            \<or> dr_confirm i = Some (show_int (dr_next i)))
       \<and> ((\<exists>r. decideReservePost i = Refuse r) \<longleftrightarrow>
            dr_next i \<noteq> dr_current i
            \<and> (dr_maxJumpBps i + 1) * dr_current i \<le> \<bar>dr_next i - dr_current i\<bar> * 10000
            \<and> dr_confirm i \<noteq> Some (show_int (dr_next i)))"
  using assms jump_exceeds_iff [OF abs_ge_zero assms]
  by (auto simp: decision_defs not_le not_less)

definition sample_reserve :: decide_reserve_input where
  "sample_reserve = \<lparr>dr_current = 5000, dr_currentUpdatedAt = 1000000, dr_next = 7500,
     dr_now = 1000100, dr_heartbeatAge = 1800, dr_maxJumpBps = 1000, dr_confirm = None\<rparr>"

text \<open>
  The reserve guard is inert over a negative on-chain figure: the truncated quotient is
  then non-positive, so with any non-negative bound every change, however large, is posted
  without confirmation.  (The Attestor accepts any \<^verbatim>\<open>int256\<close>; only a zero answer is treated as
  unset.)
\<close>

lemma reserve_guard_inert_below_zero:
  assumes "dr_current i < 0" and "0 \<le> dr_maxJumpBps i" and "dr_next i \<noteq> dr_current i"
  shows "\<exists>r. decideReservePost i = Post r"
  using assms sdiv_neg_divisor [of "\<bar>dr_next i - dr_current i\<bar> * 10000" "dr_current i"]
  by (auto simp: decision_defs)

lemma reserve_guard_inert_below_zero_witness:
  "\<exists>r. decideReservePost (sample_reserve\<lparr>dr_current := -1, dr_next := 1000000000\<rparr>) = Post r"
  using reserve_guard_inert_below_zero
      [of "sample_reserve\<lparr>dr_current := -1, dr_next := 1000000000\<rparr>"]
  by (simp add: sample_reserve_def)

end
