(* ===== verification/JsonValue.thy ===== *)
theory JsonValue
  imports OltinPrelude
begin

text \<open>
  JSON values as the programs receive them from \<^verbatim>\<open>Response.json()\<close> and \<^verbatim>\<open>JSON.parse\<close>, with
  the property access and the \<^verbatim>\<open>typeof\<close> / \<^verbatim>\<open>Array.isArray\<close> tests the shape checks perform.
\<close>

datatype json =
    JNull
  | JBool bool
  | JNum int
  | JStr string
  | JArr "json list"
  | JObj "(string \<times> json) list"

text \<open>\<^verbatim>\<open>typeof v === "object" && v !== null\<close> (an array is an object).\<close>

definition is_object :: "json \<Rightarrow> bool" where
  "is_object v = (case v of JObj _ \<Rightarrow> True | JArr _ \<Rightarrow> True | _ \<Rightarrow> False)"

text \<open>
  \<^verbatim>\<open>v[name]\<close> for the names the programs read; \<^term>\<open>None\<close> is \<^verbatim>\<open>undefined\<close>.  An array has none of
  those names.
\<close>

definition js_prop :: "json \<Rightarrow> string \<Rightarrow> json option" where
  "js_prop v k = (case v of JObj kvs \<Rightarrow> map_of kvs k | _ \<Rightarrow> None)"

definition as_string :: "json option \<Rightarrow> string option" where
  "as_string v = (case v of Some (JStr s) \<Rightarrow> Some s | _ \<Rightarrow> None)"

definition as_array :: "json option \<Rightarrow> json list option" where
  "as_array v = (case v of Some (JArr xs) \<Rightarrow> Some xs | _ \<Rightarrow> None)"

lemma as_string_Some [simp]: "as_string (Some (JStr s)) = Some s"
  by (simp add: as_string_def)

lemma as_string_eq_Some: "as_string v = Some s \<longleftrightarrow> v = Some (JStr s)"
  by (auto simp: as_string_def split: option.splits json.splits)

lemma as_array_eq_Some: "as_array v = Some xs \<longleftrightarrow> v = Some (JArr xs)"
  by (auto simp: as_array_def split: option.splits json.splits)

end
