(* ===== verification/KeeperParse.thy ===== *)
theory KeeperParse
  imports KeeperDecision JsonValue
begin

text \<open>
  The input side of \<^verbatim>\<open>contracts/scripts/keeper-lib.ts\<close>: the block clock, the decimal parser
  that never goes through floats, the CBU envelope and its calendar age, the inverse-rate
  conversion and the positive-integer env parser.  The calendar follows the ECMAScript
  definition of \<^verbatim>\<open>Date.UTC\<close> (MakeDay and the two-digit-year rule).
\<close>

section \<open>Errors\<close>

datatype keeper_error =
    NoLatestBlock
  | NotADecimal string
  | FractionTooLong nat string
  | BigIntSyntax string
  | RateNotPositive int
  | CbuNotArray
  | CbuEntryNotObject
  | CbuFieldsMissing
  | CbuBadDate string
  | EnvNotInteger string string
  | EnvNotPositive string string
  | PricesNotObject
  | EnvNotSet string
  | RpcFailure string
  | FetchFailure string

section \<open>The block clock\<close>

text \<open>
  \<^verbatim>\<open>provider.getBlock("latest")\<close> is the RPC node's answer: the call may reject, may return
  null, or returns a block whose timestamp is read.
\<close>

type_synonym block_reply = "(keeper_error, int option) result"

definition chainNowSeconds :: "block_reply \<Rightarrow> (keeper_error, int) result" where
  "chainNowSeconds blk =
     rbind blk (\<lambda>b. case b of None \<Rightarrow> Inl NoLatestBlock | Some ts \<Rightarrow> Inr ts)"

section \<open>Decimals without floats\<close>

text \<open>The match of \<^verbatim>\<open>/^(\d+)(?:\.(\d+))?$/\<close>: the integer digits and the optional fraction.\<close>

definition decimal_match :: "string \<Rightarrow> (string \<times> string option) option" where
  "decimal_match s =
     (let ip = takeWhile is_digit s; rest = dropWhile is_digit s in
      if ip = [] then None
      else case rest of
        [] \<Rightarrow> Some (ip, None)
      | c # f \<Rightarrow> if c = CHR ''.'' \<and> f \<noteq> [] \<and> list_all is_digit f then Some (ip, Some f) else None)"

definition parseDecimalToScaledInt :: "string \<Rightarrow> nat \<Rightarrow> (keeper_error, int) result" where
  "parseDecimalToScaledInt raw decimals =
     (case decimal_match (js_trim raw) of
        None \<Rightarrow> Inl (NotADecimal raw)
      | Some (intPart, frac) \<Rightarrow>
          (let fracPart = (case frac of None \<Rightarrow> [] | Some f \<Rightarrow> f) in
           if length fracPart > decimals then Inl (FractionTooLong decimals raw)
           else case js_BigInt (intPart @ pad_end_zeros decimals fracPart) of
             None \<Rightarrow> Inl (BigIntSyntax raw)
           | Some v \<Rightarrow> Inr v))"

section \<open>The CBU rate\<close>

record cbu_rate =
  rateRaw :: string
  dateRaw :: string

definition usdPerUzsFromRate :: "int \<Rightarrow> (keeper_error, int) result" where
  "usdPerUzsFromRate rateE8 =
     (if rateE8 \<le> 0 then Inl (RateNotPositive rateE8)
      else Inr ((10000000000000000 + rateE8 sdiv 2) sdiv rateE8))"

definition parseCbuResponse :: "json \<Rightarrow> (keeper_error, cbu_rate) result" where
  "parseCbuResponse j =
     (case j of
        JArr (first # _) \<Rightarrow>
          (if \<not> is_object first then Inl CbuEntryNotObject
           else case (as_string (js_prop first ''Rate''), as_string (js_prop first ''Date'')) of
             (Some r, Some d) \<Rightarrow> Inr \<lparr>rateRaw = r, dateRaw = d\<rparr>
           | _ \<Rightarrow> Inl CbuFieldsMissing)
      | _ \<Rightarrow> Inl CbuNotArray)"

section \<open>Calendar days\<close>

definition js_leap :: "int \<Rightarrow> bool" where
  "js_leap y \<longleftrightarrow> y mod 4 = 0 \<and> (y mod 100 \<noteq> 0 \<or> y mod 400 = 0)"

definition day_from_year :: "int \<Rightarrow> int" where
  "day_from_year y =
     365 * (y - 1970) + (y - 1969) div 4 - (y - 1901) div 100 + (y - 1601) div 400"

definition month_start :: "bool \<Rightarrow> nat \<Rightarrow> int" where
  "month_start leap mn =
     [0, 31, 59, 90, 120, 151, 181, 212, 243, 273, 304, 334] ! mn
     + (if leap \<and> 2 \<le> mn then 1 else 0)"

text \<open>MakeDay: months outside 0..11 carry into the year, any day number is added.\<close>

definition make_day :: "int \<Rightarrow> int \<Rightarrow> int \<Rightarrow> int" where
  "make_day y m d =
     (let ym = y + m div 12; mn = nat (m mod 12) in
      day_from_year ym + month_start (js_leap ym) mn + d - 1)"

definition utc_day :: "int \<Rightarrow> int \<Rightarrow> int \<Rightarrow> int" where
  "utc_day y m d = make_day (if 0 \<le> y \<and> y \<le> 99 then 1900 + y else y) m d"

text \<open>The match of \<^verbatim>\<open>/^(\d{2})\.(\d{2})\.(\d{4})$/\<close>.\<close>

definition date_match :: "string \<Rightarrow> (nat \<times> nat \<times> nat) option" where
  "date_match s =
     (case s of
        [d1, d2, p1, m1, m2, p2, y1, y2, y3, y4] \<Rightarrow>
          (if p1 = CHR ''.'' \<and> p2 = CHR ''.'' \<and> list_all is_digit [d1, d2, m1, m2, y1, y2, y3, y4]
           then Some (digits_val [d1, d2], digits_val [m1, m2], digits_val [y1, y2, y3, y4])
           else None)
      | _ \<Rightarrow> None)"

text \<open>
  \<^verbatim>\<open>now\<close> is given by its UTC year, month (from 0) and day.  Both sides are whole days, so the
  quotient of the millisecond difference is the difference of the day numbers.
\<close>

definition cbuRateAgeDays :: "string \<Rightarrow> int \<times> int \<times> int \<Rightarrow> (keeper_error, int) result" where
  "cbuRateAgeDays dr nowYMD =
     (case date_match (js_trim dr) of
        None \<Rightarrow> Inl (CbuBadDate dr)
      | Some (day, month, year) \<Rightarrow>
          (case nowYMD of (ny, nm, nd) \<Rightarrow>
             Inr ((utc_day ny nm nd * 86400000
                   - utc_day (int year) (int month - 1) (int day) * 86400000) div 86400000)))"

section \<open>Positive integers from the environment\<close>

definition parsePositiveInt :: "string \<Rightarrow> string \<Rightarrow> (keeper_error, int) result" where
  "parsePositiveInt raw name =
     (let trimmed = js_trim raw in
      if trimmed = [] \<or> \<not> list_all is_digit trimmed then Inl (EnvNotInteger name raw)
      else case js_BigInt trimmed of
        None \<Rightarrow> Inl (BigIntSyntax raw)
      | Some v \<Rightarrow> if v \<le> 0 then Inl (EnvNotPositive name trimmed) else Inr v)"

section \<open>The decimal parser\<close>

lemma takeWhile_dropWhile_split:
  assumes "list_all P xs" and "ys = [] \<or> \<not> P (hd ys)"
  shows "takeWhile P (xs @ ys) = xs" and "dropWhile P (xs @ ys) = ys"
proof -
  have "takeWhile P ys = [] \<and> dropWhile P ys = ys"
    using assms(2) by (cases ys) auto
  then show "takeWhile P (xs @ ys) = xs" and "dropWhile P (xs @ ys) = ys"
    using assms(1) by (auto simp: list_all_iff takeWhile_append dropWhile_append)
qed

lemma dot_not_digit [simp]: "\<not> is_digit CHR ''.''"
  by (simp add: is_digit_def code_def)

lemma list_all_takeWhile: "list_all P (takeWhile P xs)"
  by (auto simp: list_all_iff dest: set_takeWhileD)

lemma decimal_match_iff:
  "decimal_match s = Some (ip, fr) \<longleftrightarrow>
     ip \<noteq> [] \<and> list_all is_digit ip
     \<and> (case fr of None \<Rightarrow> s = ip
         | Some f \<Rightarrow> f \<noteq> [] \<and> list_all is_digit f \<and> s = ip @ CHR ''.'' # f)"
  (is "?L \<longleftrightarrow> ?R")
proof
  assume L: ?L
  have split: "s = takeWhile is_digit s @ dropWhile is_digit s" by simp
  show ?R
  proof (cases "dropWhile is_digit s")
    case Nil
    with L split show ?thesis
      by (auto simp: decimal_match_def Let_def list_all_iff split: if_splits)
  next
    case (Cons c f)
    with L have "ip = takeWhile is_digit s" "ip \<noteq> []" "c = CHR ''.''" "f \<noteq> []"
      "list_all is_digit f" "fr = Some f"
      by (auto simp: decimal_match_def Let_def split: if_splits)
    with Cons split show ?thesis by (auto simp: list_all_takeWhile)
  qed
next
  assume R: ?R
  show ?L
  proof (cases fr)
    case None
    with R show ?thesis
      using takeWhile_dropWhile_split [of is_digit ip "[]"]
      by (simp add: decimal_match_def del: takeWhile_eq_all_conv dropWhile_eq_Nil_conv)
  next
    case (Some f)
    with R show ?thesis
      using takeWhile_dropWhile_split [of is_digit ip "CHR ''.'' # f"]
      by (simp add: decimal_match_def)
  qed
qed

lemma pad_end_zeros_val:
  assumes "length f \<le> d"
  shows "digits_val (ip @ pad_end_zeros d f)
       = digits_val ip * 10 ^ d + digits_val f * 10 ^ (d - length f)"
  using assms
  by (simp add: pad_end_zeros_def digits_val_append add.commute)

lemma zero_is_digit [simp]: "is_digit CHR ''0''"
  by (simp add: is_digit_def code_def)

lemma pad_end_zeros_digits: "list_all is_digit f \<Longrightarrow> list_all is_digit (pad_end_zeros d f)"
  by (auto simp: pad_end_zeros_def list_all_iff)

definition fraction_of :: "string option \<Rightarrow> string" where
  "fraction_of fr = (case fr of None \<Rightarrow> [] | Some f \<Rightarrow> f)"

lemma parseDecimal_of_match:
  assumes "decimal_match (js_trim raw) = Some (ip, fr)" and "length (fraction_of fr) \<le> d"
  shows "parseDecimalToScaledInt raw d
       = Inr (int (digits_val ip * 10 ^ d + digits_val (fraction_of fr) * 10 ^ (d - length (fraction_of fr))))"
proof -
  have "list_all is_digit ip" and "list_all is_digit (fraction_of fr)"
    using assms(1) by (auto simp: decimal_match_iff fraction_of_def split: option.splits)
  then have "list_all is_digit (ip @ pad_end_zeros d (fraction_of fr))"
    by (simp add: pad_end_zeros_digits)
  then show ?thesis
    using assms pad_end_zeros_val [OF assms(2), of ip]
    by (simp add: parseDecimalToScaledInt_def Let_def fraction_of_def [symmetric])
qed

lemma scaled_split:
  fixes a f :: nat
  assumes "l \<le> d"
  shows "(a * 10 ^ d + f * 10 ^ (d - l)) * 10 ^ l = (a * 10 ^ l + f) * 10 ^ d"
proof -
  have "(10::nat) ^ d = 10 ^ (d - l) * 10 ^ l"
    using assms by (simp flip: power_add)
  then show ?thesis by (simp add: algebra_simps)
qed

text \<open>
  The decimal parser accepts exactly the non-negative decimals of at most \<^verbatim>\<open>decimals\<close>
  fraction digits, surrounded by optional white space, and returns their exact value scaled by
  a power of ten; everything else is one of the two thrown errors, so no digit is ever dropped
  and no SyntaxError of BigInt can surface.
\<close>

lemma parseDecimal_exact:
  "(parseDecimalToScaledInt raw d = Inr v \<longleftrightarrow>
      (\<exists>ip fr. decimal_match (js_trim raw) = Some (ip, fr) \<and> length (fraction_of fr) \<le> d
         \<and> v * 10 ^ length (fraction_of fr)
           = int (digits_val (ip @ fraction_of fr)) * 10 ^ d))
   \<and> (parseDecimalToScaledInt raw d = Inl e \<longleftrightarrow>
        (decimal_match (js_trim raw) = None \<and> e = NotADecimal raw)
        \<or> (\<exists>ip fr. decimal_match (js_trim raw) = Some (ip, fr) \<and> d < length (fraction_of fr)
            \<and> e = FractionTooLong d raw))"
proof (cases "decimal_match (js_trim raw)")
  case None
  then show ?thesis by (auto simp: parseDecimalToScaledInt_def)
next
  case (Some m)
  then obtain ip fr where m: "decimal_match (js_trim raw) = Some (ip, fr)" by (cases m) auto
  show ?thesis
  proof (cases "length (fraction_of fr) \<le> d")
    case False
    with m show ?thesis
      by (auto simp: parseDecimalToScaledInt_def Let_def fraction_of_def [symmetric])
  next
    case True
    define L where "L = length (fraction_of fr)"
    define w where "w = int (digits_val ip * 10 ^ d + digits_val (fraction_of fr) * 10 ^ (d - L))"
    have "(digits_val ip * 10 ^ d + digits_val (fraction_of fr) * 10 ^ (d - L)) * 10 ^ L
        = digits_val (ip @ fraction_of fr) * 10 ^ d"
      using scaled_split [of L d] True by (simp add: digits_val_append L_def)
    then have "w * 10 ^ L = int (digits_val (ip @ fraction_of fr)) * 10 ^ d"
      unfolding w_def by (metis of_nat_mult of_nat_numeral of_nat_power)
    moreover have "parseDecimalToScaledInt raw d = Inr w"
      using parseDecimal_of_match [OF m True] by (simp add: w_def L_def)
    moreover have "v * 10 ^ L = w * 10 ^ L \<longleftrightarrow> v = w" by simp
    ultimately show ?thesis using m True
      by (auto simp del: mult_cancel_right mult_cancel_right1 mult_cancel_right2 simp: L_def [symmetric])
  qed
qed

text \<open>The canonical printing of a scaled amount: integer part, dot, \<open>d\<close> fraction digits.\<close>

definition show_scaled :: "nat \<Rightarrow> nat \<Rightarrow> string" where
  "show_scaled d n =
     (let f = show_nat (n mod 10 ^ d) in
      show_nat (n div 10 ^ d) @ CHR ''.'' # replicate (d - length f) CHR ''0'' @ f)"

lemma digits_val_leading_zeros: "digits_val (replicate k CHR ''0'' @ s) = digits_val s"
  by (simp add: digits_val_append)

lemma length_show_nat_le: "0 < d \<Longrightarrow> n < 10 ^ d \<Longrightarrow> length (show_nat n) \<le> d"
proof (induction n arbitrary: d rule: show_nat_induct)
  case (step n)
  show ?case
  proof (cases "n < 10")
    case True
    with step.prems show ?thesis by (simp add: show_nat.simps [of n])
  next
    case False
    obtain e where d: "d = Suc e" using step.prems(1) by (cases d) auto
    with step.prems(2) False have "0 < e" by (cases e) auto
    have "n div 10 < 10 ^ e"
      using step.prems(2) d by (simp add: less_mult_imp_div_less mult.commute)
    with step.IH [of e] False \<open>0 < e\<close> d show ?thesis by (simp add: show_nat.simps [of n])
  qed
qed

text \<open>
  Round trip of the money parser: printing any amount with \<open>d\<close> fraction digits and parsing
  it back at \<open>d\<close> decimals returns the same integer, for every precision.
\<close>

lemma parseDecimal_show_scaled:
  assumes "0 < d"
  shows "parseDecimalToScaledInt (show_scaled d n) d = Inr (int n)"
proof -
  define f where "f = show_nat (n mod 10 ^ d)"
  define z where "z = replicate (d - length f) CHR ''0'' @ f"
  have len: "length z = d"
    using length_show_nat_le [OF assms, of "n mod 10 ^ d"] by (simp add: z_def f_def)
  have dig: "list_all is_digit z"
    by (auto simp: z_def f_def list_all_iff dest: set_show_nat)
  have "z \<noteq> []" using len assms by auto
  have shown: "show_scaled d n = show_nat (n div 10 ^ d) @ CHR ''.'' # z"
    by (simp add: show_scaled_def z_def f_def Let_def)
  have "list_all (\<lambda>c. \<not> js_space c) (show_scaled d n)"
    unfolding shown using dig
    by (auto simp: list_all_iff js_space_def code_def is_digit_def dest!: set_show_nat)
  then have trim: "js_trim (show_scaled d n) = show_scaled d n"
    by (rule js_trim_no_space)
  have "decimal_match (js_trim (show_scaled d n)) = Some (show_nat (n div 10 ^ d), Some z)"
    unfolding trim decimal_match_iff using dig \<open>z \<noteq> []\<close> by (simp add: shown)
  then have "parseDecimalToScaledInt (show_scaled d n) d
      = Inr (int (n div 10 ^ d * 10 ^ d + digits_val z))"
    using parseDecimal_of_match [of "show_scaled d n" "show_nat (n div 10 ^ d)" "Some z" d] len
    by (simp add: fraction_of_def)
  moreover have "digits_val z = n mod 10 ^ d"
    by (simp add: z_def f_def digits_val_leading_zeros)
  ultimately show ?thesis by (simp only: div_mult_mod_eq)
qed

section \<open>The inverse rate\<close>

text \<open>
  The nearest representable inverse: for every positive rate the conversion succeeds and its
  error, measured in units of the rate, is at most one half.
\<close>

lemma usdPerUzs_nearest:
  assumes "0 < rate"
  shows "\<exists>v. usdPerUzsFromRate rate = Inr v \<and> 0 \<le> v
       \<and> 2 * \<bar>v * rate - 10000000000000000\<bar> \<le> rate"
proof -
  define v where "v = (10000000000000000 + rate div 2) div rate"
  have half: "2 * (rate div 2) \<le> rate" "rate - 1 \<le> 2 * (rate div 2)" by presburger+
  have "v * rate \<le> 10000000000000000 + rate div 2"
    using le_div_iff_mult_le [OF assms, of v "10000000000000000 + rate div 2"] by (simp add: v_def)
  moreover have "10000000000000000 + rate div 2 < (v + 1) * rate"
    using div_less_iff_less_mult [OF assms, of "10000000000000000 + rate div 2" "v + 1"]
    by (simp add: v_def)
  ultimately have "2 * \<bar>v * rate - 10000000000000000\<bar> \<le> rate"
    using half by (simp add: algebra_simps abs_if)
  moreover have "0 \<le> v" using assms by (simp add: v_def pos_imp_zdiv_nonneg_iff)
  moreover have "usdPerUzsFromRate rate = Inr v"
    using assms by (simp add: usdPerUzsFromRate_def v_def sdiv_pos_nonneg)
  ultimately show ?thesis by blast
qed

section \<open>The calendar\<close>

text \<open>The proleptic Gregorian calendar, one day at a time; months count from 1.\<close>

definition month_len :: "int \<Rightarrow> nat \<Rightarrow> int" where
  "month_len y m =
     (if m = 2 then (if js_leap y then 29 else 28)
      else if m \<in> {4, 6, 9, 11} then 30 else 31)"

fun next_date :: "int \<times> nat \<times> int \<Rightarrow> int \<times> nat \<times> int" where
  "next_date (y, m, d) =
     (if d < month_len y m then (y, m, d + 1)
      else if m < 12 then (y, m + 1, 1) else (y + 1, 1, 1))"

fun valid_date :: "int \<times> nat \<times> int \<Rightarrow> bool" where
  "valid_date (y, m, d) \<longleftrightarrow> 100 \<le> y \<and> 1 \<le> m \<and> m \<le> 12 \<and> 1 \<le> d \<and> d \<le> month_len y m"

fun day_number :: "int \<times> nat \<times> int \<Rightarrow> int" where
  "day_number (y, m, d) = utc_day y (int m - 1) d"

lemma div_step:
  fixes a n :: int
  assumes "0 < n"
  shows "(a + 1) div n = a div n + (if (a + 1) mod n = 0 then 1 else 0)"
proof (cases "(a + 1) mod n = 0")
  case True
  then obtain k where k: "a + 1 = n * k" by auto
  then have "a = n * (k - 1) + (n - 1)" by (simp add: algebra_simps)
  then have "a div n = k - 1" by (rule int_div_pos_eq) (use assms in simp_all)
  with True k assms show ?thesis by simp
next
  case False
  define q r where "q = a div n" and "r = a mod n"
  have a: "a = n * q + r" and r: "0 \<le> r" "r < n"
    using assms by (simp_all add: q_def r_def)
  have "r + 1 < n"
  proof (rule ccontr)
    assume "\<not> r + 1 < n"
    with r have "r + 1 = n" by simp
    with a have "a + 1 = n * (q + 1)" by (simp add: algebra_simps)
    with False show False by simp
  qed
  have "a + 1 = n * q + (r + 1)" using a by simp
  then have "(a + 1) div n = q" by (rule int_div_pos_eq) (use r \<open>r + 1 < n\<close> in simp_all)
  with False show ?thesis by (simp add: q_def)
qed

lemma leap_indicator:
  "(if y mod 4 = 0 then 1 else 0) - (if y mod 100 = 0 then 1 else 0)
   + (if y mod 400 = 0 then 1 else 0) = (if js_leap y then 1 else (0::int))"
proof -
  have "400 dvd y \<Longrightarrow> 100 dvd y" "100 dvd y \<Longrightarrow> 4 dvd y"
    using dvd_trans [of 100 400 y] dvd_trans [of 4 100 y] by simp_all
  then show ?thesis
    unfolding js_leap_def mod_eq_0_iff_dvd
    by (cases "4 dvd y"; cases "100 dvd y"; cases "400 dvd y") simp_all
qed

lemma day_from_year_step:
  "day_from_year (y + 1) = day_from_year y + (if js_leap y then 366 else 365)"
proof -
  define p q r where "p = (y - 1969) div 4" and "q = (y - 1901) div 100" and "r = (y - 1601) div 400"
  have "(y - 1968) div 4 = p + (if y mod 4 = 0 then 1 else 0)"
    using div_step [of 4 "y - 1969"] mod_mult_self2 [of y 4 "- 492"] by (simp add: p_def)
  moreover have "(y - 1900) div 100 = q + (if y mod 100 = 0 then 1 else 0)"
    using div_step [of 100 "y - 1901"] mod_mult_self2 [of y 100 "- 19"] by (simp add: q_def)
  moreover have "(y - 1600) div 400 = r + (if y mod 400 = 0 then 1 else 0)"
    using div_step [of 400 "y - 1601"] mod_mult_self2 [of y 400 "- 4"] by (simp add: r_def)
  moreover have "day_from_year (y + 1)
      = 365 * (y - 1970) + 365 + (y - 1968) div 4 - (y - 1900) div 100 + (y - 1600) div 400"
    by (simp add: day_from_year_def)
  ultimately have "day_from_year (y + 1) = 365 * (y - 1970) + p - q + r + 365
      + ((if y mod 4 = 0 then 1 else 0) - (if y mod 100 = 0 then 1 else 0)
         + (if y mod 400 = 0 then 1 else 0))"
    by (simp only: add_diff_eq diff_add_eq add.assoc add.commute add.left_commute
        diff_diff_add [symmetric])
  then show ?thesis
    unfolding leap_indicator by (simp add: day_from_year_def p_def q_def r_def)
qed

lemma month_start_step:
  assumes "1 \<le> m" and "m < 12"
  shows "month_start (js_leap y) m = month_start (js_leap y) (m - 1) + month_len y m"
proof -
  have "m = 1 \<or> m = 2 \<or> m = 3 \<or> m = 4 \<or> m = 5 \<or> m = 6 \<or> m = 7 \<or> m = 8 \<or> m = 9 \<or> m = 10 \<or> m = 11"
    using assms by presburger
  then show ?thesis
    by (elim disjE) (simp_all add: month_start_def month_len_def)
qed

lemma day_number_eq:
  assumes "valid_date (y, m, d)"
  shows "day_number (y, m, d) = day_from_year y + month_start (js_leap y) (m - 1) + d - 1"
proof -
  have "(int m - 1) div 12 = 0" and "nat ((int m - 1) mod 12) = m - 1"
    using assms by (simp_all add: div_pos_pos_trivial mod_pos_pos_trivial nat_diff_distrib)
  then show ?thesis using assms by (simp add: utc_day_def make_day_def Let_def)
qed

lemma month_len_pos: "1 \<le> month_len y m"
  by (simp add: month_len_def)

lemma valid_next_date: "valid_date dt \<Longrightarrow> valid_date (next_date dt)"
  by (cases dt) (auto simp: month_len_pos)

lemma day_number_next:
  assumes "valid_date dt"
  shows "day_number (next_date dt) = day_number dt + 1"
proof -
  obtain y m d where dt: "dt = (y, m, d)" by (cases dt) auto
  note v = assms [unfolded dt]
  have vn: "valid_date (next_date (y, m, d))" by (rule valid_next_date [OF v])
  consider "d < month_len y m" | "d = month_len y m" "m < 12" | "d = month_len y m" "m = 12"
    using v by fastforce
  then have "day_number (next_date (y, m, d)) = day_number (y, m, d) + 1"
  proof cases
    case 1
    then have "next_date (y, m, d) = (y, m, d + 1)" by simp
    with vn v show ?thesis by (simp only: day_number_eq)
  next
    case 2
    then have "next_date (y, m, d) = (y, m + 1, 1)" by simp
    with vn v 2 show ?thesis
      using month_start_step [of m y] by (simp only: day_number_eq) simp
  next
    case 3
    then have "next_date (y, m, d) = (y + 1, 1, 1)" by simp
    with vn v 3 show ?thesis
      using day_from_year_step [of y]
      by (simp only: day_number_eq) (simp add: month_start_def month_len_def)
  qed
  with dt show ?thesis by simp
qed

lemma day_number_iterate:
  assumes "valid_date dt"
  shows "valid_date ((next_date ^^ k) dt) \<and> day_number ((next_date ^^ k) dt) = day_number dt + int k"
  using assms by (induction k) (auto simp: valid_next_date day_number_next simp del: day_number.simps)

text \<open>The CBU writes a date as \<^verbatim>\<open>DD.MM.YYYY\<close>.\<close>

definition two_digits :: "nat \<Rightarrow> string" where
  "two_digits n = [digit_char (n div 10), digit_char (n mod 10)]"

fun show_date :: "int \<times> nat \<times> int \<Rightarrow> string" where
  "show_date (y, m, d) =
     two_digits (nat d) @ CHR ''.'' # two_digits m @ CHR ''.''
     # two_digits (nat y div 100) @ two_digits (nat y mod 100)"

lemma two_digits_val: "n < 100 \<Longrightarrow> digits_val [digit_char (n div 10), digit_char (n mod 10)] = n"
  by (simp add: digits_val_def)

lemma two_digits_digits: "n < 100 \<Longrightarrow> list_all is_digit (two_digits n)"
  by (simp add: two_digits_def)

lemma date_match_digits:
  assumes "a < 100" "b < 100" "c < 100" "e < 100"
  shows "date_match (two_digits a @ CHR ''.'' # two_digits b @ CHR ''.'' # two_digits c @ two_digits e)
       = Some (a, b, 100 * c + e)"
proof -
  have "digits_val [digit_char (c div 10), digit_char (c mod 10), digit_char (e div 10), digit_char (e mod 10)]
      = 100 * c + e"
    using digits_val_append [of "two_digits c" "two_digits e"] two_digits_val assms(3,4)
    by (simp add: two_digits_def)
  moreover have "list_all is_digit (two_digits a @ two_digits b @ two_digits c @ two_digits e)"
    using assms by (simp add: two_digits_digits)
  ultimately show ?thesis
    using two_digits_val assms(1,2) by (simp add: date_match_def two_digits_def)
qed

lemma day_le_31: "valid_date (y, m, d) \<Longrightarrow> d \<le> 31"
  by (auto simp: month_len_def split: if_splits)

lemma date_match_show:
  assumes "valid_date (y, m, d)" and "y \<le> 9999"
  shows "date_match (show_date (y, m, d)) = Some (nat d, m, nat y)"
proof -
  have "nat d < 100" "m < 100" "nat y div 100 < 100" "nat y mod 100 < 100"
    using day_le_31 [OF assms(1)] assms by auto
  then have "date_match (show_date (y, m, d)) = Some (nat d, m, 100 * (nat y div 100) + nat y mod 100)"
    unfolding show_date.simps by (rule date_match_digits)
  then show ?thesis by simp
qed

lemma show_date_no_space:
  assumes "valid_date (y, m, d)" and "y \<le> 9999"
  shows "js_trim (show_date (y, m, d)) = show_date (y, m, d)"
proof (rule js_trim_no_space)
  have "nat d < 100" "m < 100" "nat y div 100 < 100" "nat y mod 100 < 100"
    using day_le_31 [OF assms(1)] assms by auto
  then have "list_all is_digit (two_digits (nat d) @ two_digits m
      @ two_digits (nat y div 100) @ two_digits (nat y mod 100))"
    by (simp only: list_all_append two_digits_digits)
  then show "list_all (\<lambda>c. \<not> js_space c) (show_date (y, m, d))"
    unfolding show_date.simps list_all_append list.pred_inject
    by (auto simp: list_all_iff is_digit_not_space) (simp add: js_space_def code_def)
qed

lemma mult_diff_div: "n \<noteq> 0 \<Longrightarrow> (a * n - b * n) div n = a - (b::int)"
  by (simp flip: left_diff_distrib)

lemmas day_difference = mult_diff_div [of 86400000, OF zero_neq_numeral [symmetric]]

fun utc_of :: "int \<times> nat \<times> int \<Rightarrow> int \<times> int \<times> int" where
  "utc_of (y, m, d) = (y, int m - 1, d)"

lemma cbuRateAgeDays_show:
  assumes "valid_date dt" and "fst dt \<le> 9999"
  shows "cbuRateAgeDays (show_date dt) (utc_of now) = Inr (day_number now - day_number dt)"
proof -
  obtain y m d where dt: "dt = (y, m, d)" by (cases dt) auto
  obtain ny nm nd where now: "now = (ny, nm, nd)" by (cases now) auto
  have "0 \<le> y" "0 \<le> d" using assms(1) dt by auto
  moreover have "date_match (js_trim (show_date dt)) = Some (nat d, m, nat y)"
    using assms date_match_show [of y m d] show_date_no_space [of y m d]
    by (simp only: dt fst_conv)
  ultimately show ?thesis
    unfolding cbuRateAgeDays_def by (simp only: option.case prod.case dt now utc_of.simps
        day_difference day_number.simps int_nat_eq if_True)
qed

text \<open>
  The rate age is the true calendar distance: for a rate effective on any date and a clock
  \<open>k\<close> days later the age is \<open>k\<close>, and for a clock \<open>k\<close> days earlier it is \<open>- k\<close>, across month
  ends, leap days and century years.  With \<^verbatim>\<open>checkCbuAge\<close> this gives the documented policy: a
  rate published one day in advance is never refused for its date, one two days ahead always is.
\<close>

lemma cbu_age_is_calendar_distance:
  assumes "valid_date dt" and "fst dt \<le> 9999" and "fst ((next_date ^^ k) dt) \<le> 9999"
  shows "cbuRateAgeDays (show_date dt) (utc_of ((next_date ^^ k) dt)) = Inr (int k)
       \<and> cbuRateAgeDays (show_date ((next_date ^^ k) dt)) (utc_of dt) = Inr (- int k)"
proof -
  note it = day_number_iterate [OF assms(1), of k]
  have "day_number ((next_date ^^ k) dt) - day_number dt = int k"
    "day_number dt - day_number ((next_date ^^ k) dt) = - int k"
    using it by simp_all
  with cbuRateAgeDays_show [OF assms(1,2)] cbuRateAgeDays_show [of "(next_date ^^ k) dt" dt] it assms(3)
  show ?thesis by metis
qed

lemma cbu_age_is_calendar_distance_witness:
  "cbuRateAgeDays (show_date (2028, 2, 28)) (utc_of ((next_date ^^ 2) (2028, 2, 28))) = Inr 2
   \<and> cbuRateAgeDays (show_date ((next_date ^^ 2) (2028, 2, 28))) (utc_of (2028, 2, 28)) = Inr (- 2)"
proof -
  have v: "valid_date (2028, 2, 28)" "fst (2028::int, 2::nat, 28::int) \<le> 9999"
    and n: "fst ((next_date ^^ 2) (2028, 2, 28)) \<le> 9999"
    by (simp_all add: month_len_def js_leap_def numeral_2_eq_2)
  show ?thesis using cbu_age_is_calendar_distance [OF v n] by (simp only: of_nat_numeral)
qed

end
