(* ===== verification/GoldPrice.thy ===== *)
theory GoldPrice
  imports KeeperParse
begin

text \<open>
  The 24/7 gold price of \<^verbatim>\<open>contracts/scripts/keeper-lib.ts\<close>: the shape check of the prices
  API envelope and the median of the tokenized-gold quotes with the Chainlink liveness
  detector.  \<^verbatim>\<open>Date.parse\<close> is implementation-defined outside the ISO format, so it is an
  argument of the decision: \<^term>\<open>None\<close> stands for NaN, \<^term>\<open>Some ms\<close> for milliseconds.
\<close>

section \<open>Quotes\<close>

record token_usd_price =
  symbol :: string
  valueRaw :: string
  lastUpdatedAt :: string

definition quote_of :: "string \<Rightarrow> json \<Rightarrow> token_usd_price list" where
  "quote_of sm p =
     (if \<not> is_object p then []
      else case (as_string (js_prop p ''currency''), as_string (js_prop p ''value''),
                 as_string (js_prop p ''lastUpdatedAt'')) of
        (Some cur, Some v, Some at) \<Rightarrow>
          (if js_lower cur = ''usd'' then [\<lparr>symbol = sm, valueRaw = v, lastUpdatedAt = at\<rparr>] else [])
      | _ \<Rightarrow> [])"

definition entry_quotes :: "json \<Rightarrow> token_usd_price list" where
  "entry_quotes e =
     (if \<not> is_object e then []
      else case (as_string (js_prop e ''symbol''), as_array (js_prop e ''prices'')) of
        (Some sm, Some ps) \<Rightarrow> concat (map (quote_of sm) ps)
      | _ \<Rightarrow> [])"

definition parsePricesBySymbolResponse :: "json \<Rightarrow> (keeper_error, token_usd_price list) result" where
  "parsePricesBySymbolResponse j =
     (if \<not> is_object j then Inl PricesNotObject
      else case as_array (js_prop j ''data'') of
        None \<Rightarrow> Inl PricesNotObject
      | Some entries \<Rightarrow> Inr (concat (map entry_quotes entries)))"

section \<open>The decision\<close>

record gold_price_input =
  gp_prices :: "token_usd_price list"
  gp_nowSeconds :: "int option"
  gp_maxTokenPriceAge :: int
  gp_minSaneUsd :: int
  gp_maxSaneUsd :: int
  gp_chainlinkAgeSeconds :: "int option"
  gp_chainlinkFreshAge :: int

datatype gold_reason = NoSharedClock | WeAreBroken int | InfraOutage

datatype gold_note = SingleSource string int | MedianOf "string list" int

datatype gold_decision = GoldPost int gold_note | GoldRefuse gold_reason

text \<open>The body of the validation loop: the accepted value of one quote, if any.\<close>

definition valid_value ::
  "(string \<Rightarrow> int option) \<Rightarrow> gold_price_input \<Rightarrow> int \<Rightarrow> token_usd_price \<Rightarrow> int option" where
  "valid_value dateParse i now p =
     (case parseDecimalToScaledInt (valueRaw p) 8 of
        Inl _ \<Rightarrow> None
      | Inr v \<Rightarrow>
          (if v < gp_minSaneUsd i \<or> v > gp_maxSaneUsd i then None
           else case dateParse (lastUpdatedAt p) of
             None \<Rightarrow> None
           | Some ts \<Rightarrow> (let age = now - ts div 1000 in
                        if age > gp_maxTokenPriceAge i then None else Some v)))"

definition valid_quotes ::
  "(string \<Rightarrow> int option) \<Rightarrow> gold_price_input \<Rightarrow> int \<Rightarrow> (string \<times> int) list" where
  "valid_quotes dateParse i now =
     List.map_filter (\<lambda>p. map_option (Pair (symbol p)) (valid_value dateParse i now p)) (gp_prices i)"

definition median :: "int list \<Rightarrow> int" where
  "median vs =
     (let values = sort vs; mid = length values div 2 in
      if length values mod 2 = 1 then values ! mid
      else (values ! (mid - 1) + values ! mid) sdiv 2)"

definition decideGoldPrice :: "(string \<Rightarrow> int option) \<Rightarrow> gold_price_input \<Rightarrow> gold_decision" where
  "decideGoldPrice dateParse i =
     (case gp_nowSeconds i of
        None \<Rightarrow> GoldRefuse NoSharedClock
      | Some now \<Rightarrow>
          (case valid_quotes dateParse i now of
             [] \<Rightarrow> (case gp_chainlinkAgeSeconds i of
                     Some a \<Rightarrow> if a \<le> gp_chainlinkFreshAge i then GoldRefuse (WeAreBroken a)
                               else GoldRefuse InfraOutage
                   | None \<Rightarrow> GoldRefuse InfraOutage)
           | [(s, v)] \<Rightarrow> GoldPost (median [v]) (SingleSource s v)
           | vqs \<Rightarrow> GoldPost (median (map snd vqs)) (MedianOf (map fst vqs) (median (map snd vqs)))))"

section \<open>The median\<close>

text \<open>
  The order statistic: where more than half of the values lie in an interval, so does the
  median, whatever the others are.
\<close>

lemma median_majority:
  assumes le: "lo \<le> hi" and nonneg: "0 \<le> lo"
    and maj: "length vs < 2 * length (filter (\<lambda>v. lo \<le> v \<and> v \<le> hi) vs)"
  shows "lo \<le> median vs \<and> median vs \<le> hi"
proof -
  define n where "n = length vs"
  define s where "s = sort vs"
  define b where "b = length (filter (\<lambda>v. v < lo) vs)"
  define a where "a = length (filter (\<lambda>v. hi < v) vs)"
  have part: "b + length (filter (\<lambda>v. lo \<le> v \<and> v \<le> hi) vs) + a = n"
    unfolding a_def b_def n_def by (rule length_filter_partition3 [OF le])
  have few: "2 * b + 2 * a < n" using part maj by (simp add: n_def)
  have len: "length s = n" and srt: "sorted s" by (simp_all add: s_def n_def)
  have in_range: "lo \<le> s ! k \<and> s ! k \<le> hi" if "k < n" "b \<le> k" "a < n - k" for k
  proof
    show "lo \<le> s ! k"
      using that srt len by (intro sorted_nth_ge) (simp_all add: b_def s_def)
    show "s ! k \<le> hi"
      using that srt len by (intro sorted_nth_le) (simp_all add: a_def s_def)
  qed
  show ?thesis
  proof (cases "n mod 2 = 1")
    case True
    then have "lo \<le> s ! (n div 2) \<and> s ! (n div 2) \<le> hi"
      using few by (intro in_range) linarith+
    with True show ?thesis by (simp add: median_def s_def [symmetric] len Let_def)
  next
    case False
    then obtain m where m: "n = 2 * m" by (metis even_iff_mod_2_eq_zero evenE not_mod_2_eq_1_eq_0)
    have "lo \<le> s ! (n div 2 - 1) \<and> s ! (n div 2 - 1) \<le> hi"
      using few by (intro in_range) (simp_all add: m)
    moreover have "lo \<le> s ! (n div 2) \<and> s ! (n div 2) \<le> hi"
      using few by (intro in_range) (simp_all add: m)
    moreover from calculation nonneg have "0 \<le> s ! (n div 2 - 1) + s ! (n div 2)" by linarith
    ultimately show ?thesis
      using False floor_avg_between [of lo "s ! (n div 2 - 1)" hi "s ! (n div 2)"]
      by (simp add: median_def s_def [symmetric] len Let_def sdiv_pos_nonneg)
  qed
qed

lemma median_perm:
  assumes "mset vs = mset ws"
  shows "median vs = median ws"
proof -
  have "sort vs = sort ws"
    by (rule properties_for_sort) (simp_all add: assms)
  moreover have "length vs = length ws" using assms by (rule mset_eq_length)
  ultimately show ?thesis by (simp add: median_def)
qed

section \<open>Valid quotes\<close>

lemma parseDecimal_nonneg:
  assumes "parseDecimalToScaledInt s d = Inr v"
  shows "0 \<le> v"
proof -
  from assms obtain ip fr where m: "decimal_match (js_trim s) = Some (ip, fr)"
    and l: "length (fraction_of fr) \<le> d"
    by (fastforce simp: parseDecimalToScaledInt_def Let_def fraction_of_def
        split: option.splits if_splits)
  from parseDecimal_of_match [OF m l] assms show ?thesis by auto
qed

lemma valid_value_Some:
  "valid_value dateParse i now p = Some v \<longleftrightarrow>
     parseDecimalToScaledInt (valueRaw p) 8 = Inr v
     \<and> gp_minSaneUsd i \<le> v \<and> v \<le> gp_maxSaneUsd i
     \<and> (\<exists>ts. dateParse (lastUpdatedAt p) = Some ts \<and> now - ts div 1000 \<le> gp_maxTokenPriceAge i)"
  by (auto simp: valid_value_def Let_def split: sum.splits option.splits if_splits)

lemma snd_valid_quotes:
  "map snd (valid_quotes dateParse i now) = List.map_filter (valid_value dateParse i now) (gp_prices i)"
proof -
  have "map snd (List.map_filter (\<lambda>p. map_option (Pair (symbol p)) (valid_value dateParse i now p)) ps)
      = List.map_filter (valid_value dateParse i now) ps" for ps
    by (induction ps) (auto simp: List.map_filter_simps split: option.splits)
  then show ?thesis by (simp add: valid_quotes_def)
qed

lemma set_map_filter_iff: "x \<in> set (List.map_filter f xs) \<longleftrightarrow> (\<exists>y \<in> set xs. f y = Some x)"
  by (force simp: List.map_filter_def)

lemma valid_quotes_range:
  "v \<in> set (map snd (valid_quotes dateParse i now)) \<Longrightarrow>
     0 \<le> v \<and> gp_minSaneUsd i \<le> v \<and> v \<le> gp_maxSaneUsd i"
  unfolding snd_valid_quotes set_map_filter_iff
  by (auto simp: valid_value_Some dest: parseDecimal_nonneg)

lemma valid_quotes_empty:
  "valid_quotes dateParse i now = [] \<longleftrightarrow>
     (\<forall>p \<in> set (gp_prices i). valid_value dateParse i now p = None)"
  by (force simp: valid_quotes_def List.map_filter_def filter_empty_conv)

text \<open>The decision, with the three shapes of the quote list merged.\<close>

lemma decideGoldPrice_post:
  assumes "gp_nowSeconds i = Some now" and "valid_quotes dateParse i now \<noteq> []"
  shows "\<exists>nt. decideGoldPrice dateParse i =
           GoldPost (median (map snd (valid_quotes dateParse i now))) nt"
  using assms by (auto simp: decideGoldPrice_def split: list.splits)

lemma decideGoldPrice_refuse:
  "valid_quotes dateParse i now = [] \<Longrightarrow> gp_nowSeconds i = Some now \<Longrightarrow>
   decideGoldPrice dateParse i =
     GoldRefuse (case gp_chainlinkAgeSeconds i of
       Some a \<Rightarrow> if a \<le> gp_chainlinkFreshAge i then WeAreBroken a else InfraOutage
     | None \<Rightarrow> InfraOutage)"
  by (simp add: decideGoldPrice_def split: option.splits)

lemma median_valid_quotes_majority:
  assumes "length vs < 2 * length (filter (\<lambda>v. lo \<le> v \<and> v \<le> hi) vs)" and "\<forall>v \<in> set vs. 0 \<le> v"
  shows "lo \<le> median vs \<and> median vs \<le> hi"
proof -
  have same: "filter (\<lambda>v. max lo 0 \<le> v \<and> v \<le> hi) vs = filter (\<lambda>v. lo \<le> v \<and> v \<le> hi) vs"
    by (rule filter_cong) (use assms(2) in auto)
  from assms(1) have "filter (\<lambda>v. lo \<le> v \<and> v \<le> hi) vs \<noteq> []" by auto
  then obtain v where "v \<in> set vs" "lo \<le> v" "v \<le> hi" by (auto simp: filter_empty_conv)
  with assms(2) have "max lo 0 \<le> hi" by auto
  then show ?thesis
    using median_majority [of "max lo 0" hi vs] assms(1) same by simp
qed

lemma GoldPost_median:
  assumes "decideGoldPrice dateParse i = GoldPost price nt"
  obtains now where "gp_nowSeconds i = Some now" and "valid_quotes dateParse i now \<noteq> []"
    and "price = median (map snd (valid_quotes dateParse i now))"
proof -
  obtain now where now: "gp_nowSeconds i = Some now"
    using assms by (cases "gp_nowSeconds i") (auto simp: decideGoldPrice_def)
  moreover have "valid_quotes dateParse i now \<noteq> []"
    using assms decideGoldPrice_refuse [of dateParse i now] now by auto
  ultimately show thesis
    using that decideGoldPrice_post [of i now dateParse] assms by auto
qed

lemma GoldPost_sane:
  assumes "decideGoldPrice dateParse i = GoldPost price nt"
  shows "gp_minSaneUsd i \<le> price \<and> price \<le> gp_maxSaneUsd i"
  using assms
proof (rule GoldPost_median)
  fix now
  let ?vs = "map snd (valid_quotes dateParse i now)"
  assume "valid_quotes dateParse i now \<noteq> []" and p: "price = median ?vs"
  moreover have "filter (\<lambda>v. gp_minSaneUsd i \<le> v \<and> v \<le> gp_maxSaneUsd i) ?vs = ?vs"
    by (rule filter_True) (use valid_quotes_range in blast)
  ultimately show ?thesis
    using valid_quotes_range [of _ dateParse i now] unfolding p
    by (intro median_valid_quotes_majority) auto
qed

section \<open>Properties\<close>

text \<open>
  C25.  The posted gold price is robust against a minority of bad sources: when more than half
  of the valid quotes lie in an interval, the decision is to post and the posted price lies in
  that interval, whatever the remaining sources report.
\<close>

theorem gold_price_majority:
  assumes "gp_nowSeconds i = Some now"
    and "length (valid_quotes dateParse i now)
       < 2 * length (filter (\<lambda>q. lo \<le> snd q \<and> snd q \<le> hi) (valid_quotes dateParse i now))"
  shows "\<exists>price nt. decideGoldPrice dateParse i = GoldPost price nt \<and> lo \<le> price \<and> price \<le> hi"
proof -
  define vs where "vs = map snd (valid_quotes dateParse i now)"
  have "length vs < 2 * length (filter (\<lambda>v. lo \<le> v \<and> v \<le> hi) vs)"
    using assms(2) by (simp add: vs_def filter_map comp_def)
  moreover have "\<forall>v \<in> set vs. 0 \<le> v"
    unfolding vs_def using valid_quotes_range by blast
  ultimately have "lo \<le> median vs \<and> median vs \<le> hi"
    by (rule median_valid_quotes_majority)
  moreover have "valid_quotes dateParse i now \<noteq> []" using assms(2) by auto
  then obtain nt where "decideGoldPrice dateParse i = GoldPost (median vs) nt"
    using decideGoldPrice_post [OF assms(1)] by (auto simp: vs_def)
  ultimately show ?thesis by blast
qed

definition sample_gold :: gold_price_input where
  "sample_gold = \<lparr>gp_prices =
       [\<lparr>symbol = ''XAUT'', valueRaw = ''4037.4'', lastUpdatedAt = ''a''\<rparr>,
        \<lparr>symbol = ''PAXG'', valueRaw = ''4041'', lastUpdatedAt = ''a''\<rparr>,
        \<lparr>symbol = ''KAU'', valueRaw = ''19000'', lastUpdatedAt = ''a''\<rparr>],
     gp_nowSeconds = Some 1000, gp_maxTokenPriceAge = 900, gp_minSaneUsd = 100000000000,
     gp_maxSaneUsd = 2000000000000, gp_chainlinkAgeSeconds = None, gp_chainlinkFreshAge = 3600\<rparr>"

definition sample_clock :: "string \<Rightarrow> int option" where
  "sample_clock s = (if s = ''a'' then Some 990500 else None)"

lemma sample_gold_quotes:
  "valid_quotes sample_clock sample_gold 1000 =
     [(''XAUT'', 403740000000), (''PAXG'', 404100000000), (''KAU'', 1900000000000)]"
proof -
  have "parseDecimalToScaledInt ''4037.4'' 8 = Inr 403740000000"
    "parseDecimalToScaledInt ''4041'' 8 = Inr 404100000000"
    "parseDecimalToScaledInt ''19000'' 8 = Inr 1900000000000"
    by (simp_all add: parseDecimalToScaledInt_def decimal_match_def js_simps)
  then show ?thesis
    by (simp add: valid_quotes_def valid_value_def sample_gold_def sample_clock_def List.map_filter_simps)
qed

lemma sample_gold_now: "gp_nowSeconds sample_gold = Some 1000"
  by (simp add: sample_gold_def)

lemma sample_gold_post:
  "\<exists>nt. decideGoldPrice sample_clock sample_gold = GoldPost 404100000000 nt"
  using decideGoldPrice_post [OF sample_gold_now, of sample_clock]
  by (simp add: sample_gold_quotes median_def)

theorem gold_price_majority_witness:
  "\<exists>price nt. decideGoldPrice sample_clock sample_gold = GoldPost price nt
     \<and> 403740000000 \<le> price \<and> price \<le> 404100000000"
  using gold_price_majority [of sample_gold 1000 sample_clock 403740000000 404100000000]
  by (simp add: sample_gold_quotes sample_gold_now)

text \<open>
  A posted price is never out of the sane range and always rests on a quote that parses,
  is sane and is fresh on the shared clock; the decision refuses exactly when the clock is
  unreadable or no quote is valid, and then names our own breakage iff Chainlink is fresh.
\<close>

lemma gold_decision_sound:
  "(\<forall>price nt. decideGoldPrice dateParse i = GoldPost price nt \<longrightarrow>
      gp_minSaneUsd i \<le> price \<and> price \<le> gp_maxSaneUsd i
      \<and> (\<exists>now p ts v. gp_nowSeconds i = Some now \<and> p \<in> set (gp_prices i)
           \<and> parseDecimalToScaledInt (valueRaw p) 8 = Inr v
           \<and> gp_minSaneUsd i \<le> v \<and> v \<le> gp_maxSaneUsd i
           \<and> dateParse (lastUpdatedAt p) = Some ts \<and> now - ts div 1000 \<le> gp_maxTokenPriceAge i))
   \<and> (decideGoldPrice dateParse i = GoldRefuse NoSharedClock \<longleftrightarrow> gp_nowSeconds i = None)
   \<and> (\<forall>a. decideGoldPrice dateParse i = GoldRefuse (WeAreBroken a) \<longleftrightarrow>
        (\<exists>now. gp_nowSeconds i = Some now \<and> valid_quotes dateParse i now = [])
        \<and> gp_chainlinkAgeSeconds i = Some a \<and> a \<le> gp_chainlinkFreshAge i)"
proof (cases "gp_nowSeconds i")
  case None
  then show ?thesis by (simp add: decideGoldPrice_def)
next
  case (Some now)
  let ?vs = "map snd (valid_quotes dateParse i now)"
  show ?thesis
  proof (cases "valid_quotes dateParse i now = []")
    case True
    with Some show ?thesis by (auto simp: decideGoldPrice_refuse split: option.splits)
  next
    case False
    then obtain nt where d: "decideGoldPrice dateParse i = GoldPost (median ?vs) nt"
      using decideGoldPrice_post [OF Some] by blast
    moreover from False obtain p v where "p \<in> set (gp_prices i)" "valid_value dateParse i now p = Some v"
      by (auto simp: valid_quotes_empty)
    ultimately show ?thesis
      using Some False GoldPost_sane [OF d] unfolding valid_value_Some by auto
  qed
qed

lemma gold_decision_sound_witness:
  "gp_minSaneUsd sample_gold \<le> 404100000000 \<and> (404100000000::int) \<le> gp_maxSaneUsd sample_gold"
  using gold_decision_sound [of sample_clock sample_gold] sample_gold_post by blast

text \<open>
  The posted price does not depend on the order in which the API lists the quotes.
\<close>

lemma gold_price_order_independent:
  assumes "mset (gp_prices i) = mset ps" and "decideGoldPrice dateParse i = GoldPost price nt"
  shows "\<exists>nt'. decideGoldPrice dateParse (i\<lparr>gp_prices := ps\<rparr>) = GoldPost price nt'"
proof -
  from assms(2) obtain now where now: "gp_nowSeconds i = Some now"
    and ne: "valid_quotes dateParse i now \<noteq> []"
    and price: "price = median (map snd (valid_quotes dateParse i now))"
    by (rule GoldPost_median)
  let ?j = "i\<lparr>gp_prices := ps\<rparr>"
  have vv: "valid_value dateParse ?j now = valid_value dateParse i now"
    by (rule ext) (simp add: valid_value_def cong: if_cong option.case_cong sum.case_cong)
  have "mset (map snd (valid_quotes dateParse i now)) = mset (map snd (valid_quotes dateParse ?j now))"
    unfolding snd_valid_quotes vv using assms(1)
    by (simp add: List.map_filter_def)
  moreover from this ne have "valid_quotes dateParse ?j now \<noteq> []" by auto
  ultimately show ?thesis
    using decideGoldPrice_post [of ?j now dateParse] now price median_perm by fastforce
qed

end
