(* ===== verification/Attestor.thy ===== *)
theory Attestor
  imports OltinPrelude
begin

text \<open>
  The push oracle \<^verbatim>\<open>contracts/contracts/Attestor.sol\<close>, the on-chain state every keeper writes and
  every consumer reads through \<^verbatim>\<open>AggregatorV3Interface\<close>.  Solidity integers are \<^typ>\<open>int\<close> with the
  checked-arithmetic reverts written out; role membership is the list of grants of OpenZeppelin's
  AccessControl.  The interface is the locale \<^verbatim>\<open>aggregator\<close>.
\<close>

type_synonym address = string

datatype evm_error =
    MissingRole address string
  | BadConfirmationOfRole
  | ArithmeticOverflow

record round_data =
  rd_roundId :: int
  rd_answer :: int
  rd_startedAt :: int
  rd_updatedAt :: int
  rd_answeredInRound :: int

section \<open>The interface\<close>

locale aggregator =
  fixes post :: "address \<Rightarrow> int \<Rightarrow> int \<Rightarrow> 's \<Rightarrow> (evm_error, 's) result"
    and latest :: "'s \<Rightarrow> round_data"
    and decs :: "'s \<Rightarrow> int"
  assumes post_answer: "post who ts a s = Inr s' \<Longrightarrow> rd_answer (latest s') = a"
    and post_stamp: "post who ts a s = Inr s' \<Longrightarrow> rd_updatedAt (latest s') = ts"
    and post_round: "post who ts a s = Inr s' \<Longrightarrow> rd_roundId (latest s') = rd_roundId (latest s) + 1"
    and post_decs: "post who ts a s = Inr s' \<Longrightarrow> decs s' = decs s"
begin

text \<open>A history of successful posts, each (poster, block time, answer).\<close>

fun posts :: "(address \<times> int \<times> int) list \<Rightarrow> 's \<Rightarrow> (evm_error, 's) result" where
  "posts [] s = Inr s"
| "posts ((who, ts, a) # ps) s = rbind (post who ts a s) (posts ps)"

lemma posts_round:
  "posts ps s = Inr s' \<Longrightarrow> rd_roundId (latest s') = rd_roundId (latest s) + int (length ps)"
proof (induction ps arbitrary: s)
  case Nil
  then show ?case by simp
next
  case (Cons p ps)
  obtain who ts a where [simp]: "p = (who, ts, a)" by (cases p)
  from Cons.prems obtain t where "post who ts a s = Inr t" "posts ps t = Inr s'"
    by (auto simp: rbind_Inr_iff)
  with Cons.IH post_round show ?case by fastforce
qed

lemma posts_decs: "posts ps s = Inr s' \<Longrightarrow> decs s' = decs s"
proof (induction ps arbitrary: s)
  case Nil
  then show ?case by simp
next
  case (Cons p ps)
  then show ?case by (cases p) (auto simp: rbind_Inr_iff dest: post_decs)
qed

lemma posts_last:
  assumes "posts (ps @ [(who, ts, a)]) s = Inr s'"
  shows "rd_answer (latest s') = a \<and> rd_updatedAt (latest s') = ts"
  using assms
proof (induction ps arbitrary: s)
  case Nil
  then show ?case by (auto simp: rbind_Inr_iff dest: post_answer post_stamp)
next
  case (Cons p ps)
  then show ?case by (cases p) (auto simp: rbind_Inr_iff)
qed

end

section \<open>The contract\<close>

record attestor =
  att_roles :: "(string \<times> address) list"
  att_decimals :: int
  att_answer :: int
  att_updatedAt :: int
  att_roundId :: int

definition DEFAULT_ADMIN_ROLE :: string where "DEFAULT_ADMIN_ROLE = ''DEFAULT_ADMIN_ROLE''"
definition POSTER_ROLE :: string where "POSTER_ROLE = ''POSTER_ROLE''"

definition attestor_constructor :: "address \<Rightarrow> int \<Rightarrow> attestor" where
  "attestor_constructor sender dec =
     \<lparr>att_roles = [(DEFAULT_ADMIN_ROLE, sender), (POSTER_ROLE, sender)],
      att_decimals = dec, att_answer = 0, att_updatedAt = 0, att_roundId = 0\<rparr>"

definition postAnswer :: "address \<Rightarrow> int \<Rightarrow> int \<Rightarrow> attestor \<Rightarrow> (evm_error, attestor) result" where
  "postAnswer sender timestamp answer s =
     (if (POSTER_ROLE, sender) \<notin> set (att_roles s) then Inl (MissingRole sender POSTER_ROLE)
      else if att_roundId s + 1 \<ge> 2 ^ 80 then Inl ArithmeticOverflow
      else Inr (s\<lparr>att_roundId := att_roundId s + 1, att_answer := answer,
                  att_updatedAt := timestamp\<rparr>))"

definition latestRoundData :: "attestor \<Rightarrow> round_data" where
  "latestRoundData s =
     \<lparr>rd_roundId = att_roundId s, rd_answer = att_answer s, rd_startedAt = att_updatedAt s,
      rd_updatedAt = att_updatedAt s, rd_answeredInRound = att_roundId s\<rparr>"

text \<open>AccessControl on a feed; no admin role is set, so the admin of every role is the default one.\<close>

definition att_grantRole :: "address \<Rightarrow> string \<Rightarrow> address \<Rightarrow> attestor \<Rightarrow> (evm_error, attestor) result" where
  "att_grantRole sender role who f =
     (if (DEFAULT_ADMIN_ROLE, sender) \<notin> set (att_roles f) then Inl (MissingRole sender DEFAULT_ADMIN_ROLE)
      else Inr (if (role, who) \<in> set (att_roles f) then f else f\<lparr>att_roles := (role, who) # att_roles f\<rparr>))"

definition att_revokeRole :: "address \<Rightarrow> string \<Rightarrow> address \<Rightarrow> attestor \<Rightarrow> (evm_error, attestor) result" where
  "att_revokeRole sender role who f =
     (if (DEFAULT_ADMIN_ROLE, sender) \<notin> set (att_roles f) then Inl (MissingRole sender DEFAULT_ADMIN_ROLE)
      else Inr (f\<lparr>att_roles := filter (\<lambda>r. r \<noteq> (role, who)) (att_roles f)\<rparr>))"

definition att_renounceRole :: "address \<Rightarrow> string \<Rightarrow> address \<Rightarrow> attestor \<Rightarrow> (evm_error, attestor) result" where
  "att_renounceRole sender role callerConfirmation f =
     (if callerConfirmation \<noteq> sender then Inl BadConfirmationOfRole
      else Inr (f\<lparr>att_roles := filter (\<lambda>r. r \<noteq> (role, callerConfirmation)) (att_roles f)\<rparr>))"

datatype att_call =
    AttPost int
  | AttGrant string address
  | AttRevoke string address
  | AttRenounce string address

fun att_exec :: "int \<Rightarrow> att_call \<Rightarrow> address \<Rightarrow> attestor \<Rightarrow> (evm_error, attestor) result" where
  "att_exec ts (AttPost a) who f = postAnswer who ts a f"
| "att_exec ts (AttGrant role x) who f = att_grantRole who role x f"
| "att_exec ts (AttRevoke role x) who f = att_revokeRole who role x f"
| "att_exec ts (AttRenounce role x) who f = att_renounceRole who role x f"

text \<open>
  The feeds a deployment can get to, with the readings posted so far, newest first, and the time of
  the last block: anyone calls anything, and a call that reverts leaves no trace.
\<close>

inductive att_reach :: "address \<Rightarrow> int \<Rightarrow> attestor \<Rightarrow> (address \<times> int \<times> int) list \<Rightarrow> int \<Rightarrow> bool" for deployer dec where
  att_deployed: "0 \<le> ts \<Longrightarrow> att_reach deployer dec (attestor_constructor deployer dec) [] ts"
| att_posted: "att_reach deployer dec f L t \<Longrightarrow> t \<le> ts \<Longrightarrow> att_exec ts (AttPost a) who f = Inr f'
    \<Longrightarrow> att_reach deployer dec f' ((who, ts, a) # L) ts"
| att_administered: "att_reach deployer dec f L t \<Longrightarrow> t \<le> ts \<Longrightarrow> \<forall>a. c \<noteq> AttPost a \<Longrightarrow> att_exec ts c who f = Inr f'
    \<Longrightarrow> att_reach deployer dec f' L ts"

lemma postAnswer_Inr_iff:
  "postAnswer who ts a s = Inr s' \<longleftrightarrow>
     (POSTER_ROLE, who) \<in> set (att_roles s) \<and> att_roundId s + 1 < 2 ^ 80
     \<and> s' = s\<lparr>att_roundId := att_roundId s + 1, att_answer := a, att_updatedAt := ts\<rparr>"
  by (auto simp: postAnswer_def)

interpretation att: aggregator postAnswer latestRoundData att_decimals
  by unfold_locales (auto simp: postAnswer_Inr_iff latestRoundData_def)

text \<open>
  After any sequence of accepted posts the feed reports the last answer, stamped with the
  block time of its own transaction and not with anything the poster supplied, the round id has
  advanced by exactly the number of posts, and the precision is unchanged.
\<close>

lemma attestor_reports_last_post:
  assumes "att.posts (ps @ [(who, ts, a)]) s = Inr s'"
  shows "latestRoundData s' =
           \<lparr>rd_roundId = att_roundId s + int (length ps) + 1, rd_answer = a, rd_startedAt = ts,
            rd_updatedAt = ts, rd_answeredInRound = att_roundId s + int (length ps) + 1\<rparr>
       \<and> att_decimals s' = att_decimals s"
  using att.posts_round [OF assms] att.posts_last [OF assms] att.posts_decs [OF assms]
  by (simp add: latestRoundData_def)

lemma attestor_reports_last_post_witness:
  "\<exists>s'. att.posts ([] @ [(''poster'', 1700000000, 500)]) (attestor_constructor ''poster'' 8) = Inr s'
     \<and> rd_updatedAt (latestRoundData s') = 1700000000"
proof -
  obtain s' where s': "att.posts ([] @ [(''poster'', 1700000000, 500)]) (attestor_constructor ''poster'' 8) = Inr s'"
    by (simp add: postAnswer_def attestor_constructor_def)
  with attestor_reports_last_post [OF s'] show ?thesis by auto
qed

section \<open>Any calls by anyone\<close>

lemma att_role_call:
  assumes "att_exec ts c who f = Inr f'" and "\<forall>a. c \<noteq> AttPost a"
  shows "latestRoundData f' = latestRoundData f \<and> att_decimals f' = att_decimals f
    \<and> (\<forall>role x. (role, x) \<in> set (att_roles f') \<longrightarrow> (role, x) \<in> set (att_roles f)
         \<or> c = AttGrant role x \<and> (DEFAULT_ADMIN_ROLE, who) \<in> set (att_roles f))"
  using assms
  by (cases c) (auto simp: att_grantRole_def att_revokeRole_def att_renounceRole_def latestRoundData_def split: if_splits)

lemma att_reach_history:
  assumes "att_reach deployer dec f L t"
  shows "att_decimals f = dec \<and> att_roundId f = int (length L) \<and> length L < 2 ^ 80
    \<and> (case L of [] \<Rightarrow> att_answer f = 0 \<and> att_updatedAt f = 0
        | (who, ts, a) # _ \<Rightarrow> att_answer f = a \<and> att_updatedAt f = ts)
    \<and> 0 \<le> t \<and> (\<forall>(who, ts, a) \<in> set L. 0 \<le> ts \<and> ts \<le> t) \<and> sorted (rev (map (\<lambda>(who, ts, a). ts) L))"
  using assms
proof induction
  case (att_deployed ts)
  then show ?case by (simp add: attestor_constructor_def)
next
  case (att_posted f L t ts a who f')
  have p: "att_roundId f + 1 < 2 ^ 80" "f' = f\<lparr>att_roundId := att_roundId f + 1, att_answer := a, att_updatedAt := ts\<rparr>"
    using att_posted.hyps(3) by (simp_all add: postAnswer_def split: if_splits)
  moreover have "\<forall>x \<in> set L. (\<lambda>(who, ts, a). ts) x \<le> ts" using att_posted.IH att_posted.hyps(2) by fastforce
  ultimately show ?case using att_posted.IH att_posted.hyps(2) by (auto simp: sorted_append)
next
  case (att_administered f L t ts c who f')
  note r = att_role_call [OF att_administered.hyps(4,3)]
  then have "att_roundId f' = att_roundId f" "att_answer f' = att_answer f" "att_updatedAt f' = att_updatedAt f" "att_decimals f' = att_decimals f"
    by (simp_all add: latestRoundData_def)
  with att_administered.IH att_administered.hyps(2) show ?case by (auto split: list.splits)
qed

text \<open>
  C38. A feed is always its last post.  After any calls by anyone, the precision is the deployed one,
  the round id counts the accepted posts and fits its 80 bits, the answer and the stamp are those of
  the last accepted post, which is never from the future, and zero before the first; the posts are
  in the order of their times.  Only a holder of the poster role changes the reading, and only an
  administrator's grant gives anyone a role.
\<close>

theorem feed_is_its_last_post:
  assumes "att_reach deployer dec f L now_ts"
  shows "att_decimals f = dec \<and> att_roundId f = int (length L) \<and> length L < 2 ^ 80
    \<and> (case L of [] \<Rightarrow> att_answer f = 0 \<and> att_updatedAt f = 0
        | (who, ts, a) # _ \<Rightarrow> att_answer f = a \<and> att_updatedAt f = ts)
    \<and> 0 \<le> att_updatedAt f \<and> att_updatedAt f \<le> now_ts
    \<and> sorted (rev (map (\<lambda>(who, ts, a). ts) L))
    \<and> (\<forall>ts c who f'. att_exec ts c who f = Inr f' \<longrightarrow>
         (latestRoundData f' \<noteq> latestRoundData f \<longrightarrow> (\<exists>a. c = AttPost a) \<and> (POSTER_ROLE, who) \<in> set (att_roles f) \<and> att_updatedAt f' = ts)
         \<and> (\<forall>role x. (role, x) \<in> set (att_roles f') \<and> (role, x) \<notin> set (att_roles f) \<longrightarrow>
              c = AttGrant role x \<and> (DEFAULT_ADMIN_ROLE, who) \<in> set (att_roles f)))"
  (is "?I f L now_ts \<and> _")
proof (intro conjI allI impI)
  note h = att_reach_history [OF assms]
  from h show "att_decimals f = dec" "att_roundId f = int (length L)" "length L < 2 ^ 80"
    "case L of [] \<Rightarrow> att_answer f = 0 \<and> att_updatedAt f = 0 | (who, ts, a) # _ \<Rightarrow> att_answer f = a \<and> att_updatedAt f = ts"
    "sorted (rev (map (\<lambda>(who, ts, a). ts) L))" by blast+
  from h show "0 \<le> att_updatedAt f" "att_updatedAt f \<le> now_ts" by (auto split: list.splits)
next
  fix ts c who f' assume e: "att_exec ts c who f = Inr f'"
  have post: "(POSTER_ROLE, who) \<in> set (att_roles f) \<and> att_updatedAt f' = ts \<and> att_roles f' = att_roles f" if "c = AttPost a" for a
    using e that by (auto simp: postAnswer_Inr_iff)
  {
    assume "latestRoundData f' \<noteq> latestRoundData f"
    then show p: "\<exists>a. c = AttPost a" using att_role_call [OF e] by blast
    with post show "(POSTER_ROLE, who) \<in> set (att_roles f)" "att_updatedAt f' = ts" by blast+
  next
    fix role x assume new: "(role, x) \<in> set (att_roles f') \<and> (role, x) \<notin> set (att_roles f)"
    then have "\<forall>a. c \<noteq> AttPost a" using post by auto
    with att_role_call [OF e this] new show "c = AttGrant role x" "(DEFAULT_ADMIN_ROLE, who) \<in> set (att_roles f)" by blast+
  }
qed

theorem feed_is_its_last_post_witness:
  "\<exists>f. att_reach ''admin'' 8 f [(''keeper'', 1700000060, 400)] 1700000060 \<and> att_answer f = 400 \<and> att_roundId f = 1"
proof -
  let ?f1 = "(attestor_constructor ''admin'' 8)\<lparr>att_roles := (POSTER_ROLE, ''keeper'') # att_roles (attestor_constructor ''admin'' 8)\<rparr>"
  have g: "att_exec 1700000000 (AttGrant POSTER_ROLE ''keeper'') ''admin'' (attestor_constructor ''admin'' 8) = Inr ?f1"
    by (simp add: att_grantRole_def attestor_constructor_def)
  have p: "att_exec 1700000060 (AttPost 400) ''keeper'' ?f1 = Inr (?f1\<lparr>att_roundId := 1, att_answer := 400, att_updatedAt := 1700000060\<rparr>)"
    by (simp add: postAnswer_def attestor_constructor_def)
  have r0: "att_reach ''admin'' 8 (attestor_constructor ''admin'' 8) [] 1699999999" by (rule att_deployed) simp
  have r1: "att_reach ''admin'' 8 ?f1 [] 1700000000" by (rule att_administered [OF r0 _ _ g]) simp_all
  have r2: "att_reach ''admin'' 8 (?f1\<lparr>att_roundId := 1, att_answer := 400, att_updatedAt := 1700000060\<rparr>) [(''keeper'', 1700000060, 400)] 1700000060"
    by (rule att_posted [OF r1 _ p]) simp
  from r2 feed_is_its_last_post [OF r2] show ?thesis by auto
qed

end
