(* ===== verification/Keepers.thy ===== *)
theory Keepers
  imports GoldPrice Attestor
begin

text \<open>
  The three keeper processes (\<^verbatim>\<open>contracts/scripts/keeper-xau.ts\<close>, \<^verbatim>\<open>keeper-uzs.ts\<close>,
  \<^verbatim>\<open>keeper-reserve.ts\<close>) and the sequential runner \<^verbatim>\<open>keeper-all.ts\<close>.  A run is a function of
  everything outside the process (\<^verbatim>\<open>process.env\<close>, the HTTP replies, the RPC nodes, the wallet
  library, the wall clock), gathered in a record, and of the feed contract it posts to; it
  returns the exit code or the thrown error together with the feed afterwards.  The feed is
  written by this keeper alone while it runs.
\<close>

section \<open>The outside world\<close>

datatype fetch_reply =
    FetchRejects
  | HttpError int
  | HttpOkNoJson
  | HttpOk json

text \<open>
  What becomes of a submitted transaction: the node rejects it, the receipt wait rejects (the
  transaction may still have been mined), or it is mined in a block with the given timestamp.
\<close>

datatype post_outcome =
    SendRejected keeper_error
  | WaitRejected keeper_error "int option"
  | Mined int

type_synonym env = "string \<Rightarrow> string option"

record keeper_world =
  kw_env :: env
  kw_wallet :: "string \<Rightarrow> address option"   \<comment> \<open>address of a private key, if it is one\<close>
  kw_fetch :: "string \<Rightarrow> fetch_reply"
  kw_today :: "int \<times> int \<times> int"              \<comment> \<open>UTC date of \<^verbatim>\<open>new Date()\<close>\<close>
  kw_dateParse :: "string \<Rightarrow> int option"
  kw_l1Block :: block_reply
  kw_chainlink :: "(keeper_error, int) result" \<comment> \<open>updatedAt of the mainnet aggregator\<close>
  kw_decimalsErr :: "keeper_error option"
  kw_roundErr :: "keeper_error option"
  kw_l2Block :: block_reply
  kw_post :: post_outcome

section \<open>Environment\<close>

definition requireEnv :: "env \<Rightarrow> string \<Rightarrow> (keeper_error, string) result" where
  "requireEnv e name =
     (case e name of
        None \<Rightarrow> Inl (EnvNotSet name)
      | Some v \<Rightarrow> if v = [] then Inl (EnvNotSet name) else Inr v)"

text \<open>\<^verbatim>\<open>process.env.NAME ?? dflt\<close>: an empty value is a value.\<close>

definition env_or :: "env \<Rightarrow> string \<Rightarrow> string \<Rightarrow> string" where
  "env_or e name dflt = (case e name of None \<Rightarrow> dflt | Some v \<Rightarrow> v)"

definition bigint_env :: "env \<Rightarrow> string \<Rightarrow> string \<Rightarrow> (keeper_error, int) result" where
  "bigint_env e name dflt =
     (case js_BigInt (env_or e name dflt) of
        None \<Rightarrow> Inl (BigIntSyntax (env_or e name dflt))
      | Some v \<Rightarrow> Inr v)"

section \<open>Submitting and relaying\<close>

text \<open>The ABI codec rejects a value outside \<^verbatim>\<open>int256\<close> before anything is sent.\<close>

definition fits_int256 :: "int \<Rightarrow> bool" where
  "fits_int256 v \<longleftrightarrow> - (2 ^ 255) \<le> v \<and> v < 2 ^ 255"

definition submit ::
  "keeper_world \<Rightarrow> address \<Rightarrow> int \<Rightarrow> attestor \<Rightarrow> (keeper_error, int) result \<times> attestor" where
  "submit w me nxt a =
     (if \<not> fits_int256 nxt then (Inl (RpcFailure ''INVALID_ARGUMENT''), a)
      else case kw_post w of
        SendRejected e \<Rightarrow> (Inl e, a)
      | WaitRejected e None \<Rightarrow> (Inl e, a)
      | WaitRejected e (Some ts) \<Rightarrow>
          (Inl e, case postAnswer me ts nxt a of Inl _ \<Rightarrow> a | Inr a' \<Rightarrow> a')
      | Mined ts \<Rightarrow>
          (case postAnswer me ts nxt a of
             Inl _ \<Rightarrow> (Inl (RpcFailure ''CALL_EXCEPTION''), a)
           | Inr a' \<Rightarrow> (Inr EXIT_POSTED, a')))"

text \<open>
  The tail the three keepers share: open the feed, check its precision, read the current answer
  and the L2 clock, decide, and post when the decision is to post.
\<close>

definition relay ::
  "keeper_world \<Rightarrow> string \<Rightarrow> int \<Rightarrow> (int \<Rightarrow> int \<Rightarrow> int \<Rightarrow> decision) \<Rightarrow> int \<Rightarrow> attestor
   \<Rightarrow> (keeper_error, int) result \<times> attestor" where
  "relay w key expected decide nxt a =
     (case kw_wallet w key of
        None \<Rightarrow> (Inl (RpcFailure ''invalid private key''), a)
      | Some me \<Rightarrow>
     (case kw_decimalsErr w of
        Some e \<Rightarrow> (Inl e, a)
      | None \<Rightarrow>
      if att_decimals a \<noteq> expected then (Inr EXIT_FAILED, a) else
     (case kw_roundErr w of
        Some e \<Rightarrow> (Inl e, a)
      | None \<Rightarrow>
     (case chainNowSeconds (kw_l2Block w) of
        Inl e \<Rightarrow> (Inl e, a)
      | Inr now \<Rightarrow>
     (case decide (rd_answer (latestRoundData a)) (rd_updatedAt (latestRoundData a)) now of
        Skip _ \<Rightarrow> (Inr EXIT_SKIPPED, a)
      | Refuse _ \<Rightarrow> (Inr EXIT_FAILED, a)
      | Post _ \<Rightarrow> submit w me nxt a)))))"

section \<open>The XAU keeper\<close>

record xau_settings =
  xs_pricesUrl :: string
  xs_key :: string
  xs_symbols :: "string list"
  xs_maxTokenPriceAge :: int
  xs_chainlinkFreshAge :: int
  xs_maxJumpBps :: int
  xs_minDelta :: int
  xs_heartbeatAge :: int

definition read_xau_settings :: "env \<Rightarrow> (keeper_error, xau_settings) result" where
  "read_xau_settings e =
     rbind (requireEnv e ''ALCHEMY_PRICES_URL'') (\<lambda>pricesUrl.
     rbind (requireEnv e ''MAINNET_RPC_URL'') (\<lambda>mainnetRpc.
     rbind (requireEnv e ''XAU_FEED_ADDRESS'') (\<lambda>feedAddress.
     rbind (requireEnv e ''XAU_ATTESTOR_ADDRESS'') (\<lambda>attestorAddress.
     rbind (requireEnv e ''KEY_XAU'') (\<lambda>keyXau.
     (let symbols = filter (\<lambda>s. length s > 0)
            (map js_trim (js_split CHR '','' (env_or e ''PRICE_SYMBOLS'' ''PAXG,XAUT''))) in
     rbind (bigint_env e ''MAX_TOKEN_PRICE_AGE'' ''3600'') (\<lambda>maxTokenPriceAge.
     rbind (bigint_env e ''SOURCE_WARN_AGE'' ''82800'') (\<lambda>chainlinkFreshAge.
     rbind (bigint_env e ''MAX_JUMP_BPS'' ''1000'') (\<lambda>maxJumpBps.
     rbind (bigint_env e ''MIN_DELTA'' ''0'') (\<lambda>minDelta.
     rbind (bigint_env e ''HEARTBEAT_AGE'' ''1800'') (\<lambda>heartbeatAge.
       Inr \<lparr>xs_pricesUrl = pricesUrl, xs_key = keyXau, xs_symbols = symbols,
            xs_maxTokenPriceAge = maxTokenPriceAge, xs_chainlinkFreshAge = chainlinkFreshAge,
            xs_maxJumpBps = maxJumpBps, xs_minDelta = minDelta,
            xs_heartbeatAge = heartbeatAge\<rparr>)))))))))))"

definition token_prices :: "fetch_reply \<Rightarrow> token_usd_price list" where
  "token_prices reply =
     (case reply of
        HttpOk body \<Rightarrow> (case parsePricesBySymbolResponse body of Inl _ \<Rightarrow> [] | Inr ps \<Rightarrow> ps)
      | _ \<Rightarrow> [])"

definition l1_now :: "keeper_world \<Rightarrow> int option" where
  "l1_now w = (case chainNowSeconds (kw_l1Block w) of Inl _ \<Rightarrow> None | Inr n \<Rightarrow> Some n)"

definition chainlink_age :: "keeper_world \<Rightarrow> int option" where
  "chainlink_age w =
     (case l1_now w of
        None \<Rightarrow> None
      | Some n \<Rightarrow> (case kw_chainlink w of Inl _ \<Rightarrow> None | Inr updatedAt \<Rightarrow> Some (n - updatedAt)))"

definition xau_gold_input :: "keeper_world \<Rightarrow> xau_settings \<Rightarrow> gold_price_input" where
  "xau_gold_input w c =
     \<lparr>gp_prices = token_prices (kw_fetch w
        (xs_pricesUrl c @ ''?symbols='' @ js_join '','' (xs_symbols c))),
      gp_nowSeconds = l1_now w,
      gp_maxTokenPriceAge = xs_maxTokenPriceAge c,
      gp_minSaneUsd = 10000000000, gp_maxSaneUsd = 10000000000000,
      gp_chainlinkAgeSeconds = chainlink_age w,
      gp_chainlinkFreshAge = xs_chainlinkFreshAge c\<rparr>"

definition runXau :: "keeper_world \<Rightarrow> attestor \<Rightarrow> (keeper_error, int) result \<times> attestor" where
  "runXau w a =
     (case read_xau_settings (kw_env w) of
        Inl e \<Rightarrow> (Inl e, a)
      | Inr c \<Rightarrow>
          (case decideGoldPrice (kw_dateParse w) (xau_gold_input w c) of
             GoldRefuse _ \<Rightarrow> (Inr EXIT_FAILED, a)
           | GoldPost nxt _ \<Rightarrow>
               relay w (xs_key c) 8
                 (\<lambda>current updatedAt now. decidePost
                    \<lparr>di_current = current, di_currentUpdatedAt = updatedAt, di_next = nxt,
                     di_now = now, di_minDelta = xs_minDelta c, di_maxJumpBps = xs_maxJumpBps c,
                     di_heartbeatAge = xs_heartbeatAge c\<rparr>) nxt a))"

section \<open>The UZS keeper\<close>

record uzs_settings =
  us_key :: string
  us_cbuUrl :: string
  us_maxCbAgeDays :: js_number
  us_cbWarnAgeDays :: js_number
  us_maxJumpBps :: int
  us_minDelta :: int
  us_heartbeatAge :: int

definition read_uzs_settings :: "env \<Rightarrow> (keeper_error, uzs_settings) result" where
  "read_uzs_settings e =
     rbind (requireEnv e ''UZS_ATTESTOR_ADDRESS'') (\<lambda>attestorAddress.
     rbind (requireEnv e ''KEY_UZS'') (\<lambda>keyUzs.
     rbind (bigint_env e ''MAX_JUMP_BPS'' ''1000'') (\<lambda>maxJumpBps.
     rbind (bigint_env e ''MIN_DELTA'' ''0'') (\<lambda>minDelta.
     rbind (bigint_env e ''HEARTBEAT_AGE_UZS'' ''86400'') (\<lambda>heartbeatAge.
       Inr \<lparr>us_key = keyUzs,
            us_cbuUrl = env_or e ''CBU_URL'' ''https://cbu.uz/ru/arkhiv-kursov-valyut/json/USD/'',
            us_maxCbAgeDays = js_Number (env_or e ''MAX_CB_AGE_DAYS'' ''14''),
            us_cbWarnAgeDays = js_Number (env_or e ''CB_WARN_AGE_DAYS'' ''3''),
            us_maxJumpBps = maxJumpBps, us_minDelta = minDelta,
            us_heartbeatAge = heartbeatAge\<rparr>)))))"

text \<open>Steps 1 and 2: the inverse rate, \<^term>\<open>Inr None\<close> when the run refuses.\<close>

definition uzs_next :: "keeper_world \<Rightarrow> uzs_settings \<Rightarrow> (keeper_error, int option) result" where
  "uzs_next w c =
     (case kw_fetch w (us_cbuUrl c) of
        FetchRejects \<Rightarrow> Inl (FetchFailure (us_cbuUrl c))
      | HttpError _ \<Rightarrow> Inr None
      | HttpOkNoJson \<Rightarrow> Inl (FetchFailure (us_cbuUrl c))
      | HttpOk body \<Rightarrow>
          rbind (parseCbuResponse body) (\<lambda>r.
          rbind (parseDecimalToScaledInt (rateRaw r) 8) (\<lambda>rate.
          rbind (usdPerUzsFromRate rate) (\<lambda>nxt.
            if nxt \<le> 0 then Inr None
            else rbind (cbuRateAgeDays (dateRaw r) (kw_today w)) (\<lambda>ageDays.
              case checkCbuAge ageDays (us_cbWarnAgeDays c) (us_maxCbAgeDays c) of
                AgeRefuse _ \<Rightarrow> Inr None
              | _ \<Rightarrow> Inr (Some nxt))))))"

definition runUzs :: "keeper_world \<Rightarrow> attestor \<Rightarrow> (keeper_error, int) result \<times> attestor" where
  "runUzs w a =
     (case read_uzs_settings (kw_env w) of
        Inl e \<Rightarrow> (Inl e, a)
      | Inr c \<Rightarrow>
          (case uzs_next w c of
             Inl e \<Rightarrow> (Inl e, a)
           | Inr None \<Rightarrow> (Inr EXIT_FAILED, a)
           | Inr (Some nxt) \<Rightarrow>
               relay w (us_key c) 8
                 (\<lambda>current updatedAt now. decidePost
                    \<lparr>di_current = current, di_currentUpdatedAt = updatedAt, di_next = nxt,
                     di_now = now, di_minDelta = us_minDelta c, di_maxJumpBps = us_maxJumpBps c,
                     di_heartbeatAge = us_heartbeatAge c\<rparr>) nxt a))"

section \<open>The reserve keeper\<close>

record reserve_settings =
  rs_key :: string
  rs_maxJumpBps :: int
  rs_heartbeatAge :: int
  rs_next :: int
  rs_confirm :: "string option"

definition read_reserve_settings :: "env \<Rightarrow> (keeper_error, reserve_settings) result" where
  "read_reserve_settings e =
     rbind (requireEnv e ''RESERVE_ATTESTOR_ADDRESS'') (\<lambda>attestorAddress.
     rbind (requireEnv e ''KEY_RESERVE'') (\<lambda>keyReserve.
     rbind (bigint_env e ''MAX_RESERVE_JUMP_BPS'' ''1000'') (\<lambda>maxJumpBps.
     rbind (bigint_env e ''HEARTBEAT_AGE'' ''1800'') (\<lambda>heartbeatAge.
     rbind (requireEnv e ''RESERVE_GRAMS'') (\<lambda>grams.
     rbind (parsePositiveInt grams ''RESERVE_GRAMS'') (\<lambda>nxt.
       Inr \<lparr>rs_key = keyReserve, rs_maxJumpBps = maxJumpBps, rs_heartbeatAge = heartbeatAge,
            rs_next = nxt,
            rs_confirm = (case e ''RESERVE_CONFIRM'' of
                            Some v \<Rightarrow> if v = [] then None else Some v | None \<Rightarrow> None)\<rparr>))))))"

definition runReserve :: "keeper_world \<Rightarrow> attestor \<Rightarrow> (keeper_error, int) result \<times> attestor" where
  "runReserve w a =
     (case read_reserve_settings (kw_env w) of
        Inl e \<Rightarrow> (Inl e, a)
      | Inr c \<Rightarrow>
          relay w (rs_key c) 0
            (\<lambda>current updatedAt now. decideReservePost
               \<lparr>dr_current = current, dr_currentUpdatedAt = updatedAt, dr_next = rs_next c,
                dr_now = now, dr_heartbeatAge = rs_heartbeatAge c,
                dr_maxJumpBps = rs_maxJumpBps c, dr_confirm = rs_confirm c\<rparr>) (rs_next c) a)"

section \<open>The process and the shared runner\<close>

text \<open>The exit code of a standalone run: a thrown error exits with the failure code.\<close>

definition standalone_exit :: "(keeper_error, int) result \<Rightarrow> int" where
  "standalone_exit r = (case r of Inl _ \<Rightarrow> EXIT_FAILED | Inr c \<Rightarrow> c)"

record chains =
  ch_xau :: attestor
  ch_reserve :: attestor
  ch_uzs :: attestor

type_synonym feed_run = "chains \<Rightarrow> (keeper_error, int) result \<times> chains"

fun run_feeds :: "(string \<times> feed_run) list \<Rightarrow> int \<Rightarrow> chains \<Rightarrow> int \<times> chains" where
  "run_feeds [] worst c = (worst, c)"
| "run_feeds ((name, runFeed) # feeds) worst c =
     (case runFeed c of
        (r, c') \<Rightarrow>
          (let cd = (case r of Inl _ \<Rightarrow> EXIT_FAILED | Inr cd \<Rightarrow> cd);
               worst' = (if cd = EXIT_FAILED then EXIT_FAILED
                         else if cd = EXIT_POSTED \<and> worst \<noteq> EXIT_FAILED then EXIT_POSTED
                         else worst) in
           run_feeds feeds worst' c'))"

definition keeper_all ::
  "keeper_world \<Rightarrow> keeper_world \<Rightarrow> keeper_world \<Rightarrow> chains \<Rightarrow> int \<times> chains" where
  "keeper_all wx wr wu c =
     run_feeds
       [(''xau'', \<lambda>c. case runXau wx (ch_xau c) of (r, a) \<Rightarrow> (r, c\<lparr>ch_xau := a\<rparr>)),
        (''reserve'', \<lambda>c. case runReserve wr (ch_reserve c) of (r, a) \<Rightarrow> (r, c\<lparr>ch_reserve := a\<rparr>)),
        (''uzs'', \<lambda>c. case runUzs wu (ch_uzs c) of (r, a) \<Rightarrow> (r, c\<lparr>ch_uzs := a\<rparr>))]
       EXIT_SKIPPED c"

section \<open>What a relay can do\<close>

lemma latest_att [simp]:
  "rd_answer (latestRoundData a) = att_answer a"
  "rd_updatedAt (latestRoundData a) = att_updatedAt a"
  by (simp_all add: latestRoundData_def)

text \<open>The block times at which the transaction of a run can be mined.\<close>

definition lands :: "keeper_world \<Rightarrow> int \<Rightarrow> bool" where
  "lands w ts = (case kw_post w of
     SendRejected _ \<Rightarrow> False | WaitRejected _ ts' \<Rightarrow> ts' = Some ts | Mined ts' \<Rightarrow> ts' = ts)"

lemma submit_cases:
  assumes "submit w me nxt a = (r, a')"
  shows "(\<exists>e. r = Inl e \<and> a' = a)
       \<or> ((r = Inr EXIT_POSTED \<or> (\<exists>e. r = Inl e)) \<and>
          (\<exists>ts. lands w ts \<and> postAnswer me ts nxt a = Inr a'))"
  using assms
  by (auto simp: submit_def lands_def split: if_splits post_outcome.splits option.splits sum.splits)

lemma exit_distinct [simp]:
  "EXIT_POSTED \<noteq> EXIT_SKIPPED" "EXIT_SKIPPED \<noteq> EXIT_POSTED"
  "EXIT_POSTED \<noteq> EXIT_FAILED" "EXIT_FAILED \<noteq> EXIT_POSTED"
  "EXIT_SKIPPED \<noteq> EXIT_FAILED" "EXIT_FAILED \<noteq> EXIT_SKIPPED"
  by (simp_all add: exit_defs)

text \<open>The outcomes of a run, given how it decides, as a relation.\<close>

inductive relayed ::
  "keeper_world \<Rightarrow> int \<Rightarrow> (int \<Rightarrow> int \<Rightarrow> int \<Rightarrow> decision) \<Rightarrow> int \<Rightarrow> attestor
   \<Rightarrow> (keeper_error, int) result \<Rightarrow> attestor \<Rightarrow> bool"
  for w expected decide nxt a where
  relayed_failed: "relayed w expected decide nxt a (Inr EXIT_FAILED) a"
| relayed_threw: "relayed w expected decide nxt a (Inl e) a"
| relayed_skipped: "chainNowSeconds (kw_l2Block w) = Inr now \<Longrightarrow>
    decide (att_answer a) (att_updatedAt a) now = Skip x \<Longrightarrow>
    relayed w expected decide nxt a (Inr EXIT_SKIPPED) a"
| relayed_landed: "chainNowSeconds (kw_l2Block w) = Inr now \<Longrightarrow> att_decimals a = expected \<Longrightarrow>
    decide (att_answer a) (att_updatedAt a) now = Post x \<Longrightarrow>
    lands w ts \<Longrightarrow> postAnswer me ts nxt a = Inr a' \<Longrightarrow> r = Inr EXIT_POSTED \<or> (\<exists>e. r = Inl e) \<Longrightarrow>
    relayed w expected decide nxt a r a'"

inductive_cases relayed_FailedE: "relayed w expected decide nxt a (Inr EXIT_FAILED) a'"
inductive_cases relayed_SkippedE: "relayed w expected decide nxt a (Inr EXIT_SKIPPED) a'"
inductive_cases relayed_PostedE: "relayed w expected decide nxt a (Inr EXIT_POSTED) a'"
inductive_cases relayed_ThrewE: "relayed w expected decide nxt a (Inl e) a'"
inductive_cases relayed_CodeE: "relayed w expected decide nxt a (Inr c) a'"

lemma relay_relayed:
  assumes "relay w key expected decide nxt a = (r, a')"
  shows "relayed w expected decide nxt a r a'"
proof (cases "kw_wallet w key")
  case None
  with assms show ?thesis by (auto simp: relay_def intro: relayed_threw)
next
  case (Some me)
  note rel = assms [unfolded relay_def Some option.case]
  show ?thesis
  proof (cases "kw_decimalsErr w = None \<and> att_decimals a = expected \<and> kw_roundErr w = None")
    case False
    with rel show ?thesis
      by (auto split: option.splits if_splits intro: relayed_threw relayed_failed)
  next
    case True
    show ?thesis
    proof (cases "chainNowSeconds (kw_l2Block w)")
      case (Inl e)
      with rel True have "r = Inl e" "a' = a" by simp_all
      then show ?thesis by (simp add: relayed_threw)
    next
      case (Inr now)
      show ?thesis
      proof (cases "decide (att_answer a) (att_updatedAt a) now")
        case (Post x)
        with rel True Inr have "submit w me nxt a = (r, a')" by simp
        from submit_cases [OF this] show ?thesis
          using True Inr Post by (auto intro: relayed_threw relayed_landed)
      qed (use rel True Inr in \<open>auto intro: relayed_skipped relayed_failed\<close>)
    qed
  qed
qed

lemma decidePost_Skip:
  "decidePost i = Skip x \<Longrightarrow> di_now i - di_currentUpdatedAt i < di_heartbeatAge i"
  by (auto simp: decision_defs split: if_splits)

lemma decideReservePost_Skip:
  "decideReservePost i = Skip x \<Longrightarrow> dr_now i - dr_currentUpdatedAt i < dr_heartbeatAge i"
  by (auto simp: decision_defs split: if_splits)

lemma decidePost_Post:
  assumes "decidePost i = Post x" and "0 < di_current i"
  shows "\<bar>di_next i - di_current i\<bar> \<le> di_minDelta i
       \<or> \<bar>di_next i - di_current i\<bar> * 10000 < (di_maxJumpBps i + 1) * di_current i"
  using assms jump_exceeds_iff [OF abs_ge_zero assms(2)]
  by (auto simp: decision_defs not_le split: if_splits)

lemma decideReservePost_Post:
  assumes "decideReservePost i = Post x" and "0 < dr_current i"
  shows "dr_next i = dr_current i
       \<or> \<bar>dr_next i - dr_current i\<bar> * 10000 < (dr_maxJumpBps i + 1) * dr_current i
       \<or> dr_confirm i = Some (show_int (dr_next i))"
  using assms jump_exceeds_iff [OF abs_ge_zero assms(2)]
  by (auto simp: decision_defs not_le split: if_splits)

section \<open>The contract of a keeper run\<close>

locale feed_keeper =
  fixes run :: "keeper_world \<Rightarrow> attestor \<Rightarrow> (keeper_error, int) result \<times> attestor"
    and heartbeat :: "keeper_world \<Rightarrow> int option"
  assumes refuse_quiet: "run w a = (Inr EXIT_FAILED, a') \<Longrightarrow> a' = a"
    and skip_quiet: "run w a = (Inr EXIT_SKIPPED, a') \<Longrightarrow>
      a' = a \<and> (\<exists>now h. chainNowSeconds (kw_l2Block w) = Inr now \<and> heartbeat w = Some h
                  \<and> now - att_updatedAt a < h)"
    and posted: "run w a = (Inr EXIT_POSTED, a') \<Longrightarrow>
      (\<exists>ts me v. lands w ts \<and> postAnswer me ts v a = Inr a')
      \<and> (\<exists>now h. chainNowSeconds (kw_l2Block w) = Inr now \<and> heartbeat w = Some h)"
    and thrown: "run w a = (Inl e, a') \<Longrightarrow>
      a' = a \<or> (\<exists>ts me v. lands w ts \<and> postAnswer me ts v a = Inr a')"
    and codes: "run w a = (Inr c, a') \<Longrightarrow> c = EXIT_POSTED \<or> c = EXIT_SKIPPED \<or> c = EXIT_FAILED"
begin

lemma run_effect: "snd (run w a) = a \<or> (\<exists>ts me v. lands w ts \<and> postAnswer me ts v a = Inr (snd (run w a)))"
proof (cases "fst (run w a)")
  case (Inl e)
  then show ?thesis using thrown [of w a e "snd (run w a)"] by (simp add: prod_eq_iff)
next
  case (Inr c)
  then have eq: "run w a = (Inr c, snd (run w a))" by (simp add: prod_eq_iff)
  from codes [OF eq] show ?thesis
    using eq posted skip_quiet refuse_quiet by metis
qed

lemma stamp_bound:
  assumes "n \<le> att_updatedAt a" and "\<forall>ts. lands w ts \<longrightarrow> n \<le> ts"
  shows "n \<le> att_updatedAt (snd (run w a))"
  using run_effect [of w a] assms by (auto simp: postAnswer_Inr_iff)

lemma stamp_bound_runs:
  assumes "n \<le> att_updatedAt a" and "\<forall>w \<in> set ws. \<forall>ts. lands w ts \<longrightarrow> n \<le> ts"
  shows "n \<le> att_updatedAt (fold (\<lambda>w a. snd (run w a)) ws a)"
  using assms
proof (induction ws arbitrary: a)
  case Nil
  then show ?case by simp
next
  case (Cons w ws)
  then show ?case using stamp_bound [of n a w] by simp
qed

text \<open>The reading is younger than the heartbeat, on the L2 clock, after any run that did not fail.\<close>

lemma age_after_run:
  assumes "run w a = (Inr c, a')" and "c \<noteq> EXIT_FAILED"
    and "chainNowSeconds (kw_l2Block w) = Inr now" and "heartbeat w = Some h" and "0 < h"
    and "\<forall>ts. lands w ts \<longrightarrow> now \<le> ts"
  shows "now - h < att_updatedAt a'"
proof -
  consider "c = EXIT_POSTED" | "c = EXIT_SKIPPED" using codes [OF assms(1)] assms(2) by blast
  then show ?thesis
  proof cases
    case 1
    with assms(1) posted obtain ts me v where "lands w ts" "postAnswer me ts v a = Inr a'" by blast
    then show ?thesis using assms(5,6) by (fastforce simp: postAnswer_Inr_iff)
  next
    case 2
    with assms skip_quiet [of w a a'] show ?thesis by auto
  qed
qed

lemma fresh_until:
  assumes "run w a = (Inr c, a')" and "c \<noteq> EXIT_FAILED"
    and "chainNowSeconds (kw_l2Block w) = Inr now" and "heartbeat w = Some h" and "0 < h"
    and "\<forall>ts. lands w ts \<longrightarrow> now \<le> ts"
    and "\<forall>v \<in> set ws. \<forall>ts. lands v ts \<longrightarrow> now \<le> ts"
    and "t \<le> now + gap" and "h + gap \<le> maxAge + 1"
  shows "t - att_updatedAt (fold (\<lambda>w a. snd (run w a)) ws a') \<le> maxAge"
proof -
  have "now - h + 1 \<le> att_updatedAt a'" using age_after_run [OF assms(1-6)] by simp
  then have "now - h + 1 \<le> att_updatedAt (fold (\<lambda>w a. snd (run w a)) ws a')"
    using assms(5,7) by (intro stamp_bound_runs) fastforce+
  with assms(8,9) show ?thesis by linarith
qed

lemma exit_posted_iff:
  "standalone_exit (fst (run w a)) = EXIT_POSTED \<Longrightarrow>
     \<exists>ts me v. lands w ts \<and> postAnswer me ts v a = Inr (snd (run w a))"
  using posted [of w a "snd (run w a)"]
  by (cases "run w a"; cases "fst (run w a)") (auto simp: standalone_exit_def)

lemma exit_skipped_quiet:
  "standalone_exit (fst (run w a)) = EXIT_SKIPPED \<Longrightarrow> snd (run w a) = a"
  using skip_quiet [of w a "snd (run w a)"]
  by (cases "run w a"; cases "fst (run w a)") (auto simp: standalone_exit_def)

lemma exit_code_range: "standalone_exit (fst (run w a)) \<in> {EXIT_POSTED, EXIT_SKIPPED, EXIT_FAILED}"
  using codes [of w a _ "snd (run w a)"]
  by (cases "run w a"; cases "fst (run w a)") (auto simp: standalone_exit_def)

end

definition setting :: "('e, 'c) result \<Rightarrow> ('c \<Rightarrow> int) \<Rightarrow> int option" where
  "setting r f = (case r of Inl _ \<Rightarrow> None | Inr c \<Rightarrow> Some (f c))"

definition xau_heartbeat :: "keeper_world \<Rightarrow> int option" where
  "xau_heartbeat w = setting (read_xau_settings (kw_env w)) xs_heartbeatAge"

definition uzs_heartbeat :: "keeper_world \<Rightarrow> int option" where
  "uzs_heartbeat w = setting (read_uzs_settings (kw_env w)) us_heartbeatAge"

definition reserve_heartbeat :: "keeper_world \<Rightarrow> int option" where
  "reserve_heartbeat w = setting (read_reserve_settings (kw_env w)) rs_heartbeatAge"

lemmas heartbeat_defs = setting_def xau_heartbeat_def uzs_heartbeat_def reserve_heartbeat_def

lemma runXau_relayed:
  assumes "runXau w a = (r, a')"
  shows "(r = Inr EXIT_FAILED \<or> (\<exists>e. r = Inl e)) \<and> a' = a
       \<or> (\<exists>c nxt nt. read_xau_settings (kw_env w) = Inr c
            \<and> decideGoldPrice (kw_dateParse w) (xau_gold_input w c) = GoldPost nxt nt
            \<and> relayed w 8
                 (\<lambda>current updatedAt now. decidePost
                    \<lparr>di_current = current, di_currentUpdatedAt = updatedAt, di_next = nxt,
                     di_now = now, di_minDelta = xs_minDelta c, di_maxJumpBps = xs_maxJumpBps c,
                     di_heartbeatAge = xs_heartbeatAge c\<rparr>) nxt a r a')"
  using assms by (auto simp: runXau_def split: sum.splits gold_decision.splits dest: relay_relayed)

lemma runUzs_relayed:
  assumes "runUzs w a = (r, a')"
  shows "(r = Inr EXIT_FAILED \<or> (\<exists>e. r = Inl e)) \<and> a' = a
       \<or> (\<exists>c nxt. read_uzs_settings (kw_env w) = Inr c \<and> uzs_next w c = Inr (Some nxt)
            \<and> relayed w 8
                 (\<lambda>current updatedAt now. decidePost
                    \<lparr>di_current = current, di_currentUpdatedAt = updatedAt, di_next = nxt,
                     di_now = now, di_minDelta = us_minDelta c, di_maxJumpBps = us_maxJumpBps c,
                     di_heartbeatAge = us_heartbeatAge c\<rparr>) nxt a r a')"
  using assms by (auto simp: runUzs_def split: sum.splits option.splits dest: relay_relayed)

lemma runReserve_relayed:
  assumes "runReserve w a = (r, a')"
  shows "(\<exists>e. r = Inl e) \<and> a' = a
       \<or> (\<exists>c. read_reserve_settings (kw_env w) = Inr c
            \<and> relayed w 0
                (\<lambda>current updatedAt now. decideReservePost
                   \<lparr>dr_current = current, dr_currentUpdatedAt = updatedAt, dr_next = rs_next c,
                    dr_now = now, dr_heartbeatAge = rs_heartbeatAge c,
                    dr_maxJumpBps = rs_maxJumpBps c, dr_confirm = rs_confirm c\<rparr>) (rs_next c) a r a')"
  using assms by (auto simp: runReserve_def split: sum.splits dest: relay_relayed)

text \<open>Any run that ends in a relay whose skips respect the heartbeat meets the contract.\<close>

lemma feed_keeper_intro:
  assumes "\<And>w a r a'. run w a = (r, a') \<Longrightarrow>
      (r = Inr EXIT_FAILED \<or> (\<exists>e. r = Inl e)) \<and> a' = a
      \<or> (\<exists>h expected decide nxt. heartbeat w = Some h \<and> relayed w expected decide nxt a r a'
           \<and> (\<forall>now x. decide (att_answer a) (att_updatedAt a) now = Skip x \<longrightarrow>
                now - att_updatedAt a < h))"
  shows "feed_keeper run heartbeat"
proof
  fix w a a'
  show "a' = a" if "run w a = (Inr EXIT_FAILED, a')"
    using assms [OF that] by (auto elim: relayed_FailedE)
  show "a' = a \<and> (\<exists>now h. chainNowSeconds (kw_l2Block w) = Inr now \<and> heartbeat w = Some h
          \<and> now - att_updatedAt a < h)" if "run w a = (Inr EXIT_SKIPPED, a')"
    using assms [OF that] by (auto elim!: relayed_SkippedE)
  show "(\<exists>ts me v. lands w ts \<and> postAnswer me ts v a = Inr a')
      \<and> (\<exists>now h. chainNowSeconds (kw_l2Block w) = Inr now \<and> heartbeat w = Some h)"
    if "run w a = (Inr EXIT_POSTED, a')"
    using assms [OF that] by (auto elim!: relayed_PostedE)
  show "a' = a \<or> (\<exists>ts me v. lands w ts \<and> postAnswer me ts v a = Inr a')"
    if "run w a = (Inl e, a')" for e
    using assms [OF that] by (auto elim!: relayed_ThrewE)
  show "c = EXIT_POSTED \<or> c = EXIT_SKIPPED \<or> c = EXIT_FAILED" if "run w a = (Inr c, a')" for c
    using assms [OF that] by (auto elim!: relayed_CodeE)
qed

interpretation xau: feed_keeper runXau xau_heartbeat
  by (rule feed_keeper_intro, drule runXau_relayed)
    (fastforce simp: heartbeat_defs dest: decidePost_Skip)

interpretation uzs: feed_keeper runUzs uzs_heartbeat
  by (rule feed_keeper_intro, drule runUzs_relayed)
    (fastforce simp: heartbeat_defs dest: decidePost_Skip)

interpretation reserve: feed_keeper runReserve reserve_heartbeat
  by (rule feed_keeper_intro, drule runReserve_relayed)
    (fastforce simp: heartbeat_defs dest: decideReservePost_Skip)

section \<open>Properties\<close>

lemma xau_settings_heartbeat:
  assumes "read_xau_settings e = Inr st" and "e ''HEARTBEAT_AGE'' = None"
  shows "xs_heartbeatAge st = 1800"
proof -
  have "bigint_env e ''HEARTBEAT_AGE'' ''1800'' = Inr 1800"
    by (simp add: bigint_env_def env_or_def assms(2) js_simps)
  then show ?thesis
    using assms(1) unfolding read_xau_settings_def Let_def rbind_Inr_iff by auto
qed

section \<open>A sample run\<close>

definition sample_env :: env where
  "sample_env k =
     (if k = ''ALCHEMY_PRICES_URL'' then Some ''https://prices''
      else if k = ''MAINNET_RPC_URL'' then Some ''https://mainnet''
      else if k = ''XAU_FEED_ADDRESS'' then Some ''0xfeed''
      else if k = ''XAU_ATTESTOR_ADDRESS'' \<or> k = ''RESERVE_ATTESTOR_ADDRESS'' then Some ''0xattestor''
      else if k = ''KEY_XAU'' \<or> k = ''KEY_RESERVE'' then Some ''0xkey''
      else if k = ''RESERVE_GRAMS'' then Some ''5000''
      else None)"

definition sample_prices :: json where
  "sample_prices = JObj [(''data'', JArr [
     JObj [(''symbol'', JStr ''PAXG''), (''prices'', JArr [JObj [(''currency'', JStr ''usd''),
       (''value'', JStr ''4041''), (''lastUpdatedAt'', JStr ''a'')]])]])]"

definition sample_world :: keeper_world where
  "sample_world = \<lparr>kw_env = sample_env, kw_wallet = (\<lambda>k. Some ''poster''),
     kw_fetch = (\<lambda>u. HttpOk sample_prices), kw_today = (2026, 6, 23), kw_dateParse = sample_clock,
     kw_l1Block = Inr (Some 1000), kw_chainlink = Inr 400, kw_decimalsErr = None, kw_roundErr = None,
     kw_l2Block = Inr (Some 2000), kw_post = Mined 2001\<rparr>"

definition sample_settings :: xau_settings where
  "sample_settings = \<lparr>xs_pricesUrl = ''https://prices'', xs_key = ''0xkey'',
     xs_symbols = [''PAXG'', ''XAUT''], xs_maxTokenPriceAge = 3600, xs_chainlinkFreshAge = 82800,
     xs_maxJumpBps = 1000, xs_minDelta = 0, xs_heartbeatAge = 1800\<rparr>"

lemma sample_world_simps [simp]:
  "kw_env sample_world = sample_env" "kw_wallet sample_world k = Some ''poster''"
  "kw_dateParse sample_world = sample_clock" "kw_decimalsErr sample_world = None"
  "kw_roundErr sample_world = None" "chainNowSeconds (kw_l2Block sample_world) = Inr 2000"
  "kw_post sample_world = Mined 2001" "kw_today sample_world = (2026, 6, 23)" "lands sample_world ts \<longleftrightarrow> ts = 2001"
  by (auto simp: sample_world_def chainNowSeconds_def lands_def)

lemma sample_env_settings:
  "read_xau_settings sample_env = Inr sample_settings"
  by (simp add: read_xau_settings_def requireEnv_def bigint_env_def env_or_def sample_env_def
      sample_settings_def js_simps)

lemma sample_world_gold:
  "decideGoldPrice sample_clock (xau_gold_input sample_world sample_settings)
   = GoldPost 404100000000 (SingleSource ''PAXG'' 404100000000)"
proof -
  have "parseDecimalToScaledInt ''4041'' 8 = Inr 404100000000"
    by (simp add: parseDecimalToScaledInt_def decimal_match_def js_simps)
  then show ?thesis
    by (simp add: decideGoldPrice_def xau_gold_input_def sample_settings_def l1_now_def chainNowSeconds_def sample_world_def
      token_prices_def parsePricesBySymbolResponse_def sample_prices_def is_object_def js_prop_def as_array_def
      entry_quotes_def quote_of_def as_string_def js_simps valid_quotes_def valid_value_def sample_clock_def
      List.map_filter_simps median_def)
qed

definition fresh_xau :: attestor where
  "fresh_xau = attestor_constructor ''poster'' 8"

lemma sample_world_run:
  "runXau sample_world fresh_xau =
     (Inr EXIT_POSTED, fresh_xau\<lparr>att_roundId := 1, att_answer := 404100000000, att_updatedAt := 2001\<rparr>)"
  by (simp add: runXau_def sample_env_settings sample_world_gold relay_def submit_def fits_int256_def
      decision_defs postAnswer_def attestor_constructor_def fresh_xau_def)

text \<open>
  C24.  A healthy XAU keeper keeps the feed acceptable to every consumer: with the default
  heartbeat of 1800 s, after a run that posted or skipped at L2 time \<open>now\<close>, the reading is at
  most 3600 s old (the consumers' maxAge) at every time up to \<open>now + 1801\<close>, whatever the later
  runs do, failures included, as long as blocks mined after \<open>now\<close> are stamped after it.
\<close>

theorem xau_feed_stays_fresh:
  assumes "runXau w a = (Inr c, a')" and "c \<noteq> EXIT_FAILED"
    and "kw_env w ''HEARTBEAT_AGE'' = None"
    and "chainNowSeconds (kw_l2Block w) = Inr now"
    and "\<forall>v \<in> set (w # ws). \<forall>ts. lands v ts \<longrightarrow> now \<le> ts"
    and "t \<le> now + 1801"
  shows "t - att_updatedAt (fold (\<lambda>w a. snd (runXau w a)) ws a') \<le> 3600"
proof -
  obtain st where st: "read_xau_settings (kw_env w) = Inr st"
    using assms(1) by (auto simp: runXau_def split: sum.splits)
  then have "xau_heartbeat w = Some 1800"
    using xau_settings_heartbeat [OF st assms(3)] by (simp add: heartbeat_defs)
  with assms show ?thesis
    by (intro xau.fresh_until [of w a c a' now 1800 ws t 1801 3600]) auto
qed

theorem xau_feed_stays_fresh_witness:
  "(3700::int) - att_updatedAt (fresh_xau\<lparr>att_roundId := 1, att_answer := 404100000000,
     att_updatedAt := 2001\<rparr>) \<le> 3600"
  using xau_feed_stays_fresh [OF sample_world_run, of 2000 "[]" 3700] by (simp add: sample_env_def)

text \<open>
  C5.  End to end, the XAU keeper changes the feed only by posting, to an 8-decimal feed, the
  median of the token quotes, a price between 100 and 100000 dollars; over a positive published
  price it never moves it by a whole basis point more than MAX_JUMP_BPS (unless the move is
  within MIN_DELTA).  This covers runs that end in a thrown error after the transaction landed.
\<close>

theorem xau_post_is_guarded:
  assumes "runXau w a = (r, a')" and "a' \<noteq> a"
  shows "\<exists>c price nt. read_xau_settings (kw_env w) = Inr c
           \<and> decideGoldPrice (kw_dateParse w) (xau_gold_input w c) = GoldPost price nt
           \<and> att_decimals a = 8 \<and> att_answer a' = price \<and> att_roundId a' = att_roundId a + 1
           \<and> lands w (att_updatedAt a')
           \<and> 10000000000 \<le> price \<and> price \<le> 10000000000000
           \<and> (0 < att_answer a \<longrightarrow>
                \<bar>price - att_answer a\<bar> \<le> xs_minDelta c
                \<or> \<bar>price - att_answer a\<bar> * 10000 < (xs_maxJumpBps c + 1) * att_answer a)"
proof -
  from runXau_relayed [OF assms(1)] assms(2) obtain c price nt where
    c: "read_xau_settings (kw_env w) = Inr c"
    and g: "decideGoldPrice (kw_dateParse w) (xau_gold_input w c) = GoldPost price nt"
    and rel: "relayed w 8
                 (\<lambda>current updatedAt now. decidePost
                    \<lparr>di_current = current, di_currentUpdatedAt = updatedAt, di_next = price,
                     di_now = now, di_minDelta = xs_minDelta c, di_maxJumpBps = xs_maxJumpBps c,
                     di_heartbeatAge = xs_heartbeatAge c\<rparr>) price a r a'"
    by auto
  have "10000000000 \<le> price \<and> price \<le> 10000000000000"
    using GoldPost_sane [OF g] by (simp add: xau_gold_input_def)
  with rel assms(2) c g show ?thesis
    by (cases rule: relayed.cases) (auto simp: postAnswer_Inr_iff dest: decidePost_Post)
qed

theorem xau_post_is_guarded_witness:
  "\<exists>c price nt. decideGoldPrice sample_clock (xau_gold_input sample_world c) = GoldPost price nt
     \<and> 10000000000 \<le> price \<and> price \<le> 10000000000000"
proof -
  have "fresh_xau\<lparr>att_roundId := 1, att_answer := 404100000000, att_updatedAt := 2001\<rparr> \<noteq> fresh_xau"
    by (simp add: fresh_xau_def attestor_constructor_def)
  from xau_post_is_guarded [OF sample_world_run this] show ?thesis
    unfolding sample_world_simps by blast
qed

text \<open>
  C22.  End to end, the reserve keeper changes the mint-authorizing feed only to the positive
  figure of RESERVE_GRAMS on a 0-decimal feed, and a change of a positive published figure
  beyond the guard only when RESERVE_CONFIRM spells exactly that figure.
\<close>

theorem reserve_post_is_confirmed:
  assumes "runReserve w a = (r, a')" and "a' \<noteq> a"
  shows "\<exists>c. read_reserve_settings (kw_env w) = Inr c
           \<and> 0 < rs_next c \<and> att_decimals a = 0 \<and> att_answer a' = rs_next c
           \<and> (0 < att_answer a \<longrightarrow>
                rs_next c = att_answer a
                \<or> \<bar>rs_next c - att_answer a\<bar> * 10000 < (rs_maxJumpBps c + 1) * att_answer a
                \<or> kw_env w ''RESERVE_CONFIRM'' = Some (show_int (rs_next c)))"
proof -
  from runReserve_relayed [OF assms(1)] assms(2) obtain c where
    c: "read_reserve_settings (kw_env w) = Inr c"
    and rel: "relayed w 0
                (\<lambda>current updatedAt now. decideReservePost
                   \<lparr>dr_current = current, dr_currentUpdatedAt = updatedAt, dr_next = rs_next c,
                    dr_now = now, dr_heartbeatAge = rs_heartbeatAge c,
                    dr_maxJumpBps = rs_maxJumpBps c, dr_confirm = rs_confirm c\<rparr>) (rs_next c) a r a'"
    by auto
  have "0 < rs_next c" and conf: "rs_confirm c = Some v \<Longrightarrow> kw_env w ''RESERVE_CONFIRM'' = Some v" for v
    using c by (auto simp: read_reserve_settings_def rbind_Inr_iff parsePositiveInt_def Let_def
        split: option.splits if_splits)
  with rel assms(2) c show ?thesis
    by (cases rule: relayed.cases) (auto simp: postAnswer_Inr_iff dest: decideReservePost_Post)
qed

theorem reserve_post_is_confirmed_witness:
  "\<exists>c. read_reserve_settings sample_env = Inr c \<and> 0 < rs_next c"
proof -
  define a where "a = attestor_constructor ''poster'' 0"
  have "runReserve sample_world a =
      (Inr EXIT_POSTED, a\<lparr>att_roundId := 1, att_answer := 5000, att_updatedAt := 2001\<rparr>)"
    by (simp add: runReserve_def read_reserve_settings_def requireEnv_def bigint_env_def env_or_def
        sample_env_def parsePositiveInt_def js_simps relay_def submit_def fits_int256_def
        decision_defs postAnswer_def attestor_constructor_def a_def)
  from reserve_post_is_confirmed [OF this] show ?thesis
    by (auto simp: a_def attestor_constructor_def)
qed

lemma uzs_next_Some:
  assumes "uzs_next w c = Inr (Some v)"
  shows "\<exists>body r rate age. kw_fetch w (us_cbuUrl c) = HttpOk body \<and> parseCbuResponse body = Inr r
           \<and> parseDecimalToScaledInt (rateRaw r) 8 = Inr rate
           \<and> 0 < v \<and> 2 * \<bar>v * rate - 10000000000000000\<bar> \<le> rate
           \<and> cbuRateAgeDays (dateRaw r) (kw_today w) = Inr age
           \<and> -1 \<le> age \<and> \<not> int_gt age (us_maxCbAgeDays c)"
proof -
  from assms obtain body r rate age where *: "kw_fetch w (us_cbuUrl c) = HttpOk body"
    "parseCbuResponse body = Inr r" "parseDecimalToScaledInt (rateRaw r) 8 = Inr rate"
    "usdPerUzsFromRate rate = Inr v" "0 < v" "cbuRateAgeDays (dateRaw r) (kw_today w) = Inr age"
    "-1 \<le> age" "\<not> int_gt age (us_maxCbAgeDays c)"
    by (auto simp: uzs_next_def rbind_Inr_iff checkCbuAge_def
        split: fetch_reply.splits if_splits age_verdict.splits)
  then have "0 < rate" by (auto simp: usdPerUzsFromRate_def split: if_splits)
  with * usdPerUzs_nearest show ?thesis by fastforce
qed

text \<open>
  C26.  End to end, the UZS keeper changes the feed only to the nearest 8-decimal inverse of a
  rate the CBU reply carries: the error is at most half a unit of the rate, the rate's effective
  date is at most one day ahead and not beyond MAX_CB_AGE_DAYS old, and the jump guard holds.
\<close>

theorem uzs_post_is_nearest_inverse:
  assumes "runUzs w a = (r, a')" and "a' \<noteq> a"
  shows "\<exists>c body cbu rate age. read_uzs_settings (kw_env w) = Inr c
           \<and> kw_fetch w (us_cbuUrl c) = HttpOk body \<and> parseCbuResponse body = Inr cbu
           \<and> parseDecimalToScaledInt (rateRaw cbu) 8 = Inr rate
           \<and> 0 < att_answer a' \<and> 2 * \<bar>att_answer a' * rate - 10000000000000000\<bar> \<le> rate
           \<and> cbuRateAgeDays (dateRaw cbu) (kw_today w) = Inr age
           \<and> -1 \<le> age \<and> \<not> int_gt age (us_maxCbAgeDays c)
           \<and> (0 < att_answer a \<longrightarrow>
                \<bar>att_answer a' - att_answer a\<bar> \<le> us_minDelta c
                \<or> \<bar>att_answer a' - att_answer a\<bar> * 10000 < (us_maxJumpBps c + 1) * att_answer a)"
proof -
  from runUzs_relayed [OF assms(1)] assms(2) obtain c v where
    c: "read_uzs_settings (kw_env w) = Inr c" and v: "uzs_next w c = Inr (Some v)"
    and rel: "relayed w 8
                 (\<lambda>current updatedAt now. decidePost
                    \<lparr>di_current = current, di_currentUpdatedAt = updatedAt, di_next = v,
                     di_now = now, di_minDelta = us_minDelta c, di_maxJumpBps = us_maxJumpBps c,
                     di_heartbeatAge = us_heartbeatAge c\<rparr>) v a r a'"
    by auto
  from rel assms(2) have "att_answer a' = v \<and> (0 < att_answer a \<longrightarrow>
      \<bar>v - att_answer a\<bar> \<le> us_minDelta c
      \<or> \<bar>v - att_answer a\<bar> * 10000 < (us_maxJumpBps c + 1) * att_answer a)"
    by (cases rule: relayed.cases) (auto simp: postAnswer_Inr_iff dest: decidePost_Post)
  with c uzs_next_Some [OF v] show ?thesis by blast
qed

definition sample_cbu :: json where
  "sample_cbu = JArr [JObj [(''Rate'', JStr ''12500.00''), (''Date'', JStr ''22.07.2026'')]]"

definition sample_uzs_world :: keeper_world where
  "sample_uzs_world = sample_world
     \<lparr>kw_env := (\<lambda>k. if k = ''UZS_ATTESTOR_ADDRESS'' then Some ''0xatt'' else
               if k = ''KEY_UZS'' then Some ''0xkey'' else None),
      kw_fetch := (\<lambda>u. HttpOk sample_cbu)\<rparr>"

lemma sample_thresholds: "js_Number ''14'' = Fin 14 1" "js_Number ''3'' = Fin 3 1"
  by (simp_all add: js_Number_def unsigned_decimal_def exponent_part_def prefixed_def js_simps)

lemma sample_rate: "parseDecimalToScaledInt ''12500.00'' 8 = Inr 1250000000000"
  by (simp add: parseDecimalToScaledInt_def decimal_match_def js_simps)

lemma sample_inverse: "usdPerUzsFromRate 1250000000000 = Inr 8000"
  by (simp add: usdPerUzsFromRate_def signed_divide_int_def)

lemma sample_age: "cbuRateAgeDays ''22.07.2026'' (2026, 6, 23) = Inr 1"
proof -
  have "date_match (js_trim ''22.07.2026'') = Some (22, 7, 2026)"
    by (simp add: date_match_def js_simps)
  then show ?thesis
    by (simp add: cbuRateAgeDays_def utc_day_def make_day_def)
qed

lemmas sample_uzs_next = sample_thresholds sample_rate sample_inverse sample_age

lemma sample_uzs_run:
  "runUzs sample_uzs_world fresh_xau =
     (Inr EXIT_POSTED, fresh_xau\<lparr>att_roundId := 1, att_answer := 8000, att_updatedAt := 2001\<rparr>)"
  by (simp add: runUzs_def uzs_next_def read_uzs_settings_def requireEnv_def bigint_env_def env_or_def
      sample_uzs_world_def sample_uzs_next sample_cbu_def parseCbuResponse_def is_object_def js_prop_def
      as_string_def checkCbuAge_def int_gt_def js_BigInt_digits relay_def submit_def fits_int256_def
      decision_defs postAnswer_def attestor_constructor_def fresh_xau_def js_simps)

theorem uzs_post_is_nearest_inverse_witness:
  "\<exists>rate. parseDecimalToScaledInt ''12500.00'' 8 = Inr rate \<and> 2 * \<bar>8000 * rate - 10000000000000000\<bar> \<le> rate"
proof -
  have "fresh_xau\<lparr>att_roundId := 1, att_answer := 8000, att_updatedAt := 2001\<rparr> \<noteq> fresh_xau"
    by (simp add: fresh_xau_def attestor_constructor_def)
  from uzs_post_is_nearest_inverse [OF sample_uzs_run this] show ?thesis
    by (auto simp: sample_uzs_world_def sample_cbu_def parseCbuResponse_def is_object_def js_prop_def
        as_string_def)
qed

text \<open>
  A MAX_CB_AGE_DAYS that is not a number disables the staleness guard: \<^verbatim>\<open>Number\<close> yields NaN,
  every comparison with it is false, and a rate of any age that is not in the future passes the
  check; no error is raised.  (The BigInt settings of the same run reject such a value.)
\<close>

lemma cbu_age_guard_lost_on_nan:
  assumes "read_uzs_settings e = Inr c" and "e ''MAX_CB_AGE_DAYS'' = Some v" and "js_Number v = NaN"
    and "-1 \<le> age"
  shows "checkCbuAge age (us_cbWarnAgeDays c) (us_maxCbAgeDays c) \<in> {AgeOk, AgeWarn age}"
proof -
  have "us_maxCbAgeDays c = NaN"
    using assms(1-3) unfolding read_uzs_settings_def rbind_Inr_iff by (auto simp: env_or_def)
  with assms(4) show ?thesis by (simp add: checkCbuAge_def)
qed

lemma cbu_age_guard_lost_on_nan_witness:
  "\<exists>c::uzs_settings. checkCbuAge 5000 (us_cbWarnAgeDays c) (us_maxCbAgeDays c) \<in> {AgeOk, AgeWarn 5000}"
proof -
  define e where "e = (kw_env sample_uzs_world)(''MAX_CB_AGE_DAYS'' \<mapsto> ''two weeks'')"
  have "\<exists>c. read_uzs_settings e = Inr c"
    by (simp add: e_def sample_uzs_world_def read_uzs_settings_def requireEnv_def bigint_env_def
        env_or_def js_simps)
  then obtain c where "read_uzs_settings e = Inr c" ..
  moreover have "js_Number ''two weeks'' = NaN"
    by (simp add: js_Number_def unsigned_decimal_def prefixed_def js_simps)
  ultimately have "checkCbuAge 5000 (us_cbWarnAgeDays c) (us_maxCbAgeDays c) \<in> {AgeOk, AgeWarn 5000}"
    by (intro cbu_age_guard_lost_on_nan [of e _ "''two weeks''"]) (simp_all add: e_def)
  then show ?thesis by (rule exI)
qed

lemma run_feeds_Cons:
  "runFeed c = (r, c') \<Longrightarrow> run_feeds ((name, runFeed) # feeds) worst c =
     run_feeds feeds (if standalone_exit r = EXIT_FAILED then EXIT_FAILED
                      else if standalone_exit r = EXIT_POSTED \<and> worst \<noteq> EXIT_FAILED then EXIT_POSTED
                      else worst) c'"
  by (simp add: standalone_exit_def Let_def)

text \<open>
  The runner isolates the feeds and reports the worst outcome: whatever one keeper does,
  each feed ends as it would after a standalone run, and the process code is 1 iff some feed
  failed or threw, 0 iff none did and some feed posted, and 2 iff all skipped.
\<close>

lemma keeper_all_worst_and_isolated:
  fixes wx wr wu :: keeper_world and c :: chains
  defines "codes \<equiv> [standalone_exit (fst (runXau wx (ch_xau c))),
                    standalone_exit (fst (runReserve wr (ch_reserve c))),
                    standalone_exit (fst (runUzs wu (ch_uzs c)))]"
  shows "snd (keeper_all wx wr wu c) =
           \<lparr>ch_xau = snd (runXau wx (ch_xau c)), ch_reserve = snd (runReserve wr (ch_reserve c)),
            ch_uzs = snd (runUzs wu (ch_uzs c))\<rparr>
       \<and> fst (keeper_all wx wr wu c) =
           (if EXIT_FAILED \<in> set codes then EXIT_FAILED
            else if EXIT_POSTED \<in> set codes then EXIT_POSTED else EXIT_SKIPPED)"
proof -
  obtain rx ax where x: "runXau wx (ch_xau c) = (rx, ax)" by (cases "runXau wx (ch_xau c)")
  obtain rr ar where r: "runReserve wr (ch_reserve c) = (rr, ar)" by (cases "runReserve wr (ch_reserve c)")
  obtain ru au where u: "runUzs wu (ch_uzs c) = (ru, au)" by (cases "runUzs wu (ch_uzs c)")
  show ?thesis
    by (simp add: keeper_all_def codes_def x r u run_feeds_Cons del: run_feeds.simps(2))
qed

end
