(* ===== verification/History.thy ===== *)
theory History
  imports OltinPrelude
begin

text \<open>
  The transaction feed of the wallet screen, \<^verbatim>\<open>lib/history.ts\<close> of the webapp: the token symbol
  and display kind of a row and the collapse of the mint/burn double record.
\<close>

section \<open>Rows\<close>

datatype direction = DirIn | DirOut | DirSelf

record transaction =
  tx_hash :: string
  event_type :: string
  tx_direction :: direction
  block_number :: int
  from_address :: "string option"
  to_address :: "string option"
  amount_wei :: "string option"
  explorer_url :: string
  indexed_at :: string

datatype history_kind = Received | Sent | Minted | Burned | SelfTransfer

datatype token_symbol = UZD | OLTIN

record display_tx =
  d_tx_hash :: string
  d_symbol :: token_symbol
  d_kind :: history_kind
  d_amount_wei :: "string option"
  d_explorer_url :: string
  d_indexed_at :: string

definition zeroAddress :: string where
  "zeroAddress = ''0x0000000000000000000000000000000000000000''"

definition symbolOf :: "string \<Rightarrow> token_symbol option" where
  "symbolOf eventType =
     (if js_startsWith eventType ''uzd_'' then Some UZD
      else if js_startsWith eventType ''oltin_'' then Some OLTIN
      else None)"

definition isZero :: "string option \<Rightarrow> bool" where
  "isZero addr \<longleftrightarrow> js_lower (case addr of None \<Rightarrow> [] | Some a \<Rightarrow> a) = zeroAddress"

definition kindOf :: "transaction \<Rightarrow> history_kind" where
  "kindOf tx =
     (let isTransfer = js_endsWith (event_type tx) ''_transfer'' in
      if js_endsWith (event_type tx) ''_minted'' \<or> (isTransfer \<and> isZero (from_address tx)) then Minted
      else if js_endsWith (event_type tx) ''_admin_burned'' \<or> (isTransfer \<and> isZero (to_address tx)) then Burned
      else if tx_direction tx = DirSelf then SelfTransfer
      else if tx_direction tx = DirIn then Received else Sent)"

section \<open>Preparing the feed\<close>

text \<open>The template string \<^verbatim>\<open>`${hash}|${symbol}|${amount}`\<close>; a null amount prints as null.\<close>

definition show_symbol :: "token_symbol option \<Rightarrow> string" where
  "show_symbol sy = (case sy of None \<Rightarrow> ''null'' | Some UZD \<Rightarrow> ''UZD'' | Some OLTIN \<Rightarrow> ''OLTIN'')"

definition collapse_key :: "transaction \<Rightarrow> string" where
  "collapse_key tx =
     tx_hash tx @ ''|'' @ show_symbol (symbolOf (event_type tx)) @ ''|''
     @ (case amount_wei tx of None \<Rightarrow> ''null'' | Some a \<Rightarrow> a)"

definition is_supply_event :: "transaction \<Rightarrow> bool" where
  "is_supply_event tx \<longleftrightarrow> js_endsWith (event_type tx) ''_minted'' \<or> js_endsWith (event_type tx) ''_admin_burned''"

definition keep_tx :: "string set \<Rightarrow> transaction \<Rightarrow> bool" where
  "keep_tx collapsed tx =
     (if \<not> js_endsWith (event_type tx) ''_transfer'' then True
      else if \<not> isZero (from_address tx) \<and> \<not> isZero (to_address tx) then True
      else collapse_key tx \<notin> collapsed)"

definition display :: "transaction \<Rightarrow> display_tx" where
  "display tx =
     \<lparr>d_tx_hash = tx_hash tx, d_symbol = the (symbolOf (event_type tx)), d_kind = kindOf tx,
      d_amount_wei = amount_wei tx, d_explorer_url = explorer_url tx, d_indexed_at = indexed_at tx\<rparr>"

lemma display_simps [simp]:
  "d_tx_hash (display tx) = tx_hash tx" "d_symbol (display tx) = the (symbolOf (event_type tx))"
  "d_kind (display tx) = kindOf tx" "d_amount_wei (display tx) = amount_wei tx"
  by (simp_all add: display_def)

definition prepareHistory :: "transaction list \<Rightarrow> display_tx list" where
  "prepareHistory txs =
     (let tokenTxs = filter (\<lambda>tx. symbolOf (event_type tx) \<noteq> None) txs;
          collapsed = set (map collapse_key (filter is_supply_event tokenTxs)) in
      map display (filter (keep_tx collapsed) tokenTxs))"

section \<open>Keys\<close>

lemma bar_notin_symbol: "CHR ''|'' \<notin> set (show_symbol sy)"
  by (auto simp: show_symbol_def split: option.splits token_symbol.splits)

lemma show_symbol_inject: "show_symbol (Some a) = show_symbol (Some b) \<longleftrightarrow> a = b"
  by (cases a; cases b) (simp_all add: show_symbol_def)

text \<open>A row as the indexer writes it: a hash without separators, an amount that is a number.\<close>

definition row_ok :: "transaction \<Rightarrow> bool" where
  "row_ok tx \<longleftrightarrow> CHR ''|'' \<notin> set (tx_hash tx) \<and> amount_wei tx \<noteq> Some ''null''"

lemma collapse_key_inject:
  assumes "row_ok a" and "row_ok b" and "symbolOf (event_type a) \<noteq> None" and "symbolOf (event_type b) \<noteq> None"
    and "collapse_key a = collapse_key b"
  shows "tx_hash a = tx_hash b \<and> symbolOf (event_type a) = symbolOf (event_type b) \<and> amount_wei a = amount_wei b"
proof -
  let ?amt = "\<lambda>tx. case amount_wei tx of None \<Rightarrow> ''null'' | Some x \<Rightarrow> x"
  from assms(5) have "tx_hash a = tx_hash b
      \<and> show_symbol (symbolOf (event_type a)) @ CHR ''|'' # ?amt a
        = show_symbol (symbolOf (event_type b)) @ CHR ''|'' # ?amt b"
    using assms(1,2) by (simp add: collapse_key_def row_ok_def append_sep_inject)
  then have "tx_hash a = tx_hash b" "show_symbol (symbolOf (event_type a)) = show_symbol (symbolOf (event_type b))"
    "?amt a = ?amt b"
    by (simp_all add: append_sep_inject bar_notin_symbol)
  then show ?thesis
    using assms(1-4) show_symbol_inject
    by (auto simp: row_ok_def split: option.splits)
qed

lemma endsWith_append: "js_endsWith s p \<longleftrightarrow> (\<exists>t. s = t @ p)"
proof
  assume "js_endsWith s p"
  then have "s = take (length s - length p) s @ p"
    unfolding js_endsWith_def by (metis append_take_drop_id)
  then show "\<exists>t. s = t @ p" ..
qed (auto simp: js_endsWith_def)

lemma supply_not_transfer: "is_supply_event tx \<Longrightarrow> \<not> js_endsWith (event_type tx) ''_transfer''"
proof
  assume "is_supply_event tx" and "js_endsWith (event_type tx) ''_transfer''"
  then have "last (event_type tx) = CHR ''d''" and "last (event_type tx) = CHR ''r''"
    by (auto simp: is_supply_event_def endsWith_append)
  then show False by simp
qed

lemma supply_kept: "is_supply_event tx \<Longrightarrow> keep_tx collapsed tx"
  by (simp add: keep_tx_def supply_not_transfer)

definition token_txs :: "transaction list \<Rightarrow> transaction list" where
  "token_txs txs = filter (\<lambda>tx. symbolOf (event_type tx) \<noteq> None) txs"

definition kept :: "transaction list \<Rightarrow> transaction list" where
  "kept txs = filter (keep_tx (set (map collapse_key (filter is_supply_event (token_txs txs))))) (token_txs txs)"

lemma prepareHistory_kept: "prepareHistory txs = map display (kept txs)"
  by (simp add: prepareHistory_def kept_def token_txs_def Let_def)

text \<open>A row is dropped only next to its supply event in the same transaction.\<close>

lemma dropped_has_supply_event:
  assumes "\<forall>tx \<in> set txs. row_ok tx" and "tx \<in> set (token_txs txs)" and "tx \<notin> set (kept txs)"
  shows "js_endsWith (event_type tx) ''_transfer'' \<and> (isZero (from_address tx) \<or> isZero (to_address tx))
       \<and> (\<exists>ev \<in> set (kept txs). is_supply_event ev \<and> tx_hash ev = tx_hash tx
            \<and> symbolOf (event_type ev) = symbolOf (event_type tx) \<and> amount_wei ev = amount_wei tx)"
proof -
  let ?C = "set (map collapse_key (filter is_supply_event (token_txs txs)))"
  have nk: "\<not> keep_tx ?C tx" using assms(2,3) by (simp add: kept_def)
  then have zero: "js_endsWith (event_type tx) ''_transfer''"
    "isZero (from_address tx) \<or> isZero (to_address tx)" "collapse_key tx \<in> ?C"
    by (auto simp: keep_tx_def split: if_splits)
  then obtain ev where ev: "ev \<in> set (token_txs txs)" "is_supply_event ev" "collapse_key ev = collapse_key tx"
    by auto
  then have "ev \<in> set (kept txs)" by (simp add: kept_def supply_kept)
  with ev zero collapse_key_inject [of ev tx] assms(1,2) show ?thesis
    by (auto simp: token_txs_def)
qed

lemma kept_subseq: "subseq (kept txs) txs"
  unfolding kept_def token_txs_def
  by (rule subseq_order.trans) (rule subseq_filter_left)+

lemma kept_set: "tx \<in> set (kept txs) \<Longrightarrow> tx \<in> set txs \<and> symbolOf (event_type tx) \<noteq> None"
  by (auto simp: kept_def token_txs_def)

lemma dropped_beside_event:
  assumes "ev \<in> set (token_txs txs)" and "is_supply_event ev" and "js_endsWith (event_type tx) ''_transfer''"
    and "isZero (from_address tx) \<or> isZero (to_address tx)"
    and "tx_hash tx = tx_hash ev" and "symbolOf (event_type tx) = symbolOf (event_type ev)"
    and "amount_wei tx = amount_wei ev"
  shows "tx \<notin> set (kept txs)"
proof -
  have "collapse_key tx = collapse_key ev" using assms by (simp add: collapse_key_def)
  then have "collapse_key tx \<in> set (map collapse_key (filter is_supply_event (token_txs txs)))"
    using assms(1,2) by auto
  then show ?thesis using assms(3,4) by (auto simp: kept_def keep_tx_def)
qed

section \<open>Properties\<close>

text \<open>
  C27.  No money leg disappears: every token row of the feed is shown itself, or it is a
  zero-address transfer and the shown list contains a row of the same transaction, token and
  amount.  Rows of other events are never shown, and the order of the feed is kept.
\<close>

theorem history_loses_no_leg:
  assumes "\<forall>tx \<in> set txs. row_ok tx"
  shows "(\<forall>tx \<in> set txs. \<forall>sy. symbolOf (event_type tx) = Some sy \<longrightarrow>
            (\<exists>d \<in> set (prepareHistory txs). d_tx_hash d = tx_hash tx \<and> d_symbol d = sy
               \<and> d_amount_wei d = amount_wei tx
               \<and> (d = display tx \<or> isZero (from_address tx) \<or> isZero (to_address tx))))
       \<and> (\<exists>shown. subseq shown txs \<and> prepareHistory txs = map display shown
            \<and> (\<forall>tx \<in> set shown. symbolOf (event_type tx) \<noteq> None))"
proof (intro conjI ballI allI impI)
  fix tx sy
  assume tx: "tx \<in> set txs" and sy: "symbolOf (event_type tx) = Some sy"
  then have tok: "tx \<in> set (token_txs txs)" by (simp add: token_txs_def)
  show "\<exists>d \<in> set (prepareHistory txs). d_tx_hash d = tx_hash tx \<and> d_symbol d = sy
      \<and> d_amount_wei d = amount_wei tx
      \<and> (d = display tx \<or> isZero (from_address tx) \<or> isZero (to_address tx))"
  proof (cases "tx \<in> set (kept txs)")
    case True
    then show ?thesis
      using sy by (intro bexI [of _ "display tx"]) (simp_all add: prepareHistory_kept)
  next
    case False
    from dropped_has_supply_event [OF assms tok this] obtain ev where
      "ev \<in> set (kept txs)" "tx_hash ev = tx_hash tx" "symbolOf (event_type ev) = symbolOf (event_type tx)"
      "amount_wei ev = amount_wei tx" "isZero (from_address tx) \<or> isZero (to_address tx)"
      by blast
    then show ?thesis
      using sy by (intro bexI [of _ "display ev"]) (auto simp: prepareHistory_kept)
  qed
next
  show "\<exists>shown. subseq shown txs \<and> prepareHistory txs = map display shown
      \<and> (\<forall>tx \<in> set shown. symbolOf (event_type tx) \<noteq> None)"
    using kept_subseq kept_set by (intro exI [of _ "kept txs"]) (auto simp: prepareHistory_kept)
qed

definition sample_mint :: "transaction list" where
  "sample_mint =
     [\<lparr>tx_hash = ''0xaa'', event_type = ''uzd_minted'', tx_direction = DirIn, block_number = 1, from_address = None,
       to_address = Some ''0x11'', amount_wei = Some ''100'', explorer_url = [], indexed_at = []\<rparr>,
      \<lparr>tx_hash = ''0xaa'', event_type = ''uzd_transfer'', tx_direction = DirIn, block_number = 1,
       from_address = Some zeroAddress, to_address = Some ''0x11'', amount_wei = Some ''100'',
       explorer_url = [], indexed_at = []\<rparr>]"

theorem history_loses_no_leg_witness:
  "\<exists>d \<in> set (prepareHistory sample_mint). d_tx_hash d = ''0xaa'' \<and> d_symbol d = UZD
     \<and> d_amount_wei d = Some ''100''"
proof -
  have "\<forall>tx \<in> set sample_mint. row_ok tx" by (simp add: sample_mint_def row_ok_def)
  from history_loses_no_leg [OF this] show ?thesis
    by (auto simp: sample_mint_def symbolOf_def js_simps)
qed

text \<open>
  The mint/burn double record collapses to one row: a zero-address transfer whose supply
  event is in the feed is not shown, whatever the order in which the indexer lists the two, and
  every supply event is shown.
\<close>

lemma history_collapses_double_record:
  assumes "ev \<in> set txs" and "is_supply_event ev" and "symbolOf (event_type ev) \<noteq> None"
    and "tx \<in> set txs" and "js_endsWith (event_type tx) ''_transfer''"
    and "isZero (from_address tx) \<or> isZero (to_address tx)"
    and "tx_hash tx = tx_hash ev" and "symbolOf (event_type tx) = symbolOf (event_type ev)"
    and "amount_wei tx = amount_wei ev"
  shows "\<exists>shown. prepareHistory txs = map display shown \<and> subseq shown txs
           \<and> tx \<notin> set shown \<and> ev \<in> set shown"
proof (intro exI [of _ "kept txs"] conjI)
  have ev: "ev \<in> set (token_txs txs)" using assms by (simp add: token_txs_def)
  show "tx \<notin> set (kept txs)" by (rule dropped_beside_event [OF ev]) (use assms in auto)
  show "ev \<in> set (kept txs)" using ev assms(2) by (simp add: kept_def supply_kept)
qed (rule prepareHistory_kept kept_subseq)+

lemma history_collapses_double_record_witness:
  "\<exists>shown. prepareHistory sample_mint = map display shown \<and> subseq shown sample_mint
     \<and> sample_mint ! 1 \<notin> set shown \<and> sample_mint ! 0 \<in> set shown"
  by (rule history_collapses_double_record)
    (simp_all add: sample_mint_def is_supply_event_def symbolOf_def isZero_def zeroAddress_def js_simps)

definition sample_mint_and_burn :: "transaction list" where
  "sample_mint_and_burn =
     [\<lparr>tx_hash = ''0xaa'', event_type = ''oltin_minted'', tx_direction = DirIn, block_number = 1, from_address = None,
       to_address = Some ''0x11'', amount_wei = Some ''100'', explorer_url = [], indexed_at = []\<rparr>,
      \<lparr>tx_hash = ''0xaa'', event_type = ''oltin_transfer'', tx_direction = DirOut, block_number = 1,
       from_address = Some ''0x11'', to_address = Some zeroAddress, amount_wei = Some ''100'',
       explorer_url = [], indexed_at = []\<rparr>]"

lemma sample_burn_dropped: "sample_mint_and_burn ! 1 \<notin> set (kept sample_mint_and_burn)"
  by (rule dropped_beside_event [of "sample_mint_and_burn ! 0"])
    (simp_all add: sample_mint_and_burn_def token_txs_def is_supply_event_def symbolOf_def isZero_def
      zeroAddress_def js_simps)

text \<open>
  The collapse key does not carry the kind: when one transaction mints and burns the same
  amount of a token and only the mint has a supply event, the burn (a lone zero-address transfer)
  is not shown, and no burn row stands in for it.
\<close>

lemma history_hides_burn_beside_mint:
  "kindOf (sample_mint_and_burn ! 1) = Burned
   \<and> d_kind ` set (prepareHistory sample_mint_and_burn) \<subseteq> {Minted}"
proof
  show "kindOf (sample_mint_and_burn ! 1) = Burned"
    by (simp add: sample_mint_and_burn_def kindOf_def isZero_def zeroAddress_def js_simps)
  have "set (kept sample_mint_and_burn) \<subseteq> {sample_mint_and_burn ! 0}"
    using sample_burn_dropped kept_set [of _ sample_mint_and_burn]
    by (auto simp: sample_mint_and_burn_def)
  moreover have "d_kind (display (sample_mint_and_burn ! 0)) = Minted"
    by (simp add: sample_mint_and_burn_def kindOf_def js_simps)
  ultimately show "d_kind ` set (prepareHistory sample_mint_and_burn) \<subseteq> {Minted}"
    by (auto simp: prepareHistory_kept)
qed

end
