(* ===== verification/WalletLib.thy ===== *)
theory WalletLib
  imports JsonValue Attestor
begin

text \<open>
  The non-custodial wallet, \<^verbatim>\<open>lib/wallet.ts\<close> of the webapp: sealing the seed phrase under a PIN
  and keeping the sealed blob in Telegram Cloud Storage or, outside Telegram, in localStorage.

  BIP39, scrypt, AES-GCM, the hex codec, TextEncoder/TextDecoder and HD derivation are library
  and platform code: a record of functions, an argument of every operation that uses them.  Byte
  strings are \<^typ>\<open>string\<close>.  \<^verbatim>\<open>encrypted_ok\<close> names the laws the code relies on.
\<close>

section \<open>Libraries\<close>

record wallet_crypto =
  wc_validateMnemonic :: "string \<Rightarrow> bool"                 \<comment> \<open>with the English word list\<close>
  wc_encode :: "string \<Rightarrow> string"
  wc_decode :: "string \<Rightarrow> string"
  wc_scrypt :: "string \<Rightarrow> string \<Rightarrow> string"               \<comment> \<open>PIN bytes, salt\<close>
  wc_encrypt :: "string \<Rightarrow> string \<Rightarrow> string \<Rightarrow> string"    \<comment> \<open>key, IV, plaintext\<close>
  wc_decrypt :: "string \<Rightarrow> string \<Rightarrow> string \<Rightarrow> string option"
  wc_bytesToHex :: "string \<Rightarrow> string"
  wc_hexToBytes :: "string \<Rightarrow> string option"
  wc_account :: "string \<Rightarrow> address"                      \<comment> \<open>mnemonicToAccount at HD_PATH\<close>

datatype wallet_error =
    InvalidMnemonic
  | PinTooShort
  | UnsupportedVersion
  | BadHex
  | InvalidPin
  | DecryptedNotMnemonic
  | StorageError string
  | NoStorageBackend

section \<open>Sealing the phrase\<close>

definition isValidMnemonic :: "wallet_crypto \<Rightarrow> string \<Rightarrow> bool" where
  "isValidMnemonic C phrase = wc_validateMnemonic C (js_lower (js_trim phrase))"

definition mnemonicToHDAccount :: "wallet_crypto \<Rightarrow> string \<Rightarrow> address" where
  "mnemonicToHDAccount C mnemonic = wc_account C mnemonic"

definition deriveKey :: "wallet_crypto \<Rightarrow> string \<Rightarrow> string \<Rightarrow> string" where
  "deriveKey C pin salt = wc_scrypt C (wc_encode C pin) salt"

record encrypted_wallet =
  ew_v :: int
  ew_salt :: string
  ew_nonce :: string
  ew_ciphertext :: string

text \<open>The two \<^verbatim>\<open>randomBytes\<close> draws are arguments.\<close>

definition encryptMnemonic ::
  "wallet_crypto \<Rightarrow> string \<Rightarrow> string \<Rightarrow> string \<Rightarrow> string \<Rightarrow> (wallet_error, encrypted_wallet) result" where
  "encryptMnemonic C salt nonce mnemonic pin =
     (if \<not> isValidMnemonic C mnemonic then Inl InvalidMnemonic
      else if length pin < 4 then Inl PinTooShort
      else let key = deriveKey C pin salt;
               plaintext = wc_encode C (js_trim mnemonic) in
        Inr \<lparr>ew_v = 1, ew_salt = wc_bytesToHex C salt, ew_nonce = wc_bytesToHex C nonce,
             ew_ciphertext = wc_bytesToHex C (wc_encrypt C key nonce plaintext)\<rparr>)"

text \<open>
  A stored blob is whatever JSON the storage holds: the cast to \<^verbatim>\<open>EncryptedWallet\<close> checks
  nothing, and \<^verbatim>\<open>hexToBytes\<close> throws on anything that is not a hex string.
\<close>

definition wallet_json :: "encrypted_wallet \<Rightarrow> json" where
  "wallet_json b = JObj [(''v'', JNum (ew_v b)), (''salt'', JStr (ew_salt b)),
     (''nonce'', JStr (ew_nonce b)), (''ciphertext'', JStr (ew_ciphertext b))]"

definition hex_field :: "wallet_crypto \<Rightarrow> json \<Rightarrow> string \<Rightarrow> (wallet_error, string) result" where
  "hex_field C blob k =
     (case as_string (js_prop blob k) of
        None \<Rightarrow> Inl BadHex
      | Some h \<Rightarrow> (case wc_hexToBytes C h of None \<Rightarrow> Inl BadHex | Some b \<Rightarrow> Inr b))"

definition decryptMnemonic :: "wallet_crypto \<Rightarrow> json \<Rightarrow> string \<Rightarrow> (wallet_error, string) result" where
  "decryptMnemonic C blob pin =
     (if js_prop blob ''v'' \<noteq> Some (JNum 1) then Inl UnsupportedVersion
      else rbind (hex_field C blob ''salt'') (\<lambda>salt.
           rbind (hex_field C blob ''nonce'') (\<lambda>nonce.
           rbind (hex_field C blob ''ciphertext'') (\<lambda>ciphertext.
             case wc_decrypt C (deriveKey C pin salt) nonce ciphertext of
               None \<Rightarrow> Inl InvalidPin
             | Some plaintext \<Rightarrow>
                 (let mnemonic = wc_decode C plaintext in
                  if \<not> isValidMnemonic C mnemonic then Inl DecryptedNotMnemonic
                  else Inr mnemonic)))))"

section \<open>Persistence\<close>

text \<open>
  A stored text is represented by what \<^verbatim>\<open>JSON.parse\<close> makes of it: a text it accepts, with its
  value, or a text it rejects.  \<^verbatim>\<open>JSON.stringify\<close> yields a text of the first kind.
\<close>

datatype json_text = JsonText json | NotJson string

datatype backend = CloudStorage | LocalStorage | NoStorage

record storage =
  st_backend :: backend
  st_items :: "string \<Rightarrow> json_text option"
  st_fault :: "string option"       \<comment> \<open>the error the backend reports, if it does\<close>

definition STORAGE_KEY :: string where "STORAGE_KEY = ''encrypted_wallet_v1''"

definition saveEncryptedWallet :: "encrypted_wallet \<Rightarrow> storage \<Rightarrow> (wallet_error, unit) result \<times> storage" where
  "saveEncryptedWallet blob s =
     (case st_backend s of
        NoStorage \<Rightarrow> (Inl NoStorageBackend, s)
      | _ \<Rightarrow>
          (case st_fault s of
             Some e \<Rightarrow> (Inl (StorageError e), s)
           | None \<Rightarrow> (Inr (), s\<lparr>st_items := (st_items s)(STORAGE_KEY \<mapsto> JsonText (wallet_json blob))\<rparr>)))"

text \<open>A missing or empty item, unparsable text and the text of null all resolve to null.\<close>

definition parse_item :: "json_text option \<Rightarrow> json option" where
  "parse_item v =
     (case v of
        None \<Rightarrow> None
      | Some (NotJson _) \<Rightarrow> None
      | Some (JsonText j) \<Rightarrow> if j = JNull then None else Some j)"

definition loadEncryptedWallet :: "storage \<Rightarrow> (wallet_error, json option) result" where
  "loadEncryptedWallet s =
     (case st_backend s of
        NoStorage \<Rightarrow> Inr None
      | _ \<Rightarrow>
          (case st_fault s of
             Some e \<Rightarrow> Inl (StorageError e)
           | None \<Rightarrow> Inr (parse_item (st_items s STORAGE_KEY))))"

definition removeEncryptedWallet :: "storage \<Rightarrow> (wallet_error, unit) result \<times> storage" where
  "removeEncryptedWallet s =
     (case st_backend s of
        NoStorage \<Rightarrow> (Inr (), s)
      | _ \<Rightarrow>
          (case st_fault s of
             Some e \<Rightarrow> (Inl (StorageError e), s)
           | None \<Rightarrow> (Inr (), s\<lparr>st_items := (st_items s)(STORAGE_KEY := None)\<rparr>)))"

definition hasWallet :: "storage \<Rightarrow> (wallet_error, bool) result" where
  "hasWallet s = rbind (loadEncryptedWallet s) (\<lambda>b. Inr (b \<noteq> None))"

section \<open>Laws of the libraries\<close>

definition encrypted_ok :: "wallet_crypto \<Rightarrow> bool" where
  "encrypted_ok C \<longleftrightarrow>
     (\<forall>b. wc_hexToBytes C (wc_bytesToHex C b) = Some b)
     \<and> (\<forall>s. wc_decode C (wc_encode C s) = s)
     \<and> (\<forall>k n p. wc_decrypt C k n (wc_encrypt C k n p) = Some p)"

text \<open>AES-GCM is authenticated: a ciphertext opens only under the key it was made with.\<close>

definition authenticated :: "wallet_crypto \<Rightarrow> bool" where
  "authenticated C \<longleftrightarrow>
     (\<forall>k k' n p q. wc_decrypt C k' n (wc_encrypt C k n p) = Some q \<longrightarrow> k' = k)"

section \<open>The storage interface\<close>

locale blob_store =
  fixes save :: "'b \<Rightarrow> 's \<Rightarrow> (wallet_error, unit) result \<times> 's"
    and load :: "'s \<Rightarrow> (wallet_error, 'c option) result"
    and remove :: "'s \<Rightarrow> (wallet_error, unit) result \<times> 's"
    and repr :: "'b \<Rightarrow> 'c"
  assumes save_load: "save b s = (Inr (), s') \<Longrightarrow> load s' = Inr (Some (repr b))"
    and save_fail: "save b s = (Inl e, s') \<Longrightarrow> s' = s"
    and remove_load: "remove s = (Inr (), s') \<Longrightarrow> load s' = Inr None"
    and remove_fail: "remove s = (Inl e, s') \<Longrightarrow> s' = s"
begin

lemma save_cases:
  "(fst (save b s) = Inr () \<and> load (snd (save b s)) = Inr (Some (repr b))) \<or> snd (save b s) = s"
proof (cases "fst (save b s)")
  case (Inl e)
  then show ?thesis using save_fail [of b s e "snd (save b s)"] by (simp add: prod_eq_iff)
next
  case (Inr u)
  then show ?thesis using save_load [of b s "snd (save b s)"] by (simp add: prod_eq_iff)
qed

text \<open>After any mix of saves and removes, a loaded blob is the original one or a saved one.\<close>

lemma load_after_saves:
  assumes "load (fold (\<lambda>op s. case op of Some b \<Rightarrow> snd (save b s) | None \<Rightarrow> snd (remove s)) ops s) = Inr (Some c)"
  shows "load s = Inr (Some c) \<or> (\<exists>b. Some b \<in> set ops \<and> c = repr b)"
  using assms
proof (induction ops arbitrary: s)
  case Nil
  then show ?case by simp
next
  case (Cons op ops)
  let ?s' = "case op of Some b \<Rightarrow> snd (save b s) | None \<Rightarrow> snd (remove s)"
  have "load ?s' = Inr (Some c) \<or> (\<exists>b. Some b \<in> set ops \<and> c = repr b)"
    using Cons.IH [of ?s'] Cons.prems by simp
  then show ?case
  proof
    assume l: "load ?s' = Inr (Some c)"
    show ?thesis
    proof (cases op)
      case (Some b)
      with l save_cases [of b s] show ?thesis by auto
    next
      case None
      then show ?thesis
        using l remove_load [of s "snd (remove s)"] remove_fail [of s _ "snd (remove s)"]
        by (cases "fst (remove s)") (auto simp: prod_eq_iff)
    qed
  qed auto
qed

end

lemma wallet_json_not_null [simp]: "wallet_json b \<noteq> JNull"
  by (simp add: wallet_json_def)

interpretation wstore: blob_store saveEncryptedWallet loadEncryptedWallet removeEncryptedWallet wallet_json
  by unfold_locales
    (auto simp: saveEncryptedWallet_def loadEncryptedWallet_def removeEncryptedWallet_def parse_item_def
      split: backend.splits option.splits)

section \<open>Sealing and opening\<close>

lemma wallet_json_props [simp]:
  "js_prop (wallet_json b) ''v'' = Some (JNum (ew_v b))"
  "js_prop (wallet_json b) ''salt'' = Some (JStr (ew_salt b))"
  "js_prop (wallet_json b) ''nonce'' = Some (JStr (ew_nonce b))"
  "js_prop (wallet_json b) ''ciphertext'' = Some (JStr (ew_ciphertext b))"
  by (simp_all add: wallet_json_def js_prop_def)

lemma encryptMnemonic_Inr:
  "encryptMnemonic C salt nonce mn pin = Inr b \<longleftrightarrow>
     isValidMnemonic C mn \<and> 4 \<le> length pin
     \<and> b = \<lparr>ew_v = 1, ew_salt = wc_bytesToHex C salt, ew_nonce = wc_bytesToHex C nonce,
            ew_ciphertext = wc_bytesToHex C
              (wc_encrypt C (deriveKey C pin salt) nonce (wc_encode C (js_trim mn)))\<rparr>"
  by (auto simp: encryptMnemonic_def Let_def)

lemma decrypt_sealed:
  assumes "encrypted_ok C" and "encryptMnemonic C salt nonce mn pin = Inr b"
  shows "decryptMnemonic C (wallet_json b) pin' =
     (case wc_decrypt C (deriveKey C pin' salt) nonce
        (wc_encrypt C (deriveKey C pin salt) nonce (wc_encode C (js_trim mn))) of
        None \<Rightarrow> Inl InvalidPin
      | Some p \<Rightarrow> if isValidMnemonic C (wc_decode C p) then Inr (wc_decode C p) else Inl DecryptedNotMnemonic)"
  using assms
  by (auto simp: encryptMnemonic_Inr encrypted_ok_def decryptMnemonic_def hex_field_def Let_def
      split: option.splits)

lemma valid_trim: "isValidMnemonic C (js_trim mn) = isValidMnemonic C mn"
  by (simp add: isValidMnemonic_def)

lemma decrypt_same_pin:
  assumes "encrypted_ok C" and "encryptMnemonic C salt nonce mn pin = Inr b"
  shows "decryptMnemonic C (wallet_json b) pin = Inr (js_trim mn)"
  using assms decrypt_sealed [OF assms, of pin]
  by (simp add: encrypted_ok_def encryptMnemonic_Inr valid_trim)

section \<open>Properties\<close>

text \<open>
  C23.  The seed survives the round trip through storage: after a phrase was sealed under a PIN
  and saved, loading the blob and opening it with the same PIN gives the phrase back, trimmed;
  any PIN whose derived key differs is told the PIN is invalid and gets nothing; and the
  presence check then answers that a wallet exists.
\<close>

theorem wallet_roundtrip:
  assumes "encrypted_ok C" and "authenticated C"
    and "encryptMnemonic C salt nonce mn pin = Inr b" and "saveEncryptedWallet b s = (Inr (), s')"
  shows "\<exists>j. loadEncryptedWallet s' = Inr (Some j)
           \<and> decryptMnemonic C j pin = Inr (js_trim mn)
           \<and> (\<forall>pin'. deriveKey C pin' salt \<noteq> deriveKey C pin salt \<longrightarrow> decryptMnemonic C j pin' = Inl InvalidPin)
           \<and> hasWallet s' = Inr True"
proof -
  have "loadEncryptedWallet s' = Inr (Some (wallet_json b))"
    by (rule wstore.save_load [OF assms(4)])
  moreover have "decryptMnemonic C (wallet_json b) pin' = Inl InvalidPin"
    if "deriveKey C pin' salt \<noteq> deriveKey C pin salt" for pin'
  proof -
    have "wc_decrypt C (deriveKey C pin' salt) nonce
        (wc_encrypt C (deriveKey C pin salt) nonce (wc_encode C (js_trim mn))) = None"
      using assms(2) that unfolding authenticated_def by (metis option.exhaust)
    then show ?thesis using decrypt_sealed [OF assms(1,3), of pin'] by simp
  qed
  ultimately show ?thesis
    using decrypt_same_pin [OF assms(1,3)] by (simp add: hasWallet_def)
qed

text \<open>A toy instance of the libraries: the laws are satisfiable.\<close>

definition toy_crypto :: wallet_crypto where
  "toy_crypto = \<lparr>wc_validateMnemonic = (\<lambda>p. p = ''abandon ability'' \<or> p = ''a b c d e f g h i j k l''), wc_encode = id, wc_decode = id,
     wc_scrypt = (\<lambda>p s. p @ s), wc_encrypt = (\<lambda>k n p. show_nat (length k) @ ''|'' @ k @ p),
     wc_decrypt = (\<lambda>k n c. let h = show_nat (length k) @ ''|'' @ k in
        if take (length h) c = h then Some (drop (length h) c) else None),
     wc_bytesToHex = id, wc_hexToBytes = Some, wc_account = (\<lambda>m. ''0x'' @ m)\<rparr>"

lemma toy_encrypted_ok: "encrypted_ok toy_crypto"
  by (simp add: encrypted_ok_def toy_crypto_def Let_def)

lemma bar_not_digit: "\<not> is_digit CHR ''|''"
  by (simp add: is_digit_def code_def)

lemma bar_notin_show_nat: "CHR ''|'' \<notin> set (show_nat n)"
  using set_show_nat bar_not_digit by blast

lemma toy_authenticated: "authenticated toy_crypto"
proof -
  have key: "k' = k" if "take (length h) c = h" and "h = show_nat (length k') @ ''|'' @ k'"
    and "c = show_nat (length k) @ ''|'' @ k @ p" for k k' p h c
  proof -
    have "c = h @ drop (length h) c" using that(1) by (metis append_take_drop_id)
    then have "show_nat (length k) @ CHR ''|'' # k @ p
        = show_nat (length k') @ CHR ''|'' # k' @ drop (length h) c"
      using that(2,3) by simp
    then have "show_nat (length k) = show_nat (length k') \<and> k @ p = k' @ drop (length h) c"
      by (simp only: append_sep_inject [OF bar_notin_show_nat bar_notin_show_nat])
    then have "length k = length k'" and "k @ p = k' @ drop (length h) c" by (simp_all add: show_nat_inject)
    then show "k' = k" by simp
  qed
  show ?thesis
    unfolding authenticated_def
  proof (intro allI impI)
    fix k k' n p q
    assume "wc_decrypt toy_crypto k' n (wc_encrypt toy_crypto k n p) = Some q"
    then have "take (length (show_nat (length k') @ ''|'' @ k')) (show_nat (length k) @ ''|'' @ k @ p)
        = show_nat (length k') @ ''|'' @ k'"
      by (simp add: toy_crypto_def Let_def split: if_splits)
    then show "k' = k" by (rule key) (rule refl)+
  qed
qed

definition empty_storage :: storage where
  "empty_storage = \<lparr>st_backend = LocalStorage, st_items = (\<lambda>k. None), st_fault = None\<rparr>"

theorem wallet_roundtrip_witness:
  "\<exists>b s' j. encryptMnemonic toy_crypto ''salt'' ''nonce'' '' abandon ability'' ''1234'' = Inr b
     \<and> saveEncryptedWallet b empty_storage = (Inr (), s') \<and> loadEncryptedWallet s' = Inr (Some j)
     \<and> decryptMnemonic toy_crypto j ''1234'' = Inr (js_trim '' abandon ability'')"
proof -
  obtain b where b: "encryptMnemonic toy_crypto ''salt'' ''nonce'' '' abandon ability'' ''1234'' = Inr b"
    by (simp add: encryptMnemonic_def isValidMnemonic_def toy_crypto_def Let_def js_simps)
  obtain s' where s': "saveEncryptedWallet b empty_storage = (Inr (), s')"
    by (auto simp: saveEncryptedWallet_def empty_storage_def)
  from wallet_roundtrip [OF toy_encrypted_ok toy_authenticated b s'] b s' show ?thesis by blast
qed

text \<open>
  A blob that storage holds but that does not parse is reported as no wallet, with no
  error: the presence check answers false, and saving a fresh wallet then replaces the item.
  The gate's rule that an unreadable wallet is never treated as absent does not cover it.
\<close>

lemma unparsable_blob_is_absent:
  assumes "st_backend s \<noteq> NoStorage" and "st_fault s = None"
    and "st_items s STORAGE_KEY = Some (NotJson t)"
  shows "hasWallet s = Inr False
       \<and> (\<exists>s'. saveEncryptedWallet b s = (Inr (), s')
            \<and> st_items s' STORAGE_KEY = Some (JsonText (wallet_json b)))"
  using assms
  by (auto simp: hasWallet_def loadEncryptedWallet_def parse_item_def saveEncryptedWallet_def
      split: backend.splits)

lemma unparsable_blob_is_absent_witness:
  "hasWallet (empty_storage\<lparr>st_items := [STORAGE_KEY \<mapsto> NotJson ''{\"v\":1,\"salt\":''] \<rparr>) = Inr False"
  using unparsable_blob_is_absent
      [of "empty_storage\<lparr>st_items := [STORAGE_KEY \<mapsto> NotJson ''{\"v\":1,\"salt\":''] \<rparr>"]
  by (simp add: empty_storage_def)

end
