(* ===== verification/Session.thy ===== *)
theory Session
  imports WalletLib
begin

text \<open>
  The two client stores of the webapp, \<^verbatim>\<open>stores/wallet.ts\<close> (the in-memory wallet session) and
  \<^verbatim>\<open>stores/app.ts\<close> (token, user and language, mirrored in localStorage), and the start-up of
  \<^verbatim>\<open>AppContent\<close> in \<^verbatim>\<open>app/providers.tsx\<close> that fills the second.  The clock is an argument.
\<close>

section \<open>The wallet session\<close>

definition IDLE_TIMEOUT_MS :: int where "IDLE_TIMEOUT_MS = 15 * 60 * 1000"

text \<open>An HD account is identified by its address.\<close>

record wallet_session =
  ws_account :: "address option"
  ws_unlockedAt :: "int option"
  ws_hasWallet :: "bool option"

definition initial_session :: wallet_session where
  "initial_session = \<lparr>ws_account = None, ws_unlockedAt = None, ws_hasWallet = None\<rparr>"

definition unlock :: "int \<Rightarrow> address \<Rightarrow> wallet_session \<Rightarrow> wallet_session" where
  "unlock now account s = s\<lparr>ws_account := Some account, ws_unlockedAt := Some now, ws_hasWallet := Some True\<rparr>"

definition lock :: "wallet_session \<Rightarrow> wallet_session" where
  "lock s = s\<lparr>ws_account := None, ws_unlockedAt := None\<rparr>"

definition reset :: "wallet_session \<Rightarrow> wallet_session" where
  "reset s = s\<lparr>ws_account := None, ws_unlockedAt := None, ws_hasWallet := Some False\<rparr>"

definition touch :: "int \<Rightarrow> wallet_session \<Rightarrow> wallet_session" where
  "touch now s = s\<lparr>ws_unlockedAt := Some now\<rparr>"

definition isExpired :: "int \<Rightarrow> wallet_session \<Rightarrow> bool" where
  "isExpired now s =
     (case ws_unlockedAt s of None \<Rightarrow> True | Some ts \<Rightarrow> now - ts > IDLE_TIMEOUT_MS)"

definition setHasWallet :: "bool \<Rightarrow> wallet_session \<Rightarrow> wallet_session" where
  "setHasWallet present s = s\<lparr>ws_hasWallet := Some present\<rparr>"

lemmas session_defs = initial_session_def unlock_def lock_def reset_def touch_def setHasWallet_def

lemma unlock_not_expired [simp]: "\<not> isExpired now (unlock now a s)"
  by (simp add: isExpired_def unlock_def IDLE_TIMEOUT_MS_def)

section \<open>The app store\<close>

record user =
  us_id :: string
  us_oltin_id :: string
  us_language :: string

type_synonym local_storage = "string \<Rightarrow> string option"

record app_state =
  as_token :: "string option"
  as_user :: "user option"
  as_isAuthenticated :: bool
  as_language :: "string option"

text \<open>\<^verbatim>\<open>!!s\<close> of a nullable string.\<close>

definition truthy :: "string option \<Rightarrow> bool" where
  "truthy s = (case s of None \<Rightarrow> False | Some t \<Rightarrow> t \<noteq> [])"

text \<open>The store as the module creates it in a browser.\<close>

definition getInitialState :: "local_storage \<Rightarrow> app_state" where
  "getInitialState ls =
     (let token = ls ''oltinpay_token''; language = ls ''oltinpay_lang'' in
      \<lparr>as_token = token, as_user = None, as_isAuthenticated = truthy token, as_language = language\<rparr>)"

definition setToken :: "string option \<Rightarrow> app_state \<Rightarrow> app_state" where
  "setToken token a = a\<lparr>as_token := token, as_isAuthenticated := truthy token\<rparr>"

definition setUser :: "user option \<Rightarrow> app_state \<Rightarrow> app_state" where
  "setUser u a = a\<lparr>as_user := u\<rparr>"

definition setLanguage :: "string \<Rightarrow> app_state \<times> local_storage \<Rightarrow> app_state \<times> local_storage" where
  "setLanguage language = (\<lambda>(a, ls). (a\<lparr>as_language := Some language\<rparr>, ls(''oltinpay_lang'' \<mapsto> language)))"

definition logout :: "app_state \<times> local_storage \<Rightarrow> app_state \<times> local_storage" where
  "logout = (\<lambda>(a, ls).
     (a\<lparr>as_token := None, as_user := None, as_isAuthenticated := False, as_language := None\<rparr>,
      ls(''oltinpay_token'' := None, ''oltinpay_lang'' := None)))"

definition initFromStorage :: "app_state \<times> local_storage \<Rightarrow> app_state \<times> local_storage" where
  "initFromStorage = (\<lambda>(a, ls).
     (let token = ls ''oltinpay_token'' in
      (a\<lparr>as_token := token, as_isAuthenticated := truthy token, as_language := ls ''oltinpay_lang''\<rparr>, ls)))"

section \<open>Start-up\<close>

record auth_result =
  ar_access_token :: string
  ar_user :: "user option"

text \<open>
  \<^verbatim>\<open>AppContent\<close>: the store, localStorage, the token of the API client and the component's own
  state.  \<^verbatim>\<open>tg\<close> is Telegram's init data, if the page runs inside Telegram, and \<^verbatim>\<open>reply\<close> the
  outcome of \<^verbatim>\<open>api.authenticate\<close>.
\<close>

record app =
  ap_store :: app_state
  ap_local :: local_storage
  ap_apiToken :: "string option"
  ap_isLoading :: bool
  ap_authError :: "string option"

definition with_store :: "(app_state \<times> local_storage \<Rightarrow> app_state \<times> local_storage) \<Rightarrow> app \<Rightarrow> app" where
  "with_store f p = (case f (ap_store p, ap_local p) of (a, ls) \<Rightarrow> p\<lparr>ap_store := a, ap_local := ls\<rparr>)"

definition authenticate ::
  "string option \<Rightarrow> (string \<Rightarrow> (string, auth_result) result) \<Rightarrow> app \<Rightarrow> app" where
  "authenticate tg reply p =
     (if truthy tg then
        (case reply (the tg) of
           Inl err \<Rightarrow> p\<lparr>ap_authError := Some err\<rparr>
         | Inr r \<Rightarrow>
             (let t = ar_access_token r;
                  p1 = p\<lparr>ap_apiToken := Some t, ap_store := setUser (ar_user r) (setToken (Some t) (ap_store p)),
                         ap_local := (ap_local p)(''oltinpay_token'' \<mapsto> t)\<rparr> in
              case ar_user r of
                None \<Rightarrow> p1
              | Some u \<Rightarrow> if us_language u \<noteq> [] then with_store (setLanguage (us_language u)) p1 else p1))
      else
        (let p1 = with_store initFromStorage p;
             savedToken = ap_local p1 ''oltinpay_token'' in
         if truthy savedToken then p1\<lparr>ap_apiToken := savedToken\<rparr> else p1))"

definition init_language :: "string option \<Rightarrow> app \<Rightarrow> app" where
  "init_language langParam p =
     (if truthy langParam \<and> the langParam \<in> {''uz'', ''ru'', ''en''} then with_store (setLanguage (the langParam)) p
      else case ap_local p ''oltinpay_lang'' of
        Some savedLang \<Rightarrow> if savedLang \<noteq> [] then with_store (setLanguage savedLang) p else p
      | None \<Rightarrow> p)"

text \<open>The token effect copies a truthy store token to the API client after every change.\<close>

definition sync_token :: "app \<Rightarrow> app" where
  "sync_token p = (if truthy (as_token (ap_store p)) then p\<lparr>ap_apiToken := as_token (ap_store p)\<rparr> else p)"

definition init_app ::
  "string option \<Rightarrow> string option \<Rightarrow> (string \<Rightarrow> (string, auth_result) result) \<Rightarrow> app \<Rightarrow> app" where
  "init_app langParam tg reply p =
     sync_token ((authenticate tg reply (init_language langParam p))\<lparr>ap_isLoading := False\<rparr>)"

datatype app_screen = AppLoading | AuthErrorScreen string | LanguageScreen | GateScreen

definition app_view :: "app \<Rightarrow> app_screen" where
  "app_view p =
     (if ap_isLoading p then AppLoading
      else case ap_authError p of
        Some e \<Rightarrow> if e \<noteq> [] then AuthErrorScreen e
                  else if truthy (as_language (ap_store p)) then GateScreen else LanguageScreen
      | None \<Rightarrow> if truthy (as_language (ap_store p)) then GateScreen else LanguageScreen)"

definition fresh_app :: "local_storage \<Rightarrow> app" where
  "fresh_app ls = \<lparr>ap_store = getInitialState ls, ap_local = ls, ap_apiToken = None, ap_isLoading = True,
     ap_authError = None\<rparr>"

section \<open>Invariants of the stores\<close>

text \<open>The ways the components change the app store.\<close>

inductive app_reachable :: "local_storage \<Rightarrow> app \<Rightarrow> bool" for ls0 where
  start: "app_reachable ls0 (fresh_app ls0)"
| init: "app_reachable ls0 p \<Longrightarrow> app_reachable ls0 (init_app langParam tg reply p)"
| retry: "app_reachable ls0 p \<Longrightarrow>
    app_reachable ls0 (sync_token (authenticate tg reply (p\<lparr>ap_authError := None\<rparr>)))"
| pick_language: "app_reachable ls0 p \<Longrightarrow> app_reachable ls0 (with_store (setLanguage l) p)"
| log_out: "app_reachable ls0 p \<Longrightarrow> app_reachable ls0 (with_store logout p)"

definition app_ok :: "app \<Rightarrow> bool" where
  "app_ok p \<longleftrightarrow> as_isAuthenticated (ap_store p) = truthy (as_token (ap_store p))
     \<and> as_token (ap_store p) = ap_local p ''oltinpay_token''
     \<and> as_language (ap_store p) = ap_local p ''oltinpay_lang''"

lemmas app_ops = with_store_def setLanguage_def logout_def initFromStorage_def setToken_def setUser_def
  sync_token_def truthy_def

lemma app_ok_authenticate: "app_ok p \<Longrightarrow> app_ok (authenticate tg reply p)"
  by (auto simp: app_ok_def authenticate_def app_ops Let_def split: option.splits sum.splits if_splits)

lemma app_ok_language: "app_ok p \<Longrightarrow> app_ok (init_language l p)"
  by (auto simp: app_ok_def init_language_def app_ops split: option.splits if_splits)

lemma app_ok_sync: "app_ok p \<Longrightarrow> app_ok (sync_token p)"
  by (simp add: app_ok_def sync_token_def)

lemma app_ok_fields [simp]:
  "app_ok (p\<lparr>ap_isLoading := b\<rparr>) = app_ok p" "app_ok (p\<lparr>ap_authError := e\<rparr>) = app_ok p"
  by (simp_all add: app_ok_def)

lemma app_reachable_ok: "app_reachable ls0 p \<Longrightarrow> app_ok p"
proof (induction rule: app_reachable.induct)
  case start
  then show ?case by (simp add: app_ok_def fresh_app_def getInitialState_def Let_def)
next
  case (init p langParam tg reply)
  then show ?case by (simp add: init_app_def app_ok_sync app_ok_authenticate app_ok_language)
next
  case (retry p tg reply)
  then show ?case by (simp add: app_ok_sync app_ok_authenticate)
qed (auto simp: app_ok_def app_ops)

text \<open>
  The app store never lies about authentication and never drifts from what it persists:
  in every state start-up, retries, language changes and logouts can lead to, the authenticated
  flag is the presence of a non-empty token, and token and language are exactly the items a
  reload would restore.
\<close>

lemma app_store_consistent:
  assumes "app_reachable ls0 p"
  shows "as_isAuthenticated (ap_store p) = truthy (as_token (ap_store p))
       \<and> as_token (getInitialState (ap_local p)) = as_token (ap_store p)
       \<and> as_language (getInitialState (ap_local p)) = as_language (ap_store p)
       \<and> as_isAuthenticated (getInitialState (ap_local p)) = as_isAuthenticated (ap_store p)"
  using app_reachable_ok [OF assms] by (simp add: app_ok_def getInitialState_def Let_def)

lemma app_store_consistent_witness:
  "as_isAuthenticated (ap_store (init_app None (Some ''init'')
      (\<lambda>_. Inr \<lparr>ar_access_token = ''jwt'', ar_user = None\<rparr>) (fresh_app (\<lambda>_. None))))"
proof -
  let ?p = "init_app None (Some ''init'') (\<lambda>_. Inr \<lparr>ar_access_token = ''jwt'', ar_user = None\<rparr>) (fresh_app (\<lambda>_. None))"
  have "app_reachable (\<lambda>_. None) ?p" by (rule app_reachable.init [OF app_reachable.start])
  from app_store_consistent [OF this] have
    "as_isAuthenticated (ap_store ?p) = truthy (as_token (ap_store ?p))" by blast
  then show ?thesis
    by (simp add: init_app_def authenticate_def init_language_def fresh_app_def getInitialState_def app_ops Let_def)
qed

end
