(* ===== verification/Onboarding.thy ===== *)
theory Onboarding
  imports Session
begin

text \<open>
  Creating, restoring and opening the wallet: \<^verbatim>\<open>app/onboarding/page.tsx\<close>,
  \<^verbatim>\<open>app/onboarding/restore/page.tsx\<close> and \<^verbatim>\<open>components/PinUnlock.tsx\<close>.  Each page is its React
  state, one function per handler, and the guards under which its buttons are enabled.  A handler
  that awaits is one step: the pages disable their buttons meanwhile.  \<^verbatim>\<open>world\<close> gathers what the
  handlers share: libraries, clock, random bytes, storage and the session store.
\<close>

section \<open>Shared world\<close>

record world =
  w_crypto :: wallet_crypto
  w_now :: int
  w_salt :: string
  w_nonce :: string
  w_storage :: storage
  w_session :: wallet_session

datatype form_error = SeedVerifyError | PinTooShortError | PinMismatch | SeedInvalid | WalletNotFound
  | Thrown wallet_error

text \<open>The try-block both creating pages share: seal, save, derive, unlock.\<close>

definition create_wallet :: "string \<Rightarrow> string \<Rightarrow> world \<Rightarrow> (wallet_error, unit) result \<times> world" where
  "create_wallet mnemonic pin w =
     (case encryptMnemonic (w_crypto w) (w_salt w) (w_nonce w) mnemonic pin of
        Inl e \<Rightarrow> (Inl e, w)
      | Inr blob \<Rightarrow>
          (case saveEncryptedWallet blob (w_storage w) of
             (Inl e, s') \<Rightarrow> (Inl e, w\<lparr>w_storage := s'\<rparr>)
           | (Inr _, s') \<Rightarrow>
               (Inr (), w\<lparr>w_storage := s',
                  w_session := unlock (w_now w) (mnemonicToHDAccount (w_crypto w) mnemonic) (w_session w)\<rparr>)))"

section \<open>Onboarding\<close>

datatype step = WelcomeStep | ShowStep | VerifyStep | PinStep

record onboarding =
  ob_step :: step
  ob_mnemonic :: string
  ob_revealed :: bool
  ob_verifyInputs :: "nat \<Rightarrow> string option"
  ob_pin :: string
  ob_pinConfirm :: string
  ob_error :: "form_error option"
  ob_pushed :: bool      \<comment> \<open>\<^verbatim>\<open>router.push('/wallet')\<close> was called\<close>

definition initial_onboarding :: onboarding where
  "initial_onboarding = \<lparr>ob_step = WelcomeStep, ob_mnemonic = [], ob_revealed = False,
     ob_verifyInputs = (\<lambda>_. None), ob_pin = [], ob_pinConfirm = [], ob_error = None, ob_pushed = False\<rparr>"

definition VERIFY_INDICES :: "nat list" where "VERIFY_INDICES = [2, 6, 10]"

definition ob_words :: "onboarding \<Rightarrow> string list" where
  "ob_words o1 = js_split CHR '' '' (ob_mnemonic o1)"

text \<open>An index past the end reads undefined, which no string equals.\<close>

definition verifyInputsValid :: "onboarding \<Rightarrow> bool" where
  "verifyInputsValid o1 =
     list_all (\<lambda>idx. idx < length (ob_words o1) \<and>
        js_lower (js_trim (case ob_verifyInputs o1 idx of None \<Rightarrow> [] | Some s \<Rightarrow> s)) = ob_words o1 ! idx)
       VERIFY_INDICES"

definition handleStart :: "string \<Rightarrow> onboarding \<Rightarrow> onboarding" where
  "handleStart fresh o1 = o1\<lparr>ob_mnemonic := fresh, ob_step := ShowStep\<rparr>"

definition handleToggle :: "onboarding \<Rightarrow> onboarding" where
  "handleToggle o1 = o1\<lparr>ob_revealed := \<not> ob_revealed o1\<rparr>"

definition handleAfterShow :: "onboarding \<Rightarrow> onboarding" where
  "handleAfterShow o1 = o1\<lparr>ob_verifyInputs := (\<lambda>_. None), ob_step := VerifyStep\<rparr>"

definition handleVerify :: "onboarding \<Rightarrow> onboarding" where
  "handleVerify o1 =
     (if \<not> verifyInputsValid o1 then o1\<lparr>ob_error := Some SeedVerifyError\<rparr>
      else o1\<lparr>ob_error := None, ob_step := PinStep\<rparr>)"

definition handleFinish :: "onboarding \<times> world \<Rightarrow> onboarding \<times> world" where
  "handleFinish = (\<lambda>(o1, w).
     (let o2 = o1\<lparr>ob_error := None\<rparr> in
      if length (ob_pin o2) < 4 then (o2\<lparr>ob_error := Some PinTooShortError\<rparr>, w)
      else if ob_pin o2 \<noteq> ob_pinConfirm o2 then (o2\<lparr>ob_error := Some PinMismatch\<rparr>, w)
      else case create_wallet (ob_mnemonic o2) (ob_pin o2) w of
        (Inl e, w') \<Rightarrow> (o2\<lparr>ob_error := Some (Thrown e)\<rparr>, w')
      | (Inr _, w') \<Rightarrow> (o2\<lparr>ob_pushed := True\<rparr>, w')))"

text \<open>What the step components render: the numbered words, \<^term>\<open>None\<close> for a masked one; the fields with
  their labels; the error line; and whether the button is disabled.\<close>

record show_view =
  shv_words :: "(nat \<times> string option) list"
  shv_disabled :: bool

definition showSeedStep :: "string list \<Rightarrow> bool \<Rightarrow> show_view" where
  "showSeedStep ws revealed =
     \<lparr>shv_words = map (\<lambda>i. (i + 1, if revealed then Some (ws ! i) else None)) [0..<length ws],
      shv_disabled = (\<not> revealed)\<rparr>"

record verify_view =
  vv_fields :: "(nat \<times> string) list"
  vv_error :: "form_error option"
  vv_disabled :: bool
  vv_check :: bool

definition verifyStep :: "nat list \<Rightarrow> (nat \<Rightarrow> string option) \<Rightarrow> form_error option \<Rightarrow> bool \<Rightarrow> verify_view" where
  "verifyStep indices inputs err valid =
     \<lparr>vv_fields = map (\<lambda>idx. (idx + 1, case inputs idx of None \<Rightarrow> [] | Some v \<Rightarrow> v)) indices,
      vv_error = err, vv_disabled = (\<not> valid), vv_check = valid\<rparr>"

record pin_view =
  pv_maxLength :: nat
  pv_error :: "form_error option"
  pv_disabled :: bool
  pv_loading :: bool

definition pinStep :: "string \<Rightarrow> string \<Rightarrow> form_error option \<Rightarrow> bool \<Rightarrow> pin_view" where
  "pinStep pin pinConfirm err isSaving =
     \<lparr>pv_maxLength = 12, pv_error = err,
      pv_disabled = (length pin < 4 \<or> pin \<noteq> pinConfirm \<or> isSaving), pv_loading = isSaving\<rparr>"

text \<open>Whether the button of the current step can be pressed.\<close>

definition next_enabled :: "onboarding \<Rightarrow> bool" where
  "next_enabled o1 =
     (case ob_step o1 of
        WelcomeStep \<Rightarrow> True
      | ShowStep \<Rightarrow> \<not> shv_disabled (showSeedStep (ob_words o1) (ob_revealed o1))
      | VerifyStep \<Rightarrow> \<not> vv_disabled (verifyStep VERIFY_INDICES (ob_verifyInputs o1) (ob_error o1) (verifyInputsValid o1))
      | PinStep \<Rightarrow> \<not> pv_disabled (pinStep (ob_pin o1) (ob_pinConfirm o1) (ob_error o1) False))"

lemmas step_views = showSeedStep_def verifyStep_def pinStep_def

text \<open>User actions on the page.\<close>

inductive ob_action :: "onboarding \<times> world \<Rightarrow> onboarding \<times> world \<Rightarrow> bool" where
  start: "ob_step o1 = WelcomeStep \<Longrightarrow> wc_validateMnemonic (w_crypto w) fresh \<Longrightarrow>
    js_trim fresh = fresh \<Longrightarrow> js_lower fresh = fresh \<Longrightarrow> ob_action (o1, w) (handleStart fresh o1, w)"
| toggle: "ob_step o1 = ShowStep \<Longrightarrow> ob_action (o1, w) (handleToggle o1, w)"
| after_show: "ob_step o1 = ShowStep \<Longrightarrow> next_enabled o1 \<Longrightarrow> ob_action (o1, w) (handleAfterShow o1, w)"
| type_word: "ob_step o1 = VerifyStep \<Longrightarrow> idx \<in> set VERIFY_INDICES \<Longrightarrow>
    ob_action (o1, w) (o1\<lparr>ob_verifyInputs := (ob_verifyInputs o1)(idx \<mapsto> s)\<rparr>, w)"
| verify: "ob_step o1 = VerifyStep \<Longrightarrow> next_enabled o1 \<Longrightarrow> ob_action (o1, w) (handleVerify o1, w)"
| type_pin: "ob_step o1 = PinStep \<Longrightarrow> length s \<le> pv_maxLength (pinStep (ob_pin o1) (ob_pinConfirm o1) (ob_error o1) False) \<Longrightarrow>
    ob_action (o1, w) (o1\<lparr>ob_pin := s\<rparr>, w)"
| type_confirm: "ob_step o1 = PinStep \<Longrightarrow> length s \<le> pv_maxLength (pinStep (ob_pin o1) (ob_pinConfirm o1) (ob_error o1) False) \<Longrightarrow>
    ob_action (o1, w) (o1\<lparr>ob_pinConfirm := s\<rparr>, w)"
| finish: "ob_step o1 = PinStep \<Longrightarrow> next_enabled o1 \<Longrightarrow> ob_action (o1, w) (handleFinish (o1, w))"

inductive ob_reachable :: "world \<Rightarrow> onboarding \<times> world \<Rightarrow> bool" for w0 where
  ob_init: "ob_reachable w0 (initial_onboarding, w0)"
| ob_step: "ob_reachable w0 s \<Longrightarrow> ob_action s s' \<Longrightarrow> ob_reachable w0 s'"

section \<open>Restoring\<close>

text \<open>\<^verbatim>\<open>replace(/\s+/g, ' ')\<close>.\<close>

function collapse_spaces :: "string \<Rightarrow> string" where
  "collapse_spaces [] = []"
| "collapse_spaces (c # s) =
     (if js_space c then CHR '' '' # collapse_spaces (dropWhile js_space s) else c # collapse_spaces s)"
  by pat_completeness auto
termination by (relation "measure length") (auto simp: le_imp_less_Suc length_dropWhile_le)

record restore =
  re_mnemonic :: string
  re_pin :: string
  re_pinConfirm :: string
  re_error :: "form_error option"
  re_pushed :: bool

definition restored_phrase :: "string \<Rightarrow> string" where
  "restored_phrase raw = collapse_spaces (js_lower (js_trim raw))"

definition handleRestore :: "restore \<times> world \<Rightarrow> restore \<times> world" where
  "handleRestore = (\<lambda>(r, w).
     (let r1 = r\<lparr>re_error := None\<rparr>; trimmed = restored_phrase (re_mnemonic r) in
      if \<not> isValidMnemonic (w_crypto w) trimmed then (r1\<lparr>re_error := Some SeedInvalid\<rparr>, w)
      else if length (re_pin r) < 4 then (r1\<lparr>re_error := Some PinTooShortError\<rparr>, w)
      else if re_pin r \<noteq> re_pinConfirm r then (r1\<lparr>re_error := Some PinMismatch\<rparr>, w)
      else case create_wallet trimmed (re_pin r) w of
        (Inl e, w') \<Rightarrow> (r1\<lparr>re_error := Some (Thrown e)\<rparr>, w')
      | (Inr _, w') \<Rightarrow> (r1\<lparr>re_pushed := True\<rparr>, w')))"

section \<open>Unlocking\<close>

text \<open>\<^verbatim>\<open>handleSubmit\<close> of the PIN screen: the error it shows and the world afterwards.\<close>

definition pin_unlock :: "string \<Rightarrow> world \<Rightarrow> form_error option \<times> world" where
  "pin_unlock pin w =
     (case loadEncryptedWallet (w_storage w) of
        Inl e \<Rightarrow> (Some (Thrown e), w)
      | Inr None \<Rightarrow> (Some WalletNotFound, w)
      | Inr (Some blob) \<Rightarrow>
          (case decryptMnemonic (w_crypto w) blob pin of
             Inl e \<Rightarrow> (Some (Thrown e), w)
           | Inr mnemonic \<Rightarrow>
               (None, w\<lparr>w_session :=
                  unlock (w_now w) (mnemonicToHDAccount (w_crypto w) mnemonic) (w_session w)\<rparr>)))"

definition pin_submit_enabled :: "string \<Rightarrow> bool \<Rightarrow> bool" where
  "pin_submit_enabled pin isUnlocking \<longleftrightarrow> \<not> (length pin < 4 \<or> isUnlocking)"

section \<open>A created wallet opens again\<close>

lemma create_wallet_Inr:
  assumes "create_wallet mn pin w = (Inr u, w')"
  obtains b where "encryptMnemonic (w_crypto w) (w_salt w) (w_nonce w) mn pin = Inr b"
    and "saveEncryptedWallet b (w_storage w) = (Inr (), w_storage w')"
    and "ws_account (w_session w') = Some (wc_account (w_crypto w) mn)"
    and "ws_hasWallet (w_session w') = Some True" and "w_crypto w' = w_crypto w"
  using assms
  by (auto simp: create_wallet_def unlock_def mnemonicToHDAccount_def split: sum.splits prod.splits)

lemma unlock_after_create:
  assumes "encrypted_ok C" and "js_trim mn = mn"
    and "create_wallet mn pin w = (Inr u, w')" and "w_crypto w = C"
    and "w_storage v = w_storage w'" and "w_crypto v = C"
  shows "fst (pin_unlock pin v) = None
       \<and> ws_account (w_session (snd (pin_unlock pin v))) = ws_account (w_session w')"
proof -
  from assms(3) obtain b where b: "encryptMnemonic C (w_salt w) (w_nonce w) mn pin = Inr b"
    "saveEncryptedWallet b (w_storage w) = (Inr (), w_storage w')"
    "ws_account (w_session w') = Some (wc_account C mn)"
    using assms(4) by (auto elim: create_wallet_Inr)
  have "loadEncryptedWallet (w_storage v) = Inr (Some (wallet_json b))"
    using wstore.save_load [OF b(2)] assms(5) by simp
  moreover have "decryptMnemonic C (wallet_json b) pin = Inr mn"
    using decrypt_same_pin [OF assms(1) b(1)] assms(2) by simp
  ultimately show ?thesis
    using assms(6) b(3) by (simp add: pin_unlock_def unlock_def mnemonicToHDAccount_def)
qed

lemma create_wallet_wrong_pin:
  assumes "encrypted_ok C" and "authenticated C" and "w_crypto w = C"
    and "create_wallet mn pin w = (Inr u, w')"
    and "w_storage v = w_storage w'" and "w_crypto v = C"
    and "deriveKey C pin' (w_salt w) \<noteq> deriveKey C pin (w_salt w)"
  shows "pin_unlock pin' v = (Some (Thrown InvalidPin), v)"
proof -
  from assms(4) obtain b where b: "encryptMnemonic C (w_salt w) (w_nonce w) mn pin = Inr b"
    "saveEncryptedWallet b (w_storage w) = (Inr (), w_storage w')"
    using assms(3) by (auto elim: create_wallet_Inr)
  have "wc_decrypt C (deriveKey C pin' (w_salt w)) (w_nonce w)
      (wc_encrypt C (deriveKey C pin (w_salt w)) (w_nonce w) (wc_encode C (js_trim mn))) = None"
    using assms(2,7) unfolding authenticated_def by (metis option.exhaust)
  then have "decryptMnemonic C (wallet_json b) pin' = Inl InvalidPin"
    using decrypt_sealed [OF assms(1) b(1), of pin'] by simp
  then show ?thesis
    using wstore.save_load [OF b(2)] assms(5,6) by (simp add: pin_unlock_def)
qed

section \<open>Invariants of onboarding\<close>

text \<open>Some PIN opens the stored wallet and yields the account of the phrase.\<close>

definition opens_as :: "wallet_crypto \<Rightarrow> storage \<Rightarrow> string \<Rightarrow> bool" where
  "opens_as C st mn \<longleftrightarrow>
     (\<exists>pin. 4 \<le> length pin \<and> (\<forall>v. w_storage v = st \<longrightarrow> w_crypto v = C \<longrightarrow>
        fst (pin_unlock pin v) = None
        \<and> ws_account (w_session (snd (pin_unlock pin v))) = Some (wc_account C mn)))"

definition ob_ok :: "wallet_crypto \<Rightarrow> onboarding \<times> world \<Rightarrow> bool" where
  "ob_ok C = (\<lambda>(o1, w). w_crypto w = C
     \<and> (ob_step o1 \<noteq> WelcomeStep \<longrightarrow>
          isValidMnemonic C (ob_mnemonic o1) \<and> js_trim (ob_mnemonic o1) = ob_mnemonic o1)
     \<and> (ob_step o1 = PinStep \<longrightarrow> verifyInputsValid o1)
     \<and> (ob_pushed o1 \<longrightarrow> ob_step o1 = PinStep \<and> opens_as C (w_storage w) (ob_mnemonic o1)
          \<and> ws_account (w_session w) = Some (wc_account C (ob_mnemonic o1))))"

lemma verifyInputsValid_update [simp]:
  "verifyInputsValid (o1\<lparr>ob_error := e\<rparr>) = verifyInputsValid o1"
  "verifyInputsValid (o1\<lparr>ob_pushed := b\<rparr>) = verifyInputsValid o1"
  "verifyInputsValid (o1\<lparr>ob_pin := p\<rparr>) = verifyInputsValid o1"
  "verifyInputsValid (o1\<lparr>ob_pinConfirm := p\<rparr>) = verifyInputsValid o1"
  "verifyInputsValid (o1\<lparr>ob_step := st\<rparr>) = verifyInputsValid o1"
  by (simp_all add: verifyInputsValid_def ob_words_def)

lemma create_wallet_Inl:
  "create_wallet mn pin w = (Inl e, w') \<Longrightarrow> w' = w"
  by (auto simp: create_wallet_def split: sum.splits prod.splits dest: wstore.save_fail)

lemma create_wallet_opens:
  assumes "encrypted_ok C" and "js_trim mn = mn" and "w_crypto w = C"
    and "create_wallet mn pin w = (Inr u, w')"
  shows "w_crypto w' = C \<and> opens_as C (w_storage w') mn
       \<and> ws_account (w_session w') = Some (wc_account C mn)"
proof -
  from assms(4) have acc: "ws_account (w_session w') = Some (wc_account C mn)" "w_crypto w' = C"
    and len: "4 \<le> length pin"
    using assms(3) by (auto elim!: create_wallet_Inr simp: encryptMnemonic_Inr)
  have "opens_as C (w_storage w') mn"
    unfolding opens_as_def
    using unlock_after_create [OF assms(1,2,4,3)] acc(1) len by (intro exI [of _ pin]) auto
  with acc show ?thesis by simp
qed

lemma handleFinish_ok:
  assumes "encrypted_ok C" and "ob_ok C (o1, w)" and "ob_step o1 = PinStep"
  shows "ob_ok C (handleFinish (o1, w))"
proof (cases "length (ob_pin o1) < 4 \<or> ob_pin o1 \<noteq> ob_pinConfirm o1")
  case True
  then show ?thesis
    using assms(2,3) by (auto simp: ob_ok_def handleFinish_def Let_def)
next
  case False
  obtain r w' where cw: "create_wallet (ob_mnemonic o1) (ob_pin o1) w = (r, w')"
    by (cases "create_wallet (ob_mnemonic o1) (ob_pin o1) w")
  show ?thesis
  proof (cases r)
    case (Inl e)
    with cw have "w' = w" by (simp add: create_wallet_Inl)
    with Inl cw False assms(2,3) show ?thesis by (simp add: ob_ok_def handleFinish_def Let_def)
  next
    case (Inr u)
    have "js_trim (ob_mnemonic o1) = ob_mnemonic o1" "w_crypto w = C"
      using assms(2,3) by (simp_all add: ob_ok_def)
    from create_wallet_opens [OF assms(1) this] cw Inr False assms(2,3) show ?thesis
      by (simp add: ob_ok_def handleFinish_def Let_def)
  qed
qed

lemma ob_action_ok:
  assumes "ob_action s s'" and "encrypted_ok C" and "ob_ok C s"
  shows "ob_ok C s'"
  using assms
proof (cases rule: ob_action.cases)
  case (start o1 w fresh)
  then show ?thesis using assms(3) by (simp add: ob_ok_def handleStart_def isValidMnemonic_def)
next
  case (verify o1 w)
  then show ?thesis
    using assms(3) by (auto simp: ob_ok_def handleVerify_def)
next
  case (type_pin o1 t w)
  then show ?thesis using assms(3) by (auto simp: ob_ok_def)
next
  case (type_confirm o1 t w)
  then show ?thesis using assms(3) by (auto simp: ob_ok_def)
next
  case (finish o1 w)
  then show ?thesis using handleFinish_ok [OF assms(2)] assms(3) by simp
qed (auto simp: ob_ok_def handleToggle_def handleAfterShow_def)

lemma ob_reachable_ok:
  assumes "ob_reachable w0 s" and "encrypted_ok (w_crypto w0)"
  shows "ob_ok (w_crypto w0) s"
  using assms
proof (induction rule: ob_reachable.induct)
  case ob_init
  then show ?case by (simp add: ob_ok_def initial_onboarding_def)
next
  case (ob_step s s')
  then show ?case using ob_action_ok by blast
qed

section \<open>Properties\<close>

text \<open>
  C21.  Nobody leaves onboarding with a wallet they cannot open or a phrase they never
  confirmed: in every state the page can reach, the PIN step is shown only after the third,
  seventh and eleventh words were typed correctly, and once the page pushes to the wallet, the
  session holds the account of the shown phrase and the stored blob opens, under the PIN that
  sealed it, to that same account.
\<close>

theorem onboarding_wallet_opens:
  assumes "encrypted_ok (w_crypto w0)" and "ob_reachable w0 (o1, w)"
  shows "(ob_step o1 = PinStep \<longrightarrow> verifyInputsValid o1)
       \<and> (ob_pushed o1 \<longrightarrow> opens_as (w_crypto w0) (w_storage w) (ob_mnemonic o1)
            \<and> ws_account (w_session w) = Some (wc_account (w_crypto w0) (ob_mnemonic o1)))"
  using ob_reachable_ok [OF assms(2,1)] by (auto simp: ob_ok_def)

text \<open>A walk through the whole page.\<close>

definition sample_w :: world where
  "sample_w = \<lparr>w_crypto = toy_crypto, w_now = 0, w_salt = ''s'', w_nonce = ''n'', w_storage = empty_storage,
     w_session = initial_session\<rparr>"

definition sample_ob :: onboarding where
  "sample_ob = \<lparr>ob_step = PinStep, ob_mnemonic = ''a b c d e f g h i j k l'', ob_revealed = True,
     ob_verifyInputs = [2 \<mapsto> ''c'', 6 \<mapsto> '' G'', 10 \<mapsto> ''k''], ob_pin = ''1234'', ob_pinConfirm = ''1234'',
     ob_error = None, ob_pushed = False\<rparr>"

lemma sample_ob_valid: "verifyInputsValid sample_ob"
  by (simp add: verifyInputsValid_def ob_words_def sample_ob_def VERIFY_INDICES_def js_simps)

lemma sample_ob_reachable: "ob_reachable sample_w (sample_ob, sample_w)"
proof -
  let ?m = "''a b c d e f g h i j k l''"
  let ?R = "\<lambda>o1. ob_reachable sample_w (o1, sample_w)"
  let ?o1 = "handleStart ?m initial_onboarding"
  let ?o2 = "handleToggle ?o1"
  let ?o3 = "handleAfterShow ?o2"
  let ?o4 = "?o3\<lparr>ob_verifyInputs := (ob_verifyInputs ?o3)(2 \<mapsto> ''c'')\<rparr>"
  let ?o5 = "?o4\<lparr>ob_verifyInputs := (ob_verifyInputs ?o4)(6 \<mapsto> '' G'')\<rparr>"
  let ?o6 = "?o5\<lparr>ob_verifyInputs := (ob_verifyInputs ?o5)(10 \<mapsto> ''k'')\<rparr>"
  let ?o7 = "handleVerify ?o6"
  let ?o8 = "?o7\<lparr>ob_pin := ''1234''\<rparr>"
  let ?o9 = "?o8\<lparr>ob_pinConfirm := ''1234''\<rparr>"
  note defs = handleStart_def handleToggle_def handleAfterShow_def initial_onboarding_def next_enabled_def
    VERIFY_INDICES_def step_views
  have valid: "verifyInputsValid ?o6"
    by (simp add: verifyInputsValid_def ob_words_def defs js_simps)
  have "?R ?o1"
    by (rule ob_step [OF ob_init], rule ob_action.start) (simp_all add: defs sample_w_def toy_crypto_def js_simps)
  then have "?R ?o2" by (rule ob_step, intro ob_action.toggle) (simp add: defs)
  then have "?R ?o3" by (rule ob_step, intro ob_action.after_show) (simp_all add: defs)
  then have "?R ?o4" by (rule ob_step, intro ob_action.type_word) (simp_all add: defs)
  then have "?R ?o5" by (rule ob_step, intro ob_action.type_word) (simp_all add: defs)
  then have "?R ?o6" by (rule ob_step, intro ob_action.type_word) (simp_all add: defs)
  then have "?R ?o7" using valid
    by (intro ob_step [OF _ ob_action.verify]) (simp_all add: next_enabled_def handleAfterShow_def step_views)
  moreover have "?o7 = ?o6\<lparr>ob_error := None, ob_step := PinStep\<rparr>" using valid by (simp add: handleVerify_def)
  ultimately have "?R (?o6\<lparr>ob_error := None, ob_step := PinStep\<rparr>)" by simp
  then have "?R (?o6\<lparr>ob_error := None, ob_step := PinStep, ob_pin := ''1234''\<rparr>)"
    by (rule ob_step, intro ob_action.type_pin) (simp_all add: step_views)
  then have "?R (?o6\<lparr>ob_error := None, ob_step := PinStep, ob_pin := ''1234'', ob_pinConfirm := ''1234''\<rparr>)"
    by (rule ob_step, intro ob_action.type_confirm) (simp_all add: step_views)
  moreover have "?o6\<lparr>ob_error := None, ob_step := PinStep, ob_pin := ''1234'', ob_pinConfirm := ''1234''\<rparr> = sample_ob"
    by (simp add: defs sample_ob_def)
  ultimately show ?thesis by simp
qed

lemma sample_finish_pushed: "ob_pushed (fst (handleFinish (sample_ob, sample_w)))"
  by (simp add: handleFinish_def create_wallet_def sample_ob_def sample_w_def encryptMnemonic_def isValidMnemonic_def
      toy_crypto_def saveEncryptedWallet_def empty_storage_def Let_def js_simps)

theorem onboarding_wallet_opens_witness:
  "opens_as toy_crypto (w_storage (snd (handleFinish (sample_ob, sample_w))))
     (ob_mnemonic (fst (handleFinish (sample_ob, sample_w))))"
proof -
  have "ob_reachable sample_w (handleFinish (sample_ob, sample_w))"
    by (rule ob_step [OF sample_ob_reachable], rule ob_action.finish) (simp_all add: sample_ob_def next_enabled_def step_views)
  moreover have "w_crypto sample_w = toy_crypto" by (simp add: sample_w_def)
  ultimately show ?thesis
    using onboarding_wallet_opens [of sample_w "fst (handleFinish (sample_ob, sample_w))"
        "snd (handleFinish (sample_ob, sample_w))"] sample_finish_pushed toy_encrypted_ok
    by simp
qed

text \<open>The normalized phrase has no space at its ends.\<close>

lemma last_dropWhile_space: "s \<noteq> [] \<Longrightarrow> \<not> P (last s) \<Longrightarrow> dropWhile P s \<noteq> [] \<and> last (dropWhile P s) = last s"
  by (induction s) (auto split: if_splits)

lemma collapse_last:
  "s \<noteq> [] \<Longrightarrow> \<not> js_space (last s) \<Longrightarrow> last (collapse_spaces s) = last s \<and> collapse_spaces s \<noteq> []"
proof (induction s rule: collapse_spaces.induct)
  case (2 c s)
  then show ?case
    using last_dropWhile_space [of s js_space] by (cases "s = []") auto
qed simp

lemma collapse_ends:
  assumes "s \<noteq> []" and "\<not> js_space (hd s)" and "\<not> js_space (last s)"
  shows "collapse_spaces s \<noteq> [] \<and> hd (collapse_spaces s) = hd s \<and> last (collapse_spaces s) = last s"
  using assms
proof (induction s rule: collapse_spaces.induct)
  case 1
  then show ?case by simp
next
  case (2 c s)
  then have c: "\<not> js_space c" by simp
  show ?case
  proof (cases s)
    case Nil
    with c show ?thesis by simp
  next
    case (Cons d s')
    have "last (collapse_spaces s) = last s \<and> collapse_spaces s \<noteq> []"
      using collapse_last [of s] Cons "2.prems" by simp
    with c Cons show ?thesis by simp
  qed
qed

lemma restored_phrase_trimmed: "js_trim (restored_phrase raw) = restored_phrase raw"
proof (rule js_trim_id)
  let ?s = "js_lower (js_trim raw)"
  assume "restored_phrase raw \<noteq> []"
  then have ne: "?s \<noteq> []" by (auto simp: restored_phrase_def)
  have ends: "\<not> js_space (hd ?s)" "\<not> js_space (last ?s)"
    using js_trim_ends [of ?s] ne by (simp_all add: js_trim_lower_trim)
  then show "\<not> js_space (hd (restored_phrase raw)) \<and> \<not> js_space (last (restored_phrase raw))"
    using collapse_ends [OF ne] by (simp add: restored_phrase_def)
qed

text \<open>
  A restored wallet opens again: when the restore form succeeds, the session holds the
  account of the normalized phrase (trimmed, lower case, single spaces), the stored blob opens
  with the chosen PIN to the same account, and a PIN with a different derived key is rejected
  and changes nothing; when the form fails, storage and session are as before.
\<close>

lemma restored_wallet_opens:
  assumes "encrypted_ok C" and "authenticated C" and "w_crypto w = C"
    and "handleRestore (r, w) = (r', w')" and "\<not> re_pushed r"
  shows "if re_pushed r' then
           ws_account (w_session w') = Some (wc_account C (restored_phrase (re_mnemonic r)))
           \<and> fst (pin_unlock (re_pin r) (w'\<lparr>w_session := lock (w_session w')\<rparr>)) = None
           \<and> ws_account (w_session (snd (pin_unlock (re_pin r) (w'\<lparr>w_session := lock (w_session w')\<rparr>))))
             = ws_account (w_session w')
           \<and> (\<forall>pin'. deriveKey C pin' (w_salt w) \<noteq> deriveKey C (re_pin r) (w_salt w) \<longrightarrow>
                pin_unlock pin' (w'\<lparr>w_session := lock (w_session w')\<rparr>)
                = (Some (Thrown InvalidPin), w'\<lparr>w_session := lock (w_session w')\<rparr>))
         else w' = w \<and> re_error r' \<noteq> None"
proof (cases "re_pushed r'")
  case True
  let ?m = "restored_phrase (re_mnemonic r)"
  from True assms(4,5) obtain u where cw: "create_wallet ?m (re_pin r) w = (Inr u, w')"
    by (auto simp: handleRestore_def Let_def split: if_splits prod.splits sum.splits)
  let ?v = "w'\<lparr>w_session := lock (w_session w')\<rparr>"
  have crypto: "w_crypto ?v = C" and acc: "ws_account (w_session w') = Some (wc_account C ?m)"
    using create_wallet_opens [OF assms(1) restored_phrase_trimmed assms(3) cw] by simp_all
  show ?thesis
    using True acc unlock_after_create [OF assms(1) restored_phrase_trimmed cw assms(3) _ crypto]
      create_wallet_wrong_pin [OF assms(1,2,3) cw _ crypto]
    by simp
next
  case False
  with assms(4) show ?thesis
    by (auto simp: handleRestore_def Let_def dest: create_wallet_Inl split: if_splits prod.splits sum.splits)
qed

lemma restored_wallet_opens_witness:
  "\<exists>r' w'. handleRestore (\<lparr>re_mnemonic = '' Abandon  ability '', re_pin = ''1234'', re_pinConfirm = ''1234'',
       re_error = None, re_pushed = False\<rparr>, sample_w) = (r', w')
     \<and> ws_account (w_session w') = Some (wc_account toy_crypto (restored_phrase '' Abandon  ability ''))"
proof -
  define r :: restore where "r = \<lparr>re_mnemonic = '' Abandon  ability '', re_pin = ''1234'', re_pinConfirm = ''1234'',
       re_error = None, re_pushed = False\<rparr>"
  obtain r' w' where h: "handleRestore (r, sample_w) = (r', w')" by (cases "handleRestore (r, sample_w)")
  have "restored_phrase '' Abandon  ability '' = ''abandon ability''"
    by (simp add: restored_phrase_def js_simps)
  then have "re_pushed (fst (handleRestore (r, sample_w)))"
    by (simp add: handleRestore_def r_def create_wallet_def sample_w_def encryptMnemonic_def isValidMnemonic_def
        toy_crypto_def saveEncryptedWallet_def empty_storage_def Let_def js_simps)
  with h restored_wallet_opens [OF toy_encrypted_ok toy_authenticated _ h] show ?thesis
    by (simp add: sample_w_def r_def)
qed

end
