(* ===== verification/WalletGate.thy ===== *)
theory WalletGate
  imports Onboarding
begin

text \<open>
  The gate every screen of the wallet sits behind, \<^verbatim>\<open>WalletGate\<close> in \<^verbatim>\<open>app/providers.tsx\<close>, as a
  state machine.  A React effect runs after a commit when one of its dependencies changed since
  its last run; its clean-up cancels the request it had started.  The state keeps, for each of
  the three effects with memory, the dependencies of the last run and the request in flight.
  An event is a reply, a click, a navigation or the passing of time; each is followed by the
  commit that runs the effects.
\<close>

section \<open>State\<close>

datatype reg_error = Retryable | Conflict

datatype reg_reply = RegOk | RegStatus int | RegNetworkError

text \<open>
  \<^verbatim>\<open>account\<close> is a fresh object on every unlock; \<^verbatim>\<open>g_obj\<close> counts them, so that the effects that
  depend on it run again.  \<^verbatim>\<open>g_bound\<close> lists the addresses the backend acknowledged.
\<close>

record gate =
  g_sess :: wallet_session
  g_obj :: nat
  g_store :: storage
  g_now :: int
  g_onboarding :: bool
  g_checkFailed :: bool
  g_attempt :: nat
  g_registered :: "address option"
  g_regError :: "reg_error option"
  g_regAttempt :: nat
  g_presenceDeps :: "(bool option \<times> nat) option"
  g_checking :: bool
  g_lockDeps :: "(address option \<times> nat) option"
  g_regDeps :: "((address option \<times> nat) \<times> address option \<times> reg_error option \<times> nat) option"
  g_registering :: "address option"
  g_redirectDeps :: "(bool option \<times> bool) option"
  g_redirect :: bool
  g_removing :: nat
  g_bound :: "address list"

abbreviation g_account :: "gate \<Rightarrow> address option" where
  "g_account g \<equiv> ws_account (g_sess g)"

abbreviation g_present :: "gate \<Rightarrow> bool option" where
  "g_present g \<equiv> ws_hasWallet (g_sess g)"

definition presence_deps :: "gate \<Rightarrow> bool option \<times> nat" where
  "presence_deps g = (g_present g, g_attempt g)"

definition lock_deps :: "gate \<Rightarrow> address option \<times> nat" where
  "lock_deps g = (g_account g, g_obj g)"

definition reg_deps :: "gate \<Rightarrow> (address option \<times> nat) \<times> address option \<times> reg_error option \<times> nat" where
  "reg_deps g = (lock_deps g, g_registered g, g_regError g, g_regAttempt g)"

section \<open>Effects\<close>

text \<open>Seed presence from storage while unknown.\<close>

definition presence_effect :: "gate \<Rightarrow> gate" where
  "presence_effect g =
     (if g_presenceDeps g = Some (presence_deps g) then g
      else g\<lparr>g_presenceDeps := Some (presence_deps g), g_checking := (g_present g = None)\<rparr>)"

text \<open>Lock when the session has expired.\<close>

definition auto_lock_effect :: "gate \<Rightarrow> gate" where
  "auto_lock_effect g =
     (if g_lockDeps g = Some (lock_deps g) then g
      else let g1 = g\<lparr>g_lockDeps := Some (lock_deps g)\<rparr> in
        if g_account g \<noteq> None \<and> isExpired (g_now g) (g_sess g) then g1\<lparr>g_sess := lock (g_sess g)\<rparr> else g1)"

text \<open>Redirect to onboarding when there is no wallet.\<close>

definition redirect_effect :: "gate \<Rightarrow> gate" where
  "redirect_effect g =
     (if g_redirectDeps g = Some (g_present g, g_onboarding g) then g
      else let g1 = g\<lparr>g_redirectDeps := Some (g_present g, g_onboarding g)\<rparr> in
        if g_present g = Some False \<and> \<not> g_onboarding g then g1\<lparr>g_redirect := True\<rparr> else g1)"

text \<open>Bind the address to the backend.  The effect sees the values of its own render.\<close>

definition register_effect :: "gate \<Rightarrow> gate \<Rightarrow> gate" where
  "register_effect rendered g =
     (if g_regDeps g = Some (reg_deps rendered) then g
      else g\<lparr>g_regDeps := Some (reg_deps rendered),
             g_registering :=
               (case g_account rendered of
                  None \<Rightarrow> None
                | Some a \<Rightarrow> if g_registered rendered = Some a \<or> g_regError rendered \<noteq> None then None else Some a)\<rparr>)"

definition effects_pass :: "gate \<Rightarrow> gate" where
  "effects_pass g = register_effect g (redirect_effect (auto_lock_effect (presence_effect g)))"

text \<open>A lock in the first pass renders again, which runs a second pass.\<close>

definition commit :: "gate \<Rightarrow> gate" where
  "commit g = effects_pass (effects_pass g)"

section \<open>What is shown\<close>

datatype screen = Children | CheckFailedScreen | Spinner | PinScreen | ConflictScreen | RetryScreen

definition gate_view :: "gate \<Rightarrow> screen" where
  "gate_view g =
     (if g_onboarding g then Children
      else if g_checkFailed g then CheckFailedScreen
      else if g_present g = None then Spinner
      else if g_present g = Some False then Spinner
      else case g_account g of
        None \<Rightarrow> PinScreen
      | Some a \<Rightarrow>
          (if g_regError g = Some Conflict then ConflictScreen
           else if g_regError g = Some Retryable then RetryScreen
           else if g_registered g \<noteq> Some a then Spinner
           else Children))"

section \<open>Events\<close>

datatype gate_event =
    Tick int
  | PresenceAnswer
  | StorageWritten storage
  | UnlockAs address
  | RegisterAnswer reg_reply
  | RetryCheck
  | RetryRegister
  | StartOver
  | RemovalDone
  | Navigate bool
  | Remount

text \<open>
  The gate is unmounted while the app shows the authentication error and mounted again after it:
  its own state starts over, requests in flight are cancelled, the stores stay.
\<close>

definition fresh_mount :: "gate \<Rightarrow> gate" where
  "fresh_mount g =
     g\<lparr>g_checkFailed := False, g_attempt := 0, g_registered := None, g_regError := None, g_regAttempt := 0,
       g_presenceDeps := None, g_checking := False, g_lockDeps := None, g_regDeps := None,
       g_registering := None, g_redirectDeps := None\<rparr>"

text \<open>The handler of an event, when it is enabled; the commit follows.\<close>

definition handle_event :: "gate_event \<Rightarrow> gate \<Rightarrow> gate option" where
  "handle_event ev g =
     (case ev of
        Tick d \<Rightarrow> if 0 \<le> d then Some (g\<lparr>g_now := g_now g + d\<rparr>) else None
      | PresenceAnswer \<Rightarrow>
          (if \<not> g_checking g then None
           else Some (
             (case hasWallet (g_store g) of
                Inr present \<Rightarrow> g\<lparr>g_checking := False, g_sess := setHasWallet present (g_sess g)\<rparr>
              | Inl _ \<Rightarrow> g\<lparr>g_checking := False, g_checkFailed := True\<rparr>)))
      | StorageWritten s \<Rightarrow> Some (g\<lparr>g_store := s\<rparr>)
      | UnlockAs a \<Rightarrow>
          (if gate_view g = PinScreen \<or> g_onboarding g
           then Some (g\<lparr>g_sess := unlock (g_now g) a (g_sess g), g_obj := g_obj g + 1\<rparr>)
           else None)
      | RegisterAnswer r \<Rightarrow>
          (case g_registering g of
             None \<Rightarrow> None
           | Some a \<Rightarrow> Some (
               (case r of
                  RegOk \<Rightarrow> g\<lparr>g_registering := None, g_registered := Some a, g_bound := a # g_bound g\<rparr>
                | RegStatus st \<Rightarrow> g\<lparr>g_registering := None,
                    g_regError := Some (if st = 409 then Conflict else Retryable)\<rparr>
                | RegNetworkError \<Rightarrow> g\<lparr>g_registering := None, g_regError := Some Retryable\<rparr>)))
      | RetryCheck \<Rightarrow>
          (if gate_view g = CheckFailedScreen
           then Some (g\<lparr>g_checkFailed := False, g_attempt := g_attempt g + 1\<rparr>) else None)
      | RetryRegister \<Rightarrow>
          (if gate_view g = RetryScreen
           then Some (g\<lparr>g_regError := None, g_regAttempt := g_regAttempt g + 1\<rparr>) else None)
      | StartOver \<Rightarrow>
          (if gate_view g = ConflictScreen
           then Some (g\<lparr>g_regError := None, g_removing := g_removing g + 1\<rparr>) else None)
      | RemovalDone \<Rightarrow>
          (if g_removing g = 0 then None
           else Some (
             (case removeEncryptedWallet (g_store g) of
                (Inr _, s') \<Rightarrow> g\<lparr>g_removing := g_removing g - 1, g_store := s', g_sess := reset (g_sess g)\<rparr>
              | (Inl _, s') \<Rightarrow> g\<lparr>g_removing := g_removing g - 1, g_store := s'\<rparr>)))
      | Navigate b \<Rightarrow> Some (g\<lparr>g_onboarding := b, g_redirect := False\<rparr>)
      | Remount \<Rightarrow> Some (fresh_mount g))"

definition gate_step :: "gate_event \<Rightarrow> gate \<Rightarrow> gate option" where
  "gate_step ev g = map_option commit (handle_event ev g)"

definition initial_gate :: "storage \<Rightarrow> int \<Rightarrow> bool \<Rightarrow> gate" where
  "initial_gate s now onb = commit
     \<lparr>g_sess = initial_session, g_obj = 0, g_store = s, g_now = now, g_onboarding = onb,
      g_checkFailed = False, g_attempt = 0, g_registered = None, g_regError = None, g_regAttempt = 0,
      g_presenceDeps = None, g_checking = False, g_lockDeps = None, g_regDeps = None,
      g_registering = None, g_redirectDeps = None, g_redirect = False, g_removing = 0, g_bound = []\<rparr>"

inductive gate_reachable :: "gate \<Rightarrow> bool" where
  gate_start: "gate_reachable (initial_gate s now onb)"
| gate_next: "gate_reachable g \<Longrightarrow> gate_step ev g = Some g' \<Longrightarrow> gate_reachable g'"

fun gate_run :: "gate_event list \<Rightarrow> gate \<Rightarrow> gate option" where
  "gate_run [] g = Some g"
| "gate_run (ev # evs) g = (case gate_step ev g of None \<Rightarrow> None | Some g' \<Rightarrow> gate_run evs g')"

lemma gate_run_reachable: "gate_reachable g \<Longrightarrow> gate_run evs g = Some g' \<Longrightarrow> gate_reachable g'"
  by (induction evs arbitrary: g) (auto split: option.splits intro: gate_next)

section \<open>One commit\<close>

text \<open>A commit never touches what the effects do not own.\<close>

lemma presence_effect_frame [simp]:
  "g_sess (presence_effect g) = g_sess g" "g_obj (presence_effect g) = g_obj g"
  "g_now (presence_effect g) = g_now g" "g_lockDeps (presence_effect g) = g_lockDeps g"
  "g_regDeps (presence_effect g) = g_regDeps g" "g_registering (presence_effect g) = g_registering g"
  "g_registered (presence_effect g) = g_registered g" "g_regError (presence_effect g) = g_regError g"
  "g_regAttempt (presence_effect g) = g_regAttempt g" "g_bound (presence_effect g) = g_bound g"
  "g_store (presence_effect g) = g_store g" "g_onboarding (presence_effect g) = g_onboarding g"
  "g_redirect (presence_effect g) = g_redirect g" "g_checkFailed (presence_effect g) = g_checkFailed g"
  "g_attempt (presence_effect g) = g_attempt g" "g_redirectDeps (presence_effect g) = g_redirectDeps g" "g_removing (presence_effect g) = g_removing g"
  by (simp_all add: presence_effect_def)

lemma redirect_effect_frame [simp]:
  "g_sess (redirect_effect g) = g_sess g" "g_obj (redirect_effect g) = g_obj g"
  "g_now (redirect_effect g) = g_now g" "g_lockDeps (redirect_effect g) = g_lockDeps g"
  "g_regDeps (redirect_effect g) = g_regDeps g" "g_registering (redirect_effect g) = g_registering g"
  "g_registered (redirect_effect g) = g_registered g" "g_regError (redirect_effect g) = g_regError g"
  "g_regAttempt (redirect_effect g) = g_regAttempt g" "g_bound (redirect_effect g) = g_bound g"
  "g_store (redirect_effect g) = g_store g" "g_onboarding (redirect_effect g) = g_onboarding g"
  "g_checking (redirect_effect g) = g_checking g" "g_presenceDeps (redirect_effect g) = g_presenceDeps g"
  "g_checkFailed (redirect_effect g) = g_checkFailed g" "g_attempt (redirect_effect g) = g_attempt g"
  "g_removing (redirect_effect g) = g_removing g"
  "g_redirectDeps (redirect_effect g) = Some (g_present g, g_onboarding g)"
  by (simp_all add: redirect_effect_def Let_def)

lemma register_effect_frame [simp]:
  "g_sess (register_effect r g) = g_sess g" "g_obj (register_effect r g) = g_obj g"
  "g_now (register_effect r g) = g_now g" "g_lockDeps (register_effect r g) = g_lockDeps g"
  "g_registered (register_effect r g) = g_registered g" "g_regError (register_effect r g) = g_regError g"
  "g_regAttempt (register_effect r g) = g_regAttempt g" "g_bound (register_effect r g) = g_bound g"
  "g_store (register_effect r g) = g_store g" "g_onboarding (register_effect r g) = g_onboarding g"
  "g_checking (register_effect r g) = g_checking g" "g_presenceDeps (register_effect r g) = g_presenceDeps g"
  "g_checkFailed (register_effect r g) = g_checkFailed g" "g_attempt (register_effect r g) = g_attempt g"
  "g_redirect (register_effect r g) = g_redirect g" "g_redirectDeps (register_effect r g) = g_redirectDeps g"
  "g_removing (register_effect r g) = g_removing g"
  by (simp_all add: register_effect_def)

text \<open>
  A state in which the auto-lock effect has nothing to do: the session is not expired whenever
  its dependencies changed.
\<close>

definition lock_settled :: "gate \<Rightarrow> bool" where
  "lock_settled g \<longleftrightarrow> g_lockDeps g = Some (lock_deps g) \<or> g_account g = None \<or> \<not> isExpired (g_now g) (g_sess g)"

lemma auto_lock_settled:
  "lock_settled g \<Longrightarrow> auto_lock_effect g = g\<lparr>g_lockDeps := Some (lock_deps g)\<rparr>"
  by (auto simp: auto_lock_effect_def lock_settled_def Let_def)

definition settled :: "gate \<Rightarrow> gate" where
  "settled g = register_effect g (redirect_effect ((presence_effect g)\<lparr>g_lockDeps := Some (lock_deps g)\<rparr>))"

lemma effects_pass_settled: "lock_settled g \<Longrightarrow> effects_pass g = settled g"
proof -
  assume s: "lock_settled g"
  have "lock_settled (presence_effect g)" "lock_deps (presence_effect g) = lock_deps g"
    using s by (simp_all add: lock_settled_def lock_deps_def)
  then show ?thesis by (simp add: effects_pass_def settled_def auto_lock_settled)
qed

lemma settled_idem:
  "settled (settled g) = settled g"
proof -
  have d: "reg_deps (settled g) = reg_deps g" "lock_deps (settled g) = lock_deps g"
    "presence_deps (settled g) = presence_deps g"
    by (simp_all add: settled_def reg_deps_def lock_deps_def presence_deps_def)
  have p: "presence_effect (settled g) = settled g"
    by (simp add: presence_effect_def d) (simp add: settled_def presence_effect_def)
  have l: "(settled g)\<lparr>g_lockDeps := Some (lock_deps g)\<rparr> = settled g"
    by (simp add: settled_def register_effect_def redirect_effect_def Let_def)
  have "g_redirectDeps (settled g) = Some (g_present (settled g), g_onboarding (settled g))"
    by (simp add: settled_def)
  then have r: "redirect_effect (settled g) = settled g"
    by (simp add: redirect_effect_def)
  have "g_regDeps (settled g) = Some (reg_deps g)"
    by (simp add: settled_def register_effect_def)
  then show ?thesis
    by (simp add: settled_def [of "settled g"] p d l r) (simp add: register_effect_def d)
qed

lemma commit_settled: "lock_settled g \<Longrightarrow> commit g = settled g"
proof -
  assume s: "lock_settled g"
  have "lock_settled (settled g)"
    by (simp add: lock_settled_def settled_def lock_deps_def)
  with s show ?thesis by (simp add: commit_def effects_pass_settled settled_idem)
qed

section \<open>The invariant\<close>

definition gate_ok :: "gate \<Rightarrow> bool" where
  "gate_ok g \<longleftrightarrow>
     g_lockDeps g = Some (lock_deps g) \<and> g_regDeps g = Some (reg_deps g)
     \<and> g_presenceDeps g = Some (presence_deps g)
     \<and> (\<forall>a. g_registering g = Some a \<longrightarrow> g_account g = Some a)
     \<and> (\<forall>a. g_registered g = Some a \<longrightarrow> a \<in> set (g_bound g))
     \<and> (g_checking g \<longrightarrow> g_present g = None)
     \<and> (g_account g \<noteq> None \<longrightarrow> g_present g = Some True)"

text \<open>What an event leaves for the commit to settle.\<close>

definition gate_pre :: "gate \<Rightarrow> bool" where
  "gate_pre g \<longleftrightarrow> lock_settled g
     \<and> (g_regDeps g = Some (reg_deps g) \<longrightarrow> (\<forall>a. g_registering g = Some a \<longrightarrow> g_account g = Some a))
     \<and> (\<forall>a. g_registered g = Some a \<longrightarrow> a \<in> set (g_bound g))
     \<and> (g_presenceDeps g = Some (presence_deps g) \<longrightarrow> g_checking g \<longrightarrow> g_present g = None)
     \<and> (g_account g \<noteq> None \<longrightarrow> g_present g = Some True)"

lemma settled_frame [simp]:
  "g_sess (settled g) = g_sess g" "g_obj (settled g) = g_obj g" "g_now (settled g) = g_now g"
  "g_registered (settled g) = g_registered g" "g_regError (settled g) = g_regError g"
  "g_regAttempt (settled g) = g_regAttempt g" "g_bound (settled g) = g_bound g"
  "g_store (settled g) = g_store g" "g_onboarding (settled g) = g_onboarding g"
  "g_checkFailed (settled g) = g_checkFailed g" "g_attempt (settled g) = g_attempt g"
  "g_removing (settled g) = g_removing g" "g_lockDeps (settled g) = Some (lock_deps g)"
  "lock_deps (settled g) = lock_deps g" "reg_deps (settled g) = reg_deps g"
  "presence_deps (settled g) = presence_deps g"
  by (simp_all add: settled_def reg_deps_def lock_deps_def presence_deps_def)

lemma settled_requests:
  "g_regDeps (settled g) = Some (reg_deps g)" "g_presenceDeps (settled g) = Some (presence_deps g)"
  "g_registering (settled g) =
     (if g_regDeps g = Some (reg_deps g) then g_registering g
      else case g_account g of
        None \<Rightarrow> None
      | Some a \<Rightarrow> if g_registered g = Some a \<or> g_regError g \<noteq> None then None else Some a)"
  "g_checking (settled g) =
     (if g_presenceDeps g = Some (presence_deps g) then g_checking g else g_present g = None)"
  by (simp_all add: settled_def register_effect_def presence_effect_def)

lemma settled_ok: "gate_pre g \<Longrightarrow> gate_ok (settled g)"
  by (auto simp: gate_pre_def gate_ok_def settled_requests split: option.splits if_splits)

lemma commit_ok: "gate_pre g \<Longrightarrow> commit g = settled g \<and> gate_ok (commit g)"
  using settled_ok by (simp add: gate_pre_def commit_settled)

lemma gate_ok_pre: "gate_ok g \<Longrightarrow> gate_pre g"
  by (simp add: gate_ok_def gate_pre_def lock_settled_def)

text \<open>Every event leaves a state the commit settles.\<close>

lemmas gate_pre_simps = gate_pre_def gate_ok_def lock_settled_def lock_deps_def reg_deps_def presence_deps_def

lemma handle_event_pre:
  assumes "gate_ok g" and "handle_event ev g = Some g1" and "ev \<noteq> Remount"
  shows "gate_pre g1"
proof (cases ev)
  case PresenceAnswer
  with assms show ?thesis
    by (auto simp: handle_event_def setHasWallet_def gate_pre_simps split: if_splits sum.splits)
next
  case (UnlockAs a)
  with assms show ?thesis
    by (auto simp: handle_event_def gate_pre_simps unlock_def isExpired_def IDLE_TIMEOUT_MS_def split: if_splits)
next
  case (RegisterAnswer r)
  with assms show ?thesis
    by (auto simp: handle_event_def gate_pre_simps split: option.splits reg_reply.splits)
next
  case RemovalDone
  with assms show ?thesis
    by (auto simp: handle_event_def reset_def gate_pre_simps split: if_splits prod.splits sum.splits)
qed (use assms in \<open>auto simp: handle_event_def gate_pre_simps split: if_splits\<close>)

text \<open>When the lock fires on a fresh mount, the second pass settles the locked state.\<close>

lemma locking_pass:
  assumes "\<not> lock_settled g"
  shows "g_sess (effects_pass g) = lock (g_sess g)" and "g_regDeps g = None \<Longrightarrow> g_regDeps (effects_pass g) = Some (reg_deps g)"
    and "g_registered (effects_pass g) = g_registered g"
    and "g_presenceDeps g = None \<Longrightarrow> g_checking (effects_pass g) = (g_present g = None)"
proof -
  have l: "auto_lock_effect (presence_effect g) =
      (presence_effect g)\<lparr>g_lockDeps := Some (lock_deps g), g_sess := lock (g_sess g)\<rparr>"
    using assms by (simp add: auto_lock_effect_def lock_settled_def lock_deps_def Let_def)
  show "g_sess (effects_pass g) = lock (g_sess g)" "g_registered (effects_pass g) = g_registered g"
    by (simp_all add: effects_pass_def l)
  show "g_regDeps (effects_pass g) = Some (reg_deps g)" if "g_regDeps g = None"
    using that by (simp add: effects_pass_def l register_effect_def)
  show "g_checking (effects_pass g) = (g_present g = None)" if "g_presenceDeps g = None"
    using that by (simp add: effects_pass_def l) (simp add: presence_effect_def)
qed

lemma fresh_mount_fields [simp]:
  "g_sess (fresh_mount g) = g_sess g" "g_regDeps (fresh_mount g) = None"
  "g_presenceDeps (fresh_mount g) = None" "g_registered (fresh_mount g) = None"
  by (simp_all add: fresh_mount_def)

lemma fresh_mount_commit:
  assumes "gate_ok g"
  obtains g1 where "gate_pre g1" and "commit (fresh_mount g) = settled g1"
proof (cases "lock_settled (fresh_mount g)")
  case True
  have "gate_pre (fresh_mount g)" using True assms by (simp add: gate_pre_def gate_ok_def)
  then show thesis using that commit_ok by blast
next
  case False
  let ?h = "effects_pass (fresh_mount g)"
  note lp = locking_pass [OF False]
  have "g_account (fresh_mount g) \<noteq> None" using False by (auto simp: lock_settled_def)
  then have "g_regDeps ?h \<noteq> Some (reg_deps ?h)"
    using lp by (simp add: reg_deps_def lock_deps_def lock_def)
  moreover have settled: "lock_settled ?h" using lp(1) by (simp add: lock_settled_def lock_def)
  ultimately have "gate_pre ?h"
    using lp(1,3,4) by (simp add: gate_pre_def lock_def)
  then show thesis
    using that [of ?h] effects_pass_settled [OF settled] by (simp add: commit_def)
qed

lemma gate_step_settled:
  assumes "gate_ok g" and "gate_step ev g = Some g'"
  obtains g1 where "handle_event ev g = Some g1 \<or> ev = Remount" and "gate_pre g1" and "g' = settled g1"
proof (cases "ev = Remount")
  case True
  with assms(2) have "g' = commit (fresh_mount g)" by (simp add: gate_step_def handle_event_def)
  with True show thesis using fresh_mount_commit [OF assms(1)] that by metis
next
  case False
  with assms show thesis using that handle_event_pre commit_ok by (auto simp: gate_step_def)
qed

lemma initial_gate_ok: "gate_ok (initial_gate s now onb)"
  unfolding initial_gate_def
  by (rule commit_ok [THEN conjunct2]) (simp add: gate_pre_simps initial_session_def)

lemma gate_reachable_ok: "gate_reachable g \<Longrightarrow> gate_ok g"
proof (induction rule: gate_reachable.induct)
  case gate_start
  then show ?case by (rule initial_gate_ok)
next
  case (gate_next g ev g')
  from gate_next.IH gate_next.hyps(2) show ?case
    by (rule gate_step_settled) (simp_all add: settled_ok)
qed

section \<open>Properties\<close>

text \<open>
  C16.  Wallet content is never shown for a locked or unbound wallet: in every state the gate can
  reach, off the onboarding routes, the children are rendered only when storage is known to hold
  a wallet, the session holds an account and the backend has acknowledged exactly that account's
  address.
\<close>

theorem gate_shows_only_bound_wallet:
  assumes "gate_reachable g" and "gate_view g = Children" and "\<not> g_onboarding g"
  shows "\<exists>a. g_account g = Some a \<and> g_present g = Some True \<and> g_registered g = Some a
           \<and> a \<in> set (g_bound g) \<and> g_regError g = None"
proof -
  from assms(2,3) obtain a where "g_account g = Some a" "g_registered g = Some a"
    "g_regError g \<noteq> Some Conflict" "g_regError g \<noteq> Some Retryable"
    by (auto simp: gate_view_def split: if_splits option.splits)
  moreover from this have "g_regError g = None" by (cases "g_regError g") (metis reg_error.exhaust)+
  ultimately show ?thesis using gate_reachable_ok [OF assms(1)] by (auto simp: gate_ok_def)
qed

definition full_storage :: storage where
  "full_storage = empty_storage\<lparr>st_items := [STORAGE_KEY \<mapsto> JsonText (JObj [])]\<rparr>"

lemmas gate_eval = gate_step_def handle_event_def initial_gate_def commit_def effects_pass_def
  presence_effect_def auto_lock_effect_def redirect_effect_def register_effect_def presence_deps_def
  lock_deps_def reg_deps_def session_defs isExpired_def IDLE_TIMEOUT_MS_def gate_view_def
  full_storage_def empty_storage_def hasWallet_def loadEncryptedWallet_def parse_item_def
  removeEncryptedWallet_def

lemma sample_bound_run:
  "\<exists>g. gate_run [PresenceAnswer, UnlockAs ''0xA'', RegisterAnswer RegOk] (initial_gate full_storage 0 False) = Some g
     \<and> gate_view g = Children \<and> \<not> g_onboarding g"
  by (simp add: gate_eval)

theorem gate_shows_only_bound_wallet_witness:
  "\<exists>g a. gate_view g = Children \<and> g_account g = Some a \<and> a \<in> set (g_bound g)"
proof -
  from sample_bound_run obtain g where
    "gate_run [PresenceAnswer, UnlockAs ''0xA'', RegisterAnswer RegOk] (initial_gate full_storage 0 False) = Some g"
    and v: "gate_view g = Children" "\<not> g_onboarding g" by blast
  then have "gate_reachable g" using gate_run_reachable gate_start by blast
  from gate_shows_only_bound_wallet [OF this v] v show ?thesis by blast
qed

text \<open>
  C28.  A storage read error is never taken for an absent wallet: when the presence check is
  answered by an error, presence stays unknown, no redirect to onboarding is started, and off
  the onboarding routes the retry screen is shown.
\<close>

theorem read_error_keeps_presence_unknown:
  assumes "gate_reachable g" and "gate_step PresenceAnswer g = Some g'" and "hasWallet (g_store g) = Inl e"
  shows "g_present g' = None \<and> g_redirect g' = g_redirect g
       \<and> (\<not> g_onboarding g' \<longrightarrow> gate_view g' = CheckFailedScreen)"
proof -
  have ok: "gate_ok g" by (rule gate_reachable_ok [OF assms(1)])
  from assms(2) have chk: "g_checking g"
    by (auto simp: gate_step_def handle_event_def split: if_splits)
  let ?g1 = "g\<lparr>g_checking := False, g_checkFailed := True\<rparr>"
  have "handle_event PresenceAnswer g = Some ?g1"
    using chk assms(3) by (simp add: handle_event_def)
  then have g': "g' = settled ?g1"
    using ok assms(2) by (auto elim!: gate_step_settled)
  have "g_present g = None" using ok chk by (simp add: gate_ok_def)
  then show ?thesis
    by (simp add: g' gate_view_def) (simp add: settled_def redirect_effect_def Let_def)
qed

definition broken_storage :: storage where
  "broken_storage = full_storage\<lparr>st_backend := CloudStorage, st_fault := Some ''timeout''\<rparr>"

theorem read_error_keeps_presence_unknown_witness:
  "\<exists>g'. gate_step PresenceAnswer (initial_gate broken_storage 0 False) = Some g'
     \<and> gate_view g' = CheckFailedScreen"
proof -
  let ?g = "initial_gate broken_storage 0 False"
  obtain g' where g': "gate_step PresenceAnswer ?g = Some g'" and nb: "\<not> g_onboarding g'"
    by (simp add: gate_eval broken_storage_def)
  have "hasWallet (g_store ?g) = Inl (StorageError ''timeout'')"
    by (simp add: gate_eval broken_storage_def)
  from read_error_keeps_presence_unknown [OF gate_start g' this] g' nb show ?thesis by blast
qed

text \<open>
  The idle timeout never locks a running session.  The auto-lock effect depends only on
  the account and on stable store functions, so it runs when the account changes, when the
  session is fresh; time passing runs nothing.  In every reachable state an unlocked account
  stays unlocked however long the session is idle, and no event clears it but the completion of
  a start-over or a remount of the gate after an authentication error.
\<close>

lemma idle_session_is_never_locked:
  assumes "gate_reachable g" and "g_account g = Some a"
  shows "(\<forall>d \<ge> 0. \<exists>g'. gate_step (Tick d) g = Some g' \<and> g_account g' = Some a
            \<and> gate_view g' = gate_view g \<and> g_now g' = g_now g + d)
       \<and> (\<forall>ev g'. gate_step ev g = Some g' \<longrightarrow> g_account g' = None \<longrightarrow> ev \<in> {RemovalDone, Remount})"
proof (intro conjI allI impI)
  have ok: "gate_ok g" by (rule gate_reachable_ok [OF assms(1)])
  fix d :: int
  assume "0 \<le> d"
  then have h: "handle_event (Tick d) g = Some (g\<lparr>g_now := g_now g + d\<rparr>)" by (simp add: handle_event_def)
  then have "gate_step (Tick d) g = Some (settled (g\<lparr>g_now := g_now g + d\<rparr>))"
    using handle_event_pre [OF ok h] by (simp add: gate_step_def commit_ok)
  then show "\<exists>g'. gate_step (Tick d) g = Some g' \<and> g_account g' = Some a
      \<and> gate_view g' = gate_view g \<and> g_now g' = g_now g + d"
    using assms(2) by (simp add: gate_view_def)
next
  have ok: "gate_ok g" by (rule gate_reachable_ok [OF assms(1)])
  fix ev g'
  assume st: "gate_step ev g = Some g'" and none: "g_account g' = None"
  from ok st obtain g1 where h: "handle_event ev g = Some g1 \<or> ev = Remount" and g': "g' = settled g1"
    by (rule gate_step_settled)
  then have "g_account g1 = None" using none by simp
  with h assms(2) show "ev \<in> {RemovalDone, Remount}"
    by (cases ev) (auto simp: handle_event_def unlock_def setHasWallet_def
        split: if_splits option.splits sum.splits reg_reply.splits)
qed

lemma idle_session_is_never_locked_witness:
  "\<exists>g g'. gate_run [PresenceAnswer, UnlockAs ''0xA''] (initial_gate full_storage 0 False) = Some g
     \<and> gate_step (Tick 86400000) g = Some g' \<and> g_account g' = Some ''0xA''"
proof -
  obtain g where g: "gate_run [PresenceAnswer, UnlockAs ''0xA''] (initial_gate full_storage 0 False) = Some g"
    and acc: "g_account g = Some ''0xA''"
    by (simp add: gate_eval)
  then have "gate_reachable g" using gate_run_reachable gate_start by blast
  then have "\<exists>g'. gate_step (Tick 86400000) g = Some g' \<and> g_account g' = Some ''0xA''
      \<and> gate_view g' = gate_view g \<and> g_now g' = g_now g + 86400000"
    using idle_session_is_never_locked [OF _ acc] by simp
  with g show ?thesis by blast
qed

text \<open>
  A rejected wallet's conflict can outlive the wallet: the start-over handler clears the
  error before it has removed the blob, so the old address is sent again; when that second 409
  arrives before the removal completes, the error returns and stays, and the next wallet the
  user creates is met by the conflict screen although it was never sent to the backend.
\<close>

lemma conflict_outlives_start_over:
  "\<exists>g. gate_run [PresenceAnswer, UnlockAs ''0xA'', RegisterAnswer (RegStatus 409), StartOver,
          RegisterAnswer (RegStatus 409), RemovalDone, Navigate True, UnlockAs ''0xB'', Navigate False]
        (initial_gate full_storage 0 False) = Some g
     \<and> g_account g = Some ''0xB'' \<and> gate_view g = ConflictScreen
     \<and> g_registering g = None \<and> g_bound g = []"
  by (simp add: gate_eval)

end
