(* ===== verification/TokenFormat.thy ===== *)
theory TokenFormat
  imports KeeperParse
begin

text \<open>
  Amounts on the wallet screens: \<^verbatim>\<open>lib/format.ts\<close> and \<^verbatim>\<open>lib/staking.ts\<close> of the webapp.  The viem
  functions \<^verbatim>\<open>formatUnits\<close> and \<^verbatim>\<open>parseUnits\<close> are arguments; the documented behaviour the code
  relies on is named by the two predicates \<^verbatim>\<open>formatUnits_spec\<close> and \<^verbatim>\<open>parseUnits_spec\<close>.  A
  throwing call is \<^term>\<open>None\<close>.
\<close>

section \<open>Formatting\<close>

definition TOKEN_DECIMALS :: nat where "TOKEN_DECIMALS = 18"

text \<open>\<^verbatim>\<open>toLocaleString('en-US')\<close> of a BigInt: groups of three digits.\<close>

fun group3 :: "string \<Rightarrow> string" where
  "group3 (a # b # c # d # r) = a # b # c # CHR '','' # group3 (d # r)"
| "group3 s = s"

definition toLocaleString :: "int \<Rightarrow> string" where
  "toLocaleString n =
     (if n < 0 then [CHR ''-''] else []) @ rev (group3 (rev (show_nat (nat \<bar>n\<bar>))))"

text \<open>\<^verbatim>\<open>replace(/0+$/, '')\<close>.\<close>

definition strip_zeros :: "string \<Rightarrow> string" where
  "strip_zeros s = rev (dropWhile (\<lambda>c. c = CHR ''0'') (rev s))"

definition formatToken :: "(int \<Rightarrow> nat \<Rightarrow> string) \<Rightarrow> string \<Rightarrow> nat \<Rightarrow> string option" where
  "formatToken formatUnits wei maxFractionDigits =
     (case js_BigInt wei of
        None \<Rightarrow> None
      | Some v \<Rightarrow>
          (let parts = js_split CHR ''.'' (formatUnits v TOKEN_DECIMALS);
               intPart = hd parts;
               fracPart = (if length parts > 1 then parts ! 1 else []) in
           case js_BigInt intPart of
             None \<Rightarrow> None
           | Some n \<Rightarrow>
               (let intFormatted = toLocaleString n;
                    fr = strip_zeros (take maxFractionDigits fracPart) in
                Some (if fr \<noteq> [] then intFormatted @ ''.'' @ fr else intFormatted))))"

section \<open>Parsing user input\<close>

definition parseTokenAmount :: "(string \<Rightarrow> nat \<Rightarrow> int option) \<Rightarrow> string \<Rightarrow> nat \<Rightarrow> int option" where
  "parseTokenAmount parseUnits raw decimals =
     (let trimmed = js_trim raw in
      if trimmed = [] then None
      else case parseUnits trimmed decimals of
        None \<Rightarrow> None
      | Some wei \<Rightarrow> if wei > 0 then Some wei else None)"

section \<open>The slippage floor\<close>

definition computeMinOut :: "string option \<Rightarrow> int \<Rightarrow> int option" where
  "computeMinOut estimatedOutWei slippageBps =
     (case estimatedOutWei of
        None \<Rightarrow> None
      | Some s \<Rightarrow>
          (if s = [] then None
           else case js_BigInt s of
             None \<Rightarrow> None
           | Some est \<Rightarrow>
               (if est \<le> 0 then None
                else let minOut = (est * (10000 - slippageBps)) sdiv 10000 in
                  if minOut > 0 then Some minOut else None)))"

section \<open>The staking view\<close>

definition CLAIM_MIN_WEI :: int where "CLAIM_MIN_WEI = 100000000000000"

record staking_info =
  si_wallet_address :: string
  si_total_principal_wei :: string
  si_unlocked_wei :: string
  si_pending_reward_wei :: string
  si_lot_count :: int
  si_apy_bps :: int
  si_next_unlock_at :: int
  si_lock_period_days :: int

text \<open>The percentage is \<^verbatim>\<open>apy_bps / 100\<close>; the view keeps the exact numerator.\<close>

record staking_view =
  sv_hasPosition :: bool
  sv_principal :: string
  sv_unlocked :: string
  sv_pending :: string
  sv_unlockedWei :: string
  sv_apyPercentTimes100 :: int
  sv_isLocked :: bool
  sv_withdrawable :: bool
  sv_claimable :: bool
  sv_nextUnlockAt :: int
  sv_lockPeriodDays :: int

definition deriveStakingView :: "(int \<Rightarrow> nat \<Rightarrow> string) \<Rightarrow> staking_info \<Rightarrow> staking_view option" where
  "deriveStakingView formatUnits info =
     (case (js_BigInt (si_total_principal_wei info), js_BigInt (si_unlocked_wei info),
            js_BigInt (si_pending_reward_wei info)) of
        (Some principalWei, Some unlockedWei, Some pendingWei) \<Rightarrow>
          (case (formatToken formatUnits (si_total_principal_wei info) 4,
                 formatToken formatUnits (si_unlocked_wei info) 4,
                 formatToken formatUnits (si_pending_reward_wei info) 8) of
             (Some principalText, Some unlockedText, Some pendingText) \<Rightarrow>
               Some \<lparr>sv_hasPosition = principalWei > 0, sv_principal = principalText,
                     sv_unlocked = unlockedText, sv_pending = pendingText,
                     sv_unlockedWei = si_unlocked_wei info,
                     sv_apyPercentTimes100 = si_apy_bps info,
                     sv_isLocked = unlockedWei < principalWei,
                     sv_withdrawable = unlockedWei > 0,
                     sv_claimable = pendingWei \<ge> CLAIM_MIN_WEI,
                     sv_nextUnlockAt = si_next_unlock_at info,
                     sv_lockPeriodDays = si_lock_period_days info\<rparr>
           | _ \<Rightarrow> None)
      | _ \<Rightarrow> None)"

section \<open>Documented behaviour of viem\<close>

text \<open>The fraction digits of an amount, zero-padded to the precision.\<close>

definition frac_digits :: "nat \<Rightarrow> nat \<Rightarrow> string" where
  "frac_digits d n = (let f = show_nat (n mod 10 ^ d) in replicate (d - length f) CHR ''0'' @ f)"

definition viem_format :: "int \<Rightarrow> nat \<Rightarrow> string" where
  "viem_format v d =
     (let n = nat \<bar>v\<bar>; fr = strip_zeros (frac_digits d n) in
      (if v < 0 then ''-'' else []) @ show_nat (n div 10 ^ d) @ (if fr = [] then [] else CHR ''.'' # fr))"

definition formatUnits_spec :: "(int \<Rightarrow> nat \<Rightarrow> string) \<Rightarrow> bool" where
  "formatUnits_spec formatUnits \<longleftrightarrow>
     (\<forall>n. formatUnits (int n) TOKEN_DECIMALS = viem_format (int n) TOKEN_DECIMALS)"

definition parseUnits_spec :: "(string \<Rightarrow> nat \<Rightarrow> int option) \<Rightarrow> bool" where
  "parseUnits_spec parseUnits \<longleftrightarrow>
     (\<forall>s d v. parseDecimalToScaledInt s d = Inr v \<longrightarrow> js_trim s = s \<longrightarrow> parseUnits s d = Some v)"

section \<open>Grouping and stripping\<close>

lemma filter_group3: "CHR '','' \<notin> set s \<Longrightarrow> filter (\<lambda>c. c \<noteq> CHR '','') (group3 s) = s"
  by (induction s rule: group3.induct) auto

lemma comma_not_digit [simp]: "\<not> is_digit CHR '',''"
  by (simp add: is_digit_def code_def)

lemma ungroup_toLocaleString:
  "filter (\<lambda>c. c \<noteq> CHR '','') (toLocaleString (int n)) = show_nat n"
proof -
  have "CHR '','' \<notin> set (rev (show_nat n))" using set_show_nat by fastforce
  from filter_group3 [OF this] show ?thesis
    by (simp add: toLocaleString_def flip: rev_filter)
qed

lemma strip_zeros_split: "\<exists>k. s = strip_zeros s @ replicate k CHR ''0''"
proof -
  let ?P = "\<lambda>c. c = CHR ''0''"
  have "rev s = takeWhile ?P (rev s) @ dropWhile ?P (rev s)" by simp
  then have "s = rev (dropWhile ?P (rev s)) @ rev (takeWhile ?P (rev s))"
    by (metis rev_append rev_rev_ident)
  moreover have "rev (takeWhile ?P (rev s)) = replicate (length (takeWhile ?P (rev s))) CHR ''0''"
    by (rule replicate_eqI) (auto dest: set_takeWhileD)
  ultimately show ?thesis unfolding strip_zeros_def by metis
qed

lemma dropWhile_replicate_append: "dropWhile (\<lambda>x. x = c) (replicate k c @ s) = dropWhile (\<lambda>x. x = c) s"
  by (induction k) simp_all

lemma strip_zeros_append_zeros: "strip_zeros (s @ replicate k CHR ''0'') = strip_zeros s"
  by (simp add: strip_zeros_def dropWhile_replicate_append)

lemma strip_zeros_take: "strip_zeros (take k (strip_zeros s)) = strip_zeros (take k s)"
proof -
  obtain j where j: "s = strip_zeros s @ replicate j CHR ''0''" using strip_zeros_split by blast
  have "take k s = take k (strip_zeros s) @ replicate (min (k - length (strip_zeros s)) j) CHR ''0''"
    by (subst j) simp
  then show ?thesis by (simp add: strip_zeros_append_zeros)
qed

lemma list_all_strip_zeros: "list_all P s \<Longrightarrow> list_all P (strip_zeros s)"
  using strip_zeros_split [of s] by (metis list_all_append)

lemma length_frac_digits: "0 < d \<Longrightarrow> length (frac_digits d n) = d"
  using length_show_nat_le [of d "n mod 10 ^ d"] by (simp add: frac_digits_def Let_def)

lemma frac_digits_digits: "list_all is_digit (frac_digits d n)"
  by (auto simp: frac_digits_def Let_def list_all_iff set_show_nat)

lemma digits_val_frac_digits: "digits_val (frac_digits d n) = n mod 10 ^ d"
  by (simp add: frac_digits_def Let_def digits_val_leading_zeros)

lemma digits_val_take:
  assumes "k \<le> length s" and "list_all is_digit s"
  shows "digits_val (take k s) = digits_val s div 10 ^ (length s - k)"
proof -
  have "digits_val s = digits_val (take k s) * 10 ^ (length s - k) + digits_val (drop k s)"
    using digits_val_append [of "take k s" "drop k s"] by simp
  moreover have "digits_val (drop k s) < 10 ^ (length s - k)"
    using digits_val_bound [of "drop k s"] assms(2) by (simp add: list_all_iff in_set_dropD)
  ultimately show ?thesis by simp
qed

lemma length_strip_zeros: "length (strip_zeros s) \<le> length s"
  using length_dropWhile_le [of _ "rev s"] by (simp add: strip_zeros_def)

lemma strip_zeros_scaled:
  assumes "length s \<le> d"
  shows "digits_val (strip_zeros s) * 10 ^ (d - length (strip_zeros s)) = digits_val s * 10 ^ (d - length s)"
proof -
  obtain j where j: "s = strip_zeros s @ replicate j CHR ''0''" using strip_zeros_split by blast
  have v: "digits_val s = digits_val (strip_zeros s) * 10 ^ j"
    by (subst j) (simp add: digits_val_append)
  have "length s = length (strip_zeros s) + j" by (subst j) simp
  then have "d - length (strip_zeros s) = j + (d - length s)" using assms by simp
  with v show ?thesis by (simp add: power_add)
qed

section \<open>What is displayed\<close>

lemma dot_notin_digits: "list_all is_digit s \<Longrightarrow> CHR ''.'' \<notin> set s"
  by (auto simp: list_all_iff)

lemma formatToken_nat:
  assumes "formatUnits_spec formatUnits"
  shows "formatToken formatUnits (show_nat n) k =
     (let fr = strip_zeros (take k (frac_digits TOKEN_DECIMALS n)) in
      Some (toLocaleString (int (n div 10 ^ TOKEN_DECIMALS)) @ (if fr = [] then [] else CHR ''.'' # fr)))"
proof -
  let ?i = "show_nat (n div 10 ^ TOKEN_DECIMALS)"
  let ?f = "strip_zeros (frac_digits TOKEN_DECIMALS n)"
  have fu: "formatUnits (int n) TOKEN_DECIMALS = ?i @ (if ?f = [] then [] else CHR ''.'' # ?f)"
    using assms by (simp add: formatUnits_spec_def viem_format_def Let_def)
  have ni: "CHR ''.'' \<notin> set ?i" and nf: "CHR ''.'' \<notin> set ?f"
    by (simp_all add: dot_notin_digits list_all_strip_zeros frac_digits_digits)
  have "js_split CHR ''.'' (formatUnits (int n) TOKEN_DECIMALS) = (if ?f = [] then [?i] else [?i, ?f])"
    unfolding fu using js_split_append [OF ni, of ?f] js_split_no_sep [OF ni] js_split_no_sep [OF nf]
    by simp
  moreover have "strip_zeros (take k ?f) = strip_zeros (take k (frac_digits TOKEN_DECIMALS n))"
    by (rule strip_zeros_take)
  moreover have "strip_zeros [] = []" by (simp add: strip_zeros_def)
  ultimately show ?thesis
    by (cases "?f = []") (simp_all add: formatToken_def Let_def del: One_nat_def)
qed

lemma decimal_match_parts:
  assumes "list_all is_digit ip" and "ip \<noteq> []" and "list_all is_digit fr" and "fr \<noteq> []"
  shows "decimal_match (ip @ CHR ''.'' # fr) = Some (ip, Some fr)" and "decimal_match ip = Some (ip, None)"
  using assms by (auto simp: decimal_match_iff)

lemma dot_not_space: "\<not> js_space CHR ''.''"
  by (simp add: js_space_def code_def)

lemma decimal_no_space:
  "list_all is_digit ip \<Longrightarrow> list_all is_digit fr \<Longrightarrow> js_trim (ip @ CHR ''.'' # fr) = ip @ CHR ''.'' # fr"
  using dot_not_space by (intro js_trim_no_space) (auto simp: list_all_iff is_digit_not_space)

text \<open>The text read back as a decimal, separators removed.\<close>

lemma parse_shown:
  assumes "list_all is_digit fr" and "length fr \<le> d"
  shows "parseDecimalToScaledInt (show_nat n @ (if fr = [] then [] else CHR ''.'' # fr)) d
       = Inr (int (n * 10 ^ d + digits_val fr * 10 ^ (d - length fr)))"
proof (cases "fr = []")
  case True
  then show ?thesis
    using parseDecimal_of_match [of "show_nat n" "show_nat n" None d] decimal_match_parts(2) [of "show_nat n" "''0''"]
    by (simp add: fraction_of_def)
next
  case False
  then show ?thesis
    using parseDecimal_of_match [of "show_nat n @ CHR ''.'' # fr" "show_nat n" "Some fr" d] assms
      decimal_match_parts(1) [of "show_nat n" fr] decimal_no_space [of "show_nat n" fr]
    by (simp add: fraction_of_def)
qed

lemma formatToken_reads_back:
  assumes "formatUnits_spec formatUnits" and "k \<le> TOKEN_DECIMALS"
  shows "\<exists>s. formatToken formatUnits (show_nat n) k = Some s
       \<and> parseDecimalToScaledInt (filter (\<lambda>c. c \<noteq> CHR '','') s) TOKEN_DECIMALS
         = Inr (int (n div 10 ^ (TOKEN_DECIMALS - k) * 10 ^ (TOKEN_DECIMALS - k)))"
proof -
  define D where "D = TOKEN_DECIMALS"
  define q where "q = n div 10 ^ D"
  define t where "t = take k (frac_digits D n)"
  define fr where "fr = strip_zeros t"
  have D: "0 < D" "k \<le> D" using assms(2) by (simp_all add: D_def TOKEN_DECIMALS_def)
  have len: "length t = k" using D by (simp add: t_def length_frac_digits)
  have digs: "list_all is_digit t" using frac_digits_digits [of D n]
    by (auto simp: t_def list_all_iff dest: in_set_takeD)
  have frd: "list_all is_digit fr" using digs by (simp add: fr_def list_all_strip_zeros)
  have frl: "length fr \<le> D"
    using length_strip_zeros [of t] len D by (simp add: fr_def)
  have nocomma: "filter (\<lambda>c. c \<noteq> CHR '','') fr = fr" using frd by (auto simp: filter_id_conv list_all_iff)
  have "digits_val t = (n mod 10 ^ D) div 10 ^ (D - k)"
    using digits_val_take [of k "frac_digits D n"] D frac_digits_digits [of D n]
    by (simp add: t_def length_frac_digits digits_val_frac_digits)
  then have val: "digits_val fr * 10 ^ (D - length fr) = (n mod 10 ^ D) div 10 ^ (D - k) * 10 ^ (D - k)"
    using strip_zeros_scaled [of t D] len D unfolding fr_def by simp
  have "n div 10 ^ (D - k) = q * 10 ^ k + n mod 10 ^ D div 10 ^ (D - k)"
  proof -
    have "n = (q * 10 ^ k) * 10 ^ (D - k) + n mod 10 ^ D"
      using D div_mult_mod_eq [of n "10 ^ D"] by (simp add: q_def mult.assoc flip: power_add)
    then have "n div 10 ^ (D - k) = ((q * 10 ^ k) * 10 ^ (D - k) + n mod 10 ^ D) div 10 ^ (D - k)" by simp
    then show ?thesis by (simp add: div_add1_eq [of _ _ "10 ^ (D - k)"] div_mult_self1)
  qed
  then have "q * 10 ^ D + digits_val fr * 10 ^ (D - length fr) = n div 10 ^ (D - k) * 10 ^ (D - k)"
    using D by (simp add: val algebra_simps flip: power_add)
  moreover have "formatToken formatUnits (show_nat n) k
      = Some (toLocaleString (int q) @ (if fr = [] then [] else CHR ''.'' # fr))"
    using formatToken_nat [OF assms(1)] by (simp add: q_def fr_def t_def D_def Let_def)
  moreover have "filter (\<lambda>c. c \<noteq> CHR '','') (toLocaleString (int q) @ (if fr = [] then [] else CHR ''.'' # fr))
      = show_nat q @ (if fr = [] then [] else CHR ''.'' # fr)"
    by (simp add: ungroup_toLocaleString nocomma)
  ultimately show ?thesis
    using parse_shown [OF frd frl, of q] by (simp add: D_def)
qed

section \<open>Properties\<close>

lemma viem_format_spec: "formatUnits_spec viem_format"
  by (simp add: formatUnits_spec_def)

text \<open>
  A displayed amount is the balance truncated to the shown digits: reading the text back
  without its thousands separators gives exactly the balance rounded down to a multiple of the
  display unit, for balances of any size.  Nothing is rounded up and no precision is lost.
\<close>

lemma formatToken_truncates:
  assumes "formatUnits_spec formatUnits" and "k \<le> TOKEN_DECIMALS"
  shows "\<exists>s. formatToken formatUnits (show_nat n) k = Some s
       \<and> parseDecimalToScaledInt (filter (\<lambda>c. c \<noteq> CHR '','') s) TOKEN_DECIMALS
         = Inr (int (n div 10 ^ (TOKEN_DECIMALS - k) * 10 ^ (TOKEN_DECIMALS - k)))"
  using assms by (rule formatToken_reads_back)

lemma formatToken_truncates_witness:
  "\<exists>s. formatToken viem_format (show_nat 1234567890000000000) 4 = Some s
     \<and> parseDecimalToScaledInt (filter (\<lambda>c. c \<noteq> CHR '','') s) TOKEN_DECIMALS = Inr 1234500000000000000"
  using formatToken_truncates [OF viem_format_spec, of 4 1234567890000000000]
  by (simp add: TOKEN_DECIMALS_def)

text \<open>
  The claim button promises a visible change and keeps it: whenever the staking view says
  the reward is claimable, adding it to any OLTIN balance changes the balance text the wallet
  screen prints at four digits.
\<close>

lemma claim_is_visible:
  assumes "formatUnits_spec formatUnits" and "deriveStakingView formatUnits info = Some v" and "sv_claimable v"
    and "si_pending_reward_wei info = show_nat p"
  shows "formatToken formatUnits (show_nat (balance + p)) 4 \<noteq> formatToken formatUnits (show_nat balance) 4"
proof
  assume same: "formatToken formatUnits (show_nat (balance + p)) 4 = formatToken formatUnits (show_nat balance) 4"
  define u :: nat where "u = 10 ^ (TOKEN_DECIMALS - 4)"
  have u: "u = 100000000000000" by (simp add: u_def TOKEN_DECIMALS_def)
  have "u \<le> p"
    using assms(2-4) by (auto simp: deriveStakingView_def CLAIM_MIN_WEI_def u split: option.splits)
  then have "(balance + u) div u \<le> (balance + p) div u" by (intro div_le_mono) simp
  then have lt: "balance div u < (balance + p) div u" using u by simp
  have k: "4 \<le> TOKEN_DECIMALS" by (simp add: TOKEN_DECIMALS_def)
  have "int (balance div u * u) = int ((balance + p) div u * u)"
    using formatToken_reads_back [OF assms(1) k, of balance] formatToken_reads_back [OF assms(1) k, of "balance + p"]
      same unfolding u_def by force
  then have "balance div u = (balance + p) div u" using u by simp
  with lt show False by simp
qed

definition sample_info :: staking_info where
  "sample_info = \<lparr>si_wallet_address = [], si_total_principal_wei = show_nat 5, si_unlocked_wei = show_nat 3,
     si_pending_reward_wei = show_nat 100000000000000, si_lot_count = 1, si_apy_bps = 700, si_next_unlock_at = 0,
     si_lock_period_days = 7\<rparr>"

lemma claim_is_visible_witness:
  "formatToken viem_format (show_nat (7 + 100000000000000)) 4 \<noteq> formatToken viem_format (show_nat 7) 4"
proof -
  obtain v where "deriveStakingView viem_format sample_info = Some v" "sv_claimable v"
    by (auto simp: deriveStakingView_def sample_info_def formatToken_nat [OF viem_format_spec] Let_def
        CLAIM_MIN_WEI_def)
  from claim_is_visible [OF viem_format_spec this, of 100000000000000 7]
  show ?thesis by (simp add: sample_info_def)
qed

text \<open>
  The slippage floor is the exact floor of the tolerated fraction: for a tolerance between
  0 and 100 percent it is never above the estimate, within one unit of the tolerated fraction,
  and it is withheld exactly when the estimate is missing, malformed or not positive, or when
  the floor would be zero, which the on-chain swap rejects.
\<close>

lemma computeMinOut_floor:
  assumes "0 \<le> bps" and "bps \<le> 10000"
  shows "(computeMinOut (Some s) bps = Some m \<longleftrightarrow>
            (\<exists>est. s \<noteq> [] \<and> js_BigInt s = Some est \<and> 0 < est \<and> 0 < m \<and> m \<le> est
               \<and> m * 10000 \<le> est * (10000 - bps) \<and> est * (10000 - bps) < (m + 1) * 10000))
       \<and> (computeMinOut (Some s) bps = None \<longleftrightarrow>
            s = [] \<or> js_BigInt s = None
            \<or> (\<exists>est. js_BigInt s = Some est \<and> (est \<le> 0 \<or> est * (10000 - bps) < 10000)))"
proof -
  have floor_iff: "est * (10000 - bps) sdiv 10000 = x \<longleftrightarrow>
      x * 10000 \<le> est * (10000 - bps) \<and> est * (10000 - bps) < (x + 1) * 10000"
    if "0 < est" for est x :: int
  proof -
    have "0 \<le> est * (10000 - bps)" using that assms by simp
    then have "est * (10000 - bps) sdiv 10000 = est * (10000 - bps) div 10000" by (simp add: sdiv_pos_nonneg)
    then show ?thesis
      using le_div_iff_mult_le [of 10000 x] div_less_iff_less_mult [of 10000 _ "x + 1"]
      by (smt (verit))
  qed
  have le: "x \<le> est" if "0 < est" "x * 10000 \<le> est * (10000 - bps)" for est x :: int
  proof -
    have "est * (10000 - bps) \<le> est * 10000" using that(1) assms(1) by (simp add: mult_left_mono)
    with that(2) show ?thesis by linarith
  qed
  have pos: "0 < est * (10000 - bps) sdiv 10000 \<longleftrightarrow> \<not> est * (10000 - bps) < 10000" if "0 < est" for est
    using floor_iff [OF that, of "est * (10000 - bps) sdiv 10000"] by auto
  show ?thesis
    using floor_iff le pos
    by (auto simp: computeMinOut_def Let_def split: option.splits if_splits)
qed

lemma computeMinOut_floor_witness: "computeMinOut (Some (show_nat 1000)) 100 \<noteq> None"
  using computeMinOut_floor [of 100 "show_nat 1000" 990] by simp

text \<open>
  What the user types is what is sent: under viem's documented parsing, a decimal with at
  most the token's fraction digits, with or without surrounding white space, parses to exactly
  its value in base units, and to nothing when that value is zero.
\<close>

lemma parseTokenAmount_exact:
  assumes "parseUnits_spec parseUnits" and "parseDecimalToScaledInt raw d = Inr v"
  shows "parseTokenAmount parseUnits raw d = (if 0 < v then Some v else None)"
proof -
  have "decimal_match (js_trim raw) \<noteq> None"
    using assms(2) by (auto simp: parseDecimalToScaledInt_def split: option.splits)
  then have "js_trim raw \<noteq> []" by (auto simp: decimal_match_def)
  moreover have "parseDecimalToScaledInt (js_trim raw) d = Inr v"
    using assms(2) by (auto simp: parseDecimalToScaledInt_def Let_def split: option.splits if_splits)
  then have "parseUnits (js_trim raw) d = Some v"
    using assms(1) by (simp add: parseUnits_spec_def)
  ultimately show ?thesis by (simp add: parseTokenAmount_def Let_def)
qed

definition sample_parseUnits :: "string \<Rightarrow> nat \<Rightarrow> int option" where
  "sample_parseUnits s d = (case parseDecimalToScaledInt s d of Inl _ \<Rightarrow> None | Inr v \<Rightarrow> Some v)"

lemma parseTokenAmount_exact_witness:
  "parseTokenAmount sample_parseUnits '' 1.5 '' 18 = Some 1500000000000000000"
proof -
  have "parseUnits_spec sample_parseUnits"
    by (simp add: parseUnits_spec_def sample_parseUnits_def)
  moreover have "parseDecimalToScaledInt '' 1.5 '' 18 = Inr 1500000000000000000"
    by (simp add: parseDecimalToScaledInt_def decimal_match_def js_simps)
  ultimately show ?thesis using parseTokenAmount_exact by simp
qed

end
