(* ===== verification/ChainClient.thy ===== *)
theory ChainClient
  imports TokenFormat WalletLib
begin

text \<open>
  The signing side of the webapp: the contract writes of \<^verbatim>\<open>lib/chain.ts\<close> and the order in which
  a mutation sends them and waits for receipts.  A write is the call viem's wallet client would
  sign; the node's answer to it is an argument.  A mutation returns its outcome together with
  the writes it broadcast, in order.
\<close>

section \<open>Writes\<close>

datatype contract_id = ContractOLTIN | ContractUZD | ContractSTAKING | ContractEXCHANGE

datatype arg = AddressArg string | ContractArg contract_id | AmountArg int

record chain_write =
  wr_from :: address
  wr_to :: contract_id
  wr_function :: string
  wr_args :: "arg list"

definition transferOltin :: "address \<Rightarrow> string \<Rightarrow> int \<Rightarrow> chain_write" where
  "transferOltin account to amount = \<lparr>wr_from = account, wr_to = ContractOLTIN, wr_function = ''transfer'',
     wr_args = [AddressArg to, AmountArg amount]\<rparr>"

definition approveStakingForOltin :: "address \<Rightarrow> int \<Rightarrow> chain_write" where
  "approveStakingForOltin account amount = \<lparr>wr_from = account, wr_to = ContractOLTIN, wr_function = ''approve'',
     wr_args = [ContractArg ContractSTAKING, AmountArg amount]\<rparr>"

definition stake :: "address \<Rightarrow> int \<Rightarrow> chain_write" where
  "stake account amount = \<lparr>wr_from = account, wr_to = ContractSTAKING, wr_function = ''stake'',
     wr_args = [AmountArg amount]\<rparr>"

definition unstake :: "address \<Rightarrow> int \<Rightarrow> chain_write" where
  "unstake account amount = \<lparr>wr_from = account, wr_to = ContractSTAKING, wr_function = ''unstake'',
     wr_args = [AmountArg amount]\<rparr>"

definition claimStakingReward :: "address \<Rightarrow> chain_write" where
  "claimStakingReward account = \<lparr>wr_from = account, wr_to = ContractSTAKING, wr_function = ''claim'', wr_args = []\<rparr>"

definition approveForExchange :: "address \<Rightarrow> contract_id \<Rightarrow> int \<Rightarrow> chain_write" where
  "approveForExchange account token amount = \<lparr>wr_from = account, wr_to = token, wr_function = ''approve'',
     wr_args = [ContractArg ContractEXCHANGE, AmountArg amount]\<rparr>"

definition exchangeBuy :: "address \<Rightarrow> int \<Rightarrow> int \<Rightarrow> chain_write" where
  "exchangeBuy account uzdInWei minOltinOut = \<lparr>wr_from = account, wr_to = ContractEXCHANGE, wr_function = ''buy'',
     wr_args = [AmountArg uzdInWei, AmountArg minOltinOut]\<rparr>"

definition exchangeSell :: "address \<Rightarrow> int \<Rightarrow> int \<Rightarrow> chain_write" where
  "exchangeSell account oltinInWei minUzdOut = \<lparr>wr_from = account, wr_to = ContractEXCHANGE, wr_function = ''sell'',
     wr_args = [AmountArg oltinInWei, AmountArg minUzdOut]\<rparr>"

section \<open>Broadcast and receipt\<close>

text \<open>
  The node rejects the write (with a message); or it is broadcast and its receipt arrives with a
  status; or it is broadcast and the receipt does not arrive within the timeout.
\<close>

datatype write_reply = Rejected string | Receipt bool | TimedOut

type_synonym node = "chain_write \<Rightarrow> write_reply"

definition broadcast :: "write_reply \<Rightarrow> bool" where
  "broadcast r = (case r of Rejected _ \<Rightarrow> False | _ \<Rightarrow> True)"

text \<open>
  One awaited write: \<^verbatim>\<open>rejected\<close>, \<^verbatim>\<open>reverted\<close> and \<^verbatim>\<open>unknown\<close> are the errors the caller throws in
  the three failing cases.
\<close>

definition send_write ::
  "node \<Rightarrow> (string \<Rightarrow> 'e) \<Rightarrow> 'e \<Rightarrow> 'e \<Rightarrow> chain_write \<Rightarrow> ('e, unit) result \<times> chain_write list" where
  "send_write node rejected reverted unknown w =
     (case node w of
        Rejected raw \<Rightarrow> (Inl (rejected raw), [])
      | Receipt True \<Rightarrow> (Inr (), [w])
      | Receipt False \<Rightarrow> (Inl reverted, [w])
      | TimedOut \<Rightarrow> (Inl unknown, [w]))"

text \<open>Sequencing of mutation steps: the second runs only when the first succeeded.\<close>

definition then_do ::
  "('e, 'a) result \<times> chain_write list \<Rightarrow> ('a \<Rightarrow> ('e, 'b) result \<times> chain_write list)
   \<Rightarrow> ('e, 'b) result \<times> chain_write list" where
  "then_do m f =
     (case m of
        (Inl e, ws) \<Rightarrow> (Inl e, ws)
      | (Inr x, ws) \<Rightarrow> (case f x of (r, ws') \<Rightarrow> (r, ws @ ws')))"

definition fail_with :: "'e \<Rightarrow> ('e, 'a) result \<times> chain_write list" where
  "fail_with e = (Inl e, [])"

lemma send_write_cases:
  assumes "send_write node rj rv un w = (r, ws)"
  shows "(ws = [] \<and> (\<exists>raw. node w = Rejected raw \<and> r = Inl (rj raw)))
       \<or> (ws = [w] \<and> ((node w = Receipt True \<and> r = Inr ()) \<or> (node w = Receipt False \<and> r = Inl rv)
                       \<or> (node w = TimedOut \<and> r = Inl un)))"
  using assms by (auto simp: send_write_def split: write_reply.splits bool.splits)

lemma then_do_cases:
  assumes "then_do m f = (r, ws)"
  shows "(\<exists>e. m = (Inl e, ws) \<and> r = Inl e)
       \<or> (\<exists>x ws1 ws2. m = (Inr x, ws1) \<and> f x = (r, ws2) \<and> ws = ws1 @ ws2)"
  using assms by (auto simp: then_do_def split: prod.splits sum.splits)

text \<open>Two writes in sequence: the second is sent only after a good receipt of the first.\<close>

lemma two_writes_cases:
  assumes "then_do (send_write node rj1 rv1 un1 w1) (\<lambda>_. send_write node rj2 rv2 un2 w2) = (r, ws)"
  shows "ws \<in> {[], [w1], [w1, w2]}
       \<and> (w2 \<in> set ws \<longrightarrow> w1 \<noteq> w2 \<longrightarrow> node w1 = Receipt True)
       \<and> (r = Inr () \<longleftrightarrow> node w1 = Receipt True \<and> node w2 = Receipt True)
       \<and> (r = Inr () \<longrightarrow> ws = [w1, w2])"
  using assms
  by (auto simp: then_do_def send_write_def split: write_reply.splits bool.splits)

section \<open>Text search\<close>

text \<open>\<^verbatim>\<open>/p/i.test(s)\<close> for a literal pattern in lower case.\<close>

fun js_includes :: "string \<Rightarrow> string \<Rightarrow> bool" where
  "js_includes [] p \<longleftrightarrow> p = []"
| "js_includes (c # s) p \<longleftrightarrow> js_startsWith (c # s) p \<or> js_includes s p"

definition matches_ci :: "string \<Rightarrow> string list \<Rightarrow> bool" where
  "matches_ci raw ps = list_ex (js_includes (js_lower raw)) ps"

end
