(* ===== verification/Pages.thy ===== *)
theory Pages
  imports ChainClient Session
begin

text \<open>
  The money screens of the webapp: \<^verbatim>\<open>app/send/page.tsx\<close>, \<^verbatim>\<open>app/exchange/page.tsx\<close> and
  \<^verbatim>\<open>app/staking/page.tsx\<close>.  Each mutation is a function of the render it was started from (the
  session's account, the typed amount, the cached balances) and of the node; wei strings of the
  API are their integer values.  Localized texts are constructors of one error type.
\<close>

datatype ui_error =
    WalletLocked | InvalidAmount | InsufficientBalance | SendToSelf | RecipientHasNoWallet
  | NotEnoughGas | TransactionFailed | TransactionReverted | ReceiptTimeout
  | PriceUnavailable | QuoteMismatch | AmountTooSmall | ApproveReverted
  | PriceStale bool | TreasuryEmpty | PriceMoved | SwapReverted
  | FundsLocked | ExceedsUnlocked | RevertedOnChain | ActionReverted | StatusUnknown

record balances =
  ba_wallet_address :: string
  ba_oltin_wei :: int
  ba_uzd_wei :: int

definition oltinWei :: "balances option \<Rightarrow> int" where
  "oltinWei b = (case b of None \<Rightarrow> 0 | Some x \<Rightarrow> ba_oltin_wei x)"

definition uzdWei :: "balances option \<Rightarrow> int" where
  "uzdWei b = (case b of None \<Rightarrow> 0 | Some x \<Rightarrow> ba_uzd_wei x)"

section \<open>Send\<close>

datatype send_step = RecipientStep | AmountStep | ConfirmStep | SuccessStep

record recipient =
  rc_id :: string
  rc_oltin_id :: string

record send_page =
  sp_step :: send_step
  sp_searchQuery :: string
  sp_recipient :: "recipient option"
  sp_amount :: string
  sp_error :: "ui_error option"

text \<open>The data of a render; the recipient lookup is still resolving, or its answer is in.\<close>

record send_data =
  sd_account :: "address option"
  sd_user_oltin_id :: "string option"
  sd_balances :: "balances option"
  sd_resolving :: bool
  sd_recipientAddress :: "string option"
  sd_parseUnits :: "string \<Rightarrow> nat \<Rightarrow> int option"
  sd_formatUnits :: "int \<Rightarrow> nat \<Rightarrow> string"

definition OLTIN_DECIMALS :: nat where "OLTIN_DECIMALS = 18"

definition send_amountWei :: "send_data \<Rightarrow> send_page \<Rightarrow> int option" where
  "send_amountWei d p = parseTokenAmount (sd_parseUnits d) (sp_amount p) OLTIN_DECIMALS"

definition exceedsBalance :: "int option \<Rightarrow> int \<Rightarrow> bool" where
  "exceedsBalance amountWei limit = (case amountWei of None \<Rightarrow> False | Some a \<Rightarrow> a > limit)"

definition amountValid :: "int option \<Rightarrow> int \<Rightarrow> bool" where
  "amountValid amountWei limit \<longleftrightarrow> amountWei \<noteq> None \<and> \<not> exceedsBalance amountWei limit"

definition isSelf :: "send_data \<Rightarrow> send_page \<Rightarrow> bool" where
  "isSelf d p =
     (case (sd_user_oltin_id d, sp_recipient p) of
        (Some me, Some r) \<Rightarrow> me \<noteq> [] \<and> rc_oltin_id r \<noteq> [] \<and> js_lower (rc_oltin_id r) = js_lower me
      | _ \<Rightarrow> False)"

definition explain_send :: "string \<Rightarrow> ui_error" where
  "explain_send raw =
     (if matches_ci raw [''insufficient funds'', ''exceeds the balance'', ''gas''] then NotEnoughGas
      else TransactionFailed)"

definition transfer_mutation :: "node \<Rightarrow> send_data \<Rightarrow> send_page \<Rightarrow> (ui_error, unit) result \<times> chain_write list" where
  "transfer_mutation node d p =
     (case sd_account d of
        None \<Rightarrow> fail_with WalletLocked
      | Some account \<Rightarrow>
     (case send_amountWei d p of
        None \<Rightarrow> fail_with InvalidAmount
      | Some amountWei \<Rightarrow>
      if amountWei > oltinWei (sd_balances d) then fail_with InsufficientBalance
      else if isSelf d p then fail_with SendToSelf
      else if \<not> truthy (sd_recipientAddress d) then fail_with RecipientHasNoWallet
      else let to = the (sd_recipientAddress d) in
        if (case sd_balances d of None \<Rightarrow> False | Some b \<Rightarrow> js_lower to = js_lower (ba_wallet_address b))
        then fail_with SendToSelf
        else send_write node explain_send TransactionReverted ReceiptTimeout (transferOltin account to amountWei)))"

text \<open>
  The data's part of the confirm button's condition; that no transfer is pending, its other part, is
  added where the button is rendered (\<open>send_view\<close> of \<open>Screens\<close>).
\<close>

definition canConfirm :: "send_data \<Rightarrow> send_page \<Rightarrow> bool" where
  "canConfirm d p \<longleftrightarrow>
     \<not> sd_resolving d \<and> truthy (sd_recipientAddress d) \<and> \<not> isSelf d p
     \<and> amountValid (send_amountWei d p) (oltinWei (sd_balances d))"

text \<open>Handlers of the page.\<close>

definition handleSelectRecipient :: "recipient \<Rightarrow> send_page \<Rightarrow> send_page" where
  "handleSelectRecipient r p = p\<lparr>sp_recipient := Some r, sp_amount := [], sp_step := AmountStep\<rparr>"

definition send_max :: "send_data \<Rightarrow> send_page \<Rightarrow> send_page" where
  "send_max d p = p\<lparr>sp_amount := sd_formatUnits d (oltinWei (sd_balances d)) OLTIN_DECIMALS\<rparr>"

definition send_continue :: "send_data \<Rightarrow> send_page \<Rightarrow> send_page" where
  "send_continue d p =
     (if amountValid (send_amountWei d p) (oltinWei (sd_balances d)) then p\<lparr>sp_step := ConfirmStep\<rparr> else p)"

definition send_confirm :: "node \<Rightarrow> send_data \<Rightarrow> send_page \<Rightarrow> send_page \<times> chain_write list" where
  "send_confirm node d p =
     (if \<not> canConfirm d p then (p, [])
      else case transfer_mutation node d p of
        (Inl e, ws) \<Rightarrow> (p\<lparr>sp_error := Some e\<rparr>, ws)
      | (Inr _, ws) \<Rightarrow> (p\<lparr>sp_error := None, sp_step := SuccessStep\<rparr>, ws))"

definition send_back :: "send_page \<Rightarrow> send_page" where
  "send_back p = p\<lparr>sp_step := (if sp_step p = ConfirmStep then AmountStep else RecipientStep)\<rparr>"

definition send_reset :: "send_page \<Rightarrow> send_page" where
  "send_reset p = p\<lparr>sp_step := RecipientStep, sp_searchQuery := [], sp_recipient := None, sp_amount := [],
     sp_error := None\<rparr>"

section \<open>Exchange\<close>

datatype side = Buy | Sell

record quote =
  qt_side :: "side option"
  qt_estimated_out_wei :: "string option"

record exchange_data =
  xd_account :: "address option"
  xd_side :: side
  xd_amount :: string
  xd_balances :: "balances option"
  xd_parseUnits :: "string \<Rightarrow> nat \<Rightarrow> int option"
  xd_getQuote :: "side \<Rightarrow> string \<Rightarrow> quote option"      \<comment> \<open>\<^term>\<open>None\<close> when the request fails\<close>

definition SLIPPAGE_BPS :: int where "SLIPPAGE_BPS = 100"

definition xd_amountWei :: "exchange_data \<Rightarrow> int option" where
  "xd_amountWei d = parseTokenAmount (xd_parseUnits d) (xd_amount d) TOKEN_DECIMALS"

definition spendWei :: "exchange_data \<Rightarrow> int" where
  "spendWei d = (case xd_side d of Buy \<Rightarrow> uzdWei (xd_balances d) | Sell \<Rightarrow> oltinWei (xd_balances d))"

definition explain_swap :: "bool \<Rightarrow> string \<Rightarrow> ui_error" where
  "explain_swap afterApprove raw =
     (if matches_ci raw [''insufficient funds'', ''exceeds the balance''] then NotEnoughGas
      else if matches_ci raw [''reserve stale'', ''price stale''] then PriceStale afterApprove
      else if matches_ci raw [''treasury empty''] then TreasuryEmpty
      else if matches_ci raw [''dust''] then AmountTooSmall
      else if matches_ci raw [''slippage''] then PriceMoved
      else if afterApprove then SwapReverted else TransactionFailed)"

definition spend_token :: "side \<Rightarrow> contract_id" where
  "spend_token s = (case s of Buy \<Rightarrow> ContractUZD | Sell \<Rightarrow> ContractOLTIN)"

definition swap_write :: "side \<Rightarrow> address \<Rightarrow> int \<Rightarrow> int \<Rightarrow> chain_write" where
  "swap_write s account amount minOut =
     (case s of Buy \<Rightarrow> exchangeBuy account amount minOut | Sell \<Rightarrow> exchangeSell account amount minOut)"

definition swap_mutation :: "node \<Rightarrow> exchange_data \<Rightarrow> (ui_error, unit) result \<times> chain_write list" where
  "swap_mutation node d =
     (case xd_account d of
        None \<Rightarrow> fail_with WalletLocked
      | Some account \<Rightarrow>
     (case xd_amountWei d of
        None \<Rightarrow> fail_with InvalidAmount
      | Some amountWei \<Rightarrow>
      if amountWei > spendWei d then fail_with InsufficientBalance else
     (case xd_getQuote d (xd_side d) (js_trim (xd_amount d)) of
        None \<Rightarrow> fail_with PriceUnavailable
      | Some freshQuote \<Rightarrow>
      if qt_side freshQuote \<noteq> Some (xd_side d) \<or> \<not> truthy (qt_estimated_out_wei freshQuote)
      then fail_with QuoteMismatch else
     (case computeMinOut (qt_estimated_out_wei freshQuote) SLIPPAGE_BPS of
        None \<Rightarrow> fail_with AmountTooSmall
      | Some minOut \<Rightarrow>
          then_do
            (send_write node (explain_swap False) ApproveReverted ReceiptTimeout
               (approveForExchange account (spend_token (xd_side d)) amountWei))
            (\<lambda>_. send_write node (explain_swap True) (explain_swap True ''reverted'') ReceiptTimeout
               (swap_write (xd_side d) account amountWei minOut))))))"

section \<open>Staking\<close>

record staking_data =
  kd_account :: "address option"
  kd_amount :: string
  kd_balances :: "balances option"
  kd_unlockedWei :: int
  kd_parseUnits :: "string \<Rightarrow> nat \<Rightarrow> int option"

definition explain_staking :: "bool \<Rightarrow> string \<Rightarrow> ui_error" where
  "explain_staking afterApprove raw =
     (if matches_ci raw [''insufficient funds'', ''exceeds the balance''] then NotEnoughGas
      else if matches_ci raw [''insufficient unlocked'', ''insufficient principal''] then FundsLocked
      else if afterApprove then ActionReverted else TransactionFailed)"

definition kd_amt :: "staking_data \<Rightarrow> int option" where
  "kd_amt d = parseTokenAmount (kd_parseUnits d) (kd_amount d) TOKEN_DECIMALS"

definition stake_mutation :: "node \<Rightarrow> staking_data \<Rightarrow> (ui_error, unit) result \<times> chain_write list" where
  "stake_mutation node d =
     (case kd_account d of
        None \<Rightarrow> fail_with WalletLocked
      | Some account \<Rightarrow>
     (case kd_amt d of
        None \<Rightarrow> fail_with InvalidAmount
      | Some amt \<Rightarrow>
      if amt > oltinWei (kd_balances d) then fail_with InsufficientBalance
      else then_do
        (send_write node (explain_staking False) ApproveReverted StatusUnknown (approveStakingForOltin account amt))
        (\<lambda>_. send_write node (explain_staking True) (explain_staking True ''reverted'') StatusUnknown
           (stake account amt))))"

definition withdraw_mutation :: "node \<Rightarrow> staking_data \<Rightarrow> (ui_error, unit) result \<times> chain_write list" where
  "withdraw_mutation node d =
     (case kd_account d of
        None \<Rightarrow> fail_with WalletLocked
      | Some account \<Rightarrow>
     (case kd_amt d of
        None \<Rightarrow> fail_with InvalidAmount
      | Some amt \<Rightarrow>
      if amt > kd_unlockedWei d then fail_with ExceedsUnlocked
      else send_write node (explain_staking False) RevertedOnChain StatusUnknown (unstake account amt)))"

definition claim_mutation :: "node \<Rightarrow> staking_data \<Rightarrow> (ui_error, unit) result \<times> chain_write list" where
  "claim_mutation node d =
     (case kd_account d of
        None \<Rightarrow> fail_with WalletLocked
      | Some account \<Rightarrow>
          send_write node (explain_staking False) RevertedOnChain StatusUnknown (claimStakingReward account))"

section \<open>Properties\<close>

lemma parseTokenAmount_pos: "parseTokenAmount pu raw d = Some v \<Longrightarrow> 0 < v"
  by (auto simp: parseTokenAmount_def Let_def split: if_splits option.splits)

lemma fail_with_simps [simp]: "fail_with e = (r, ws) \<longleftrightarrow> r = Inl e \<and> ws = []"
  by (auto simp: fail_with_def)

lemma transfer_mutation_sound:
  assumes "transfer_mutation node d p = (r, ws)"
  shows "(ws = [] \<and> r \<noteq> Inr ())
       \<or> (\<exists>account amt to. ws = [transferOltin account to amt]
            \<and> sd_account d = Some account \<and> sd_recipientAddress d = Some to \<and> to \<noteq> []
            \<and> send_amountWei d p = Some amt \<and> 0 < amt \<and> amt \<le> oltinWei (sd_balances d)
            \<and> \<not> isSelf d p
            \<and> (\<forall>b. sd_balances d = Some b \<longrightarrow> js_lower to \<noteq> js_lower (ba_wallet_address b))
            \<and> (r = Inr () \<longleftrightarrow> node (transferOltin account to amt) = Receipt True))"
proof (cases "sd_account d")
  case None
  with assms show ?thesis by (simp add: transfer_mutation_def)
next
  case acc: (Some account)
  show ?thesis
  proof (cases "send_amountWei d p")
    case None
    with assms acc show ?thesis by (simp add: transfer_mutation_def)
  next
    case amt: (Some amt)
    then have pos: "0 < amt" by (auto simp: send_amountWei_def dest: parseTokenAmount_pos)
    let ?to = "the (sd_recipientAddress d)"
    let ?bad = "amt > oltinWei (sd_balances d) \<or> isSelf d p \<or> \<not> truthy (sd_recipientAddress d)
      \<or> (case sd_balances d of None \<Rightarrow> False | Some b \<Rightarrow> js_lower ?to = js_lower (ba_wallet_address b))"
    show ?thesis
    proof (cases ?bad)
      case True
      with assms acc amt show ?thesis
        by (auto simp: transfer_mutation_def Let_def split: if_splits)
    next
      case False
      with assms acc amt have "send_write node explain_send TransactionReverted ReceiptTimeout
          (transferOltin account ?to amt) = (r, ws)"
        by (simp add: transfer_mutation_def Let_def)
      from send_write_cases [OF this] False acc amt pos show ?thesis
        by (auto simp: truthy_def split: option.splits)
    qed
  qed
qed

text \<open>
  C7.  The send screen signs at most one transfer, and only a sound one: whatever the node
  answers, the broadcast writes are none or exactly one OLTIN transfer from the unlocked account
  of a positive amount within the balance, to the resolved address of a recipient that is not
  the sender by id nor by address; success is reported exactly when that transfer has a
  successful receipt.
\<close>

theorem send_signs_one_sound_transfer:
  assumes "transfer_mutation node d p = (r, ws)"
  shows "(ws = [] \<and> r \<noteq> Inr ())
       \<or> (\<exists>account amt to. ws = [transferOltin account to amt]
            \<and> sd_account d = Some account \<and> sd_recipientAddress d = Some to \<and> to \<noteq> []
            \<and> send_amountWei d p = Some amt \<and> 0 < amt \<and> amt \<le> oltinWei (sd_balances d)
            \<and> \<not> isSelf d p
            \<and> (\<forall>b. sd_balances d = Some b \<longrightarrow> js_lower to \<noteq> js_lower (ba_wallet_address b))
            \<and> (r = Inr () \<longleftrightarrow> node (transferOltin account to amt) = Receipt True))"
  using assms by (rule transfer_mutation_sound)

definition sample_send :: send_data where
  "sample_send = \<lparr>sd_account = Some ''0xA'', sd_user_oltin_id = Some ''alice'',
     sd_balances = Some \<lparr>ba_wallet_address = ''0xA'', ba_oltin_wei = 2000000000000000000, ba_uzd_wei = 0\<rparr>,
     sd_resolving = False, sd_recipientAddress = Some ''0xB'', sd_parseUnits = sample_parseUnits,
     sd_formatUnits = viem_format\<rparr>"

definition sample_send_page :: send_page where
  "sample_send_page = \<lparr>sp_step = ConfirmStep, sp_searchQuery = [], sp_recipient = Some \<lparr>rc_id = ''2'', rc_oltin_id = ''bob''\<rparr>,
     sp_amount = ''1.5'', sp_error = None\<rparr>"

lemma sample_amount: "parseTokenAmount sample_parseUnits ''1.5'' 18 = Some 1500000000000000000"
  by (simp add: parseTokenAmount_def sample_parseUnits_def parseDecimalToScaledInt_def decimal_match_def js_simps)

lemma sample_transfer:
  "transfer_mutation (\<lambda>_. Receipt True) sample_send sample_send_page =
     (Inr (), [transferOltin ''0xA'' ''0xB'' 1500000000000000000])"
  by (simp add: transfer_mutation_def send_amountWei_def sample_send_def sample_send_page_def OLTIN_DECIMALS_def
      sample_amount oltinWei_def isSelf_def truthy_def send_write_def js_simps)

theorem send_signs_one_sound_transfer_witness:
  "\<exists>account amt to. [transferOltin ''0xA'' ''0xB'' 1500000000000000000] = [transferOltin account to amt]
     \<and> 0 < amt \<and> amt \<le> oltinWei (sd_balances sample_send)"
  using send_signs_one_sound_transfer [OF sample_transfer] by blast

lemma viem_roundtrip:
  assumes "formatUnits_spec formatUnits" and "parseUnits_spec parseUnits" and "0 < n"
  shows "parseTokenAmount parseUnits (formatUnits (int n) TOKEN_DECIMALS) TOKEN_DECIMALS = Some (int n)"
proof -
  let ?f = "strip_zeros (frac_digits TOKEN_DECIMALS n)"
  let ?s = "show_nat (n div 10 ^ TOKEN_DECIMALS) @ (if ?f = [] then [] else CHR ''.'' # ?f)"
  have D: "0 < TOKEN_DECIMALS" by (simp add: TOKEN_DECIMALS_def)
  have s: "formatUnits (int n) TOKEN_DECIMALS = ?s"
    using assms(1) by (simp add: formatUnits_spec_def viem_format_def Let_def)
  have digs: "list_all is_digit ?f" by (simp add: list_all_strip_zeros frac_digits_digits)
  have len: "length ?f \<le> TOKEN_DECIMALS"
    using length_strip_zeros [of "frac_digits TOKEN_DECIMALS n"] D by (simp add: length_frac_digits)
  have "digits_val ?f * 10 ^ (TOKEN_DECIMALS - length ?f) = n mod 10 ^ TOKEN_DECIMALS"
    using strip_zeros_scaled [of "frac_digits TOKEN_DECIMALS n" TOKEN_DECIMALS] D
    by (simp add: length_frac_digits digits_val_frac_digits)
  then have parse: "parseDecimalToScaledInt ?s TOKEN_DECIMALS = Inr (int n)"
    using parse_shown [OF digs len, of "n div 10 ^ TOKEN_DECIMALS"] by (simp only: div_mult_mod_eq)
  have trim: "js_trim ?s = ?s"
    using digs decimal_no_space [OF show_nat_digits digs] by simp
  have "parseUnits ?s TOKEN_DECIMALS = Some (int n)"
    using assms(2) parse trim unfolding parseUnits_spec_def by blast
  then show ?thesis
    using assms(3) by (simp add: s parseTokenAmount_def trim Let_def)
qed

text \<open>
  The Max button spends exactly the balance: under viem's documented formatting and
  parsing, the amount it types parses back to the full balance in wei, for every positive
  balance, so the amount is valid and nothing is lost to a display format.
\<close>

lemma max_spends_exactly_the_balance:
  assumes "formatUnits_spec (sd_formatUnits d)" and "parseUnits_spec (sd_parseUnits d)"
    and "0 < oltinWei (sd_balances d)"
  shows "send_amountWei d (send_max d p) = Some (oltinWei (sd_balances d))
       \<and> amountValid (send_amountWei d (send_max d p)) (oltinWei (sd_balances d))"
proof -
  obtain n where n: "oltinWei (sd_balances d) = int n" "0 < n"
    using assms(3) by (metis of_nat_0_less_iff zero_less_imp_eq_int)
  have "OLTIN_DECIMALS = TOKEN_DECIMALS" by (simp add: OLTIN_DECIMALS_def TOKEN_DECIMALS_def)
  with viem_roundtrip [OF assms(1,2) n(2)] show ?thesis
    by (simp add: send_amountWei_def send_max_def n(1) amountValid_def exceedsBalance_def)
qed

lemma sample_parseUnits_spec: "parseUnits_spec sample_parseUnits"
  by (simp add: parseUnits_spec_def sample_parseUnits_def)

lemma max_spends_exactly_the_balance_witness:
  "send_amountWei sample_send (send_max sample_send sample_send_page) = Some 2000000000000000000"
  using max_spends_exactly_the_balance [of sample_send sample_send_page] viem_format_spec sample_parseUnits_spec
  by (simp add: sample_send_def oltinWei_def)

lemma send_error_irrelevant [simp]:
  "send_amountWei d (p\<lparr>sp_error := e\<rparr>) = send_amountWei d p" "isSelf d (p\<lparr>sp_error := e\<rparr>) = isSelf d p"
  by (simp_all add: send_amountWei_def isSelf_def)

lemma transfer_mutation_timeout:
  assumes "transfer_mutation node d p = (r, [w])"
  shows "(node w = TimedOut \<longrightarrow> r = Inl ReceiptTimeout)
       \<and> (\<forall>node2. broadcast (node2 w) \<longrightarrow> snd (transfer_mutation node2 d p) = [w])"
  using assms
  by (auto simp: transfer_mutation_def send_write_def broadcast_def Let_def
      split: option.splits if_splits write_reply.splits bool.splits)

text \<open>
  A transfer whose receipt times out can be sent twice: the send screen reports an error,
  stays on the confirm step with the button enabled, and confirming again broadcasts the same
  transfer again, although the first may still be mined.  (The staking screen reports the same
  situation as an unknown status.)
\<close>

lemma send_timeout_allows_double_send:
  assumes "canConfirm d p" and "send_confirm node d p = (p', [w])" and "node w = TimedOut"
    and "sp_step p = ConfirmStep" and "broadcast (node2 w)"
  shows "sp_step p' = ConfirmStep \<and> sp_error p' = Some ReceiptTimeout \<and> canConfirm d p'
       \<and> snd (send_confirm node2 d p') = [w]"
proof -
  obtain r where m: "transfer_mutation node d p = (r, [w])"
    and p': "(\<exists>e. r = Inl e \<and> p' = p\<lparr>sp_error := Some e\<rparr>) \<or> (r = Inr () \<and> p' = p\<lparr>sp_error := None, sp_step := SuccessStep\<rparr>)"
    using assms(1,2) by (auto simp: send_confirm_def split: prod.splits sum.splits)
  with transfer_mutation_timeout [OF m] assms(3) have p'': "p' = p\<lparr>sp_error := Some ReceiptTimeout\<rparr>" by auto
  have same: "transfer_mutation node2 d p' = transfer_mutation node2 d p" "canConfirm d p' = canConfirm d p"
    by (simp_all add: p'' transfer_mutation_def canConfirm_def cong: option.case_cong if_cong)
  have "snd (send_confirm node2 d p') = snd (transfer_mutation node2 d p)"
    using assms(1) same by (simp add: send_confirm_def split: prod.splits sum.splits)
  then show ?thesis
    using transfer_mutation_timeout [OF m] assms(1,4,5) same by (simp add: p'')
qed

lemma sample_timeout:
  "send_confirm (\<lambda>_. TimedOut) sample_send sample_send_page =
     (sample_send_page\<lparr>sp_error := Some ReceiptTimeout\<rparr>, [transferOltin ''0xA'' ''0xB'' 1500000000000000000])"
  "canConfirm sample_send sample_send_page"
  by (simp_all add: send_confirm_def canConfirm_def transfer_mutation_def send_amountWei_def sample_send_def
      sample_send_page_def OLTIN_DECIMALS_def sample_amount oltinWei_def isSelf_def truthy_def send_write_def
      amountValid_def exceedsBalance_def js_simps)

lemma send_timeout_allows_double_send_witness:
  "snd (send_confirm (\<lambda>_. Receipt True) sample_send (sample_send_page\<lparr>sp_error := Some ReceiptTimeout\<rparr>))
     = [transferOltin ''0xA'' ''0xB'' 1500000000000000000]"
  using send_timeout_allows_double_send [OF sample_timeout(2,1), of "\<lambda>_. Receipt True"]
  by (simp add: sample_send_page_def broadcast_def)

lemma swap_mutation_sound:
  assumes "swap_mutation node d = (r, ws)"
  shows "(ws = [] \<and> r \<noteq> Inr ())
       \<or> (\<exists>account amt q est minOut.
            ws \<in> {[approveForExchange account (spend_token (xd_side d)) amt],
                   [approveForExchange account (spend_token (xd_side d)) amt, swap_write (xd_side d) account amt minOut]}
            \<and> xd_account d = Some account \<and> xd_amountWei d = Some amt \<and> 0 < amt \<and> amt \<le> spendWei d
            \<and> xd_getQuote d (xd_side d) (js_trim (xd_amount d)) = Some q \<and> qt_side q = Some (xd_side d)
            \<and> (\<exists>s. qt_estimated_out_wei q = Some s \<and> js_BigInt s = Some est)
            \<and> 0 < minOut \<and> minOut * 10000 \<le> est * 9900 \<and> est * 9900 < (minOut + 1) * 10000
            \<and> (swap_write (xd_side d) account amt minOut \<in> set ws \<longrightarrow>
                 node (approveForExchange account (spend_token (xd_side d)) amt) = Receipt True)
            \<and> (r = Inr () \<longrightarrow>
                 ws = [approveForExchange account (spend_token (xd_side d)) amt, swap_write (xd_side d) account amt minOut])
            \<and> (r = Inr () \<longleftrightarrow> node (approveForExchange account (spend_token (xd_side d)) amt) = Receipt True
                 \<and> node (swap_write (xd_side d) account amt minOut) = Receipt True))"
proof (cases "ws = [] \<and> r \<noteq> Inr ()")
  case True
  then show ?thesis by blast
next
  case nonempty: False
  from assms nonempty obtain account amt q minOut where
    acc: "xd_account d = Some account" and amt: "xd_amountWei d = Some amt" and le: "amt \<le> spendWei d"
    and q: "xd_getQuote d (xd_side d) (js_trim (xd_amount d)) = Some q" "qt_side q = Some (xd_side d)"
    and mo: "computeMinOut (qt_estimated_out_wei q) SLIPPAGE_BPS = Some minOut"
    and run: "then_do
        (send_write node (explain_swap False) ApproveReverted ReceiptTimeout
           (approveForExchange account (spend_token (xd_side d)) amt))
        (\<lambda>_. send_write node (explain_swap True) (explain_swap True ''reverted'') ReceiptTimeout
           (swap_write (xd_side d) account amt minOut)) = (r, ws)"
    by (auto simp: swap_mutation_def not_less split: option.splits if_splits)
  have pos: "0 < amt" using amt by (auto simp: xd_amountWei_def dest: parseTokenAmount_pos)
  from mo obtain s est where est: "qt_estimated_out_wei q = Some s" "js_BigInt s = Some est" "0 < est"
      "minOut = est * (10000 - SLIPPAGE_BPS) sdiv 10000" "0 < minOut"
    by (auto simp: computeMinOut_def Let_def split: option.splits if_splits)
  have fl: "minOut = est * 9900 div 10000" using est(3,4) by (simp add: SLIPPAGE_BPS_def sdiv_pos_nonneg)
  then have bounds: "minOut * 10000 \<le> est * 9900" "est * 9900 < (minOut + 1) * 10000"
    using le_div_iff_mult_le [of 10000 minOut "est * 9900"] div_less_iff_less_mult [of 10000 "est * 9900" "minOut + 1"]
    by simp_all
  have ne: "approveForExchange account (spend_token (xd_side d)) amt \<noteq> swap_write (xd_side d) account amt minOut"
    by (cases "xd_side d") (simp_all add: approveForExchange_def swap_write_def exchangeBuy_def exchangeSell_def)
  show ?thesis
    using two_writes_cases [OF run] ne acc amt le q est(1,2,5) pos bounds nonempty by blast
qed

text \<open>
  C8.  A swap approves exactly what it spends and is protected by the quoted floor: the
  broadcast writes are a prefix of the approval followed by the swap; both are for the typed
  amount, which is positive and within the balance of the token of that side; the swap is sent
  only after a successful approval receipt; and its minimum output is 99 percent, rounded down,
  of a fresh quote for the same side.  Success is reported exactly when both receipts are good, and
  then both writes were sent.
\<close>

theorem swap_is_approved_and_floored:
  assumes "swap_mutation node d = (r, ws)"
  shows "(ws = [] \<and> r \<noteq> Inr ())
       \<or> (\<exists>account amt q est minOut.
            ws \<in> {[approveForExchange account (spend_token (xd_side d)) amt],
                   [approveForExchange account (spend_token (xd_side d)) amt, swap_write (xd_side d) account amt minOut]}
            \<and> xd_account d = Some account \<and> xd_amountWei d = Some amt \<and> 0 < amt \<and> amt \<le> spendWei d
            \<and> xd_getQuote d (xd_side d) (js_trim (xd_amount d)) = Some q \<and> qt_side q = Some (xd_side d)
            \<and> (\<exists>s. qt_estimated_out_wei q = Some s \<and> js_BigInt s = Some est)
            \<and> 0 < minOut \<and> minOut * 10000 \<le> est * 9900 \<and> est * 9900 < (minOut + 1) * 10000
            \<and> (swap_write (xd_side d) account amt minOut \<in> set ws \<longrightarrow>
                 node (approveForExchange account (spend_token (xd_side d)) amt) = Receipt True)
            \<and> (r = Inr () \<longrightarrow>
                 ws = [approveForExchange account (spend_token (xd_side d)) amt, swap_write (xd_side d) account amt minOut])
            \<and> (r = Inr () \<longleftrightarrow> node (approveForExchange account (spend_token (xd_side d)) amt) = Receipt True
                 \<and> node (swap_write (xd_side d) account amt minOut) = Receipt True))"
  using assms by (rule swap_mutation_sound)

definition sample_swap :: exchange_data where
  "sample_swap = \<lparr>xd_account = Some ''0xA'', xd_side = Buy, xd_amount = ''1.5'',
     xd_balances = Some \<lparr>ba_wallet_address = ''0xA'', ba_oltin_wei = 0, ba_uzd_wei = 2000000000000000000\<rparr>,
     xd_parseUnits = sample_parseUnits,
     xd_getQuote = (\<lambda>s a. Some \<lparr>qt_side = Some s, qt_estimated_out_wei = Some (show_nat 1000)\<rparr>)\<rparr>"

lemma sample_swap_run:
  "swap_mutation (\<lambda>_. Receipt True) sample_swap =
     (Inr (), [approveForExchange ''0xA'' ContractUZD 1500000000000000000,
               exchangeBuy ''0xA'' 1500000000000000000 990])"
  by (simp add: swap_mutation_def sample_swap_def xd_amountWei_def TOKEN_DECIMALS_def sample_amount spendWei_def
      uzdWei_def truthy_def computeMinOut_def SLIPPAGE_BPS_def signed_divide_int_def then_do_def send_write_def
      spend_token_def swap_write_def)

theorem swap_is_approved_and_floored_witness:
  "\<exists>account amt. xd_account sample_swap = Some account \<and> xd_amountWei sample_swap = Some amt
     \<and> 0 < amt \<and> amt \<le> spendWei sample_swap"
  using swap_is_approved_and_floored [OF sample_swap_run] by blast

lemma stake_mutation_cases:
  assumes "stake_mutation node d = (r, ws)" and "ws \<noteq> []"
  shows "\<exists>account amt. ws \<in> {[approveStakingForOltin account amt],
             [approveStakingForOltin account amt, stake account amt]}
         \<and> kd_account d = Some account \<and> kd_amt d = Some amt \<and> amt \<le> oltinWei (kd_balances d)
         \<and> (stake account amt \<in> set ws \<longrightarrow> node (approveStakingForOltin account amt) = Receipt True)
         \<and> (node (last ws) = TimedOut \<longrightarrow> r = Inl StatusUnknown)"
proof -
  from assms obtain account amt where *: "kd_account d = Some account" "kd_amt d = Some amt"
    "amt \<le> oltinWei (kd_balances d)"
    and run: "then_do
        (send_write node (explain_staking False) ApproveReverted StatusUnknown (approveStakingForOltin account amt))
        (\<lambda>_. send_write node (explain_staking True) (explain_staking True ''reverted'') StatusUnknown
           (stake account amt)) = (r, ws)"
    by (auto simp: stake_mutation_def not_less split: option.splits if_splits)
  have "approveStakingForOltin account amt \<noteq> stake account amt"
    by (simp add: approveStakingForOltin_def stake_def)
  then have "ws \<in> {[approveStakingForOltin account amt], [approveStakingForOltin account amt, stake account amt]}
      \<and> (stake account amt \<in> set ws \<longrightarrow> node (approveStakingForOltin account amt) = Receipt True)
      \<and> (node (last ws) = TimedOut \<longrightarrow> r = Inl StatusUnknown)"
    using run assms(2)
    by (auto simp: then_do_def send_write_def split: write_reply.splits bool.splits)
  with * show ?thesis by blast
qed

lemma withdraw_mutation_cases:
  assumes "withdraw_mutation node d = (r, ws)" and "ws \<noteq> []"
  shows "\<exists>account amt. ws = [unstake account amt] \<and> kd_account d = Some account \<and> kd_amt d = Some amt
         \<and> amt \<le> kd_unlockedWei d \<and> (node (unstake account amt) = TimedOut \<longrightarrow> r = Inl StatusUnknown)"
  using assms
  by (auto simp: withdraw_mutation_def send_write_def not_less
      split: option.splits if_splits write_reply.splits bool.splits)

text \<open>
  Staking never locks or releases more than the screen allows and never follows an
  uncertain approval: a deposit broadcasts a prefix of approve and stake for one positive amount
  within the OLTIN balance, the stake only after a good approval receipt; a withdrawal broadcasts
  at most one unstake within the unlocked principal; and a receipt that does not arrive is
  reported as unknown, never as failed or done.
\<close>

lemma staking_writes_are_bounded:
  shows "(\<forall>r ws. stake_mutation node d = (r, ws) \<longrightarrow> ws \<noteq> [] \<longrightarrow>
            (\<exists>account amt. ws \<in> {[approveStakingForOltin account amt],
                                 [approveStakingForOltin account amt, stake account amt]}
               \<and> kd_account d = Some account \<and> 0 < amt \<and> amt \<le> oltinWei (kd_balances d)
               \<and> (stake account amt \<in> set ws \<longrightarrow> node (approveStakingForOltin account amt) = Receipt True)
               \<and> (node (last ws) = TimedOut \<longrightarrow> r = Inl StatusUnknown)))
       \<and> (\<forall>r ws. withdraw_mutation node d = (r, ws) \<longrightarrow> ws \<noteq> [] \<longrightarrow>
            (\<exists>account amt. ws = [unstake account amt] \<and> kd_account d = Some account
               \<and> 0 < amt \<and> amt \<le> kd_unlockedWei d
               \<and> (node (unstake account amt) = TimedOut \<longrightarrow> r = Inl StatusUnknown)))"
proof -
  have pos: "kd_amt d = Some amt \<Longrightarrow> 0 < amt" for amt
    by (auto simp: kd_amt_def dest: parseTokenAmount_pos)
  show ?thesis
    using stake_mutation_cases [of node d] withdraw_mutation_cases [of node d] pos by (intro conjI allI impI) blast+
qed

definition sample_stake :: staking_data where
  "sample_stake = \<lparr>kd_account = Some ''0xA'', kd_amount = ''1.5'',
     kd_balances = Some \<lparr>ba_wallet_address = ''0xA'', ba_oltin_wei = 2000000000000000000, ba_uzd_wei = 0\<rparr>,
     kd_unlockedWei = 0, kd_parseUnits = sample_parseUnits\<rparr>"

lemma staking_writes_are_bounded_witness:
  "stake_mutation (\<lambda>_. TimedOut) sample_stake =
     (Inl StatusUnknown, [approveStakingForOltin ''0xA'' 1500000000000000000])"
proof -
  obtain r where m: "stake_mutation (\<lambda>_. TimedOut) sample_stake = (r, [approveStakingForOltin ''0xA'' 1500000000000000000])"
    by (simp add: stake_mutation_def sample_stake_def kd_amt_def TOKEN_DECIMALS_def sample_amount oltinWei_def
        then_do_def send_write_def)
  then have "r = Inl StatusUnknown"
    using staking_writes_are_bounded [of "\<lambda>_. TimedOut" sample_stake] by fastforce
  with m show ?thesis by simp
qed

end
