(* ===== verification/Screens.thy ===== *)
theory Screens
  imports Pages History JsNumber
begin

text \<open>
  What the money screens render and how their remaining handlers move their state:
  \<^verbatim>\<open>app/send/page.tsx\<close>, \<^verbatim>\<open>app/exchange/page.tsx\<close>, \<^verbatim>\<open>app/staking/page.tsx\<close> and
  \<^verbatim>\<open>app/wallet/page.tsx\<close>.  A view is the data behind the markup: which parts are present, the values
  they print and which buttons are enabled; styling, haptics and fixed labels are left out.
  A text that fails to format (a malformed wei string throws) is \<^term>\<open>None\<close>.
\<close>

section \<open>Send screen\<close>

datatype back_button = BackReset | BackToWallet | BackTo send_step

datatype address_cell = AddressResolving | AddressEnds string string | NoWalletCell

datatype send_body =
    SuccessBody string "string option"
  | RecipientBody string bool "recipient list option" "recipient list option"
  | AmountBody "string option" string "string option" bool bool
  | ConfirmBody "ui_error option" "string option" address_cell string bool bool bool

record send_render = send_data +
  sr_user_id :: "string option"
  sr_searching :: bool
  sr_searchResults :: "recipient list option"
  sr_favorites :: "recipient list option"
  sr_pending :: bool

text \<open>\<^verbatim>\<open>value.replace('@', '')\<close> removes the first occurrence only.\<close>

fun remove_first_at :: "string \<Rightarrow> string" where
  "remove_first_at [] = []"
| "remove_first_at (c # s) = (if c = CHR ''@'' then s else c # remove_first_at s)"

definition type_search :: "string \<Rightarrow> send_page \<Rightarrow> send_page" where
  "type_search v p = p\<lparr>sp_searchQuery := remove_first_at v\<rparr>"

definition type_amount :: "string \<Rightarrow> send_page \<Rightarrow> send_page" where
  "type_amount v p = p\<lparr>sp_amount := v\<rparr>"

definition search_enabled :: "send_page \<Rightarrow> bool" where
  "search_enabled p \<longleftrightarrow> 2 \<le> length (sp_searchQuery p)"

definition truncate_address :: "string \<Rightarrow> address_cell" where
  "truncate_address a = AddressEnds (take 6 a) (drop (length a - 4) a)"

definition availableDisplay :: "send_data \<Rightarrow> string option" where
  "availableDisplay d =
     (case sd_balances d of None \<Rightarrow> Some ''0'' | Some b \<Rightarrow> formatToken (sd_formatUnits d) (show_int (ba_oltin_wei b)) 4)"

definition send_header :: "send_page \<Rightarrow> back_button" where
  "send_header p =
     (case sp_step p of
        SuccessStep \<Rightarrow> BackReset
      | RecipientStep \<Rightarrow> BackToWallet
      | ConfirmStep \<Rightarrow> BackTo AmountStep
      | AmountStep \<Rightarrow> BackTo RecipientStep)"

definition nonempty_list :: "'a list option \<Rightarrow> 'a list option" where
  "nonempty_list xs = (case xs of None \<Rightarrow> None | Some l \<Rightarrow> if l = [] then None else Some l)"

definition search_rows :: "send_render \<Rightarrow> recipient list option" where
  "search_rows d =
     map_option (filter (\<lambda>u. Some (rc_id u) \<noteq> sr_user_id d)) (nonempty_list (sr_searchResults d))"

definition favorite_rows :: "send_render \<Rightarrow> send_page \<Rightarrow> recipient list option" where
  "favorite_rows d p = (if sp_searchQuery p \<noteq> [] then None else nonempty_list (sr_favorites d))"

definition address_shown :: "send_data \<Rightarrow> address_cell" where
  "address_shown d =
     (if sd_resolving d then AddressResolving
      else if truthy (sd_recipientAddress d) then truncate_address (the (sd_recipientAddress d))
      else NoWalletCell)"

definition confirm_body :: "send_render \<Rightarrow> send_page \<Rightarrow> send_body" where
  "confirm_body d p =
     (let sd = send_data.truncate d in
      ConfirmBody (sp_error p) (map_option rc_oltin_id (sp_recipient p)) (address_shown sd) (sp_amount p) (isSelf sd p)
        (\<not> sr_pending d \<and> canConfirm sd p) (sr_pending d))"

definition send_view :: "send_render \<Rightarrow> send_page \<Rightarrow> back_button \<times> send_body" where
  "send_view d p =
     (let sd = send_data.truncate d; oltin_id = map_option rc_oltin_id (sp_recipient p);
          amountWei = send_amountWei sd p; limit = oltinWei (sd_balances sd) in
      (send_header p,
       case sp_step p of
         SuccessStep \<Rightarrow> SuccessBody (sp_amount p) oltin_id
       | RecipientStep \<Rightarrow> RecipientBody (sp_searchQuery p) (sr_searching d) (search_rows d) (favorite_rows d p)
       | AmountStep \<Rightarrow>
           AmountBody oltin_id (sp_amount p) (availableDisplay sd) (exceedsBalance amountWei limit)
             (amountValid amountWei limit)
       | ConfirmStep \<Rightarrow> confirm_body d p))"

section \<open>Exchange screen\<close>

record quote_response = quote +
  qt_estimated_out :: "js_number option"

datatype swap_progress = Approving | Swapping

record exchange_render = exchange_data +
  xr_formatUnits :: "int \<Rightarrow> nat \<Rightarrow> string"
  xr_ratesLoading :: bool
  xr_oltinPriceUzd :: "js_number option"
  xr_quote :: "quote_response option"
  xr_quoteFetching :: bool
  xr_success :: bool
  xr_progress :: "swap_progress option"
  xr_pending :: bool
  xr_error :: "ui_error option"

datatype receive_cell = ReceiveZero | ReceiveDots | ReceiveAmount js_number

datatype swap_label = SwapProgress swap_progress | SwapSide side

record exchange_view =
  xv_walletUzd :: "string option"
  xv_walletOltin :: "string option"
  xv_price :: "js_number option"
  xv_success :: bool
  xv_error :: "ui_error option"
  xv_side :: side
  xv_available :: "string option"
  xv_spend :: contract_id
  xv_amount :: string
  xv_exceeds :: bool
  xv_receive :: receive_cell
  xv_receive_token :: contract_id
  xv_swap_enabled :: bool
  xv_swap_label :: swap_label

definition receive_token :: "side \<Rightarrow> contract_id" where
  "receive_token s = (case s of Buy \<Rightarrow> ContractOLTIN | Sell \<Rightarrow> ContractUZD)"

definition canSwap :: "exchange_render \<Rightarrow> bool" where
  "canSwap d \<longleftrightarrow>
     (let x = exchange_data.truncate d in amountValid (xd_amountWei x) (spendWei x))
     \<and> truthy (case xr_quote d of None \<Rightarrow> None | Some q \<Rightarrow> qt_estimated_out_wei q) \<and> \<not> xr_pending d"

definition balance_text :: "(int \<Rightarrow> nat \<Rightarrow> string) \<Rightarrow> (balances \<Rightarrow> int) \<Rightarrow> balances option \<Rightarrow> string option" where
  "balance_text formatUnits field b =
     (case b of None \<Rightarrow> Some ''0'' | Some x \<Rightarrow> formatToken formatUnits (show_int (field x)) 4)"

definition swap_label_of :: "exchange_render \<Rightarrow> swap_label" where
  "swap_label_of d =
     (if xr_pending d then SwapProgress (if xr_progress d = Some Approving then Approving else Swapping)
      else SwapSide (xd_side d))"

definition exchange_screen :: "exchange_render \<Rightarrow> exchange_view" where
  "exchange_screen d =
     (let x = exchange_data.truncate d; fu = xr_formatUnits d; amountWei = xd_amountWei x; limit = spendWei x;
          estimatedOut = (case xr_quote d of None \<Rightarrow> None | Some q \<Rightarrow> qt_estimated_out q) in
      \<lparr>xv_walletUzd = balance_text fu ba_uzd_wei (xd_balances d),
       xv_walletOltin = balance_text fu ba_oltin_wei (xd_balances d),
       xv_price = (if xr_ratesLoading d then None else xr_oltinPriceUzd d),
       xv_success = xr_success d, xv_error = xr_error d, xv_side = xd_side d,
       xv_available = formatToken fu (show_int limit) 4,
       xv_spend = spend_token (xd_side d), xv_amount = xd_amount d,
       xv_exceeds = exceedsBalance amountWei limit,
       xv_receive =
         (if \<not> amountValid amountWei limit then ReceiveZero
          else if xr_quoteFetching d \<and> estimatedOut = None then ReceiveDots
          else case estimatedOut of Some v \<Rightarrow> ReceiveAmount v | None \<Rightarrow> ReceiveZero),
       xv_receive_token = receive_token (xd_side d),
       xv_swap_enabled = canSwap d,
       xv_swap_label = swap_label_of d\<rparr>)"

text \<open>Handlers: the side toggle, Max, and what a settled swap leaves behind.\<close>

definition choose_side :: "side \<Rightarrow> exchange_render \<Rightarrow> exchange_render" where
  "choose_side s d = d\<lparr>xd_side := s, xd_amount := []\<rparr>"

definition exchange_max :: "exchange_render \<Rightarrow> exchange_render" where
  "exchange_max d = d\<lparr>xd_amount := xr_formatUnits d (spendWei (exchange_data.truncate d)) TOKEN_DECIMALS\<rparr>"

definition swap_settled :: "(ui_error, unit) result \<Rightarrow> exchange_render \<Rightarrow> exchange_render" where
  "swap_settled r d =
     (case r of
        Inr _ \<Rightarrow> d\<lparr>xd_amount := [], xr_success := True, xr_error := None, xr_progress := None, xr_pending := False\<rparr>
      | Inl e \<Rightarrow> d\<lparr>xr_error := Some e, xr_progress := None, xr_pending := False\<rparr>)"

section \<open>Staking screen\<close>

definition EMPTY_STAKING :: staking_info where
  "EMPTY_STAKING = \<lparr>si_wallet_address = [], si_total_principal_wei = ''0'', si_unlocked_wei = ''0'',
     si_pending_reward_wei = ''0'', si_lot_count = 0, si_apy_bps = 700, si_next_unlock_at = 0,
     si_lock_period_days = 7\<rparr>"

datatype staking_action = DepositAction | WithdrawAction

datatype staking_notice = DepositDone | WithdrawDone | ClaimSubmitted

text \<open>
  The page's state: the typed amount, the chosen action, the flashed notice, and for each of the
  three mutations whether it is pending and its last error.
\<close>

record staking_page =
  kp_amount :: string
  kp_action :: staking_action
  kp_success :: "staking_notice option"
  kp_approving :: bool
  kp_stake_pending :: bool
  kp_withdraw_pending :: bool
  kp_claim_pending :: bool
  kp_stake_error :: "ui_error option"
  kp_withdraw_error :: "ui_error option"
  kp_claim_error :: "ui_error option"

datatype staking_mutation = StakeMutation | WithdrawMutation | ClaimMutation

fun start_mutation :: "staking_mutation \<Rightarrow> staking_page \<Rightarrow> staking_page" where
  "start_mutation StakeMutation p = p\<lparr>kp_stake_pending := True, kp_stake_error := None\<rparr>"
| "start_mutation WithdrawMutation p = p\<lparr>kp_withdraw_pending := True, kp_withdraw_error := None\<rparr>"
| "start_mutation ClaimMutation p = p\<lparr>kp_claim_pending := True, kp_claim_error := None\<rparr>"

fun settle_mutation :: "staking_mutation \<Rightarrow> (ui_error, unit) result \<Rightarrow> staking_page \<Rightarrow> staking_page" where
  "settle_mutation StakeMutation (Inr _) p =
     p\<lparr>kp_amount := [], kp_success := Some DepositDone, kp_approving := False, kp_stake_pending := False\<rparr>"
| "settle_mutation StakeMutation (Inl e) p =
     p\<lparr>kp_stake_error := Some e, kp_approving := False, kp_stake_pending := False\<rparr>"
| "settle_mutation WithdrawMutation (Inr _) p =
     p\<lparr>kp_amount := [], kp_success := Some WithdrawDone, kp_withdraw_pending := False\<rparr>"
| "settle_mutation WithdrawMutation (Inl e) p = p\<lparr>kp_withdraw_error := Some e, kp_withdraw_pending := False\<rparr>"
| "settle_mutation ClaimMutation (Inr _) p = p\<lparr>kp_success := Some ClaimSubmitted, kp_claim_pending := False\<rparr>"
| "settle_mutation ClaimMutation (Inl e) p = p\<lparr>kp_claim_error := Some e, kp_claim_pending := False\<rparr>"

text \<open>\<^verbatim>\<open>setStep\<close> inside the deposit: approving, then staking.\<close>

definition stake_progress :: "bool \<Rightarrow> staking_page \<Rightarrow> staking_page" where
  "stake_progress approving p = p\<lparr>kp_approving := approving\<rparr>"

definition staking_busy :: "staking_page \<Rightarrow> bool" where
  "staking_busy p \<longleftrightarrow> kp_stake_pending p \<or> kp_withdraw_pending p \<or> kp_claim_pending p"

definition staking_error :: "staking_page \<Rightarrow> ui_error option" where
  "staking_error p =
     (if kp_stake_error p \<noteq> None then kp_stake_error p
      else if kp_withdraw_error p \<noteq> None then kp_withdraw_error p else kp_claim_error p)"

definition handleSubmit :: "staking_page \<Rightarrow> staking_mutation option" where
  "handleSubmit p =
     (if kp_amount p = [] then None
      else Some (case kp_action p of DepositAction \<Rightarrow> StakeMutation | WithdrawAction \<Rightarrow> WithdrawMutation))"

definition choose_action :: "staking_action \<Rightarrow> staking_page \<Rightarrow> staking_page" where
  "choose_action a p = p\<lparr>kp_action := a, kp_amount := []\<rparr>"

text \<open>The largest amount the page offers; \<^term>\<open>None\<close> when the unlocked amount is malformed.\<close>

definition staking_maxWei :: "staking_page \<Rightarrow> balances option \<Rightarrow> staking_view \<Rightarrow> int option" where
  "staking_maxWei p b v =
     (case kp_action p of DepositAction \<Rightarrow> Some (oltinWei b) | WithdrawAction \<Rightarrow> js_BigInt (sv_unlockedWei v))"

datatype claim_label = Claiming | ClaimReward | NotAccrued

datatype submit_label = SubmitApproving | SubmitStaking | SubmitWithdrawing | SubmitStake | SubmitWithdraw

record staking_screen =
  ks_apyTimes100 :: int
  ks_lockDays :: int
  ks_success :: "staking_notice option"
  ks_error :: "ui_error option"
  ks_principal :: string
  ks_unlocked :: string
  ks_next_unlock :: "int option"
  ks_pending :: string
  ks_claim_enabled :: bool
  ks_claim_label :: claim_label
  ks_withdraw_tab_enabled :: bool
  ks_available :: "string option"
  ks_submit_enabled :: bool
  ks_submit_label :: submit_label

definition submit_label_of :: "staking_page \<Rightarrow> submit_label" where
  "submit_label_of p =
     (if kp_stake_pending p \<or> kp_withdraw_pending p then
        (if kp_approving p then SubmitApproving
         else if kp_action p = DepositAction then SubmitStaking else SubmitWithdrawing)
      else if kp_action p = DepositAction then SubmitStake else SubmitWithdraw)"

definition staking_render ::
    "(int \<Rightarrow> nat \<Rightarrow> string) \<Rightarrow> staking_info option \<Rightarrow> balances option \<Rightarrow> staking_page \<Rightarrow> staking_screen option" where
  "staking_render formatUnits info b p =
     (case deriveStakingView formatUnits (case info of None \<Rightarrow> EMPTY_STAKING | Some i \<Rightarrow> i) of
        None \<Rightarrow> None
      | Some v \<Rightarrow>
          Some \<lparr>ks_apyTimes100 = sv_apyPercentTimes100 v, ks_lockDays = sv_lockPeriodDays v,
            ks_success = kp_success p, ks_error = staking_error p,
            ks_principal = sv_principal v, ks_unlocked = sv_unlocked v,
            ks_next_unlock = (if sv_isLocked v \<and> sv_nextUnlockAt v > 0 then Some (sv_nextUnlockAt v * 1000) else None),
            ks_pending = sv_pending v,
            ks_claim_enabled = (sv_claimable v \<and> \<not> staking_busy p),
            ks_claim_label =
              (if kp_claim_pending p then Claiming else if sv_claimable v then ClaimReward else NotAccrued),
            ks_withdraw_tab_enabled = sv_withdrawable v,
            ks_available =
              (case staking_maxWei p b v of None \<Rightarrow> None | Some m \<Rightarrow> formatToken formatUnits (show_int m) 4),
            ks_submit_enabled =
              (kp_amount p \<noteq> [] \<and> \<not> staking_busy p \<and> \<not> (kp_action p = WithdrawAction \<and> \<not> sv_withdrawable v)),
            ks_submit_label = submit_label_of p\<rparr>)"

section \<open>Wallet screen\<close>

record balances_response = balances +
  ba_total_principal_wei :: int

datatype wallet_tab = WalletTab | StakingTab

record wallet_page =
  wp_activeTab :: wallet_tab
  wp_agreed :: bool
  wp_claim_pending :: bool
  wp_claim_error :: bool

record wallet_data =
  wd_user_oltin_id :: "string option"
  wd_tg_first_name :: "string option"
  wd_balances :: "balances_response option"
  wd_isLoading :: bool
  wd_error :: bool
  wd_welcome_claimed :: "bool option"
  wd_transactions :: "transaction list option"
  wd_formatUnits :: "int \<Rightarrow> nat \<Rightarrow> string"

text \<open>A user that has not loaded prints as \<^verbatim>\<open>@undefined\<close>.\<close>

definition wallet_displayName :: "wallet_data \<Rightarrow> string" where
  "wallet_displayName d =
     (if (case wd_user_oltin_id d of None \<Rightarrow> False | Some i \<Rightarrow> js_startsWith i ''user_'')
      then (if truthy (wd_tg_first_name d) then the (wd_tg_first_name d) else ''User'')
      else ''@'' @ (case wd_user_oltin_id d of None \<Rightarrow> ''undefined'' | Some i \<Rightarrow> i))"

definition wallet_amount :: "wallet_data \<Rightarrow> (balances_response \<Rightarrow> int) \<Rightarrow> string option" where
  "wallet_amount d field =
     (case wd_balances d of None \<Rightarrow> Some ''0'' | Some b \<Rightarrow> formatToken (wd_formatUnits d) (show_int (field b)) 4)"

definition balanceRows :: "wallet_data \<Rightarrow> wallet_tab \<Rightarrow> (token_symbol \<times> string option) list" where
  "balanceRows d tab =
     (case tab of
        WalletTab \<Rightarrow> [(UZD, wallet_amount d ba_uzd_wei), (OLTIN, wallet_amount d ba_oltin_wei)]
      | StakingTab \<Rightarrow> [(OLTIN, wallet_amount d ba_total_principal_wei)])"

datatype amount_sign = PlusSign | MinusSign | NoSign

definition sign_of_kind :: "history_kind \<Rightarrow> amount_sign" where
  "sign_of_kind k =
     (if k = Received \<or> k = Minted then PlusSign else if k = Sent \<or> k = Burned then MinusSign else NoSign)"

record tx_row =
  tr_kind :: history_kind
  tr_href :: string
  tr_indexed_at :: string
  tr_amount :: "(amount_sign \<times> string option \<times> token_symbol) option"

definition tx_row_of :: "wallet_data \<Rightarrow> display_tx \<Rightarrow> tx_row" where
  "tx_row_of d tx =
     \<lparr>tr_kind = d_kind tx, tr_href = d_explorer_url tx, tr_indexed_at = d_indexed_at tx,
      tr_amount =
        (if truthy (d_amount_wei tx)
         then Some (sign_of_kind (d_kind tx), formatToken (wd_formatUnits d) (the (d_amount_wei tx)) 4, d_symbol tx)
         else None)\<rparr>"

record claim_card =
  cd_agreed :: bool
  cd_error :: bool
  cd_enabled :: bool
  cd_pending :: bool

record wallet_screen =
  wv_displayName :: string
  wv_refresh_enabled :: bool
  wv_error :: bool
  wv_total :: "string option"
  wv_claim :: "claim_card option"
  wv_rows :: "(token_symbol \<times> string option) list"
  wv_history :: "tx_row list"

text \<open>Amounts are placeholders while the balances load, which is \<^term>\<open>None\<close> here too.\<close>

definition wallet_render :: "wallet_data \<Rightarrow> wallet_page \<Rightarrow> wallet_screen" where
  "wallet_render d p =
     \<lparr>wv_displayName = wallet_displayName d, wv_refresh_enabled = (\<not> wd_isLoading d), wv_error = wd_error d,
      wv_total = (if wd_isLoading d then None else wallet_amount d ba_uzd_wei),
      wv_claim =
        (if wd_welcome_claimed d = Some False
         then Some \<lparr>cd_agreed = wp_agreed p, cd_error = wp_claim_error p,
                    cd_enabled = (wp_agreed p \<and> \<not> wp_claim_pending p), cd_pending = wp_claim_pending p\<rparr>
         else None),
      wv_rows = map (\<lambda>(sy, v). (sy, if wd_isLoading d then None else v)) (balanceRows d (wp_activeTab p)),
      wv_history = map (tx_row_of d) (take 8 (prepareHistory (case wd_transactions d of None \<Rightarrow> [] | Some t \<Rightarrow> t)))\<rparr>"

text \<open>The claim mutation: its start, its end and the query keys it refreshes.\<close>

definition claim_start :: "wallet_page \<Rightarrow> wallet_page" where
  "claim_start p = p\<lparr>wp_claim_pending := True, wp_claim_error := False\<rparr>"

definition claim_settled :: "bool \<Rightarrow> wallet_page \<Rightarrow> wallet_page \<times> string list" where
  "claim_settled ok p =
     (if ok then (p\<lparr>wp_claim_pending := False\<rparr>, [''welcome-status'', ''balances'', ''transfers''])
      else (p\<lparr>wp_claim_pending := False, wp_claim_error := True\<rparr>, [''welcome-status'']))"

section \<open>Properties\<close>

lemma send_data_truncate_sel [simp]:
  "sd_account (send_data.truncate d) = sd_account d" "sd_balances (send_data.truncate d) = sd_balances d"
  "sd_resolving (send_data.truncate d) = sd_resolving d" "sd_parseUnits (send_data.truncate d) = sd_parseUnits d"
  "sd_recipientAddress (send_data.truncate d) = sd_recipientAddress d"
  "sd_user_oltin_id (send_data.truncate d) = sd_user_oltin_id d"
  "sd_formatUnits (send_data.truncate d) = sd_formatUnits d"
  by (simp_all add: send_data.truncate_def)

text \<open>A transfer that is broadcast goes from the account to the resolved address, for the typed amount.\<close>

lemma transfer_mutation_write:
  assumes "transfer_mutation node d p = (r, [w])"
  obtains account to amt where "w = transferOltin account to amt" "sd_account d = Some account"
    "sd_recipientAddress d = Some to" "to \<noteq> []" "send_amountWei d p = Some amt"
proof -
  from assms obtain account amt where "sd_account d = Some account" "send_amountWei d p = Some amt"
    "truthy (sd_recipientAddress d)"
    "send_write node explain_send TransactionReverted ReceiptTimeout
       (transferOltin account (the (sd_recipientAddress d)) amt) = (r, [w])"
    by (auto simp: transfer_mutation_def Let_def split: option.splits if_splits)
  moreover from this(4) have "w = transferOltin account (the (sd_recipientAddress d)) amt"
    using send_write_cases by fastforce
  ultimately show thesis using that by (auto simp: truthy_def split: option.splits)
qed

text \<open>
  C15.  What the confirm screen shows is what is signed: whenever the confirm step is displayed
  with its button enabled and pressing it broadcasts a transfer, the address ends on screen are
  those of the transfer's recipient, the amount on screen is the text that parses to the
  transferred amount, that amount is within the available balance, and neither the warning about
  sending to oneself nor a pending spinner is displayed.
\<close>

theorem confirm_screen_shows_what_is_signed:
  assumes "snd (send_view d p) = ConfirmBody err rid addr amt self True pending"
    and "transfer_mutation node (send_data.truncate d) p = (r, [w])"
  shows "\<exists>account to v. w = transferOltin account to v \<and> sd_account d = Some account
           \<and> addr = AddressEnds (take 6 to) (drop (length to - 4) to)
           \<and> parseTokenAmount (sd_parseUnits d) amt OLTIN_DECIMALS = Some v
           \<and> 0 < v \<and> v \<le> oltinWei (sd_balances d) \<and> rid = map_option rc_oltin_id (sp_recipient p)
           \<and> \<not> self \<and> \<not> pending"
proof -
  from assms(1) have step: "sp_step p = ConfirmStep" by (auto simp: send_view_def Let_def split: send_step.splits)
  with assms(1) have view: "addr = address_shown (send_data.truncate d)" "amt = sp_amount p"
    "rid = map_option rc_oltin_id (sp_recipient p)" "self = isSelf (send_data.truncate d) p"
    "pending = sr_pending d" "\<not> sr_pending d" "canConfirm (send_data.truncate d) p"
    by (auto simp: send_view_def confirm_body_def Let_def)
  from assms(2) obtain account to v where w: "w = transferOltin account to v" "sd_account d = Some account"
    "sd_recipientAddress d = Some to" "to \<noteq> []" "send_amountWei (send_data.truncate d) p = Some v"
    by (rule transfer_mutation_write) simp
  have parse: "parseTokenAmount (sd_parseUnits d) amt OLTIN_DECIMALS = Some v"
    using w(5) view(2) by (simp add: send_amountWei_def)
  have "v \<le> oltinWei (sd_balances d)" "\<not> self"
    using view(4,7) w(5) by (auto simp: canConfirm_def amountValid_def exceedsBalance_def)
  moreover have "addr = AddressEnds (take 6 to) (drop (length to - 4) to)"
    using view(1,7) w(3,4) by (simp add: address_shown_def canConfirm_def truncate_address_def)
  ultimately show ?thesis using w(1,2) parse parseTokenAmount_pos [OF parse] view by blast
qed

definition sample_render :: send_render where
  "sample_render = send_data.extend sample_send
     \<lparr>sr_user_id = Some ''1'', sr_searching = False, sr_searchResults = None, sr_favorites = None, sr_pending = False\<rparr>"

theorem confirm_screen_shows_what_is_signed_witness:
  "\<exists>account to v. transferOltin ''0xA'' ''0xB'' 1500000000000000000 = transferOltin account to v
     \<and> parseTokenAmount sample_parseUnits ''1.5'' OLTIN_DECIMALS = Some v
     \<and> snd (send_view sample_render sample_send_page)
       = ConfirmBody None (Some ''bob'') (AddressEnds (take 6 to) (drop (length to - 4) to)) ''1.5'' False True False"
proof -
  have t: "send_data.truncate sample_render = sample_send"
    by (simp add: sample_render_def sample_send_def send_data.defs)
  have pend: "\<not> sr_pending sample_render" by (simp add: sample_render_def sample_send_def send_data.defs)
  have self: "\<not> isSelf sample_send sample_send_page"
    using sample_timeout(2) by (simp add: canConfirm_def)
  have view: "snd (send_view sample_render sample_send_page)
      = ConfirmBody None (Some ''bob'') (AddressEnds (take 6 ''0xB'') (drop (length ''0xB'' - 4) ''0xB'')) ''1.5'' False True False"
  proof -
    have step: "sp_step sample_send_page = ConfirmStep" by (simp add: sample_send_page_def)
    have "address_shown sample_send = AddressEnds (take 6 ''0xB'') (drop (length ''0xB'' - 4) ''0xB'')"
      by (simp add: sample_send_def address_shown_def truthy_def truncate_address_def)
    with sample_timeout(2) self pend step show ?thesis
      by (simp add: send_view_def confirm_body_def t Let_def) (simp add: sample_send_page_def)
  qed
  have "transfer_mutation (\<lambda>_. TimedOut) sample_send sample_send_page
      = (Inl ReceiptTimeout, [transferOltin ''0xA'' ''0xB'' 1500000000000000000])"
    using sample_timeout by (auto simp: send_confirm_def sample_send_page_def split: prod.splits sum.splits)
  then have "transfer_mutation (\<lambda>_. TimedOut) (send_data.truncate sample_render) sample_send_page
      = (Inl ReceiptTimeout, [transferOltin ''0xA'' ''0xB'' 1500000000000000000])" by (simp add: t)
  from confirm_screen_shows_what_is_signed [OF view this]
  obtain account to v where *: "transferOltin ''0xA'' ''0xB'' 1500000000000000000 = transferOltin account to v"
    "parseTokenAmount (sd_parseUnits sample_render) ''1.5'' OLTIN_DECIMALS = Some v"
    "AddressEnds (take 6 ''0xB'') (drop (length ''0xB'' - 4) ''0xB'') = AddressEnds (take 6 to) (drop (length to - 4) to)"
    by blast
  have "sd_parseUnits sample_render = sample_parseUnits" by (simp add: sample_render_def sample_send_def send_data.defs)
  with *(1,2) view [unfolded *(3)] show ?thesis by metis
qed

text \<open>
  An error of one staking mutation is not cleared by another: a failed deposit's message stays on
  screen beside the notice of a later withdrawal that succeeded.
\<close>

lemma staking_error_outlives_success:
  assumes "kp_stake_error p = Some e"
  shows "staking_error (settle_mutation WithdrawMutation (Inr ()) (start_mutation WithdrawMutation p)) = Some e
       \<and> kp_success (settle_mutation WithdrawMutation (Inr ()) (start_mutation WithdrawMutation p)) = Some WithdrawDone"
  using assms by (simp add: staking_error_def)

text \<open>The claim refreshes no list of transactions: the history is cached under another key.\<close>

lemma claim_does_not_refresh_history: "''transactions'' \<notin> set (snd (claim_settled ok p))"
  by (simp add: claim_settled_def)

end
