(* ===== verification/Utf8.thy ===== *)
theory Utf8
  imports OltinPrelude "HOL-Library.Word"
begin

text \<open>
  ECMAScript text and its encodings: a string is a list of UTF-16 code units, \<^verbatim>\<open>encodeURIComponent\<close>
  reads it as code points (surrogate pairs joined, a lone surrogate is a \<^verbatim>\<open>URIError\<close>), writes them
  in UTF-8 (one to four bytes) and escapes every byte that is not unreserved.  Its inverse
  \<^verbatim>\<open>decodeURIComponent\<close> is defined beside it and undoes it on every string it accepts.
  \<^term>\<open>string\<close> stands for the strings of code units below 256; \<open>utf8\<close> is
  \<^verbatim>\<open>Buffer.from(s, "utf-8")\<close> on those, an instance of the same encoding.
\<close>

type_synonym bytes = string

type_synonym js_text = "16 word list"

lemma code_less_256: "code c < 256"
  by (simp add: code_def)

lemma code_inject: "code c = code d \<longleftrightarrow> c = d"
  by (simp add: code_def)

lemma code_char_of: "n < 256 \<Longrightarrow> code (char_of n) = n"
  by (simp add: code_def)

section \<open>UTF-16\<close>

definition high_surrogate :: "16 word \<Rightarrow> bool" where
  "high_surrogate u \<longleftrightarrow> 0xD800 \<le> unat u \<and> unat u < 0xDC00"

definition low_surrogate :: "16 word \<Rightarrow> bool" where
  "low_surrogate u \<longleftrightarrow> 0xDC00 \<le> unat u \<and> unat u < 0xE000"

definition surrogate_pair :: "16 word \<Rightarrow> 16 word \<Rightarrow> nat" where
  "surrogate_pair u v = (unat u - 0xD800) * 0x400 + (unat v - 0xDC00) + 0x10000"

fun code_points :: "js_text \<Rightarrow> nat list option" where
  "code_points [] = Some []"
| "code_points (u # us) =
     (if low_surrogate u then None
      else if high_surrogate u then
        (case us of
           [] \<Rightarrow> None
         | v # vs \<Rightarrow>
             if low_surrogate v then map_option ((#) (surrogate_pair u v)) (code_points vs) else None)
      else map_option ((#) (unat u)) (code_points us))"

definition point_units :: "nat \<Rightarrow> js_text" where
  "point_units p =
     (if p < 0x10000 then [of_nat p]
      else [of_nat (0xD800 + (p - 0x10000) div 0x400), of_nat (0xDC00 + (p - 0x10000) mod 0x400)])"

definition scalar_value :: "nat \<Rightarrow> bool" where
  "scalar_value p \<longleftrightarrow> p < 0x110000 \<and> \<not> (0xD800 \<le> p \<and> p < 0xE000)"

text \<open>\<^verbatim>\<open>String.prototype.isWellFormed\<close>: every surrogate stands in a pair.\<close>

definition isWellFormed :: "js_text \<Rightarrow> bool" where
  "isWellFormed s \<longleftrightarrow>
     (\<forall>i < length s.
        (high_surrogate (s ! i) \<longrightarrow> Suc i < length s \<and> low_surrogate (s ! Suc i))
        \<and> (low_surrogate (s ! i) \<longrightarrow> 0 < i \<and> high_surrogate (s ! (i - 1))))"

lemma unat_16: "unat (u :: 16 word) < 0x10000"
  using unsigned_less [of u, where 'a = nat] by simp

lemma high_not_low: "high_surrogate u \<Longrightarrow> \<not> low_surrogate u"
  by (simp add: high_surrogate_def low_surrogate_def)

lemma low_not_high: "low_surrogate u \<Longrightarrow> \<not> high_surrogate u"
  by (simp add: high_surrogate_def low_surrogate_def)

lemma point_units_pair:
  assumes "high_surrogate u" "low_surrogate v"
  shows "point_units (surrogate_pair u v) = [u, v]"
proof -
  have "(unat v - 0xDC00) < 0x400" using assms by (auto simp: low_surrogate_def)
  then have "(surrogate_pair u v - 0x10000) div 0x400 = unat u - 0xD800"
    "(surrogate_pair u v - 0x10000) mod 0x400 = unat v - 0xDC00"
    by (simp_all add: surrogate_pair_def)
  moreover have "\<not> surrogate_pair u v < 0x10000" by (simp add: surrogate_pair_def)
  ultimately show ?thesis
    using assms by (simp add: point_units_def high_surrogate_def low_surrogate_def flip: of_nat_add)
qed

lemma point_units_single: "point_units (unat u) = [u]"
  using unat_16 [of u] by (simp add: point_units_def)

lemma scalar_pair:
  assumes "high_surrogate u" "low_surrogate v"
  shows "scalar_value (surrogate_pair u v)"
proof -
  have "(unat u - 0xD800) * 0x400 \<le> 0x3FF * 0x400" "unat v - 0xDC00 < 0x400"
    using assms by (auto simp: high_surrogate_def low_surrogate_def)
  then show ?thesis by (simp add: scalar_value_def surrogate_pair_def)
qed

lemma scalar_single: "\<not> high_surrogate u \<Longrightarrow> \<not> low_surrogate u \<Longrightarrow> scalar_value (unat u)"
  using unat_16 [of u] by (auto simp: scalar_value_def high_surrogate_def low_surrogate_def)

lemma code_points_units:
  assumes "code_points s = Some ps"
  shows "concat (map point_units ps) = s \<and> (\<forall>p \<in> set ps. scalar_value p)"
  using assms
proof (induction s arbitrary: ps rule: code_points.induct)
  case 1
  then show ?case by simp
next
  case (2 u us)
  then show ?case
    by (auto simp: point_units_pair point_units_single scalar_pair scalar_single
        split: if_splits list.splits)
qed

text \<open>The same, with the unit before the text given: a low surrogate may come first after a high one.\<close>

definition follows_well :: "bool \<Rightarrow> js_text \<Rightarrow> bool" where
  "follows_well h s \<longleftrightarrow>
     (\<forall>i < length s.
        (high_surrogate (s ! i) \<longrightarrow> Suc i < length s \<and> low_surrogate (s ! Suc i))
        \<and> (low_surrogate (s ! i) \<longrightarrow> (if i = 0 then h else high_surrogate (s ! (i - 1)))))"

lemma well_formed_follows: "isWellFormed s \<longleftrightarrow> follows_well False s"
proof -
  have "0 < i \<and> P \<longleftrightarrow> (if i = 0 then False else P)" for i :: nat and P by simp
  then show ?thesis by (simp only: isWellFormed_def follows_well_def)
qed

lemma follows_well_Nil: "follows_well h []"
  by (simp add: follows_well_def)

lemma follows_well_Cons:
  "follows_well h (u # us) \<longleftrightarrow>
     (high_surrogate u \<longrightarrow> us \<noteq> [] \<and> low_surrogate (us ! 0)) \<and> (low_surrogate u \<longrightarrow> h)
     \<and> follows_well (high_surrogate u) us"
  by (simp add: follows_well_def All_less_Suc2 nth_Cons')

lemmas follows_well_simps = follows_well_Nil follows_well_Cons well_formed_follows

lemma code_points_None: "code_points s = None \<longleftrightarrow> \<not> isWellFormed s"
proof (induction s rule: code_points.induct)
  case 1
  show ?case by (simp add: follows_well_simps)
next
  case (2 u us)
  then show ?case
    by (cases us) (auto simp: follows_well_simps high_not_low low_not_high)
qed

section \<open>UTF-8\<close>

definition utf8_point :: "nat \<Rightarrow> bytes" where
  "utf8_point p =
     (if p < 0x80 then [char_of p]
      else if p < 0x800 then [char_of (0xC0 + p div 0x40), char_of (0x80 + p mod 0x40)]
      else if p < 0x10000 then
        [char_of (0xE0 + p div 0x1000), char_of (0x80 + p div 0x40 mod 0x40), char_of (0x80 + p mod 0x40)]
      else [char_of (0xF0 + p div 0x40000), char_of (0x80 + p div 0x1000 mod 0x40),
            char_of (0x80 + p div 0x40 mod 0x40), char_of (0x80 + p mod 0x40)])"

definition utf8_bytes :: "nat list \<Rightarrow> bytes" where
  "utf8_bytes ps = concat (map utf8_point ps)"

definition utf8 :: "string \<Rightarrow> bytes" where
  "utf8 s = utf8_bytes (map code s)"

text \<open>The decoder: the lead byte tells the length; overlong forms and surrogates are refused.\<close>

definition trail :: "char \<Rightarrow> bool" where
  "trail c \<longleftrightarrow> 0x80 \<le> code c \<and> code c < 0xC0"

definition trail_bits :: "char \<Rightarrow> nat" where
  "trail_bits c = code c - 0x80"

fun utf8_points :: "bytes \<Rightarrow> nat list option" where
  "utf8_points [] = Some []"
| "utf8_points (c # s) =
     (if code c < 0x80 then map_option ((#) (code c)) (utf8_points s)
      else if code c < 0xC0 then None
      else if code c < 0xE0 then
        (case s of
           b # t \<Rightarrow>
             let p = (code c - 0xC0) * 0x40 + trail_bits b in
             if trail b \<and> 0x80 \<le> p then map_option ((#) p) (utf8_points t) else None
         | _ \<Rightarrow> None)
      else if code c < 0xF0 then
        (case s of
           a # b # t \<Rightarrow>
             let p = (code c - 0xE0) * 0x1000 + trail_bits a * 0x40 + trail_bits b in
             if trail a \<and> trail b \<and> 0x800 \<le> p \<and> scalar_value p
             then map_option ((#) p) (utf8_points t) else None
         | _ \<Rightarrow> None)
      else
        (case s of
           d # a # b # t \<Rightarrow>
             let p = (code c - 0xF0) * 0x40000 + trail_bits d * 0x1000 + trail_bits a * 0x40 + trail_bits b in
             if trail d \<and> trail a \<and> trail b \<and> 0x10000 \<le> p \<and> scalar_value p
             then map_option ((#) p) (utf8_points t) else None
         | _ \<Rightarrow> None))"

declare utf8_points.simps(2) [simp del]

lemma trail_char: "n < 0x40 \<Longrightarrow> trail (char_of (0x80 + n)) \<and> trail_bits (char_of (0x80 + n)) = n"
  by (simp add: trail_def trail_bits_def code_char_of)

lemma mod_40: "p mod 0x40 < 0x40" for p :: nat
  by simp

lemma digits_40: "p div 0x1000 * 0x1000 + p div 0x40 mod 0x40 * 0x40 + p mod 0x40 = p" for p :: nat
proof -
  have "p div 0x40 div 0x40 = p div 0x1000" by (simp flip: div_mult2_eq)
  with div_mult_mod_eq [of p "0x40"] div_mult_mod_eq [of "p div 0x40" "0x40"] show ?thesis by linarith
qed

lemma digits_1000: "p div 0x40000 * 0x40000 + p div 0x1000 mod 0x40 * 0x1000 = p div 0x1000 * 0x1000" for p :: nat
proof -
  have "p div 0x1000 div 0x40 = p div 0x40000" by (simp flip: div_mult2_eq)
  with div_mult_mod_eq [of "p div 0x1000" "0x40"] show ?thesis by linarith
qed

lemma utf8_point_1: "p < 0x80 \<Longrightarrow> utf8_points (utf8_point p @ s) = map_option ((#) p) (utf8_points s)"
  by (simp add: utf8_point_def utf8_points.simps(2) code_char_of)

lemma utf8_point_2:
  assumes "0x80 \<le> p" "p < 0x800"
  shows "utf8_points (utf8_point p @ s) = map_option ((#) p) (utf8_points s)"
proof -
  have "p div 0x40 < 0x20" "2 \<le> p div 0x40" using assms by (simp_all add: less_mult_imp_div_less)
  then have "code (char_of (0xC0 + p div 0x40)) = 0xC0 + p div 0x40" by (intro code_char_of) simp
  moreover have "p div 0x40 * 0x40 + p mod 0x40 = p" by simp
  ultimately show ?thesis
    using assms trail_char [OF mod_40 [of p]] \<open>p div 0x40 < 0x20\<close>
    by (simp add: utf8_point_def utf8_points.simps(2) Let_def)
qed

lemma utf8_point_3:
  assumes "0x800 \<le> p" "p < 0x10000" "scalar_value p"
  shows "utf8_points (utf8_point p @ s) = map_option ((#) p) (utf8_points s)"
proof -
  have lt: "p div 0x1000 < 0x10" using assms by (simp add: less_mult_imp_div_less)
  then have "code (char_of (0xE0 + p div 0x1000)) = 0xE0 + p div 0x1000" by (intro code_char_of) simp
  moreover have "p div 0x1000 * 0x1000 + p div 0x40 mod 0x40 * 0x40 + p mod 0x40 = p"
    by (rule digits_40)
  ultimately show ?thesis
    using assms trail_char [OF mod_40 [of p]] trail_char [OF mod_40 [of "p div 0x40"]] lt
    by (simp add: utf8_point_def utf8_points.simps(2) Let_def)
qed

lemma utf8_point_4:
  assumes "0x10000 \<le> p" "scalar_value p"
  shows "utf8_points (utf8_point p @ s) = map_option ((#) p) (utf8_points s)"
proof -
  have lt: "p div 0x40000 < 5" using assms by (simp add: less_mult_imp_div_less scalar_value_def)
  then have "code (char_of (0xF0 + p div 0x40000)) = 0xF0 + p div 0x40000" by (intro code_char_of) simp
  moreover have "p div 0x40000 * 0x40000 + p div 0x1000 mod 0x40 * 0x1000 + p div 0x40 mod 0x40 * 0x40 + p mod 0x40 = p"
    using digits_40 [of p] digits_1000 [of p] by linarith
  ultimately show ?thesis
    using assms trail_char [OF mod_40 [of p]] trail_char [OF mod_40 [of "p div 0x40"]]
      trail_char [OF mod_40 [of "p div 0x1000"]] lt
    by (simp add: utf8_point_def utf8_points.simps(2) Let_def)
qed

lemma utf8_points_bytes: "\<forall>p \<in> set ps. scalar_value p \<Longrightarrow> utf8_points (utf8_bytes ps) = Some ps"
proof (induction ps)
  case Nil
  show ?case by (simp add: utf8_bytes_def)
next
  case (Cons p ps)
  then have "scalar_value p" "utf8_points (utf8_bytes ps) = Some ps" by simp_all
  moreover from \<open>scalar_value p\<close> have "utf8_points (utf8_point p @ s) = map_option ((#) p) (utf8_points s)" for s
    using utf8_point_1 utf8_point_2 utf8_point_3 utf8_point_4 by (metis not_le)
  ultimately show ?case by (simp add: utf8_bytes_def)
qed

lemma utf8_points_utf8: "utf8_points (utf8 s) = Some (map code s)"
  unfolding utf8_def
proof (rule utf8_points_bytes, rule ballI)
  fix p assume "p \<in> set (map code s)"
  then have "p < 256" by (auto simp: code_less_256)
  then show "scalar_value p" by (simp add: scalar_value_def)
qed

lemma utf8_inject: "utf8 s = utf8 t \<longleftrightarrow> s = t"
  by (metis code_inject injI map_injective option.inject utf8_points_utf8)

section \<open>\<^verbatim>\<open>encodeURIComponent\<close>\<close>

definition uri_unreserved :: "char \<Rightarrow> bool" where
  "uri_unreserved c \<longleftrightarrow>
     is_digit c \<or> (65 \<le> code c \<and> code c \<le> 90) \<or> (97 \<le> code c \<and> code c \<le> 122)
     \<or> c \<in> {CHR ''-'', CHR ''_'', CHR ''.'', CHR ''!'', CHR ''~'', CHR ''*'', CHR 0x27, CHR ''('', CHR '')''}"

definition hex_digit :: "nat \<Rightarrow> char" where
  "hex_digit n = (if n < 10 then char_of (48 + n) else char_of (55 + n))"

definition uri_byte :: "char \<Rightarrow> string" where
  "uri_byte c =
     (if uri_unreserved c then [c] else [CHR ''%'', hex_digit (code c div 16), hex_digit (code c mod 16)])"

text \<open>\<^term>\<open>None\<close> is the \<^verbatim>\<open>URIError\<close> of a lone surrogate.\<close>

definition encodeURIComponent :: "js_text \<Rightarrow> string option" where
  "encodeURIComponent s = map_option (\<lambda>ps. concat (map uri_byte (utf8_bytes ps))) (code_points s)"

text \<open>The standard's \<^verbatim>\<open>decodeURIComponent\<close>, on ASCII text: unescape the bytes, read them as UTF-8.\<close>

fun pct_decode :: "string \<Rightarrow> bytes option" where
  "pct_decode [] = Some []"
| "pct_decode (c # s) =
     (if c \<noteq> CHR ''%'' then map_option ((#) c) (pct_decode s)
      else case s of
        h # l # t \<Rightarrow>
          (case (hex_val h, hex_val l) of
             (Some a, Some b) \<Rightarrow> map_option ((#) (char_of (16 * a + b))) (pct_decode t)
           | _ \<Rightarrow> None)
      | _ \<Rightarrow> None)"

definition decodeURIComponent :: "string \<Rightarrow> js_text option" where
  "decodeURIComponent x =
     (case pct_decode x of
        None \<Rightarrow> None
      | Some bs \<Rightarrow> map_option (\<lambda>ps. concat (map point_units ps)) (utf8_points bs))"

lemma hex_val_hex_digit: "n < 16 \<Longrightarrow> hex_val (hex_digit n) = Some n"
proof -
  assume "n < 16"
  then consider "n < 10" | "10 \<le> n" "n < 16" by linarith
  then show ?thesis
    by cases (simp_all add: hex_digit_def hex_val_def is_digit_def digit_val_def code_char_of)
qed

lemma hex_digit_unreserved: "n < 16 \<Longrightarrow> uri_unreserved (hex_digit n)"
  by (simp add: hex_digit_def uri_unreserved_def is_digit_def code_char_of)

lemma pct_decode_uri_byte: "pct_decode (uri_byte c @ s) = map_option ((#) c) (pct_decode s)"
proof (cases "uri_unreserved c")
  case True
  then have "c \<noteq> CHR ''%''" by (auto simp: uri_unreserved_def is_digit_def code_def)
  with True show ?thesis by (simp add: uri_byte_def)
next
  case False
  have "code c div 16 < 16" using code_less_256 [of c] by (simp add: less_mult_imp_div_less)
  moreover have "(char_of (16 * (code c div 16) + code c mod 16) :: char) = c" by (simp add: code_def)
  ultimately show ?thesis using False by (simp add: uri_byte_def hex_val_hex_digit)
qed

lemma pct_decode_bytes: "pct_decode (concat (map uri_byte bs)) = Some bs"
  by (induction bs) (simp_all add: pct_decode_uri_byte)

lemma encodeURIComponent_fails_iff: "encodeURIComponent s = None \<longleftrightarrow> \<not> isWellFormed s"
  by (simp add: encodeURIComponent_def code_points_None)

lemma decode_encodeURIComponent:
  assumes "encodeURIComponent s = Some x"
  shows "decodeURIComponent x = Some s"
proof -
  from assms obtain ps where "code_points s = Some ps" "x = concat (map uri_byte (utf8_bytes ps))"
    by (auto simp: encodeURIComponent_def)
  then show ?thesis
    using code_points_units [of s ps] by (simp add: decodeURIComponent_def pct_decode_bytes utf8_points_bytes)
qed

lemma encodeURIComponent_inject:
  "encodeURIComponent s = Some x \<Longrightarrow> encodeURIComponent t = Some x \<Longrightarrow> s = t"
  by (auto dest!: decode_encodeURIComponent)

lemma encodeURIComponent_chars:
  assumes "encodeURIComponent s = Some x" "c \<in> set x"
  shows "uri_unreserved c \<or> c = CHR ''%''"
proof -
  from assms obtain b where b: "c \<in> set (uri_byte b)" by (auto simp: encodeURIComponent_def)
  have "code b div 16 < 16" using code_less_256 [of b] by (simp add: less_mult_imp_div_less)
  with b show ?thesis by (auto simp: uri_byte_def hex_digit_unreserved split: if_splits)
qed

lemma uri_unreserved_no_delimiter:
  "uri_unreserved c \<Longrightarrow> c \<notin> set ''&=?#/+% ''"
  by (auto simp: uri_unreserved_def is_digit_def code_def)

end
