(* ===== verification/ApiClient.thy ===== *)
theory ApiClient
  imports JsonValue Utf8
begin

text \<open>
  The webapp's API client (\<^verbatim>\<open>lib/api.ts\<close>): the shared \<^verbatim>\<open>request\<close> and the endpoints built on it.
  An endpoint is the request it sends; \<^verbatim>\<open>JSON.stringify\<close> is left implicit, a body being the value
  that is serialized.
\<close>

datatype api_method = ApiGet | ApiPost | ApiPatch | ApiDelete

record endpoint =
  ep_path :: string
  ep_method :: api_method
  ep_body :: "json option"

record api_request =
  aq_url :: string
  aq_method :: api_method
  aq_authorization :: "string option"
  aq_body :: "json option"

text \<open>
  The outcomes of a request: a network failure, an \<^verbatim>\<open>ApiError\<close> with the status and the detail, a
  \<^verbatim>\<open>TypeError\<close> (reading \<^verbatim>\<open>detail\<close> of a \<^verbatim>\<open>null\<close> body), a body that is no JSON, and the
  \<^verbatim>\<open>URIError\<close> of \<^verbatim>\<open>encodeURIComponent\<close>, thrown before anything is sent.
\<close>

datatype api_failure = Network | ApiError int json | TypeError | BadJson | UriError

datatype api_reply = NoReply | HttpReply int "json option"

definition api_truthy :: "json option \<Rightarrow> bool" where
  "api_truthy v =
     (case v of None \<Rightarrow> False | Some JNull \<Rightarrow> False | Some (JBool b) \<Rightarrow> b | Some (JNum n) \<Rightarrow> n \<noteq> 0
      | Some (JStr s) \<Rightarrow> s \<noteq> [] | Some (JArr _) \<Rightarrow> True | Some (JObj _) \<Rightarrow> True)"

definition NEXT_API_URL :: "string option \<Rightarrow> string" where
  "NEXT_API_URL env =
     (case env of None \<Rightarrow> ''https://api.oltinpay.com/api/v1''
      | Some u \<Rightarrow> if u = [] then ''https://api.oltinpay.com/api/v1'' else u)"

definition api_request_of :: "string option \<Rightarrow> string option \<Rightarrow> endpoint \<Rightarrow> api_request" where
  "api_request_of env token e =
     \<lparr>aq_url = NEXT_API_URL env @ ep_path e, aq_method = ep_method e,
      aq_authorization =
        (case token of None \<Rightarrow> None | Some t \<Rightarrow> if t = [] then None else Some (''Bearer '' @ t)),
      aq_body = ep_body e\<rparr>"

definition request ::
    "string option \<Rightarrow> string option \<Rightarrow> (api_request \<Rightarrow> api_reply) \<Rightarrow> endpoint \<Rightarrow> (api_failure, json) result" where
  "request env token fetch e =
     (case fetch (api_request_of env token e) of
        NoReply \<Rightarrow> Inl Network
      | HttpReply status b \<Rightarrow>
          if \<not> (200 \<le> status \<and> status \<le> 299) then
            (let err = (case b of None \<Rightarrow> JObj [(''detail'', JStr ''Unknown error'')] | Some v \<Rightarrow> v) in
             if err = JNull then Inl TypeError
             else Inl (ApiError status
               (if api_truthy (js_prop err ''detail'') then the (js_prop err ''detail'') else JStr ''Request failed'')))
          else if status = 204 then Inr (JObj [])
          else case b of None \<Rightarrow> Inl BadJson | Some v \<Rightarrow> Inr v)"

abbreviation get_endpoint :: "string \<Rightarrow> endpoint" where
  "get_endpoint path \<equiv> \<lparr>ep_path = path, ep_method = ApiGet, ep_body = None\<rparr>"

abbreviation post_endpoint :: "string \<Rightarrow> json \<Rightarrow> endpoint" where
  "post_endpoint path body \<equiv> \<lparr>ep_path = path, ep_method = ApiPost, ep_body = Some body\<rparr>"

text \<open>An endpoint method whose path takes an escaped text: \<^verbatim>\<open>this.request(...)\<close> runs only when it has one.\<close>

definition request_escaped ::
    "string option \<Rightarrow> string option \<Rightarrow> (api_request \<Rightarrow> api_reply) \<Rightarrow> (api_failure, endpoint) result
      \<Rightarrow> (api_failure, json) result" where
  "request_escaped env token fetch r = (case r of Inl err \<Rightarrow> Inl err | Inr e \<Rightarrow> request env token fetch e)"

definition escaped_endpoint :: "string \<Rightarrow> js_text \<Rightarrow> (api_failure, endpoint) result" where
  "escaped_endpoint pre s =
     (case encodeURIComponent s of None \<Rightarrow> Inl UriError | Some x \<Rightarrow> Inr (get_endpoint (pre @ x)))"

section \<open>Endpoints\<close>

definition authenticate_endpoint :: "string \<Rightarrow> endpoint" where
  "authenticate_endpoint initData = post_endpoint ''/auth/telegram'' (JObj [(''init_data'', JStr initData)])"

definition getMe :: endpoint where "getMe = get_endpoint ''/users/me''"

definition updateMe :: "string option \<Rightarrow> endpoint" where
  "updateMe language =
     \<lparr>ep_path = ''/users/me'', ep_method = ApiPatch,
      ep_body = Some (JObj (case language of None \<Rightarrow> [] | Some l \<Rightarrow> [(''language'', JStr l)]))\<rparr>"

definition setOltinId :: "string \<Rightarrow> endpoint" where
  "setOltinId oltin_id = post_endpoint ''/users/oltin-id'' (JObj [(''oltin_id'', JStr oltin_id)])"

definition registerWallet :: "string \<Rightarrow> endpoint" where
  "registerWallet wallet_address = post_endpoint ''/users/wallet'' (JObj [(''wallet_address'', JStr wallet_address)])"

definition searchUsers :: "js_text \<Rightarrow> (api_failure, endpoint) result" where
  "searchUsers q = escaped_endpoint ''/users/search?q='' q"

definition lookupUser :: "js_text \<Rightarrow> (api_failure, endpoint) result" where
  "lookupUser oltin_id = escaped_endpoint ''/users/lookup?oltin_id='' oltin_id"

definition getBalances :: endpoint where "getBalances = get_endpoint ''/balances''"

definition getTransactions :: endpoint where "getTransactions = get_endpoint ''/transactions''"

definition internalTransfer :: "string \<Rightarrow> string \<Rightarrow> string \<Rightarrow> json \<Rightarrow> endpoint" where
  "internalTransfer from_account to_account currency amount =
     post_endpoint ''/balances/transfer'' (JObj [(''from_account'', JStr from_account),
       (''to_account'', JStr to_account), (''currency'', JStr currency), (''amount'', amount)])"

definition getWelcomeStatus :: endpoint where "getWelcomeStatus = get_endpoint ''/welcome/status''"

definition claimWelcome :: endpoint where
  "claimWelcome = \<lparr>ep_path = ''/welcome/claim'', ep_method = ApiPost, ep_body = None\<rparr>"

definition getStaking :: endpoint where "getStaking = get_endpoint ''/staking''"

definition getRates :: endpoint where "getRates = get_endpoint ''/rates''"

definition getQuote :: "bool \<Rightarrow> js_text \<Rightarrow> (api_failure, endpoint) result" where
  "getQuote buy amount =
     escaped_endpoint (''/quote?side='' @ (if buy then ''buy'' else ''sell'') @ ''&amount='') amount"

definition createOrder :: "bool \<Rightarrow> bool \<Rightarrow> json option \<Rightarrow> json \<Rightarrow> endpoint" where
  "createOrder buy limit price quantity =
     post_endpoint ''/exchange/orders'' (JObj
       ([(''side'', JStr (if buy then ''buy'' else ''sell'')), (''type'', JStr (if limit then ''limit'' else ''market''))]
        @ (case price of None \<Rightarrow> [] | Some p \<Rightarrow> [(''price'', p)]) @ [(''quantity'', quantity)]))"

definition getOrders :: "string option \<Rightarrow> endpoint" where
  "getOrders status =
     get_endpoint (''/exchange/orders''
       @ (case status of None \<Rightarrow> [] | Some s \<Rightarrow> if s = [] then [] else ''?status='' @ s))"

definition cancelOrder :: "string \<Rightarrow> endpoint" where
  "cancelOrder orderId = \<lparr>ep_path = ''/exchange/orders/'' @ orderId, ep_method = ApiDelete, ep_body = None\<rparr>"

definition getTrades :: "nat \<Rightarrow> endpoint" where
  "getTrades limit = get_endpoint (''/exchange/trades?limit='' @ show_nat limit)"

definition getFavorites :: endpoint where "getFavorites = get_endpoint ''/contacts/favorites''"

definition addFavorite :: "string \<Rightarrow> endpoint" where
  "addFavorite oltin_id = post_endpoint ''/contacts/favorites'' (JObj [(''oltin_id'', JStr oltin_id)])"

definition removeFavorite :: "string \<Rightarrow> endpoint" where
  "removeFavorite fid = \<lparr>ep_path = ''/contacts/favorites/'' @ fid, ep_method = ApiDelete, ep_body = None\<rparr>"

section \<open>Properties\<close>

lemma escaped_endpoint_cases:
  "escaped_endpoint pre s =
     (if isWellFormed s then Inr (get_endpoint (pre @ the (encodeURIComponent s))) else Inl UriError)"
  using encodeURIComponent_fails_iff [of s] by (auto simp: escaped_endpoint_def split: option.split)

lemma escaped_endpoint_inject:
  assumes "isWellFormed s" "escaped_endpoint pre s = escaped_endpoint pre t"
  shows "s = t"
  using assms encodeURIComponent_fails_iff [of s]
  by (auto simp: escaped_endpoint_def encodeURIComponent_inject split: option.splits)

lemma escaped_side_inject:
  assumes "isWellFormed s" "getQuote a s = getQuote b t"
  shows "a = b \<and> s = t"
proof -
  have "a = b"
    using assms by (cases a; cases b) (auto simp: getQuote_def escaped_endpoint_cases split: if_splits)
  with assms show ?thesis using escaped_endpoint_inject by (auto simp: getQuote_def)
qed

text \<open>
  C31.  Nothing a user types can change what is asked of the API.  Let \<open>q\<close> be any text, in any
  script, emoji included: any list of UTF-16 code units.  If its surrogates are paired, the user
  search, the recipient lookup and the quote are each a \<^verbatim>\<open>GET\<close> of their own fixed path and parameter
  names, a quote for the side the screen is on, followed by the same escaped text, which consists
  of unreserved characters and percent signs alone, so that it cannot end the parameter, open
  another one, a fragment or a path segment, and which \<^verbatim>\<open>decodeURIComponent\<close> reads back as exactly
  \<open>q\<close>.  If a surrogate is unpaired, all three fail with the \<^verbatim>\<open>URIError\<close> and nothing is sent,
  whatever the network would answer.  Two different texts, or two sides, never give the same request.
\<close>

theorem typed_text_stays_in_its_parameter:
  "(isWellFormed q \<longrightarrow>
      (\<exists>x. searchUsers q = Inr (get_endpoint (''/users/search?q='' @ x))
         \<and> lookupUser q = Inr (get_endpoint (''/users/lookup?oltin_id='' @ x))
         \<and> (\<forall>buy. getQuote buy q
               = Inr (get_endpoint (''/quote?side='' @ (if buy then ''buy'' else ''sell'') @ ''&amount='' @ x)))
         \<and> decodeURIComponent x = Some q
         \<and> set x \<subseteq> {c. uri_unreserved c \<or> c = CHR ''%''} \<and> set x \<inter> set ''&=?#/+ '' = {}))
   \<and> (\<not> isWellFormed q \<longrightarrow>
        (\<forall>env token fetch buy. \<forall>r \<in> {searchUsers q, lookupUser q, getQuote buy q}.
           request_escaped env token fetch r = Inl UriError))
   \<and> (isWellFormed q \<longrightarrow>
        (\<forall>q' buy buy'. (searchUsers q = searchUsers q' \<longrightarrow> q = q') \<and> (lookupUser q = lookupUser q' \<longrightarrow> q = q')
           \<and> (getQuote buy q = getQuote buy' q' \<longrightarrow> buy = buy' \<and> q = q')))"
proof (intro conjI impI)
  assume ok: "isWellFormed q"
  then obtain x where x: "encodeURIComponent q = Some x"
    using encodeURIComponent_fails_iff by (metis option.exhaust)
  have "set x \<subseteq> {c. uri_unreserved c \<or> c = CHR ''%''}" using encodeURIComponent_chars [OF x] by blast
  moreover from this have "set x \<inter> set ''&=?#/+ '' = {}" using uri_unreserved_no_delimiter by fastforce
  ultimately show "\<exists>x. searchUsers q = Inr (get_endpoint (''/users/search?q='' @ x))
         \<and> lookupUser q = Inr (get_endpoint (''/users/lookup?oltin_id='' @ x))
         \<and> (\<forall>buy. getQuote buy q
               = Inr (get_endpoint (''/quote?side='' @ (if buy then ''buy'' else ''sell'') @ ''&amount='' @ x)))
         \<and> decodeURIComponent x = Some q
         \<and> set x \<subseteq> {c. uri_unreserved c \<or> c = CHR ''%''} \<and> set x \<inter> set ''&=?#/+ '' = {}"
    using x decode_encodeURIComponent [OF x]
    by (intro exI [of _ x]) (simp add: searchUsers_def lookupUser_def getQuote_def escaped_endpoint_def)
  show "\<forall>q' buy buy'. (searchUsers q = searchUsers q' \<longrightarrow> q = q') \<and> (lookupUser q = lookupUser q' \<longrightarrow> q = q')
           \<and> (getQuote buy q = getQuote buy' q' \<longrightarrow> buy = buy' \<and> q = q')"
    using escaped_endpoint_inject [OF ok] escaped_side_inject [OF ok]
    by (auto simp: searchUsers_def lookupUser_def)
next
  assume "\<not> isWellFormed q"
  then show "\<forall>env token fetch buy. \<forall>r \<in> {searchUsers q, lookupUser q, getQuote buy q}.
           request_escaped env token fetch r = Inl UriError"
    by (simp add: searchUsers_def lookupUser_def getQuote_def escaped_endpoint_cases request_escaped_def)
qed

text \<open>A recipient id with an ampersand and an emoji in it, and half of that emoji.\<close>

theorem typed_text_stays_in_its_parameter_witness:
  "(\<exists>x. lookupUser [0x61, 0x26, 0xD83D, 0xDE00] = Inr (get_endpoint (''/users/lookup?oltin_id='' @ x))
        \<and> decodeURIComponent x = Some [0x61, 0x26, 0xD83D, 0xDE00] \<and> set x \<inter> set ''&=?#/+ '' = {})
   \<and> request_escaped None None (\<lambda>_. HttpReply 200 (Some (JObj []))) (lookupUser [0xD83D]) = Inl UriError
   \<and> getQuote True [0x31] \<noteq> getQuote False [0x31]"
proof (intro conjI)
  have wf: "isWellFormed [0x61, 0x26, 0xD83D, 0xDE00]" "isWellFormed [0x31]" "\<not> isWellFormed [0xD83D]"
    by (simp_all add: follows_well_simps high_surrogate_def low_surrogate_def)
  from typed_text_stays_in_its_parameter [of "[0x61, 0x26, 0xD83D, 0xDE00]", THEN conjunct1, THEN mp, OF wf(1)]
  show "\<exists>x. lookupUser [0x61, 0x26, 0xD83D, 0xDE00] = Inr (get_endpoint (''/users/lookup?oltin_id='' @ x))
        \<and> decodeURIComponent x = Some [0x61, 0x26, 0xD83D, 0xDE00] \<and> set x \<inter> set ''&=?#/+ '' = {}"
    by (elim ex_forward conjE) (intro conjI, assumption+)
  show "request_escaped None None (\<lambda>_. HttpReply 200 (Some (JObj []))) (lookupUser [0xD83D]) = Inl UriError"
    using typed_text_stays_in_its_parameter [of "[0xD83D]", THEN conjunct2, THEN conjunct1, THEN mp, OF wf(3)]
    by (simp only: insert_iff bex_simps ball_simps simp_thms)
  from typed_text_stays_in_its_parameter [of "[0x31]", THEN conjunct2, THEN conjunct2, THEN mp, OF wf(2)]
  have "getQuote True [0x31] = getQuote False [0x31] \<longrightarrow> True = False" by metis
  then show "getQuote True [0x31] \<noteq> getQuote False [0x31]" by simp
qed

lemma request_error_status:
  "request env token fetch e = Inl (ApiError st d) \<Longrightarrow>
     (\<exists>b. fetch (api_request_of env token e) = HttpReply st b) \<and> \<not> (200 \<le> st \<and> st \<le> 299)"
  by (auto simp: request_def Let_def split: api_reply.splits if_splits option.splits)

lemma request_without_token: "aq_authorization (api_request_of env token e) = None \<longleftrightarrow> token = None \<or> token = Some []"
  by (auto simp: api_request_of_def split: option.splits)

end
