(* ===== verification/Console.thy ===== *)
theory Console
  imports JsonValue Utf8
begin

text \<open>
  The server side of the console (\<^verbatim>\<open>oltinpay-console/src/lib\<close> and \<^verbatim>\<open>src/app/api\<close>): the operator
  gate, request signing, the signed forwarder, the bank routes and the public proxy routes.

  Strings are lists of code units below 256, which is all an HTTP header value can carry;
  \<^verbatim>\<open>Buffer.from(s, "utf-8")\<close> is written out for them.  HMAC-SHA256, \<^verbatim>\<open>JSON.stringify\<close>, the random
  nonce, the clock and the upstream server are arguments.  A handler returns its reply and the
  requests it sent upstream, in order.
\<close>

record console_env =
  ce_operator_password :: "string option"
  ce_hmac_secret :: "string option"
  ce_api_url :: "string option"
  ce_hmac :: "bytes \<Rightarrow> bytes \<Rightarrow> string"            \<comment> \<open>key, message, lower-case hex digest\<close>
  ce_stringify :: "json \<Rightarrow> string"
  ce_buffer :: "json \<Rightarrow> bytes option"             \<comment> \<open>\<^verbatim>\<open>Buffer.from\<close> of a value that is no string; None when it throws\<close>

section \<open>Operator gate: \<^verbatim>\<open>operator.ts\<close>\<close>

definition json_truthy :: "json option \<Rightarrow> bool" where
  "json_truthy v =
     (case v of None \<Rightarrow> False | Some JNull \<Rightarrow> False | Some (JBool b) \<Rightarrow> b | Some (JNum n) \<Rightarrow> n \<noteq> 0
      | Some (JStr s) \<Rightarrow> s \<noteq> [] | Some (JArr _) \<Rightarrow> True | Some (JObj _) \<Rightarrow> True)"

definition set_nonempty :: "string option \<Rightarrow> bool" where
  "set_nonempty v = (case v of None \<Rightarrow> False | Some s \<Rightarrow> s \<noteq> [])"

definition password_bytes :: "console_env \<Rightarrow> json \<Rightarrow> bytes option" where
  "password_bytes env v = (case v of JStr s \<Rightarrow> Some (utf8 s) | _ \<Rightarrow> ce_buffer env v)"

text \<open>The result is None when \<^verbatim>\<open>Buffer.from\<close> throws.\<close>

definition checkOperator :: "console_env \<Rightarrow> json option \<Rightarrow> bool option" where
  "checkOperator env password =
     (if \<not> set_nonempty (ce_operator_password env) \<or> \<not> json_truthy password then Some False
      else case password_bytes env (the password) of
        None \<Rightarrow> None
      | Some a \<Rightarrow>
         (let b = utf8 (the (ce_operator_password env)) in
          if length a \<noteq> length b then Some False else Some (a = b)))"

section \<open>Signing and forwarding: \<^verbatim>\<open>bankSign.ts\<close>, \<^verbatim>\<open>bankForward.ts\<close>\<close>

definition computeSignature :: "console_env \<Rightarrow> string \<Rightarrow> bytes \<Rightarrow> string \<Rightarrow> string \<Rightarrow> string" where
  "computeSignature env secret body timestamp nonce =
     ce_hmac env (utf8 secret) (body @ utf8 timestamp @ utf8 nonce)"

datatype http_method = GET | POST

record upstream_request =
  ur_url :: string
  ur_method :: http_method
  ur_signature :: string
  ur_timestamp :: string
  ur_nonce :: string
  ur_body :: "bytes option"

text \<open>What \<^verbatim>\<open>fetch\<close> does: it throws, or answers a status and a body that parses as JSON or not.\<close>

datatype upstream_reply = FetchThrows | Answer int "json option"

record bank_result =
  br_status :: int
  br_body :: json

definition default_api_url :: string where
  "default_api_url = ''http://localhost:8000/api/v1''"

definition API_URL :: "console_env \<Rightarrow> string" where
  "API_URL env = (case ce_api_url env of None \<Rightarrow> default_api_url | Some u \<Rightarrow> u)"

definition error_body :: "string \<Rightarrow> json" where
  "error_body m = JObj [(''error'', JStr m)]"

definition bankForward ::
    "console_env \<Rightarrow> (upstream_request \<Rightarrow> upstream_reply) \<Rightarrow> nat \<Rightarrow> string \<Rightarrow> string \<Rightarrow> http_method \<Rightarrow> json option
     \<Rightarrow> bank_result option \<times> upstream_request list" where
  "bankForward env fetch now_ms uuid path meth payload =
     (if \<not> set_nonempty (ce_hmac_secret env)
      then (Some \<lparr>br_status = 503, br_body = error_body ''BANK_HMAC_SECRET is not configured on the server.''\<rparr>, [])
      else
        let bodyBuf = (case payload of None \<Rightarrow> [] | Some p \<Rightarrow> utf8 (ce_stringify env p));
            timestamp = show_nat (now_ms div 1000);
            signature = computeSignature env (the (ce_hmac_secret env)) bodyBuf timestamp uuid;
            req = \<lparr>ur_url = API_URL env @ path, ur_method = meth, ur_signature = signature,
                   ur_timestamp = timestamp, ur_nonce = uuid,
                   ur_body = (if meth = POST then Some bodyBuf else None)\<rparr> in
        case fetch req of
          FetchThrows \<Rightarrow> (None, [req])
        | Answer st b \<Rightarrow>
            (Some \<lparr>br_status = st, br_body = (case b of None \<Rightarrow> JObj [] | Some v \<Rightarrow> v)\<rparr>, [req]))"

section \<open>Routes\<close>

text \<open>
  A handler's reply; an uncaught exception is the framework's own error page.  \<^verbatim>\<open>NextResponse.json\<close>
  throws for a status outside 200 to 599 and for a status that admits no body.
\<close>

datatype route_reply = Reply int json | Crashed

definition nextJson :: "json \<Rightarrow> int \<Rightarrow> route_reply" where
  "nextJson body status =
     (if status < 200 \<or> 599 < status \<or> status \<in> {204, 205, 304} then Crashed else Reply status body)"

record next_request =
  rq_operator_password :: "string option"     \<comment> \<open>the header \<^verbatim>\<open>x-operator-password\<close>\<close>
  rq_json :: "json option"                    \<comment> \<open>None when the body is no JSON\<close>

definition json_or_empty :: "json option \<Rightarrow> json" where
  "json_or_empty b = (case b of None \<Rightarrow> JObj [] | Some v \<Rightarrow> v)"

definition operatorOk :: "console_env \<Rightarrow> next_request \<Rightarrow> bool" where
  "operatorOk env req = (checkOperator env (map_option JStr (rq_operator_password req)) = Some True)"

definition unauthorized :: route_reply where
  "unauthorized = nextJson (error_body ''Invalid operator password'') 401"

definition forwarded :: "bank_result option \<Rightarrow> route_reply" where
  "forwarded r = (case r of None \<Rightarrow> Crashed | Some x \<Rightarrow> nextJson (br_body x) (br_status x))"

definition forwarding ::
    "bank_result option \<times> upstream_request list \<Rightarrow> route_reply \<times> upstream_request list" where
  "forwarding r = (forwarded (fst r), snd r)"

definition deposit_POST ::
    "console_env \<Rightarrow> (upstream_request \<Rightarrow> upstream_reply) \<Rightarrow> nat \<Rightarrow> string \<Rightarrow> next_request
     \<Rightarrow> route_reply \<times> upstream_request list" where
  "deposit_POST env fetch now_ms uuid req =
     (if \<not> operatorOk env req then (unauthorized, [])
      else forwarding (bankForward env fetch now_ms uuid ''/bank/deposits'' POST (Some (json_or_empty (rq_json req)))))"

definition fx_POST ::
    "console_env \<Rightarrow> (upstream_request \<Rightarrow> upstream_reply) \<Rightarrow> nat \<Rightarrow> string \<Rightarrow> next_request
     \<Rightarrow> route_reply \<times> upstream_request list" where
  "fx_POST env fetch now_ms uuid req =
     (if \<not> operatorOk env req then (unauthorized, [])
      else forwarding (bankForward env fetch now_ms uuid ''/bank/fx'' POST (Some (json_or_empty (rq_json req)))))"

definition attestation_POST ::
    "console_env \<Rightarrow> (upstream_request \<Rightarrow> upstream_reply) \<Rightarrow> nat \<Rightarrow> string \<Rightarrow> next_request
     \<Rightarrow> route_reply \<times> upstream_request list" where
  "attestation_POST env fetch now_ms uuid req =
     (if \<not> operatorOk env req then (unauthorized, [])
      else forwarding (bankForward env fetch now_ms uuid ''/bank/attestations'' POST (Some (json_or_empty (rq_json req)))))"

definition withdrawals_GET ::
    "console_env \<Rightarrow> (upstream_request \<Rightarrow> upstream_reply) \<Rightarrow> nat \<Rightarrow> string \<Rightarrow> next_request
     \<Rightarrow> route_reply \<times> upstream_request list" where
  "withdrawals_GET env fetch now_ms uuid req =
     (if \<not> operatorOk env req then (unauthorized, [])
      else forwarding (bankForward env fetch now_ms uuid ''/bank/withdrawals?status=pending'' GET None))"

definition UUID_RE :: "string \<Rightarrow> bool" where
  "UUID_RE s =
     (let gs = js_split CHR ''-'' s in
      map length gs = [8, 4, 4, 4, 12] \<and> list_all (list_all (\<lambda>c. hex_val c \<noteq> None)) gs)"

definition withdrawal_POST ::
    "console_env \<Rightarrow> (upstream_request \<Rightarrow> upstream_reply) \<Rightarrow> nat \<Rightarrow> string \<Rightarrow> string \<Rightarrow> next_request
     \<Rightarrow> route_reply \<times> upstream_request list" where
  "withdrawal_POST env fetch now_ms uuid wid req =
     (if \<not> operatorOk env req then (unauthorized, [])
      else if \<not> UUID_RE wid then (nextJson (error_body ''invalid withdrawal id'') 400, [])
      else let body = json_or_empty (rq_json req) in
        if body = JNull then (Crashed, [])
        else let action = js_prop body ''action'' in
          if action \<noteq> Some (JStr ''confirm'') \<and> action \<noteq> Some (JStr ''reject'')
          then (nextJson (error_body (''action must be '' @ [CHR 0x27] @ ''confirm'' @ [CHR 0x27] @ '' or ''
                 @ [CHR 0x27] @ ''reject'' @ [CHR 0x27])) 400, [])
          else forwarding (bankForward env fetch now_ms uuid
                 (''/bank/withdrawals/'' @ wid @ ''/'' @ the (as_string action)) POST None))"

definition login_POST :: "console_env \<Rightarrow> next_request \<Rightarrow> route_reply" where
  "login_POST env req =
     (let body = json_or_empty (rq_json req) in
      if body = JNull then Crashed
      else case checkOperator env (js_prop body ''password'') of
        None \<Rightarrow> Crashed
      | Some False \<Rightarrow> nextJson (error_body ''Invalid operator password'') 401
      | Some True \<Rightarrow> nextJson (JObj [(''ok'', JBool True)]) 200)"

text \<open>The routes behind the operator gate.\<close>

datatype bank_route = DepositRoute | FxRoute | AttestationRoute | WithdrawalsRoute | WithdrawalRoute string

fun bank_route_handler ::
    "bank_route \<Rightarrow> console_env \<Rightarrow> (upstream_request \<Rightarrow> upstream_reply) \<Rightarrow> nat \<Rightarrow> string \<Rightarrow> next_request
     \<Rightarrow> route_reply \<times> upstream_request list" where
  "bank_route_handler DepositRoute env fetch now_ms uuid req = deposit_POST env fetch now_ms uuid req"
| "bank_route_handler FxRoute env fetch now_ms uuid req = fx_POST env fetch now_ms uuid req"
| "bank_route_handler AttestationRoute env fetch now_ms uuid req = attestation_POST env fetch now_ms uuid req"
| "bank_route_handler WithdrawalsRoute env fetch now_ms uuid req = withdrawals_GET env fetch now_ms uuid req"
| "bank_route_handler (WithdrawalRoute wid) env fetch now_ms uuid req = withdrawal_POST env fetch now_ms uuid wid req"

section \<open>Public proxy: \<^verbatim>\<open>api.ts\<close>, \<^verbatim>\<open>proxy.ts\<close>\<close>

text \<open>\<^verbatim>\<open>get\<close>: the error message of the thrown exception, or the parsed body.\<close>

definition api_get :: "(string \<Rightarrow> upstream_reply) \<Rightarrow> string \<Rightarrow> string \<Rightarrow> string \<Rightarrow> (string, json) result" where
  "api_get fetch network_error api_url path =
     (case fetch (api_url @ path) of
        FetchThrows \<Rightarrow> Inl network_error
      | Answer st b \<Rightarrow>
          if \<not> (200 \<le> st \<and> st \<le> 299) then Inl (''Upstream '' @ path @ '' responded '' @ show_int st)
          else case b of None \<Rightarrow> Inl network_error | Some v \<Rightarrow> Inr v)"

definition proxyJson :: "(string, json) result \<Rightarrow> route_reply" where
  "proxyJson r = (case r of Inr v \<Rightarrow> nextJson v 200 | Inl e \<Rightarrow> nextJson (error_body e) 502)"

datatype proxy_route = PorRoute | RatesRoute | HistoryRoute

fun proxy_path :: "proxy_route \<Rightarrow> string" where
  "proxy_path PorRoute = ''/por''"
| "proxy_path RatesRoute = ''/rates''"
| "proxy_path HistoryRoute = ''/por/history''"

definition proxy_GET :: "(string \<Rightarrow> upstream_reply) \<Rightarrow> string \<Rightarrow> console_env \<Rightarrow> proxy_route \<Rightarrow> route_reply" where
  "proxy_GET fetch network_error env r = proxyJson (api_get fetch network_error (API_URL env) (proxy_path r))"

section \<open>What the gate and the forwarder guarantee\<close>

lemma operatorOk_iff:
  "operatorOk env req \<longleftrightarrow>
     (\<exists>p. p \<noteq> [] \<and> ce_operator_password env = Some p \<and> rq_operator_password req = Some p)"
  by (auto simp: operatorOk_def checkOperator_def set_nonempty_def json_truthy_def password_bytes_def utf8_inject
      Let_def split: option.splits if_splits)

definition signed_for :: "console_env \<Rightarrow> upstream_request \<Rightarrow> bool" where
  "signed_for env u \<longleftrightarrow>
     (\<exists>secret. secret \<noteq> [] \<and> ce_hmac_secret env = Some secret
        \<and> ur_signature u = ce_hmac env (utf8 secret)
            ((case ur_body u of None \<Rightarrow> [] | Some b \<Rightarrow> b) @ utf8 (ur_timestamp u) @ utf8 (ur_nonce u)))"

text \<open>The forwarder sends at most one request, to the given path, signed over what it sends.\<close>

lemma bankForward_sent:
  assumes "u \<in> set (snd (bankForward env fetch now_ms uuid path meth payload))"
    and "meth = GET \<Longrightarrow> payload = None"
  shows "snd (bankForward env fetch now_ms uuid path meth payload) = [u]
       \<and> signed_for env u \<and> ur_url u = API_URL env @ path \<and> ur_method u = meth
       \<and> ur_timestamp u = show_nat (now_ms div 1000) \<and> ur_nonce u = uuid
       \<and> ur_body u = (if meth = POST then Some (case payload of None \<Rightarrow> [] | Some p \<Rightarrow> utf8 (ce_stringify env p)) else None)"
  using assms
  by (cases meth)
    (auto simp: bankForward_def Let_def signed_for_def computeSignature_def set_nonempty_def
      split: if_splits upstream_reply.splits option.splits)

lemma gated_route:
  assumes "bank_route_handler r env fetch now_ms uuid req = (reply, sent)"
  shows "\<not> operatorOk env req \<and> reply = unauthorized \<and> sent = []
       \<or> operatorOk env req \<and> (sent = [] \<or> (\<exists>path meth payload. (meth = GET \<longrightarrow> payload = None)
            \<and> reply = forwarded (fst (bankForward env fetch now_ms uuid path meth payload))
            \<and> sent = snd (bankForward env fetch now_ms uuid path meth payload)))"
  using assms
  by (cases r)
    (auto simp: deposit_POST_def fx_POST_def attestation_POST_def withdrawals_GET_def withdrawal_POST_def
      forwarding_def Let_def split: if_splits)

text \<open>
  C17.  No bank action leaves the console without the operator's password and the server's
  secret: unless the request carries exactly the configured, non-empty password, every bank route
  answers 401 and sends nothing; and whatever a route does send is a single request whose
  signature is the HMAC, under the configured secret, of exactly the body bytes it carries
  followed by its own timestamp and nonce headers.
\<close>

theorem bank_routes_are_gated_and_signed:
  assumes "bank_route_handler r env fetch now_ms uuid req = (reply, sent)"
  shows "((\<exists>p. p \<noteq> [] \<and> ce_operator_password env = Some p \<and> rq_operator_password req = Some p)
          \<or> reply = Reply 401 (JObj [(''error'', JStr ''Invalid operator password'')]) \<and> sent = [])
       \<and> (\<forall>u \<in> set sent. sent = [u] \<and> signed_for env u \<and> ur_nonce u = uuid
            \<and> ur_timestamp u = show_nat (now_ms div 1000))"
proof (cases "operatorOk env req")
  case False
  with gated_route [OF assms] show ?thesis
    by (auto simp: unauthorized_def nextJson_def error_body_def)
next
  case True
  have "\<forall>u \<in> set sent. sent = [u] \<and> signed_for env u \<and> ur_nonce u = uuid
      \<and> ur_timestamp u = show_nat (now_ms div 1000)"
    using gated_route [OF assms] True bankForward_sent by fastforce
  with True show ?thesis by (simp add: operatorOk_iff)
qed

definition sample_env :: console_env where
  "sample_env = \<lparr>ce_operator_password = Some ''pw'', ce_hmac_secret = Some ''k'', ce_api_url = Some ''http://api'',
     ce_hmac = (\<lambda>key msg. key @ msg), ce_stringify = (\<lambda>_. ''{}''), ce_buffer = (\<lambda>_. None)\<rparr>"

definition sample_request :: next_request where
  "sample_request = \<lparr>rq_operator_password = Some ''pw'', rq_json = Some (JObj [(''action'', JStr ''confirm'')])\<rparr>"

definition sample_uuid :: string where
  "sample_uuid = ''0123abcd-0000-4000-8000-00112233AAFF''"

lemma sample_operator: "operatorOk sample_env sample_request"
  by (simp add: operatorOk_iff sample_env_def sample_request_def)

theorem bank_routes_are_gated_and_signed_witness:
  "\<exists>reply u. bank_route_handler FxRoute sample_env (\<lambda>_. Answer 200 None) 1500 ''n'' sample_request = (reply, [u])
     \<and> signed_for sample_env u \<and> ur_timestamp u = show_nat 1"
proof -
  obtain reply u where run: "bank_route_handler FxRoute sample_env (\<lambda>_. Answer 200 None) 1500 ''n'' sample_request
      = (reply, [u])"
    using sample_operator
    by (simp add: fx_POST_def forwarding_def bankForward_def set_nonempty_def sample_env_def Let_def)
  with bank_routes_are_gated_and_signed [OF run] show ?thesis by simp
qed

lemma hex_not_special: "hex_val c \<noteq> None \<Longrightarrow> c \<notin> {CHR ''/'', CHR ''?'', CHR ''#'', CHR ''%'', CHR ''.''}"
  by (auto simp: hex_val_def is_digit_def code_def split: if_splits)

lemma set_js_split: "c \<in> set s \<Longrightarrow> c = sep \<or> (\<exists>g \<in> set (js_split sep s). c \<in> set g)"
  by (induction sep s rule: js_split.induct) (auto simp: Let_def split: list.splits if_splits)

lemma UUID_RE_chars:
  assumes "UUID_RE s" and "c \<in> set s"
  shows "c \<notin> {CHR ''/'', CHR ''?'', CHR ''#'', CHR ''%'', CHR ''.''}"
proof (cases "c = CHR ''-''")
  case False
  then obtain g where "g \<in> set (js_split CHR ''-'' s)" "c \<in> set g" using set_js_split [OF assms(2)] by blast
  with assms(1) have "hex_val c \<noteq> None" by (auto simp: UUID_RE_def Let_def list_all_iff)
  then show ?thesis by (rule hex_not_special)
qed simp

lemma withdrawal_POST_sent:
  assumes "u \<in> set (snd (withdrawal_POST env fetch now_ms uuid wid req))"
  obtains action where "UUID_RE wid" "action = ''confirm'' \<or> action = ''reject''"
    "js_prop (json_or_empty (rq_json req)) ''action'' = Some (JStr action)"
    "u \<in> set (snd (bankForward env fetch now_ms uuid (''/bank/withdrawals/'' @ wid @ ''/'' @ action) POST None))"
proof -
  let ?b = "json_or_empty (rq_json req)" and ?a = "js_prop (json_or_empty (rq_json req)) ''action''"
  have ok: "operatorOk env req" "UUID_RE wid" "?b \<noteq> JNull"
    using assms by (auto simp: withdrawal_POST_def Let_def split: if_splits)
  have "?a = Some (JStr ''confirm'') \<or> ?a = Some (JStr ''reject'')"
    using assms ok by (simp add: withdrawal_POST_def Let_def split: if_splits)
  then obtain action where a: "action = ''confirm'' \<or> action = ''reject''" "?a = Some (JStr action)" by metis
  have "u \<in> set (snd (bankForward env fetch now_ms uuid (''/bank/withdrawals/'' @ wid @ ''/'' @ action) POST None))"
    using a(1)
  proof
    assume "action = ''confirm''"
    with assms ok a(2) show ?thesis by (simp add: withdrawal_POST_def Let_def forwarding_def as_string_def)
  next
    assume "action = ''reject''"
    with assms ok a(2) show ?thesis by (simp add: withdrawal_POST_def Let_def forwarding_def as_string_def)
  qed
  with ok a that show thesis by blast
qed

text \<open>
  C18.  A withdrawal id cannot redirect the signed request: whatever id and body a caller
  supplies, what the route sends upstream goes to the path of exactly five segments
  \<open>/bank/withdrawals/<id>/<action>\<close> under the API root, with the caller's id as one segment, an
  action that is confirm or reject as the body names it, and no query, fragment, escape or dot
  segment.
\<close>

theorem withdrawal_id_cannot_redirect:
  assumes "u \<in> set (snd (withdrawal_POST env fetch now_ms uuid wid req))"
  shows "\<exists>action path. ur_url u = API_URL env @ path
           \<and> js_split CHR ''/'' path = [[], ''bank'', ''withdrawals'', wid, action]
           \<and> action \<in> {''confirm'', ''reject''}
           \<and> js_prop (json_or_empty (rq_json req)) ''action'' = Some (JStr action)
           \<and> (\<forall>c \<in> {CHR ''?'', CHR ''#'', CHR ''%'', CHR ''.''}. c \<notin> set path)
           \<and> ur_method u = POST \<and> ur_body u = Some []"
proof -
  from assms obtain action where uid: "UUID_RE wid" and act: "action \<in> {''confirm'', ''reject''}"
    and body: "js_prop (json_or_empty (rq_json req)) ''action'' = Some (JStr action)"
    and sent: "u \<in> set (snd (bankForward env fetch now_ms uuid (''/bank/withdrawals/'' @ wid @ ''/'' @ action) POST None))"
    by (rule withdrawal_POST_sent) simp
  have noslash: "CHR ''/'' \<notin> set wid" using UUID_RE_chars [OF uid] by blast
  have "js_split CHR ''/'' (wid @ CHR ''/'' # action) = [wid, action]"
    using act by (auto simp: js_split_append [OF noslash])
  then have split: "js_split CHR ''/'' (''/bank/withdrawals/'' @ wid @ ''/'' @ action)
      = [[], ''bank'', ''withdrawals'', wid, action]" by simp
  have clean: "\<forall>c \<in> {CHR ''?'', CHR ''#'', CHR ''%'', CHR ''.''}.
      c \<notin> set (''/bank/withdrawals/'' @ wid @ ''/'' @ action)"
    using UUID_RE_chars [OF uid] act by auto
  from bankForward_sent [OF sent] split clean act body show ?thesis by auto
qed

theorem withdrawal_id_cannot_redirect_witness:
  "\<exists>u action path. snd (withdrawal_POST sample_env (\<lambda>_. Answer 200 None) 1500 ''n'' sample_uuid sample_request) = [u]
     \<and> ur_url u = API_URL sample_env @ path \<and> action \<in> {''confirm'', ''reject''}
     \<and> js_split CHR ''/'' path = [[], ''bank'', ''withdrawals'', sample_uuid, action]"
proof -
  have "UUID_RE sample_uuid" by (simp add: UUID_RE_def sample_uuid_def hex_val_def is_digit_def js_simps)
  then obtain u where u: "snd (withdrawal_POST sample_env (\<lambda>_. Answer 200 None) 1500 ''n'' sample_uuid sample_request) = [u]"
    using sample_operator
    by (simp add: withdrawal_POST_def forwarding_def bankForward_def set_nonempty_def sample_env_def
        sample_request_def json_or_empty_def js_prop_def Let_def)
  with withdrawal_id_cannot_redirect [of u sample_env "\<lambda>_. Answer 200 None" 1500 "''n''" sample_uuid sample_request]
  show ?thesis by auto
qed

text \<open>
  The signature authenticates a body, a time and a nonce but not an endpoint: sent at the
  same second with the same nonce, the signed request that lists the pending withdrawals and the
  one that confirms or rejects any withdrawal carry the same three authentication headers.
\<close>

lemma signature_not_bound_to_endpoint:
  assumes "u \<in> set (snd (withdrawals_GET env fetch now_ms uuid req))"
    and "v \<in> set (snd (withdrawal_POST env fetch' now_ms uuid wid req'))"
  shows "ur_signature u = ur_signature v \<and> ur_timestamp u = ur_timestamp v \<and> ur_nonce u = ur_nonce v
       \<and> ur_url u \<noteq> ur_url v"
proof -
  from assms(1) have u: "u \<in> set (snd (bankForward env fetch now_ms uuid ''/bank/withdrawals?status=pending'' GET None))"
    by (auto simp: withdrawals_GET_def forwarding_def split: if_splits)
  from assms(2) obtain action where
    v: "v \<in> set (snd (bankForward env fetch' now_ms uuid (''/bank/withdrawals/'' @ wid @ ''/'' @ action) POST None))"
    by (rule withdrawal_POST_sent)
  from bankForward_sent [OF u] bankForward_sent [OF v] show ?thesis by (auto simp: signed_for_def)
qed

end
