(* ===== verification/ConsoleUi.thy ===== *)
theory ConsoleUi
  imports JsonValue JsNumber
begin

text \<open>
  The two client components of the console: the bank operator panel
  (\<^verbatim>\<open>components/BankPanel.tsx\<close>) and the proof-of-reserve dashboard
  (\<^verbatim>\<open>components/Dashboard.tsx\<close>).  Each is a state machine: the component's state together with
  the requests it has in flight; a step is a user action, a timer or one reply, in any order.
\<close>

section \<open>Bank operator panel\<close>

record bank_withdrawal =
  bw_id :: string
  bw_oltinId :: string
  bw_walletAddress :: "string option"
  bw_amountUzd :: js_number
  bw_status :: string

record call_result =
  cr_status :: int
  cr_data :: json

text \<open>
  \<^verbatim>\<open>message\<close>: the banner in parts.  Reading a property of \<^verbatim>\<open>null\<close> and calling \<^verbatim>\<open>slice\<close> on a value that
  has none throw, which is \<^term>\<open>None\<close>.
\<close>

datatype banner = BannerOk | BannerTx json | BannerError int "json option"

definition js_truthy_json :: "json option \<Rightarrow> bool" where
  "js_truthy_json v =
     (case v of None \<Rightarrow> False | Some JNull \<Rightarrow> False | Some (JBool b) \<Rightarrow> b | Some (JNum n) \<Rightarrow> n \<noteq> 0
      | Some (JStr s) \<Rightarrow> s \<noteq> [] | Some (JArr _) \<Rightarrow> True | Some (JObj _) \<Rightarrow> True)"

definition ok_status :: "int \<Rightarrow> bool" where
  "ok_status st \<longleftrightarrow> 200 \<le> st \<and> st < 300"

definition nullish :: "json option \<Rightarrow> bool" where
  "nullish v \<longleftrightarrow> v = None \<or> v = Some JNull"

definition message :: "call_result \<Rightarrow> banner option" where
  "message r =
     (if cr_data r = JNull then None
      else if ok_status (cr_status r) then
        (let tx = js_prop (cr_data r) ''txHash'' in
         if \<not> js_truthy_json tx then Some BannerOk
         else case tx of
           Some (JStr h) \<Rightarrow> Some (BannerTx (JStr (take 12 h)))
         | Some (JArr xs) \<Rightarrow> Some (BannerTx (JArr (take 12 xs)))
         | _ \<Rightarrow> None)
      else
        let detail = js_prop (cr_data r) ''detail''; err = js_prop (cr_data r) ''error'' in
        Some (BannerError (cr_status r)
          (if \<not> nullish detail then detail else if \<not> nullish err then err else None)))"

datatype panel_body =
    AttestationBody js_number string
  | FxBody js_number string
  | DepositBody string js_number string
  | ActionBody string

record panel_request =
  pr_path :: string
  pr_password :: string                       \<comment> \<open>the header \<^verbatim>\<open>x-operator-password\<close>\<close>
  pr_body :: panel_body

text \<open>
  The component's state and its requests in flight: the passwords sent by logins, the posted
  actions, and the passwords of list reloads.  \<open>pn_sent\<close> records every action ever posted.
\<close>

record panel =
  pn_password :: string
  pn_authed :: bool
  pn_loginError :: bool
  pn_msg :: "banner option"
  pn_busy :: bool
  pn_withdrawals :: "bank_withdrawal list"
  pn_att_grams :: string
  pn_att_auditRef :: string
  pn_fx_uzsPerUsd :: string
  pn_fx_source :: string
  pn_dep_oltinId :: string
  pn_dep_amountUzs :: string
  pn_dep_bankTxId :: string
  pn_logins :: "string list"
  pn_posts :: "panel_request list"
  pn_loads :: "string list"
  pn_sent :: "panel_request list"

definition initial_panel :: panel where
  "initial_panel = \<lparr>pn_password = [], pn_authed = False, pn_loginError = False, pn_msg = None, pn_busy = False,
     pn_withdrawals = [], pn_att_grams = [], pn_att_auditRef = [], pn_fx_uzsPerUsd = [], pn_fx_source = ''CBU'',
     pn_dep_oltinId = [], pn_dep_amountUzs = [], pn_dep_bankTxId = [],
     pn_logins = [], pn_posts = [], pn_loads = [], pn_sent = []\<rparr>"

definition drop_nth :: "nat \<Rightarrow> 'a list \<Rightarrow> 'a list" where
  "drop_nth i xs = take i xs @ drop (Suc i) xs"

definition call_post :: "string \<Rightarrow> panel_body \<Rightarrow> panel \<Rightarrow> panel_request" where
  "call_post path body p = \<lparr>pr_path = path, pr_password = pn_password p, pr_body = body\<rparr>"

text \<open>A list reload answers a status and an array of withdrawals, or something that is no array.\<close>

definition loadWithdrawals_reply :: "(int \<times> bank_withdrawal list option) option \<Rightarrow> panel \<Rightarrow> panel" where
  "loadWithdrawals_reply r p =
     (case r of
        None \<Rightarrow> p
      | Some (st, ws) \<Rightarrow>
          (if ok_status st then (case ws of None \<Rightarrow> p | Some l \<Rightarrow> p\<lparr>pn_withdrawals := l\<rparr>) else p))"

definition login_submit :: "panel \<Rightarrow> panel" where
  "login_submit p = p\<lparr>pn_loginError := False, pn_logins := pn_logins p @ [pn_password p]\<rparr>"

text \<open>The reply to a login sent with the given password: \<^verbatim>\<open>res.ok\<close>, or \<^term>\<open>None\<close> when \<^verbatim>\<open>fetch\<close> throws.\<close>

definition login_reply :: "string \<Rightarrow> bool option \<Rightarrow> panel \<Rightarrow> panel" where
  "login_reply pw r p =
     (case r of
        None \<Rightarrow> p
      | Some True \<Rightarrow> p\<lparr>pn_authed := True, pn_loads := pn_loads p @ [pw]\<rparr>
      | Some False \<Rightarrow> p\<lparr>pn_loginError := True\<rparr>)"

definition run_start :: "string \<Rightarrow> panel_body \<Rightarrow> panel \<Rightarrow> panel" where
  "run_start path body p =
     p\<lparr>pn_busy := True, pn_msg := None, pn_posts := pn_posts p @ [call_post path body p],
       pn_sent := pn_sent p @ [call_post path body p]\<rparr>"

definition run_reply :: "panel_request \<Rightarrow> call_result option \<Rightarrow> panel \<Rightarrow> panel" where
  "run_reply req r p =
     (case r of
        None \<Rightarrow> p\<lparr>pn_busy := False\<rparr>
      | Some c \<Rightarrow>
         (case message c of
            None \<Rightarrow> p\<lparr>pn_busy := False\<rparr>
          | Some m \<Rightarrow> p\<lparr>pn_msg := Some m, pn_loads := pn_loads p @ [pr_password req], pn_busy := False\<rparr>))"

text \<open>The buttons of the panel and the request each starts.\<close>

datatype decision_button = ConfirmButton | RejectButton

fun decision_action :: "decision_button \<Rightarrow> string" where
  "decision_action ConfirmButton = ''confirm''"
| "decision_action RejectButton = ''reject''"

datatype panel_button =
    SubmitAttestation | SubmitFx | SubmitDeposit | Decide bank_withdrawal decision_button

fun button_request :: "panel \<Rightarrow> panel_button \<Rightarrow> string \<times> panel_body" where
  "button_request p SubmitAttestation =
     (''/api/bank/attestation'', AttestationBody (js_Number (pn_att_grams p)) (pn_att_auditRef p))"
| "button_request p SubmitFx = (''/api/bank/fx'', FxBody (js_Number (pn_fx_uzsPerUsd p)) (pn_fx_source p))"
| "button_request p SubmitDeposit =
     (''/api/bank/deposit'', DepositBody (pn_dep_oltinId p) (js_Number (pn_dep_amountUzs p)) (pn_dep_bankTxId p))"
| "button_request p (Decide bw d) = (''/api/bank/withdrawals/'' @ bw_id bw, ActionBody (decision_action d))"

text \<open>What the panel renders: the login form, or the panel with its enabled buttons.\<close>

datatype panel_view =
    LoginForm bool
  | PanelCards "banner option" "panel_button list" bool "bank_withdrawal list"

definition panel_screen :: "panel \<Rightarrow> panel_view" where
  "panel_screen p =
     (if \<not> pn_authed p then LoginForm (pn_loginError p)
      else PanelCards (pn_msg p)
        ([SubmitAttestation, SubmitFx, SubmitDeposit]
           @ concat (map (\<lambda>bw. [Decide bw ConfirmButton, Decide bw RejectButton]) (pn_withdrawals p)))
        (\<not> pn_busy p) (pn_withdrawals p))"

definition button_enabled :: "panel \<Rightarrow> panel_button \<Rightarrow> bool" where
  "button_enabled p b =
     (case panel_screen p of
        LoginForm _ \<Rightarrow> False
      | PanelCards _ bs enabled _ \<Rightarrow> enabled \<and> b \<in> set bs)"

datatype panel_field =
  FieldGrams | FieldAuditRef | FieldUzsPerUsd | FieldSource | FieldOltinId | FieldAmountUzs | FieldBankTxId

fun type_field :: "panel_field \<Rightarrow> string \<Rightarrow> panel \<Rightarrow> panel" where
  "type_field FieldGrams v p = p\<lparr>pn_att_grams := v\<rparr>"
| "type_field FieldAuditRef v p = p\<lparr>pn_att_auditRef := v\<rparr>"
| "type_field FieldUzsPerUsd v p = p\<lparr>pn_fx_uzsPerUsd := v\<rparr>"
| "type_field FieldSource v p = p\<lparr>pn_fx_source := v\<rparr>"
| "type_field FieldOltinId v p = p\<lparr>pn_dep_oltinId := v\<rparr>"
| "type_field FieldAmountUzs v p = p\<lparr>pn_dep_amountUzs := v\<rparr>"
| "type_field FieldBankTxId v p = p\<lparr>pn_dep_bankTxId := v\<rparr>"

datatype panel_event =
    TypePassword string
  | SubmitLogin
  | LoginReply nat "bool option"
  | TypeField panel_field string
  | Click panel_button
  | PostReply nat "call_result option"
  | LoadReply nat "(int \<times> bank_withdrawal list option) option"

fun panel_step :: "panel_event \<Rightarrow> panel \<Rightarrow> panel option" where
  "panel_step (TypePassword s) p = (if pn_authed p then None else Some (p\<lparr>pn_password := s\<rparr>))"
| "panel_step SubmitLogin p = (if pn_authed p then None else Some (login_submit p))"
| "panel_step (LoginReply i r) p =
     (if i < length (pn_logins p)
      then Some (login_reply (pn_logins p ! i) r (p\<lparr>pn_logins := drop_nth i (pn_logins p)\<rparr>)) else None)"
| "panel_step (TypeField f v) p = (if pn_authed p then Some (type_field f v p) else None)"
| "panel_step (Click b) p =
     (if button_enabled p b then Some (run_start (fst (button_request p b)) (snd (button_request p b)) p) else None)"
| "panel_step (PostReply i r) p =
     (if i < length (pn_posts p)
      then Some (run_reply (pn_posts p ! i) r (p\<lparr>pn_posts := drop_nth i (pn_posts p)\<rparr>)) else None)"
| "panel_step (LoadReply i r) p =
     (if i < length (pn_loads p)
      then Some (loadWithdrawals_reply r (p\<lparr>pn_loads := drop_nth i (pn_loads p)\<rparr>)) else None)"

inductive panel_reachable :: "panel \<Rightarrow> bool" where
  panel_start: "panel_reachable initial_panel"
| panel_next: "panel_reachable p \<Longrightarrow> panel_step e p = Some p' \<Longrightarrow> panel_reachable p'"

definition panel_ok :: "panel \<Rightarrow> bool" where
  "panel_ok p \<longleftrightarrow>
     length (pn_posts p) = (if pn_busy p then 1 else 0)
     \<and> (pn_posts p \<noteq> [] \<longrightarrow> pn_authed p \<and> pn_posts p = [last (pn_sent p)])
     \<and> (pn_sent p \<noteq> [] \<longrightarrow> pn_authed p)
     \<and> (\<forall>q \<in> set (pn_sent p). pr_password q = pn_password p)"

lemma length_drop_nth: "i < length xs \<Longrightarrow> length (drop_nth i xs) = length xs - 1"
  by (simp add: drop_nth_def)

lemma type_field_other [simp]:
  "pn_posts (type_field f v p) = pn_posts p" "pn_busy (type_field f v p) = pn_busy p"
  "pn_authed (type_field f v p) = pn_authed p" "pn_sent (type_field f v p) = pn_sent p"
  "pn_password (type_field f v p) = pn_password p"
  by (cases f; simp)+

lemma panel_step_ok:
  assumes "panel_ok p" and "panel_step e p = Some p'"
  shows "panel_ok p'"
proof (cases e)
  case (PostReply i r)
  with assms have "pn_posts p = [pn_posts p ! i]" "i = 0"
    by (auto simp: panel_ok_def length_Suc_conv split: if_splits)
  with PostReply assms show ?thesis
    by (auto simp: panel_ok_def run_reply_def drop_nth_def split: option.splits if_splits)
next
  case (LoginReply i r)
  with assms show ?thesis
    by (auto simp: panel_ok_def login_reply_def split: option.splits if_splits bool.splits)
next
  case (LoadReply i r)
  with assms show ?thesis
    by (auto simp: panel_ok_def loadWithdrawals_reply_def split: option.splits if_splits)
next
  case (Click b)
  with assms show ?thesis
    by (auto simp: panel_ok_def run_start_def call_post_def button_enabled_def panel_screen_def
        split: if_splits)
qed (use assms in \<open>auto simp: panel_ok_def login_submit_def split: if_splits\<close>)

lemma panel_reachable_ok: "panel_reachable p \<Longrightarrow> panel_ok p"
proof (induction rule: panel_reachable.induct)
  case panel_start
  then show ?case by (simp add: panel_ok_def initial_panel_def)
next
  case (panel_next p e p')
  from panel_next.IH panel_next.hyps(2) show ?case by (rule panel_step_ok)
qed

text \<open>
  C29.  The operator panel never has two bank actions in flight and never posts before a login was
  accepted: in every reachable state a posted action is the only one unanswered, it is the last
  one posted, the panel is marked busy exactly while it is unanswered, no button can be pressed
  meanwhile, and every action ever posted carried the password the panel still holds.
\<close>

theorem panel_one_action_in_flight:
  assumes "panel_reachable p"
  shows "(pn_busy p \<longleftrightarrow> pn_posts p \<noteq> []) \<and> length (pn_posts p) \<le> 1
       \<and> (\<forall>q \<in> set (pn_posts p). q = last (pn_sent p))
       \<and> (\<forall>q \<in> set (pn_sent p). pn_authed p \<and> pr_password q = pn_password p)
       \<and> (\<forall>b. pn_posts p \<noteq> [] \<longrightarrow> panel_step (Click b) p = None)"
proof -
  have ok: "panel_ok p" by (rule panel_reachable_ok [OF assms])
  have busy: "pn_posts p \<noteq> [] \<longleftrightarrow> pn_busy p"
    using ok by (auto simp: panel_ok_def split: if_splits)
  have "panel_step (Click b) p = None" if "pn_busy p" for b
    using that by (simp add: button_enabled_def panel_screen_def)
  moreover have "\<forall>q \<in> set (pn_posts p). q = last (pn_sent p)"
    using ok unfolding panel_ok_def by (metis empty_iff list.set(1) set_ConsD)
  ultimately show ?thesis using ok busy by (auto simp: panel_ok_def split: if_splits)
qed

theorem panel_one_action_in_flight_witness:
  "\<exists>p. panel_reachable p \<and> length (pn_posts p) = 1 \<and> pn_busy p"
proof -
  define a where "a = login_submit initial_panel"
  define b where "b = login_reply [] (Some True) (a\<lparr>pn_logins := []\<rparr>)"
  define p where "p = run_start ''/api/bank/fx'' (FxBody (js_Number []) ''CBU'') b"
  have "panel_reachable a"
    by (rule panel_next [OF panel_start, of SubmitLogin]) (simp add: a_def initial_panel_def)
  then have "panel_reachable b"
    by (rule panel_next [of _ "LoginReply 0 (Some True)"])
      (simp add: b_def a_def login_submit_def initial_panel_def drop_nth_def)
  then have "panel_reachable p"
    by (rule panel_next [of _ "Click SubmitFx"])
      (simp add: p_def b_def a_def button_enabled_def panel_screen_def login_reply_def login_submit_def initial_panel_def)
  moreover have "pn_posts p \<noteq> []" by (simp add: p_def run_start_def)
  ultimately show ?thesis
    using panel_one_action_in_flight [of p] by (intro exI [of _ p]) (simp add: le_Suc_eq)
qed

section \<open>Proof-of-reserve dashboard\<close>

record feed_reading =
  fr_answer :: string
  fr_decimals :: nat
  fr_updated_at :: int

record por_contracts =
  pc_oltin :: string
  pc_uzd :: string
  pc_reserve_attestor :: string
  pc_exchange :: string

record por_response =
  po_reserve_answer :: string
  po_reserve_decimals :: nat
  po_reserve_grams :: js_number
  po_reserve_updated_at :: int
  po_oltin_supply :: js_number
  po_coverage_ratio :: "js_number option"
  po_contracts :: por_contracts

record rates_response =
  ra_xau_usd :: feed_reading
  ra_uzs_usd :: feed_reading
  ra_oltin_price_uzd :: js_number

record por_history_item =
  hi_answer :: string
  hi_block_number :: int
  hi_tx_hash :: string
  hi_indexed_at :: string

record dash_data =
  dd_por :: por_response
  dd_rates :: rates_response
  dd_history :: "por_history_item list"

definition EXPLORER :: string where "EXPLORER = ''https://sepolia.explorer.zksync.io''"

definition addressUrl :: "string \<Rightarrow> string" where
  "addressUrl address = EXPLORER @ ''/address/'' @ address"

definition txUrl :: "string \<Rightarrow> string" where
  "txUrl hash = EXPLORER @ ''/tx/'' @ hash"

text \<open>
  \<^verbatim>\<open>fetchJson\<close>: a network failure, an error status with a body that may be JSON, or a body of the
  declared shape (or an unparsable one).  \<^verbatim>\<open>String\<close> of a JSON value is an argument.
\<close>

datatype 'a http_reply = NetworkFailure string | ErrorStatus int "json option" | OkBody 'a | OkUnparsable string

definition fetchJson :: "(json \<Rightarrow> string) \<Rightarrow> 'a http_reply \<Rightarrow> (string, 'a) result" where
  "fetchJson js_String r =
     (case r of
        NetworkFailure m \<Rightarrow> Inl m
      | OkBody v \<Rightarrow> Inr v
      | OkUnparsable m \<Rightarrow> Inl m
      | ErrorStatus st b \<Rightarrow>
          let body = (case b of None \<Rightarrow> JObj [] | Some v \<Rightarrow> v) in
          Inl (case js_prop body ''error'' of
                 Some e \<Rightarrow> js_String e
               | None \<Rightarrow> ''Request failed ('' @ show_int st @ '')''))"

text \<open>\<^verbatim>\<open>Promise.all\<close>: the data when all three resolve, else the error of the first to reject.\<close>

definition fetchAll ::
    "(string, por_response) result \<Rightarrow> (string, rates_response) result \<Rightarrow> (string, por_history_item list) result
     \<Rightarrow> (string list \<Rightarrow> string) \<Rightarrow> (string, dash_data) result" where
  "fetchAll por rates history first_error =
     (case (por, rates, history) of
        (Inr a, Inr b, Inr c) \<Rightarrow> Inr \<lparr>dd_por = a, dd_rates = b, dd_history = c\<rparr>
      | _ \<Rightarrow> Inl (first_error
          ((case por of Inl e \<Rightarrow> [e] | _ \<Rightarrow> []) @ (case rates of Inl e \<Rightarrow> [e] | _ \<Rightarrow> [])
           @ (case history of Inl e \<Rightarrow> [e] | _ \<Rightarrow> []))))"

text \<open>\<^verbatim>\<open>ago\<close> of a time in milliseconds; \<^term>\<open>None\<close> is the NaN of an unparsable date.\<close>

datatype elapsed = SecondsAgo int | MinutesAgo int | HoursAgo int | DaysAgo int | NaNDaysAgo

definition ago :: "int \<Rightarrow> int option \<Rightarrow> elapsed" where
  "ago now_ms ms =
     (case ms of
        None \<Rightarrow> NaNDaysAgo
      | Some t \<Rightarrow>
          let s = max 0 ((now_ms - t) div 1000) in
          if s < 60 then SecondsAgo s
          else let m = s div 60 in
            if m < 60 then MinutesAgo m
            else let h = m div 60 in
              if h < 24 then HoursAgo h else DaysAgo (h div 24))"

text \<open>\<^verbatim>\<open>shortHash\<close>: the whole text, or its two ends around an ellipsis.\<close>

datatype short_text = Whole string | Elided string string

definition shortHash :: "string \<Rightarrow> short_text" where
  "shortHash h = (if length h > 12 then Elided (take 6 h) (drop (length h - 4) h) else Whole h)"

definition number_scale_down :: "js_number \<Rightarrow> nat \<Rightarrow> js_number" where
  "number_scale_down x k = (case x of Fin n d \<Rightarrow> Fin n (d * 10 ^ k) | y \<Rightarrow> y)"

definition feedValue :: "feed_reading \<Rightarrow> js_number" where
  "feedValue f = number_scale_down (js_Number (fr_answer f)) (fr_decimals f)"

definition answerToGrams :: "string \<Rightarrow> nat \<Rightarrow> js_number" where
  "answerToGrams answer decimals = number_scale_down (js_Number answer) decimals"

definition at_least_one :: "js_number \<Rightarrow> bool" where
  "at_least_one x = (case x of Fin n d \<Rightarrow> int d \<le> n | PosInf \<Rightarrow> True | NegInf \<Rightarrow> False | NaN \<Rightarrow> False)"

definition times_100 :: "js_number \<Rightarrow> js_number" where
  "times_100 x = (case x of Fin n d \<Rightarrow> Fin (n * 100) d | y \<Rightarrow> y)"

text \<open>\<^verbatim>\<open>Content\<close>; \<^verbatim>\<open>fmt\<close> (\<^verbatim>\<open>toLocaleString\<close> with a digit limit) and \<^verbatim>\<open>Date.parse\<close> are arguments.\<close>

datatype hero = NoSupply | FullyBacked string | UnderBacked string

definition coverage_hero :: "(js_number \<Rightarrow> nat \<Rightarrow> string) \<Rightarrow> js_number option \<Rightarrow> hero" where
  "coverage_hero fmt cov =
     (case cov of
        None \<Rightarrow> NoSupply
      | Some c \<Rightarrow> if at_least_one c then FullyBacked (fmt (times_100 c) 1 @ ''%'')
                  else UnderBacked (fmt (times_100 c) 1 @ ''%''))"

record history_row =
  hr_grams :: string
  hr_block :: int
  hr_href :: string
  hr_short :: short_text
  hr_indexed :: elapsed

record content =
  co_hero :: hero
  co_reserve :: string
  co_supply :: string
  co_price :: string
  co_reserve_updated :: "elapsed option"
  co_xau_usd :: string
  co_uzs_usd :: string
  co_rows :: "history_row list"
  co_contracts :: "(string \<times> string \<times> short_text) list"

definition history_row_of ::
    "(js_number \<Rightarrow> nat \<Rightarrow> string) \<Rightarrow> (string \<Rightarrow> int option) \<Rightarrow> int \<Rightarrow> por_response \<Rightarrow> por_history_item \<Rightarrow> history_row" where
  "history_row_of fmt date_ms now_ms por h =
     \<lparr>hr_grams = fmt (answerToGrams (hi_answer h) (po_reserve_decimals por)) 2,
      hr_block = hi_block_number h, hr_href = txUrl (hi_tx_hash h), hr_short = shortHash (hi_tx_hash h),
      hr_indexed = ago now_ms (date_ms (hi_indexed_at h))\<rparr>"

definition contract_link :: "string \<Rightarrow> string \<Rightarrow> string \<times> string \<times> short_text" where
  "contract_link label address = (label, addressUrl address, shortHash address)"

definition Content ::
    "(js_number \<Rightarrow> nat \<Rightarrow> string) \<Rightarrow> (string \<Rightarrow> int option) \<Rightarrow> int \<Rightarrow> dash_data \<Rightarrow> content" where
  "Content fmt date_ms now_ms d =
     (let por = dd_por d; rates = dd_rates d in
      \<lparr>co_hero = coverage_hero fmt (po_coverage_ratio por),
       co_reserve = fmt (po_reserve_grams por) 2 @ '' g'',
       co_supply = fmt (po_oltin_supply por) 2,
       co_price = fmt (ra_oltin_price_uzd rates) 2 @ '' UZS'',
       co_reserve_updated =
         (if po_reserve_updated_at por = 0 then None else Some (ago now_ms (Some (po_reserve_updated_at por * 1000)))),
       co_xau_usd = ''$'' @ fmt (feedValue (ra_xau_usd rates)) 2,
       co_uzs_usd = fmt (feedValue (ra_uzs_usd rates)) 8,
       co_rows = map (history_row_of fmt date_ms now_ms por) (dd_history d),
       co_contracts =
         [contract_link ''OltinToken (OLTIN)'' (pc_oltin (po_contracts por)),
          contract_link ''UZD stablecoin'' (pc_uzd (po_contracts por)),
          contract_link ''Reserve attestor'' (pc_reserve_attestor (po_contracts por)),
          contract_link ''Exchange'' (pc_exchange (po_contracts por))]\<rparr>)"

text \<open>
  The component: polls and manual refreshes in flight, in the order they were started.  \<open>da_log\<close>
  records every settled request whose outcome reached the state, with its time.
\<close>

datatype fetch_source = Poll | Manual

record dashboard =
  da_data :: "dash_data option"
  da_error :: "string option"
  da_updatedAt :: "int option"
  da_refreshing :: bool
  da_flight :: "fetch_source list"
  da_cancelled :: bool
  da_log :: "(int \<times> (string, dash_data) result) list"

definition mounted_dashboard :: dashboard where
  "mounted_dashboard = \<lparr>da_data = None, da_error = None, da_updatedAt = None, da_refreshing = False,
     da_flight = [Poll], da_cancelled = False, da_log = []\<rparr>"

definition apply_data :: "int \<Rightarrow> dash_data \<Rightarrow> dashboard \<Rightarrow> dashboard" where
  "apply_data now_ms d s = s\<lparr>da_data := Some d, da_error := None, da_updatedAt := Some now_ms\<rparr>"

definition fail_data :: "string \<Rightarrow> dashboard \<Rightarrow> dashboard" where
  "fail_data m s = s\<lparr>da_error := Some m\<rparr>"

definition settle :: "int \<Rightarrow> (string, dash_data) result \<Rightarrow> dashboard \<Rightarrow> dashboard" where
  "settle now_ms r s =
     (let s1 = s\<lparr>da_log := da_log s @ [(now_ms, r)]\<rparr> in
      case r of Inr d \<Rightarrow> apply_data now_ms d s1 | Inl m \<Rightarrow> fail_data m s1)"

datatype dash_event = PollTick | RefreshClick | Settles nat int "(string, dash_data) result" | Unmount

fun dash_step :: "dash_event \<Rightarrow> dashboard \<Rightarrow> dashboard option" where
  "dash_step PollTick s = (if da_cancelled s then None else Some (s\<lparr>da_flight := da_flight s @ [Poll]\<rparr>))"
| "dash_step RefreshClick s =
     (if da_cancelled s then None else Some (s\<lparr>da_refreshing := True, da_flight := da_flight s @ [Manual]\<rparr>))"
| "dash_step Unmount s = (if da_cancelled s then None else Some (s\<lparr>da_cancelled := True\<rparr>))"
| "dash_step (Settles i now_ms r) s =
     (if i < length (da_flight s) then
        let s1 = s\<lparr>da_flight := drop_nth i (da_flight s)\<rparr> in
        (case da_flight s ! i of
           Poll \<Rightarrow> Some (if da_cancelled s then s1 else settle now_ms r s1)
         | Manual \<Rightarrow> Some ((settle now_ms r s1)\<lparr>da_refreshing := False\<rparr>))
      else None)"

record dash_view =
  dv_updated :: "elapsed option"
  dv_spinning :: bool
  dv_error :: "string option"
  dv_content :: "content option"

definition dashboard_view ::
    "(js_number \<Rightarrow> nat \<Rightarrow> string) \<Rightarrow> (string \<Rightarrow> int option) \<Rightarrow> int \<Rightarrow> dashboard \<Rightarrow> dash_view" where
  "dashboard_view fmt date_ms now_ms s =
     \<lparr>dv_updated = map_option (\<lambda>t. ago now_ms (Some t)) (da_updatedAt s), dv_spinning = da_refreshing s,
      dv_error = da_error s, dv_content = map_option (Content fmt date_ms now_ms) (da_data s)\<rparr>"

inductive dash_reachable :: "dashboard \<Rightarrow> bool" where
  dash_start: "dash_reachable mounted_dashboard"
| dash_next: "dash_reachable s \<Longrightarrow> dash_step e s = Some s' \<Longrightarrow> dash_reachable s'"

text \<open>What a log of settled requests says: the last success, and the error when the last one failed.\<close>

fun last_success :: "(int \<times> (string, dash_data) result) list \<Rightarrow> (int \<times> dash_data) option" where
  "last_success [] = None"
| "last_success (x # xs) =
     (case last_success xs of
        Some y \<Rightarrow> Some y
      | None \<Rightarrow> (case x of (t, Inr d) \<Rightarrow> Some (t, d) | (t, Inl _) \<Rightarrow> None))"

definition last_error :: "(int \<times> (string, dash_data) result) list \<Rightarrow> string option" where
  "last_error xs = (if xs = [] then None else case snd (last xs) of Inl m \<Rightarrow> Some m | Inr _ \<Rightarrow> None)"

lemma last_success_snoc [simp]:
  "last_success (xs @ [(t, r)]) = (case r of Inr d \<Rightarrow> Some (t, d) | Inl _ \<Rightarrow> last_success xs)"
  by (induction xs) (auto split: sum.splits option.splits prod.splits)

definition dash_ok :: "dashboard \<Rightarrow> bool" where
  "dash_ok s \<longleftrightarrow> da_data s = map_option snd (last_success (da_log s))
     \<and> da_updatedAt s = map_option fst (last_success (da_log s)) \<and> da_error s = last_error (da_log s)"

lemma settle_ok: "dash_ok s \<Longrightarrow> dash_ok (settle now_ms r s)"
  by (cases r) (simp_all add: dash_ok_def settle_def apply_data_def fail_data_def last_error_def)

lemma dash_ok_other [simp]:
  "dash_ok (s\<lparr>da_flight := f\<rparr>) = dash_ok s" "dash_ok (s\<lparr>da_refreshing := b\<rparr>) = dash_ok s"
  "dash_ok (s\<lparr>da_cancelled := c\<rparr>) = dash_ok s"
  by (simp_all add: dash_ok_def)

lemma dash_reachable_ok: "dash_reachable s \<Longrightarrow> dash_ok s"
proof (induction rule: dash_reachable.induct)
  case dash_start
  then show ?case by (simp add: dash_ok_def mounted_dashboard_def last_error_def)
next
  case (dash_next s e s')
  then show ?case
    by (cases e) (auto simp: Let_def settle_ok split: if_splits fetch_source.splits)
qed

text \<open>
  C30.  The dashboard never invents or withholds a verdict: in every reachable state the reserve is
  shown as fully backed exactly when the last snapshot that loaded has a coverage ratio of at
  least one, as under-backed exactly when it has a smaller one, the age beside it is the age of
  that snapshot, and the unavailability banner is up exactly while the last answer was a failure,
  with the failed answer's message.
\<close>

theorem dashboard_verdict_is_last_snapshot:
  assumes "dash_reachable s"
  shows "dv_error (dashboard_view fmt date_ms now_ms s) = last_error (da_log s)
       \<and> (case last_success (da_log s) of
            None \<Rightarrow> dv_content (dashboard_view fmt date_ms now_ms s) = None
          | Some (t, d) \<Rightarrow>
              (\<exists>c. dv_content (dashboard_view fmt date_ms now_ms s) = Some c
                 \<and> dv_updated (dashboard_view fmt date_ms now_ms s) = Some (ago now_ms (Some t))
                 \<and> ((\<exists>x. co_hero c = FullyBacked x) \<longleftrightarrow> (\<exists>r. po_coverage_ratio (dd_por d) = Some r \<and> at_least_one r))
                 \<and> ((\<exists>x. co_hero c = UnderBacked x) \<longleftrightarrow> (\<exists>r. po_coverage_ratio (dd_por d) = Some r \<and> \<not> at_least_one r))))"
proof -
  have ok: "dash_ok s" by (rule dash_reachable_ok [OF assms])
  show ?thesis
  proof (cases "last_success (da_log s)")
    case None
    with ok show ?thesis by (simp add: dash_ok_def dashboard_view_def)
  next
    case (Some td)
    obtain t d where td: "td = (t, d)" by (cases td)
    with ok Some have v: "da_data s = Some d" "da_updatedAt s = Some t" "da_error s = last_error (da_log s)"
      by (simp_all add: dash_ok_def)
    have "co_hero (Content fmt date_ms now_ms d) = coverage_hero fmt (po_coverage_ratio (dd_por d))"
      by (simp add: Content_def Let_def)
    with v Some td show ?thesis
      by (auto simp: dashboard_view_def coverage_hero_def split: option.splits)
  qed
qed

theorem dashboard_verdict_is_last_snapshot_witness:
  "\<exists>s. dash_reachable s \<and> dv_error (dashboard_view (\<lambda>_ _. []) (\<lambda>_. None) 0 s) = Some ''boom''"
proof -
  define s where "s = settle 0 (Inl ''boom'') (mounted_dashboard\<lparr>da_flight := []\<rparr>)"
  have r: "dash_reachable s"
    by (rule dash_next [OF dash_start, of "Settles 0 0 (Inl ''boom'')"])
      (simp add: s_def mounted_dashboard_def drop_nth_def)
  have "last_error (da_log s) = Some ''boom''"
    by (simp add: s_def settle_def fail_data_def mounted_dashboard_def last_error_def)
  with r dashboard_verdict_is_last_snapshot [OF r, of "\<lambda>_ _. []" "\<lambda>_. None" 0] show ?thesis by auto
qed

end
