(* ===== verification/Erc20.thy ===== *)
theory Erc20
  imports Attestor
begin

text \<open>
  The token both OLTIN (\<^verbatim>\<open>OltinTokenV3.sol\<close>) and UZD (\<^verbatim>\<open>UZD.sol\<close>) inherit: OpenZeppelin's ERC20,
  ERC20Burnable, AccessControl and Pausable, as their sources are recorded in
  \<^verbatim>\<open>contracts/artifacts-zk/build-info\<close>, with the \<^verbatim>\<open>whenNotPaused\<close> override of \<^verbatim>\<open>_update\<close> that both
  contracts add.  An external call is a function of the sender and the state to a revert or the
  new state.  A \<^verbatim>\<open>uint256\<close> is a natural number with the checked and the unchecked arithmetic
  written out.  The view of the token that its clients rely on is the locale \<^verbatim>\<open>ledger\<close>.
\<close>

definition address0 :: address where
  "address0 = ''0x'' @ replicate 40 CHR ''0''"

datatype revert =
    Require string
  | Unauthorized address string
  | BadConfirmation
  | Panic
  | EnforcedPause
  | ExpectedPause
  | InsufficientBalance address nat nat
  | InsufficientAllowance address nat nat
  | InvalidSender
  | InvalidReceiver
  | InvalidApprover
  | InvalidSpender

text \<open>The number of values of a \<^verbatim>\<open>uint256\<close> and of a \<^verbatim>\<open>uint64\<close>.\<close>

definition UINT256 :: nat where "UINT256 = 2 ^ 256"
definition UINT64 :: nat where "UINT64 = 2 ^ 64"

lemma UINT256_pos [simp]: "0 < UINT256"
  by (simp add: UINT256_def)

text \<open>Checked addition: an overflow of \<^verbatim>\<open>uint256\<close> reverts with a panic.\<close>

definition checked :: "nat \<Rightarrow> (revert, nat) result" where
  "checked v = (if v < UINT256 then Inr v else Inl Panic)"

definition require :: "bool \<Rightarrow> string \<Rightarrow> (revert, unit) result" where
  "require b m = (if b then Inr () else Inl (Require m))"

lemma checked_Inr_iff [simp]: "checked v = Inr w \<longleftrightarrow> v < UINT256 \<and> w = v"
  by (auto simp: checked_def)

lemma require_Inr_iff [simp]: "require b m = Inr u \<longleftrightarrow> b"
  by (simp add: require_def)

record token =
  tk_balances :: "address \<Rightarrow> nat"
  tk_allowances :: "address \<Rightarrow> address \<Rightarrow> nat"
  tk_totalSupply :: nat
  tk_paused :: bool
  tk_roles :: "(string \<times> address) list"

section \<open>AccessControl and Pausable\<close>

definition hasRole :: "string \<Rightarrow> address \<Rightarrow> 'a token_scheme \<Rightarrow> bool" where
  "hasRole role who t \<longleftrightarrow> (role, who) \<in> set (tk_roles t)"

definition onlyRole :: "string \<Rightarrow> address \<Rightarrow> 'a token_scheme \<Rightarrow> (revert, unit) result" where
  "onlyRole role who t = (if hasRole role who t then Inr () else Inl (Unauthorized who role))"

definition grantRole_internal :: "string \<Rightarrow> address \<Rightarrow> 'a token_scheme \<Rightarrow> 'a token_scheme" where
  "grantRole_internal role who t = (if hasRole role who t then t else t\<lparr>tk_roles := (role, who) # tk_roles t\<rparr>)"

definition revokeRole_internal :: "string \<Rightarrow> address \<Rightarrow> 'a token_scheme \<Rightarrow> 'a token_scheme" where
  "revokeRole_internal role who t = t\<lparr>tk_roles := filter (\<lambda>r. r \<noteq> (role, who)) (tk_roles t)\<rparr>"

text \<open>No contract sets an admin role, so the admin of every role is the default one.\<close>

definition grantRole :: "address \<Rightarrow> string \<Rightarrow> address \<Rightarrow> 'a token_scheme \<Rightarrow> (revert, 'a token_scheme) result" where
  "grantRole sender role who t =
     rbind (onlyRole DEFAULT_ADMIN_ROLE sender t) (\<lambda>_. Inr (grantRole_internal role who t))"

definition revokeRole :: "address \<Rightarrow> string \<Rightarrow> address \<Rightarrow> 'a token_scheme \<Rightarrow> (revert, 'a token_scheme) result" where
  "revokeRole sender role who t =
     rbind (onlyRole DEFAULT_ADMIN_ROLE sender t) (\<lambda>_. Inr (revokeRole_internal role who t))"

definition renounceRole :: "address \<Rightarrow> string \<Rightarrow> address \<Rightarrow> 'a token_scheme \<Rightarrow> (revert, 'a token_scheme) result" where
  "renounceRole sender role callerConfirmation t =
     (if callerConfirmation \<noteq> sender then Inl BadConfirmation
      else Inr (revokeRole_internal role callerConfirmation t))"

definition whenNotPaused :: "'a token_scheme \<Rightarrow> (revert, unit) result" where
  "whenNotPaused t = (if tk_paused t then Inl EnforcedPause else Inr ())"

definition PAUSER_ROLE :: string where "PAUSER_ROLE = ''PAUSER_ROLE''"

definition token_pause :: "address \<Rightarrow> 'a token_scheme \<Rightarrow> (revert, 'a token_scheme) result" where
  "token_pause sender t =
     rbind (onlyRole PAUSER_ROLE sender t) (\<lambda>_. rbind (whenNotPaused t) (\<lambda>_. Inr (t\<lparr>tk_paused := True\<rparr>)))"

definition token_unpause :: "address \<Rightarrow> 'a token_scheme \<Rightarrow> (revert, 'a token_scheme) result" where
  "token_unpause sender t =
     rbind (onlyRole PAUSER_ROLE sender t)
       (\<lambda>_. if tk_paused t then Inr (t\<lparr>tk_paused := False\<rparr>) else Inl ExpectedPause)"

lemma onlyRole_Inr_iff [simp]: "onlyRole role who t = Inr u \<longleftrightarrow> hasRole role who t"
  by (simp add: onlyRole_def)

lemma whenNotPaused_Inr_iff [simp]: "whenNotPaused t = Inr u \<longleftrightarrow> \<not> tk_paused t"
  by (simp add: whenNotPaused_def)

text \<open>How a call that passes its guards goes on.\<close>

lemma guard_binds:
  "rbind (require b m) f = Inr y \<longleftrightarrow> b \<and> f () = Inr y"
  "rbind (onlyRole role who t) f = Inr y \<longleftrightarrow> hasRole role who t \<and> f () = Inr y"
  "rbind (whenNotPaused t) f = Inr y \<longleftrightarrow> \<not> tk_paused t \<and> f () = Inr y"
  "rbind (checked v) g = Inr y \<longleftrightarrow> v < UINT256 \<and> g v = Inr y"
  by (simp_all add: require_def onlyRole_def whenNotPaused_def checked_def)

section \<open>ERC20\<close>

definition erc20_update :: "address \<Rightarrow> address \<Rightarrow> nat \<Rightarrow> 'a token_scheme \<Rightarrow> (revert, 'a token_scheme) result" where
  "erc20_update from to value t =
     rbind (if from = address0
            then rbind (checked (tk_totalSupply t + value)) (\<lambda>n. Inr (t\<lparr>tk_totalSupply := n\<rparr>))
            else if tk_balances t from < value
            then Inl (InsufficientBalance from (tk_balances t from) value)
            else Inr (t\<lparr>tk_balances := (tk_balances t)(from := tk_balances t from - value)\<rparr>))
       (\<lambda>t1. Inr (if to = address0
                  then t1\<lparr>tk_totalSupply := (UINT256 + tk_totalSupply t1 - value) mod UINT256\<rparr>
                  else t1\<lparr>tk_balances := (tk_balances t1)(to := (tk_balances t1 to + value) mod UINT256)\<rparr>))"

text \<open>The override of both tokens.\<close>

definition token_update :: "address \<Rightarrow> address \<Rightarrow> nat \<Rightarrow> 'a token_scheme \<Rightarrow> (revert, 'a token_scheme) result" where
  "token_update from to value t = rbind (whenNotPaused t) (\<lambda>_. erc20_update from to value t)"

definition transfer_internal :: "address \<Rightarrow> address \<Rightarrow> nat \<Rightarrow> 'a token_scheme \<Rightarrow> (revert, 'a token_scheme) result" where
  "transfer_internal from to value t =
     (if from = address0 then Inl InvalidSender
      else if to = address0 then Inl InvalidReceiver
      else token_update from to value t)"

definition mint_internal :: "address \<Rightarrow> nat \<Rightarrow> 'a token_scheme \<Rightarrow> (revert, 'a token_scheme) result" where
  "mint_internal account value t =
     (if account = address0 then Inl InvalidReceiver else token_update address0 account value t)"

definition burn_internal :: "address \<Rightarrow> nat \<Rightarrow> 'a token_scheme \<Rightarrow> (revert, 'a token_scheme) result" where
  "burn_internal account value t =
     (if account = address0 then Inl InvalidSender else token_update account address0 value t)"

definition approve_internal :: "address \<Rightarrow> address \<Rightarrow> nat \<Rightarrow> 'a token_scheme \<Rightarrow> (revert, 'a token_scheme) result" where
  "approve_internal holder spender value t =
     (if holder = address0 then Inl InvalidApprover
      else if spender = address0 then Inl InvalidSpender
      else Inr (t\<lparr>tk_allowances := (tk_allowances t)(holder := (tk_allowances t holder)(spender := value))\<rparr>))"

definition spendAllowance :: "address \<Rightarrow> address \<Rightarrow> nat \<Rightarrow> 'a token_scheme \<Rightarrow> (revert, 'a token_scheme) result" where
  "spendAllowance holder spender value t =
     (let currentAllowance = tk_allowances t holder spender in
      if currentAllowance < UINT256 - 1 then
        if currentAllowance < value then Inl (InsufficientAllowance spender currentAllowance value)
        else approve_internal holder spender (currentAllowance - value) t
      else Inr t)"

definition token_transfer :: "address \<Rightarrow> address \<Rightarrow> nat \<Rightarrow> 'a token_scheme \<Rightarrow> (revert, 'a token_scheme) result" where
  "token_transfer sender to value t = transfer_internal sender to value t"

definition token_approve :: "address \<Rightarrow> address \<Rightarrow> nat \<Rightarrow> 'a token_scheme \<Rightarrow> (revert, 'a token_scheme) result" where
  "token_approve sender spender value t = approve_internal sender spender value t"

definition token_transferFrom ::
    "address \<Rightarrow> address \<Rightarrow> address \<Rightarrow> nat \<Rightarrow> 'a token_scheme \<Rightarrow> (revert, 'a token_scheme) result" where
  "token_transferFrom sender from to value t =
     rbind (spendAllowance from sender value t) (transfer_internal from to value)"

definition token_burn :: "address \<Rightarrow> nat \<Rightarrow> 'a token_scheme \<Rightarrow> (revert, 'a token_scheme) result" where
  "token_burn sender value t = burn_internal sender value t"

definition token_burnFrom :: "address \<Rightarrow> address \<Rightarrow> nat \<Rightarrow> 'a token_scheme \<Rightarrow> (revert, 'a token_scheme) result" where
  "token_burnFrom sender account value t =
     rbind (spendAllowance account sender value t) (burn_internal account value)"

section \<open>The ledger invariant\<close>

text \<open>Every unit of supply is on exactly one balance, and the supply fits its word.\<close>

definition holders :: "'a token_scheme \<Rightarrow> address set" where
  "holders t = {a. tk_balances t a \<noteq> 0}"

definition token_ok :: "'a token_scheme \<Rightarrow> bool" where
  "token_ok t \<longleftrightarrow> finite (holders t) \<and> (\<Sum>a \<in> holders t. tk_balances t a) = tk_totalSupply t
     \<and> tk_totalSupply t < UINT256"

lemma sum_holders:
  assumes "finite A" and "holders t \<subseteq> A"
  shows "(\<Sum>a \<in> A. tk_balances t a) = (\<Sum>a \<in> holders t. tk_balances t a)"
  using assms by (intro sum.mono_neutral_right) (auto simp: holders_def)

lemma token_okI:
  assumes "finite A" and "holders t \<subseteq> A" and "(\<Sum>a \<in> A. tk_balances t a) = tk_totalSupply t"
    and "tk_totalSupply t < UINT256"
  shows "token_ok t"
  using assms sum_holders [OF assms(1,2)] finite_subset [OF assms(2,1)] by (simp add: token_ok_def)

lemma token_okD:
  assumes "token_ok t"
  obtains A where "finite A" "holders t \<subseteq> A" "x \<in> A" "y \<in> A" "(\<Sum>a \<in> A. tk_balances t a) = tk_totalSupply t"
proof -
  let ?A = "insert x (insert y (holders t))"
  have f: "finite ?A" using assms by (simp add: token_ok_def)
  have "(\<Sum>a \<in> ?A. tk_balances t a) = tk_totalSupply t"
    using sum_holders [OF f, of t] assms by (auto simp: token_ok_def)
  with f show thesis by (intro that [of ?A]) auto
qed

lemma balance_le_supply: "token_ok t \<Longrightarrow> tk_balances t a \<le> tk_totalSupply t"
proof -
  assume "token_ok t"
  then obtain A where "finite A" "a \<in> A" "(\<Sum>a \<in> A. tk_balances t a) = tk_totalSupply t"
    by (rule token_okD [of t a a])
  then show ?thesis using member_le_sum [of a A "tk_balances t"] by simp
qed

lemma two_balances_le_supply:
  "token_ok t \<Longrightarrow> a \<noteq> b \<Longrightarrow> tk_balances t a + tk_balances t b \<le> tk_totalSupply t"
proof -
  assume ok: "token_ok t" and ne: "a \<noteq> b"
  from ok obtain A where A: "finite A" "a \<in> A" "b \<in> A" "(\<Sum>a \<in> A. tk_balances t a) = tk_totalSupply t"
    by (rule token_okD [of t a b])
  have "(\<Sum>x \<in> {a, b}. tk_balances t x) \<le> (\<Sum>x \<in> A. tk_balances t x)"
    using A by (intro sum_mono2) auto
  with A ne show ?thesis by simp
qed

text \<open>The balances after a move of \<open>v\<close>.\<close>

definition moved :: "address \<Rightarrow> address \<Rightarrow> nat \<Rightarrow> (address \<Rightarrow> nat) \<Rightarrow> address \<Rightarrow> nat" where
  "moved from to v b = (let b1 = b(from := b from - v) in b1(to := b1 to + v))"

lemma moved_apply:
  "moved from to v b a =
     (if from = to then (if a = from then b from - v + v else b a)
      else if a = from then b from - v else if a = to then b to + v else b a)"
  by (simp add: moved_def)

lemma sum_fun_upd:
  assumes "finite A" and "x \<in> A"
  shows "(\<Sum>a \<in> A. (b(x := v)) a) + b x = (\<Sum>a \<in> A. b a) + (v :: nat)"
proof -
  have "(\<Sum>a \<in> A - {x}. (b(x := v)) a) = (\<Sum>a \<in> A - {x}. b a)" by (intro sum.cong) auto
  then show ?thesis
    using sum.remove [OF assms, of "b(x := v)"] sum.remove [OF assms, of b] by simp
qed

lemma sum_moved:
  assumes "finite A" and "from \<in> A" and "to \<in> A" and "v \<le> b from"
  shows "(\<Sum>a \<in> A. moved from to v b a) = (\<Sum>a \<in> A. b a)"
proof (cases "from = to")
  case True
  with assms show ?thesis by (intro sum.cong) (auto simp: moved_apply)
next
  case False
  have split: "(\<Sum>a \<in> A. f a) = f from + (f to + (\<Sum>a \<in> A - {from} - {to}. f a))" for f :: "address \<Rightarrow> nat"
  proof -
    have "(\<Sum>a \<in> A. f a) = f from + (\<Sum>a \<in> A - {from}. f a)" using assms(1,2) by (rule sum.remove)
    moreover have "(\<Sum>a \<in> A - {from}. f a) = f to + (\<Sum>a \<in> A - {from} - {to}. f a)"
      using assms(1,3) False by (intro sum.remove) auto
    ultimately show ?thesis by simp
  qed
  have "(\<Sum>a \<in> A - {from} - {to}. moved from to v b a) = (\<Sum>a \<in> A - {from} - {to}. b a)"
    by (intro sum.cong) (auto simp: moved_apply)
  then have "(\<Sum>a \<in> A. moved from to v b a) = b from - v + (b to + v + (\<Sum>a \<in> A - {from} - {to}. b a))"
    using False by (subst split) (simp add: moved_apply)
  also have "\<dots> = (\<Sum>a \<in> A. b a)" using assms(4) by (simp add: split [of b])
  finally show ?thesis .
qed

section \<open>Effects of the operations\<close>

text \<open>The unchecked arithmetic of \<^verbatim>\<open>_update\<close> never wraps in a state that is in order.\<close>

lemma token_update_move:
  assumes ok: "token_ok t" and nz: "from \<noteq> address0" "to \<noteq> address0"
  shows "token_update from to v t = Inr t' \<longleftrightarrow>
           \<not> tk_paused t \<and> v \<le> tk_balances t from \<and> t' = t\<lparr>tk_balances := moved from to v (tk_balances t)\<rparr>"
proof -
  let ?b1 = "(tk_balances t)(from := tk_balances t from - v)"
  have lt: "?b1 to + v < UINT256" if "v \<le> tk_balances t from"
  proof (cases "from = to")
    case True
    then show ?thesis using that balance_le_supply [OF ok, of to] ok by (simp add: token_ok_def)
  next
    case False
    then show ?thesis using that two_balances_le_supply [OF ok False] ok by (simp add: token_ok_def)
  qed
  show ?thesis
    using nz lt by (auto simp: token_update_def erc20_update_def rbind_Inr_iff moved_def not_less)
qed

lemma token_update_mint:
  assumes ok: "token_ok t" and nz: "to \<noteq> address0"
  shows "token_update address0 to v t = Inr t' \<longleftrightarrow>
           \<not> tk_paused t \<and> tk_totalSupply t + v < UINT256
           \<and> t' = t\<lparr>tk_totalSupply := tk_totalSupply t + v, tk_balances := (tk_balances t)(to := tk_balances t to + v)\<rparr>"
proof -
  have "tk_balances t to + v < UINT256" if "tk_totalSupply t + v < UINT256"
    using that balance_le_supply [OF ok, of to] by simp
  then show ?thesis
    using nz by (auto simp: token_update_def erc20_update_def rbind_Inr_iff)
qed

lemma token_update_burn:
  assumes ok: "token_ok t" and nz: "from \<noteq> address0"
  shows "token_update from address0 v t = Inr t' \<longleftrightarrow>
           \<not> tk_paused t \<and> v \<le> tk_balances t from
           \<and> t' = t\<lparr>tk_totalSupply := tk_totalSupply t - v,
                    tk_balances := (tk_balances t)(from := tk_balances t from - v)\<rparr>"
proof -
  have "(UINT256 + tk_totalSupply t - v) mod UINT256 = tk_totalSupply t - v" if "v \<le> tk_balances t from"
  proof -
    have "v \<le> tk_totalSupply t" using that balance_le_supply [OF ok] by (rule le_trans)
    then have "UINT256 + tk_totalSupply t - v = (tk_totalSupply t - v) + UINT256" by simp
    moreover have "tk_totalSupply t - v < UINT256"
      using ok unfolding token_ok_def by (meson diff_le_self le_less_trans)
    ultimately show ?thesis by (simp only: mod_add_self2 mod_less)
  qed
  then show ?thesis
    using nz by (auto simp: token_update_def erc20_update_def rbind_Inr_iff not_less)
qed

lemma token_ok_move:
  assumes "token_ok t" and "v \<le> tk_balances t from"
  shows "token_ok (t\<lparr>tk_balances := moved from to v (tk_balances t)\<rparr>)"
proof -
  from assms(1) obtain A where A: "finite A" "holders t \<subseteq> A" "from \<in> A" "to \<in> A"
    "(\<Sum>a \<in> A. tk_balances t a) = tk_totalSupply t" by (rule token_okD [of t "from" to])
  show ?thesis
  proof (rule token_okI [of A])
    show "holders (t\<lparr>tk_balances := moved from to v (tk_balances t)\<rparr>) \<subseteq> A"
      using A(2-4) by (auto simp: holders_def moved_apply split: if_splits)
    show "(\<Sum>a \<in> A. tk_balances (t\<lparr>tk_balances := moved from to v (tk_balances t)\<rparr>) a)
        = tk_totalSupply (t\<lparr>tk_balances := moved from to v (tk_balances t)\<rparr>)"
      using sum_moved [where b = "tk_balances t", OF A(1,3,4) assms(2)] A(5) by simp
  qed (use A(1) assms(1) in \<open>simp_all add: token_ok_def\<close>)
qed

lemma token_ok_mint:
  assumes "token_ok t" and "tk_totalSupply t + v < UINT256"
  shows "token_ok (t\<lparr>tk_totalSupply := tk_totalSupply t + v, tk_balances := (tk_balances t)(to := tk_balances t to + v)\<rparr>)"
proof -
  from assms(1) obtain A where A: "finite A" "holders t \<subseteq> A" "to \<in> A"
    "(\<Sum>a \<in> A. tk_balances t a) = tk_totalSupply t" by (rule token_okD [of t to to])
  have "(\<Sum>a \<in> A. ((tk_balances t)(to := tk_balances t to + v)) a) = (\<Sum>a \<in> A. tk_balances t a) + v"
    using sum_fun_upd [OF A(1,3), of "tk_balances t" "tk_balances t to + v"] by simp
  with A assms show ?thesis
    by (intro token_okI [of A]) (auto simp: holders_def)
qed

lemma token_ok_burn:
  assumes "token_ok t" and "v \<le> tk_balances t from"
  shows "token_ok (t\<lparr>tk_totalSupply := tk_totalSupply t - v, tk_balances := (tk_balances t)(from := tk_balances t from - v)\<rparr>)"
proof -
  from assms(1) obtain A where A: "finite A" "holders t \<subseteq> A" "from \<in> A"
    "(\<Sum>a \<in> A. tk_balances t a) = tk_totalSupply t" by (rule token_okD [of t "from" "from"])
  have "(\<Sum>a \<in> A. ((tk_balances t)(from := tk_balances t from - v)) a) = (\<Sum>a \<in> A. tk_balances t a) - v"
    using sum_fun_upd [OF A(1,3), of "tk_balances t" "tk_balances t from - v"] assms(2) by simp
  with A assms show ?thesis
    by (intro token_okI [of A]) (auto simp: holders_def token_ok_def)
qed

lemma approve_keeps:
  "approve_internal holder spender v t = Inr t' \<Longrightarrow> tk_balances t' = tk_balances t"
  "approve_internal holder spender v t = Inr t' \<Longrightarrow> tk_totalSupply t' = tk_totalSupply t"
  "approve_internal holder spender v t = Inr t' \<Longrightarrow> tk_paused t' = tk_paused t"
  "approve_internal holder spender v t = Inr t' \<Longrightarrow> tk_roles t' = tk_roles t"
  "approve_internal holder spender v t = Inr t' \<Longrightarrow> token.more t' = token.more t"
  by (auto simp: approve_internal_def split: if_splits)

lemma spendAllowance_cases:
  assumes "spendAllowance holder spender v t = Inr t'"
  obtains "t' = t" and "UINT256 - 1 \<le> tk_allowances t holder spender"
  | "v \<le> tk_allowances t holder spender" and "approve_internal holder spender (tk_allowances t holder spender - v) t = Inr t'"
  using assms by (auto simp: spendAllowance_def Let_def split: if_splits)

lemma spendAllowance_spends:
  assumes "spendAllowance holder spender v t = Inr t'"
  shows "v \<le> tk_allowances t holder spender \<or> UINT256 - 1 \<le> tk_allowances t holder spender"
    and "tk_balances t' = tk_balances t" and "tk_totalSupply t' = tk_totalSupply t" and "tk_paused t' = tk_paused t"
    and "tk_roles t' = tk_roles t" and "token.more t' = token.more t"
  using assms by (cases rule: spendAllowance_cases, simp_all add: approve_keeps [where t = t and t' = t'])+

lemma token_ok_cong: "tk_balances t' = tk_balances t \<Longrightarrow> tk_totalSupply t' = tk_totalSupply t \<Longrightarrow> token_ok t' = token_ok t"
  by (simp add: token_ok_def holders_def)

section \<open>The interface\<close>

text \<open>What a contract that holds tokens relies on: a successful call moves exactly the amount.\<close>

locale ledger =
  fixes bal :: "'t \<Rightarrow> address \<Rightarrow> nat"
    and ok :: "'t \<Rightarrow> bool"
    and send :: "address \<Rightarrow> address \<Rightarrow> nat \<Rightarrow> 't \<Rightarrow> (revert, 't) result"
    and pull :: "address \<Rightarrow> address \<Rightarrow> address \<Rightarrow> nat \<Rightarrow> 't \<Rightarrow> (revert, 't) result"
  assumes send_moves: "ok t \<Longrightarrow> send s to v t = Inr t' \<Longrightarrow> ok t' \<and> v \<le> bal t s \<and> bal t' = moved s to v (bal t)"
    and pull_moves: "ok t \<Longrightarrow> pull s src to v t = Inr t' \<Longrightarrow> ok t' \<and> v \<le> bal t src \<and> bal t' = moved src to v (bal t)"
begin

lemma deposit:
  "ok t \<Longrightarrow> pull self src self v t = Inr t' \<Longrightarrow> src \<noteq> self \<Longrightarrow> ok t' \<and> bal t' self = bal t self + v"
  using pull_moves [of t self src self v t'] by (auto simp: moved_apply)

lemma payout:
  "ok t \<Longrightarrow> send self to v t = Inr t' \<Longrightarrow> to \<noteq> self \<Longrightarrow> ok t' \<and> v \<le> bal t self \<and> bal t' self = bal t self - v"
  using send_moves [of t self to v t'] by (auto simp: moved_apply)

text \<open>A vault's balance falls only by what is sent from it or pulled out of it.\<close>

lemma send_other: "ok t \<Longrightarrow> send s to v t = Inr t' \<Longrightarrow> s \<noteq> self \<Longrightarrow> bal t self \<le> bal t' self"
  using send_moves [of t s to v t'] by (auto simp: moved_apply)

lemma pull_other: "ok t \<Longrightarrow> pull s src to v t = Inr t' \<Longrightarrow> src \<noteq> self \<Longrightarrow> bal t self \<le> bal t' self"
  using pull_moves [of t s src to v t'] by (auto simp: moved_apply)

end

lemma transfer_internal_move:
  assumes "token_ok t" and "transfer_internal src to v t = Inr t'"
  shows "token_ok t' \<and> v \<le> tk_balances t src \<and> t' = t\<lparr>tk_balances := moved src to v (tk_balances t)\<rparr> \<and> \<not> tk_paused t"
proof -
  from assms(2) have "src \<noteq> address0" "to \<noteq> address0" "token_update src to v t = Inr t'"
    by (auto simp: transfer_internal_def split: if_splits)
  with token_update_move [OF assms(1)] token_ok_move [OF assms(1)] show ?thesis by auto
qed

lemma token_transferFrom_move:
  assumes "token_ok t" and "token_transferFrom s src to v t = Inr t'"
  shows "token_ok t' \<and> v \<le> tk_balances t src \<and> tk_balances t' = moved src to v (tk_balances t)
       \<and> tk_totalSupply t' = tk_totalSupply t \<and> token.more t' = token.more t \<and> tk_paused t' = tk_paused t
       \<and> tk_roles t' = tk_roles t"
proof -
  from assms(2) obtain t1 where t1: "spendAllowance src s v t = Inr t1" "transfer_internal src to v t1 = Inr t'"
    by (auto simp: token_transferFrom_def rbind_Inr_iff)
  note same = spendAllowance_spends [OF t1(1)]
  have "token_ok t1" using token_ok_cong [OF same(2,3)] assms(1) by simp
  from transfer_internal_move [OF this t1(2)] same show ?thesis by auto
qed

interpretation tk: ledger tk_balances token_ok token_transfer token_transferFrom
proof unfold_locales
  show "token_ok t' \<and> v \<le> tk_balances t s \<and> tk_balances t' = moved s to v (tk_balances t)"
    if "token_ok t" "token_transfer s to v t = Inr t'" for t t' :: "'a token_scheme" and s to v
    using transfer_internal_move [of t s to v t'] that by (auto simp: token_transfer_def)
  show "token_ok t' \<and> v \<le> tk_balances t src \<and> tk_balances t' = moved src to v (tk_balances t)"
    if "token_ok t" "token_transferFrom s src to v t = Inr t'" for t t' :: "'a token_scheme" and s src to v
    using token_transferFrom_move [OF that] by simp
qed

lemma token_burnFrom_effect:
  assumes "token_ok t" and "token_burnFrom s account v t = Inr t'"
  shows "token_ok t' \<and> v \<le> tk_balances t account
       \<and> tk_balances t' = (tk_balances t)(account := tk_balances t account - v)
       \<and> tk_totalSupply t' = tk_totalSupply t - v \<and> token.more t' = token.more t
       \<and> (v \<le> tk_allowances t account s \<or> UINT256 - 1 \<le> tk_allowances t account s)"
proof -
  from assms(2) obtain t1 where t1: "spendAllowance account s v t = Inr t1" "burn_internal account v t1 = Inr t'"
    by (auto simp: token_burnFrom_def rbind_Inr_iff)
  note same = spendAllowance_spends [OF t1(1)]
  have ok1: "token_ok t1" using token_ok_cong [OF same(2,3)] assms(1) by simp
  from t1(2) have "account \<noteq> address0" "token_update account address0 v t1 = Inr t'"
    by (auto simp: burn_internal_def split: if_splits)
  with token_update_burn [OF ok1] token_ok_burn [OF ok1] same show ?thesis by auto
qed

section \<open>When the operations succeed\<close>

lemma spendAllowance_succeeds:
  assumes "holder \<noteq> address0" and "spender \<noteq> address0" and "v \<le> tk_allowances t holder spender"
  shows "\<exists>t'. spendAllowance holder spender v t = Inr t'"
proof (cases "tk_allowances t holder spender < UINT256 - 1")
  case True
  then have "spendAllowance holder spender v t = approve_internal holder spender (tk_allowances t holder spender - v) t"
    using assms(3) by (simp add: spendAllowance_def)
  then show ?thesis unfolding approve_internal_def using assms(1,2) by (simp only: if_False) blast
next
  case False
  then have "spendAllowance holder spender v t = Inr t" by (simp add: spendAllowance_def)
  then show ?thesis by blast
qed

lemma token_transfer_succeeds:
  assumes "token_ok t" and "\<not> tk_paused t" and "src \<noteq> address0" and "to \<noteq> address0" and "v \<le> tk_balances t src"
  shows "\<exists>t'. token_transfer src to v t = Inr t'"
proof -
  have "token_update src to v t = Inr (t\<lparr>tk_balances := moved src to v (tk_balances t)\<rparr>)"
    unfolding token_update_move [OF assms(1,3,4)] using assms(2,5) by simp
  with assms(3,4) have "token_transfer src to v t = Inr (t\<lparr>tk_balances := moved src to v (tk_balances t)\<rparr>)"
    by (simp add: token_transfer_def transfer_internal_def)
  then show ?thesis by blast
qed

lemma token_transferFrom_succeeds:
  assumes "token_ok t" and "\<not> tk_paused t" and "src \<noteq> address0" and "to \<noteq> address0" and "s \<noteq> address0"
    and "v \<le> tk_balances t src" and "v \<le> tk_allowances t src s"
  shows "\<exists>t'. token_transferFrom s src to v t = Inr t'"
proof -
  obtain t1 where t1: "spendAllowance src s v t = Inr t1" using spendAllowance_succeeds [OF assms(3,5,7)] by blast
  note same = spendAllowance_spends [OF t1]
  have "token_ok t1" "\<not> tk_paused t1" "v \<le> tk_balances t1 src"
    using token_ok_cong [OF same(2,3)] same(2,4) assms(1,2,6) by simp_all
  then obtain t' where "token_transfer src to v t1 = Inr t'"
    using token_transfer_succeeds [OF _ _ assms(3,4)] by blast
  with t1 show ?thesis by (simp add: token_transferFrom_def token_transfer_def)
qed

lemma token_burnFrom_succeeds:
  assumes "token_ok t" and "\<not> tk_paused t" and "account \<noteq> address0" and "s \<noteq> address0"
    and "v \<le> tk_balances t account" and "v \<le> tk_allowances t account s"
  shows "\<exists>t'. token_burnFrom s account v t = Inr t'"
proof -
  obtain t1 where t1: "spendAllowance account s v t = Inr t1" using spendAllowance_succeeds [OF assms(3,4,6)] by blast
  note same = spendAllowance_spends [OF t1]
  have ok1: "token_ok t1" and "\<not> tk_paused t1" "v \<le> tk_balances t1 account"
    using token_ok_cong [OF same(2,3)] same(2,4) assms(1,2,5) by simp_all
  then have "token_update account address0 v t1 = Inr (t1\<lparr>tk_totalSupply := tk_totalSupply t1 - v,
      tk_balances := (tk_balances t1)(account := tk_balances t1 account - v)\<rparr>)"
    unfolding token_update_burn [OF ok1 assms(3)] by simp
  with assms(3) have "burn_internal account v t1 = Inr (t1\<lparr>tk_totalSupply := tk_totalSupply t1 - v,
      tk_balances := (tk_balances t1)(account := tk_balances t1 account - v)\<rparr>)" by (simp add: burn_internal_def)
  with t1 show ?thesis unfolding token_burnFrom_def by (simp only: rbind_simps) blast
qed

end
