(* ===== verification/Tokens.thy ===== *)
theory Tokens
  imports Erc20
begin

text \<open>
  The two tokens: \<^verbatim>\<open>OltinTokenV3.sol\<close> (gold, minted only against a fresh attested reserve) and
  \<^verbatim>\<open>UZD.sol\<close> (the sum stablecoin with an admin mint and burn).  Their whole external interface is
  one call type each, so that a statement about every call is a statement about every way the
  contract's state can change.
\<close>

definition MINTER_ROLE :: string where "MINTER_ROLE = ''MINTER_ROLE''"
definition BURNER_ROLE :: string where "BURNER_ROLE = ''BURNER_ROLE''"

section \<open>OLTIN\<close>

record oltin_token = token +
  ot_reserveFeed :: address
  ot_reserveDecimals :: nat
  ot_reserveScale :: nat
  ot_maxAgeReserve :: nat
  ot_transferFeeBps :: nat
  ot_feeCollector :: address

definition oltin_constructor ::
    "address \<Rightarrow> address \<Rightarrow> attestor \<Rightarrow> nat \<Rightarrow> address \<Rightarrow> (revert, oltin_token) result" where
  "oltin_constructor sender reserveFeed feed maxAgeReserve feeCollector =
     rbind (require (reserveFeed \<noteq> address0) ''Zero address'') (\<lambda>_.
     let d = nat (att_decimals feed) in
     rbind (require (d \<le> 18) ''reserve decimals>18'') (\<lambda>_.
     Inr \<lparr>tk_balances = (\<lambda>_. 0), tk_allowances = (\<lambda>_ _. 0), tk_totalSupply = 0, tk_paused = False,
          tk_roles = [(PAUSER_ROLE, sender), (DEFAULT_ADMIN_ROLE, sender)],
          ot_reserveFeed = reserveFeed, ot_reserveDecimals = d, ot_reserveScale = 10 ^ (18 - d),
          ot_maxAgeReserve = maxAgeReserve, ot_transferFeeBps = 50, ot_feeCollector = feeCollector\<rparr>))"

text \<open>A reading is fresh when it is not in the future and not older than the window.\<close>

definition fresh :: "int \<Rightarrow> nat \<Rightarrow> attestor \<Rightarrow> bool" where
  "fresh now_ts maxAge feed \<longleftrightarrow>
     rd_updatedAt (latestRoundData feed) \<le> now_ts \<and> now_ts - rd_updatedAt (latestRoundData feed) \<le> int maxAge"

definition oltin_mint ::
    "int \<Rightarrow> attestor \<Rightarrow> address \<Rightarrow> address \<Rightarrow> nat \<Rightarrow> oltin_token \<Rightarrow> (revert, oltin_token) result" where
  "oltin_mint now_ts feed sender to amount t =
     rbind (onlyRole MINTER_ROLE sender t) (\<lambda>_.
     rbind (whenNotPaused t) (\<lambda>_.
     rbind (require (to \<noteq> address0) ''Zero address'') (\<lambda>_.
     rbind (require (amount > 0) ''Zero amount'') (\<lambda>_.
     let r = rd_answer (latestRoundData feed) in
     rbind (require (r > 0) ''reserve<=0'') (\<lambda>_.
     rbind (require (fresh now_ts (ot_maxAgeReserve t) feed) ''reserve stale'') (\<lambda>_.
     rbind (checked (tk_totalSupply t + amount)) (\<lambda>supply.
     rbind (checked (nat r * ot_reserveScale t)) (\<lambda>cap.
     rbind (require (supply \<le> cap) ''exceeds reserve'') (\<lambda>_.
     mint_internal to amount t)))))))))"

definition oltin_setFeeConfig :: "address \<Rightarrow> nat \<Rightarrow> address \<Rightarrow> oltin_token \<Rightarrow> (revert, oltin_token) result" where
  "oltin_setFeeConfig sender feeBps collector t =
     rbind (onlyRole DEFAULT_ADMIN_ROLE sender t) (\<lambda>_.
     rbind (require (feeBps \<le> 500) ''Fee max 5%'') (\<lambda>_.
     Inr (t\<lparr>ot_transferFeeBps := feeBps, ot_feeCollector := collector\<rparr>)))"

datatype token_call =
    Transfer address nat
  | TransferFrom address address nat
  | Approve address nat
  | Burn nat
  | BurnFrom address nat
  | Pause
  | Unpause
  | GrantRole string address
  | RevokeRole string address
  | RenounceRole string address

fun token_exec :: "token_call \<Rightarrow> address \<Rightarrow> 'a token_scheme \<Rightarrow> (revert, 'a token_scheme) result" where
  "token_exec (Transfer to v) s t = token_transfer s to v t"
| "token_exec (TransferFrom src to v) s t = token_transferFrom s src to v t"
| "token_exec (Approve sp v) s t = token_approve s sp v t"
| "token_exec (Burn v) s t = token_burn s v t"
| "token_exec (BurnFrom a v) s t = token_burnFrom s a v t"
| "token_exec Pause s t = token_pause s t"
| "token_exec Unpause s t = token_unpause s t"
| "token_exec (GrantRole r a) s t = grantRole s r a t"
| "token_exec (RevokeRole r a) s t = revokeRole s r a t"
| "token_exec (RenounceRole r a) s t = renounceRole s r a t"

datatype oltin_call = Inherited token_call | Mint address nat | SetFeeConfig nat address

fun oltin_exec :: "int \<Rightarrow> attestor \<Rightarrow> oltin_call \<Rightarrow> address \<Rightarrow> oltin_token \<Rightarrow> (revert, oltin_token) result" where
  "oltin_exec now_ts feed (Inherited c) s t = token_exec c s t"
| "oltin_exec now_ts feed (Mint to v) s t = oltin_mint now_ts feed s to v t"
| "oltin_exec now_ts feed (SetFeeConfig b c) s t = oltin_setFeeConfig s b c t"

section \<open>UZD\<close>

definition uzd_constructor :: "address \<Rightarrow> token" where
  "uzd_constructor sender =
     \<lparr>tk_balances = (\<lambda>_. 0), tk_allowances = (\<lambda>_ _. 0), tk_totalSupply = 0, tk_paused = False,
      tk_roles = [(PAUSER_ROLE, sender), (BURNER_ROLE, sender), (MINTER_ROLE, sender), (DEFAULT_ADMIN_ROLE, sender)]\<rparr>"

definition uzd_mint :: "address \<Rightarrow> address \<Rightarrow> nat \<Rightarrow> token \<Rightarrow> (revert, token) result" where
  "uzd_mint sender to amount t =
     rbind (onlyRole MINTER_ROLE sender t) (\<lambda>_.
     rbind (whenNotPaused t) (\<lambda>_.
     rbind (require (to \<noteq> address0) ''Zero address'') (\<lambda>_.
     rbind (require (amount > 0) ''Zero amount'') (\<lambda>_.
     mint_internal to amount t))))"

definition uzd_adminBurn :: "address \<Rightarrow> address \<Rightarrow> nat \<Rightarrow> token \<Rightarrow> (revert, token) result" where
  "uzd_adminBurn sender src amount t =
     rbind (onlyRole BURNER_ROLE sender t) (\<lambda>_.
     rbind (whenNotPaused t) (\<lambda>_.
     rbind (require (src \<noteq> address0) ''Zero address'') (\<lambda>_.
     rbind (require (amount > 0) ''Zero amount'') (\<lambda>_.
     burn_internal src amount t))))"

datatype uzd_call = UzdInherited token_call | UzdMint address nat | UzdAdminBurn address nat

fun uzd_exec :: "uzd_call \<Rightarrow> address \<Rightarrow> token \<Rightarrow> (revert, token) result" where
  "uzd_exec (UzdInherited c) s t = token_exec c s t"
| "uzd_exec (UzdMint to v) s t = uzd_mint s to v t"
| "uzd_exec (UzdAdminBurn a v) s t = uzd_adminBurn s a v t"

section \<open>Properties\<close>

lemma mint_internal_effect:
  assumes "token_ok t" and "mint_internal to v t = Inr t'"
  shows "token_ok t' \<and> \<not> tk_paused t
       \<and> t' = t\<lparr>tk_totalSupply := tk_totalSupply t + v, tk_balances := (tk_balances t)(to := tk_balances t to + v)\<rparr>"
proof -
  from assms(2) have "to \<noteq> address0" "token_update address0 to v t = Inr t'"
    by (auto simp: mint_internal_def split: if_splits)
  with token_update_mint [OF assms(1)] token_ok_mint [OF assms(1)] show ?thesis by auto
qed

lemma burn_internal_effect:
  assumes "token_ok t" and "burn_internal src v t = Inr t'"
  shows "token_ok t' \<and> v \<le> tk_balances t src
       \<and> t' = t\<lparr>tk_totalSupply := tk_totalSupply t - v, tk_balances := (tk_balances t)(src := tk_balances t src - v)\<rparr>"
proof -
  from assms(2) have "src \<noteq> address0" "token_update src address0 v t = Inr t'"
    by (auto simp: burn_internal_def split: if_splits)
  with token_update_burn [OF assms(1)] token_ok_burn [OF assms(1)] show ?thesis by auto
qed

text \<open>The minting guard, as one condition.\<close>

lemma oltin_mint_guard:
  assumes "oltin_mint now_ts feed sender to amount t = Inr t'"
  shows "hasRole MINTER_ROLE sender t \<and> amount > 0 \<and> 0 < rd_answer (latestRoundData feed)
       \<and> fresh now_ts (ot_maxAgeReserve t) feed
       \<and> tk_totalSupply t + amount \<le> nat (rd_answer (latestRoundData feed)) * ot_reserveScale t
       \<and> mint_internal to amount t = Inr t'"
  using assms unfolding oltin_mint_def Let_def guard_binds by blast

text \<open>The effect of the inherited calls on one holder and on the supply.\<close>

definition may_spend :: "address \<Rightarrow> address \<Rightarrow> nat \<Rightarrow> 'a token_scheme \<Rightarrow> bool" where
  "may_spend s a v t \<longleftrightarrow> s = a \<or> v \<le> tk_allowances t a s \<or> UINT256 - 1 \<le> tk_allowances t a s"

lemma may_spendI:
  assumes "tk_balances t a - tk_balances t' a \<le> (if a = src then v else 0)"
    and "s = src \<or> v \<le> tk_allowances t src s \<or> UINT256 - 1 \<le> tk_allowances t src s"
  shows "may_spend s a (tk_balances t a - tk_balances t' a) t"
  using assms by (auto simp: may_spend_def split: if_splits)

lemma moved_drop: "b a - moved src to v b a \<le> (if a = src then v else 0)"
  by (cases "a = src"; cases "src = to"; cases "a = to") (simp_all add: moved_apply)

lemma burned_drop: "b a - (b(src := b src - v)) a \<le> (if a = src then v else (0 :: nat))"
  by (cases "a = src") simp_all

lemma token_exec_effect:
  assumes ok: "token_ok t" and run: "token_exec c s t = Inr t'"
  shows "token_ok t' \<and> tk_totalSupply t' \<le> tk_totalSupply t
       \<and> may_spend s a (tk_balances t a - tk_balances t' a) t"
proof (cases c)
  case (Transfer to v)
  with run have "transfer_internal s to v t = Inr t'" by (simp add: token_transfer_def)
  note eff = transfer_internal_move [OF ok this]
  then have "token_ok t'" "tk_totalSupply t' = tk_totalSupply t" "tk_balances t' = moved s to v (tk_balances t)"
    using eff by (blast, simp, simp)
  with may_spendI [of t a t' s v s] moved_drop show ?thesis by simp
next
  case (TransferFrom src to v)
  with run have tf: "token_transferFrom s src to v t = Inr t'" by simp
  then obtain t1 where "spendAllowance src s v t = Inr t1"
    by (auto simp: token_transferFrom_def rbind_Inr_iff)
  from spendAllowance_spends(1) [OF this] token_transferFrom_move [OF ok tf]
  show ?thesis using may_spendI [of t a t' src v s] moved_drop by simp
next
  case (Burn v)
  with run have "burn_internal s v t = Inr t'" by (simp add: token_burn_def)
  note eff = burn_internal_effect [OF ok this]
  then have "token_ok t'" "tk_totalSupply t' \<le> tk_totalSupply t"
    "tk_balances t' = (tk_balances t)(s := tk_balances t s - v)"
    using eff by (blast, simp, simp)
  with may_spendI [of t a t' s v s] burned_drop [of "tk_balances t" a s v] show ?thesis by (simp only: simp_thms)
next
  case (BurnFrom b v)
  with run have "token_burnFrom s b v t = Inr t'" by simp
  from token_burnFrom_effect [OF ok this] have "token_ok t'" "tk_totalSupply t' \<le> tk_totalSupply t"
    "tk_balances t' = (tk_balances t)(b := tk_balances t b - v)"
    "v \<le> tk_allowances t b s \<or> UINT256 - 1 \<le> tk_allowances t b s" by simp_all
  with may_spendI [of t a t' b v s] burned_drop [of "tk_balances t" a b v] show ?thesis by (simp only: simp_thms)
next
  case (Approve sp v)
  with run have r: "approve_internal s sp v t = Inr t'" by (simp add: token_approve_def)
  then show ?thesis
    using ok token_ok_cong [OF approve_keeps(1) [OF r] approve_keeps(2) [OF r]] approve_keeps(1,2) [OF r]
    by (simp add: may_spend_def)
qed (use assms in \<open>auto simp: token_pause_def token_unpause_def grantRole_def revokeRole_def renounceRole_def
    grantRole_internal_def revokeRole_internal_def rbind_Inr_iff may_spend_def token_ok_def holders_def
    split: if_splits\<close>)

text \<open>
  C1.  OLTIN grows only against a fresh, positive, sufficient attested reserve, and only by the
  minter's hand: for every external call, in every state whose balances add up to the supply, the
  balances still add up afterwards, and the supply is not larger than before unless the call was a
  mint by a holder of the minter role at a time when the reserve reading was positive and within
  its age window and covers the whole new supply at the token's scale.
\<close>

theorem supply_grows_only_against_reserve:
  assumes "token_ok t" and "oltin_exec now_ts feed c s t = Inr t'"
  shows "token_ok t' \<and>
     (tk_totalSupply t < tk_totalSupply t' \<longrightarrow>
        (\<exists>to v. c = Mint to v) \<and> hasRole MINTER_ROLE s t
        \<and> 0 < rd_answer (latestRoundData feed) \<and> fresh now_ts (ot_maxAgeReserve t) feed
        \<and> tk_totalSupply t' \<le> nat (rd_answer (latestRoundData feed)) * ot_reserveScale t)"
proof (cases c)
  case (Inherited tc)
  with assms show ?thesis using token_exec_effect [of t tc s t'] by auto
next
  case (Mint to v)
  with assms(2) have m: "oltin_mint now_ts feed s to v t = Inr t'" by simp
  from oltin_mint_guard [OF m] mint_internal_effect [OF assms(1)] Mint show ?thesis by fastforce
next
  case (SetFeeConfig b d)
  with assms show ?thesis by (auto simp: oltin_setFeeConfig_def rbind_Inr_iff token_ok_def holders_def)
qed

definition sample_feed :: attestor where
  "sample_feed = (attestor_constructor ''bank'' 0)\<lparr>att_answer := 5, att_updatedAt := 100, att_roundId := 1\<rparr>"

definition sample_oltin :: oltin_token where
  "sample_oltin = \<lparr>tk_balances = (\<lambda>_. 0), tk_allowances = (\<lambda>_ _. 0), tk_totalSupply = 0, tk_paused = False,
     tk_roles = [(MINTER_ROLE, ''exchange'')], ot_reserveFeed = ''feed'', ot_reserveDecimals = 0,
     ot_reserveScale = 10 ^ 18, ot_maxAgeReserve = 3600, ot_transferFeeBps = 50, ot_feeCollector = ''x''\<rparr>"

lemma sample_oltin_ok: "token_ok sample_oltin"
  by (simp add: token_ok_def holders_def sample_oltin_def)

lemma not_address0: "hd a \<noteq> CHR ''0'' \<Longrightarrow> a \<noteq> address0"
  by (auto simp: address0_def)

theorem supply_grows_only_against_reserve_witness:
  "\<exists>t'. oltin_exec 200 sample_feed (Mint ''user'' 7) ''exchange'' sample_oltin = Inr t'
     \<and> tk_totalSupply t' = 7 \<and> tk_totalSupply t' \<le> nat (rd_answer (latestRoundData sample_feed)) * 10 ^ 18"
proof -
  have nz: "''user'' \<noteq> address0" by (rule not_address0) simp
  have big: "7 < UINT256" "5 * 10 ^ 18 < UINT256" by (simp_all add: UINT256_def)
  obtain t' where run: "oltin_exec 200 sample_feed (Mint ''user'' 7) ''exchange'' sample_oltin = Inr t'"
    and sup: "tk_totalSupply t' = 7"
    using nz big by (simp add: oltin_mint_def sample_oltin_def sample_feed_def attestor_constructor_def latestRoundData_def
        hasRole_def onlyRole_def whenNotPaused_def require_def checked_def fresh_def mint_internal_def
        token_update_def erc20_update_def)
  have "tk_totalSupply sample_oltin < tk_totalSupply t'" using sup by (simp add: sample_oltin_def)
  with supply_grows_only_against_reserve [OF sample_oltin_ok run] run sup show ?thesis
    by (simp add: sample_oltin_def)
qed

text \<open>
  C6.  OLTIN is non-custodial: whatever call is made on the token by whatever sender, a holder's
  balance falls only if the sender is that holder, or is someone to whom the holder had granted an
  allowance of at least the amount that left.  No role changes this.
\<close>

theorem oltin_is_non_custodial:
  assumes "token_ok t" and "oltin_exec now_ts feed c s t = Inr t'" and "tk_balances t' a < tk_balances t a"
  shows "s = a \<or> tk_balances t a - tk_balances t' a \<le> tk_allowances t a s \<or> UINT256 - 1 \<le> tk_allowances t a s"
proof (cases c)
  case (Inherited tc)
  with assms show ?thesis using token_exec_effect [of t tc s t' a] by (auto simp: may_spend_def)
next
  case (Mint to v)
  with assms(2) have m: "oltin_mint now_ts feed s to v t = Inr t'" by simp
  from oltin_mint_guard [OF m] mint_internal_effect [OF assms(1)] have
    "tk_balances t' = (tk_balances t)(to := tk_balances t to + v)" by fastforce
  with assms(3) show ?thesis by (auto split: if_splits)
next
  case (SetFeeConfig b d)
  with assms show ?thesis by (auto simp: oltin_setFeeConfig_def rbind_Inr_iff)
qed

definition holding_oltin :: oltin_token where
  "holding_oltin = sample_oltin\<lparr>tk_balances := (\<lambda>_. 0)(''user'' := 7), tk_totalSupply := 7\<rparr>"

lemma holding_oltin_ok: "token_ok holding_oltin"
proof -
  have h: "holders holding_oltin = {''user''}" by (auto simp: holders_def holding_oltin_def)
  show ?thesis by (simp add: token_ok_def h) (simp add: holding_oltin_def UINT256_def)
qed

theorem oltin_is_non_custodial_witness:
  "\<exists>t'. oltin_exec 0 sample_feed (Inherited (Transfer ''friend'' 3)) ''user'' holding_oltin = Inr t'
     \<and> tk_balances t' ''user'' = 4"
proof -
  have nz: "''user'' \<noteq> address0" "''friend'' \<noteq> address0" by (rule not_address0, simp)+
  obtain t' where run: "oltin_exec 0 sample_feed (Inherited (Transfer ''friend'' 3)) ''user'' holding_oltin = Inr t'"
    and bal: "tk_balances t' ''user'' = 4"
    using nz by (simp add: token_transfer_def transfer_internal_def token_update_def erc20_update_def whenNotPaused_def
        holding_oltin_def sample_oltin_def)
  have "tk_balances t' ''user'' < tk_balances holding_oltin ''user''" using bal by (simp add: holding_oltin_def)
  from oltin_is_non_custodial [OF holding_oltin_ok run this] run bal show ?thesis by blast
qed

text \<open>UZD, by contrast, can be taken: the burner role burns from any holder without an allowance.\<close>

lemma uzd_admin_can_burn:
  assumes "token_ok t" and "hasRole BURNER_ROLE s t" and "\<not> tk_paused t" and "a \<noteq> address0"
    and "0 < v" and "v \<le> tk_balances t a"
  shows "\<exists>t'. uzd_exec (UzdAdminBurn a v) s t = Inr t' \<and> tk_balances t' a = tk_balances t a - v"
  using assms token_update_burn [OF assms(1,4), of v]
  by (auto simp: uzd_adminBurn_def burn_internal_def rbind_Inr_iff)

end
