(* ===== verification/ExchangeContract.thy ===== *)
theory ExchangeContract
  imports Tokens
begin

text \<open>
  The on-chain exchange \<^verbatim>\<open>Exchange.sol\<close>: it mints OLTIN against UZD and redeems OLTIN for UZD at
  the attested gold price, and is itself the UZD treasury.  A call acts on both tokens and reads
  the three feeds.  OpenZeppelin's \<^verbatim>\<open>Math.mulDiv\<close> is an argument whose documented result is the
  hypothesis \<open>mulDiv_spec\<close>.  Neither token calls back into the exchange, so a call is one step and
  the reentrancy lock is always free when it starts.
\<close>

definition mulDiv_spec :: "(nat \<Rightarrow> nat \<Rightarrow> nat \<Rightarrow> nat option) \<Rightarrow> bool" where
  "mulDiv_spec mulDiv \<longleftrightarrow>
     (\<forall>x y d. mulDiv x y d = (if d \<noteq> 0 \<and> x * y div d < UINT256 then Some (x * y div d) else None))"

record exchange =
  ex_address :: address
  ex_maxAgeXau :: nat
  ex_maxAgeUzs :: nat

record market =
  mk_oltin :: oltin_token
  mk_uzd :: token
  mk_reserve :: attestor
  mk_xau :: attestor
  mk_uzs :: attestor

definition GRAMS_PER_OZ_1E8 :: nat where "GRAMS_PER_OZ_1E8 = 3110347680"

text \<open>
  The constructor's checks.  Which tokens and feeds the addresses stand for is kept beside the record,
  by the market here and by the chain of the deployment scripts.
\<close>

definition exchange_constructor ::
    "address \<Rightarrow> address \<Rightarrow> address \<Rightarrow> address \<Rightarrow> address \<Rightarrow> nat \<Rightarrow> nat \<Rightarrow> (revert, exchange) result" where
  "exchange_constructor this oltin uzd xauFeed uzsFeed maxAgeXau maxAgeUzs =
     rbind (require (oltin \<noteq> address0 \<and> uzd \<noteq> address0 \<and> xauFeed \<noteq> address0 \<and> uzsFeed \<noteq> address0) ''Zero address'')
       (\<lambda>_. Inr \<lparr>ex_address = this, ex_maxAgeXau = maxAgeXau, ex_maxAgeUzs = maxAgeUzs\<rparr>)"

definition treasuryBalance :: "exchange \<Rightarrow> market \<Rightarrow> nat" where
  "treasuryBalance X mk = tk_balances (mk_uzd mk) (ex_address X)"

definition freshPrice :: "int \<Rightarrow> nat \<Rightarrow> attestor \<Rightarrow> (revert, nat) result" where
  "freshPrice now_ts maxAge feed =
     rbind (require (rd_answer (latestRoundData feed) > 0 \<and> fresh now_ts maxAge feed) ''price stale'')
       (\<lambda>_. Inr (nat (rd_answer (latestRoundData feed))))"

definition mulDiv_call :: "(nat \<Rightarrow> nat \<Rightarrow> nat \<Rightarrow> nat option) \<Rightarrow> nat \<Rightarrow> nat \<Rightarrow> nat \<Rightarrow> (revert, nat) result" where
  "mulDiv_call mulDiv x y d = (case mulDiv x y d of None \<Rightarrow> Inl Panic | Some v \<Rightarrow> Inr v)"

definition buy ::
    "(nat \<Rightarrow> nat \<Rightarrow> nat \<Rightarrow> nat option) \<Rightarrow> exchange \<Rightarrow> int \<Rightarrow> address \<Rightarrow> nat \<Rightarrow> nat \<Rightarrow> market \<Rightarrow> (revert, nat \<times> market) result" where
  "buy mulDiv X now_ts sender uzdInWei minOltinOut mk =
     rbind (require (uzdInWei > 0) ''Zero amount'') (\<lambda>_.
     rbind (freshPrice now_ts (ex_maxAgeXau X) (mk_xau mk)) (\<lambda>xauAns.
     rbind (freshPrice now_ts (ex_maxAgeUzs X) (mk_uzs mk)) (\<lambda>uzsAns.
     rbind (checked (uzsAns * GRAMS_PER_OZ_1E8)) (\<lambda>num.
     rbind (checked (10 ^ 8 * xauAns)) (\<lambda>den.
     rbind (mulDiv_call mulDiv uzdInWei num den) (\<lambda>oltinOutWei.
     rbind (require (oltinOutWei \<ge> minOltinOut \<and> minOltinOut > 0) ''dust'') (\<lambda>_.
     rbind (token_transferFrom (ex_address X) sender (ex_address X) uzdInWei (mk_uzd mk)) (\<lambda>uzd'.
     rbind (oltin_mint now_ts (mk_reserve mk) (ex_address X) sender oltinOutWei (mk_oltin mk)) (\<lambda>oltin'.
     Inr (oltinOutWei, mk\<lparr>mk_uzd := uzd', mk_oltin := oltin'\<rparr>))))))))))"

definition sell ::
    "(nat \<Rightarrow> nat \<Rightarrow> nat \<Rightarrow> nat option) \<Rightarrow> exchange \<Rightarrow> int \<Rightarrow> address \<Rightarrow> nat \<Rightarrow> nat \<Rightarrow> market \<Rightarrow> (revert, nat \<times> market) result" where
  "sell mulDiv X now_ts sender oltinInWei minUzdOut mk =
     rbind (require (oltinInWei > 0) ''Zero amount'') (\<lambda>_.
     rbind (freshPrice now_ts (ex_maxAgeXau X) (mk_xau mk)) (\<lambda>xauAns.
     rbind (freshPrice now_ts (ex_maxAgeUzs X) (mk_uzs mk)) (\<lambda>uzsAns.
     rbind (checked (xauAns * 10 ^ 8)) (\<lambda>num.
     rbind (checked (GRAMS_PER_OZ_1E8 * uzsAns)) (\<lambda>den.
     rbind (mulDiv_call mulDiv oltinInWei num den) (\<lambda>uzdOutWei.
     rbind (require (uzdOutWei \<ge> minUzdOut) ''slippage'') (\<lambda>_.
     rbind (require (treasuryBalance X mk \<ge> uzdOutWei) ''treasury empty'') (\<lambda>_.
     rbind (token_burnFrom (ex_address X) sender oltinInWei (mk_oltin mk)) (\<lambda>oltin'.
     rbind (token_transfer (ex_address X) sender uzdOutWei (mk_uzd mk)) (\<lambda>uzd'.
     Inr (uzdOutWei, mk\<lparr>mk_uzd := uzd', mk_oltin := oltin'\<rparr>)))))))))))"

section \<open>Prices\<close>

definition oltin_out :: "nat \<Rightarrow> nat \<Rightarrow> nat \<Rightarrow> nat" where
  "oltin_out xau uzs uzdIn = uzdIn * (uzs * GRAMS_PER_OZ_1E8) div (10 ^ 8 * xau)"

definition uzd_out :: "nat \<Rightarrow> nat \<Rightarrow> nat \<Rightarrow> nat" where
  "uzd_out xau uzs oltinIn = oltinIn * (xau * 10 ^ 8) div (GRAMS_PER_OZ_1E8 * uzs)"

lemma floor_roundtrip: "(x * n div d) * d div n \<le> (x :: nat)" if "0 < n"
proof -
  have "(x * n div d) * d \<le> x * n" by (rule div_times_less_eq_dividend)
  then have "(x * n div d) * d div n \<le> x * n div n" by (rule div_le_mono)
  with that show ?thesis by simp
qed

lemma uzd_roundtrip: "0 < uzs \<Longrightarrow> uzd_out xau uzs (oltin_out xau uzs x) \<le> x"
  using floor_roundtrip [of "uzs * GRAMS_PER_OZ_1E8" x "10 ^ 8 * xau"]
  by (simp add: uzd_out_def oltin_out_def GRAMS_PER_OZ_1E8_def mult.commute)

lemma oltin_roundtrip: "0 < xau \<Longrightarrow> oltin_out xau uzs (uzd_out xau uzs x) \<le> x"
  using floor_roundtrip [of "xau * 10 ^ 8" x "GRAMS_PER_OZ_1E8 * uzs"]
  by (simp add: uzd_out_def oltin_out_def mult.commute)

section \<open>Effects\<close>

abbreviation price :: "attestor \<Rightarrow> nat" where
  "price feed \<equiv> nat (rd_answer (latestRoundData feed))"

lemma freshPrice_Inr_iff:
  "freshPrice now_ts maxAge feed = Inr p \<longleftrightarrow>
     0 < rd_answer (latestRoundData feed) \<and> fresh now_ts maxAge feed \<and> p = price feed"
  by (auto simp: freshPrice_def guard_binds)

lemma mulDiv_call_Inr:
  "mulDiv_spec mulDiv \<Longrightarrow> mulDiv_call mulDiv x y d = Inr v \<Longrightarrow> v = x * y div d \<and> v < UINT256 \<and> d \<noteq> 0"
  unfolding mulDiv_spec_def mulDiv_call_def by (auto split: if_splits option.splits)

definition market_ok :: "market \<Rightarrow> bool" where
  "market_ok mk \<longleftrightarrow> token_ok (mk_oltin mk) \<and> token_ok (mk_uzd mk)"

text \<open>What a purchase that goes through did.\<close>

lemma buy_effect:
  assumes "mulDiv_spec mulDiv" and "market_ok mk" and "sender \<noteq> ex_address X"
    and run: "buy mulDiv X now_ts sender uzdIn minOut mk = Inr (out, mk')"
  shows "out = oltin_out (price (mk_xau mk)) (price (mk_uzs mk)) uzdIn" and "minOut \<le> out" and "0 < minOut"
    and "0 < price (mk_xau mk)" and "0 < price (mk_uzs mk)"
    and "fresh now_ts (ex_maxAgeXau X) (mk_xau mk)" and "fresh now_ts (ex_maxAgeUzs X) (mk_uzs mk)"
    and "uzdIn \<le> tk_balances (mk_uzd mk) sender"
    and "tk_balances (mk_uzd mk') = moved sender (ex_address X) uzdIn (tk_balances (mk_uzd mk))"
    and "tk_balances (mk_oltin mk') = (tk_balances (mk_oltin mk))(sender := tk_balances (mk_oltin mk) sender + out)"
    and "tk_totalSupply (mk_oltin mk') = tk_totalSupply (mk_oltin mk) + out"
    and "tk_totalSupply (mk_oltin mk') \<le> price (mk_reserve mk) * ot_reserveScale (mk_oltin mk)"
    and "market_ok mk'" and "mk_xau mk' = mk_xau mk" and "mk_uzs mk' = mk_uzs mk"
    and "tk_paused (mk_uzd mk') = tk_paused (mk_uzd mk)" and "tk_paused (mk_oltin mk') = tk_paused (mk_oltin mk)"
    and "tk_allowances (mk_oltin mk') = tk_allowances (mk_oltin mk)"
proof -
  from run obtain xau uzs uzd' oltin' where
    xau: "freshPrice now_ts (ex_maxAgeXau X) (mk_xau mk) = Inr xau"
    and uzs: "freshPrice now_ts (ex_maxAgeUzs X) (mk_uzs mk) = Inr uzs"
    and out: "mulDiv_call mulDiv uzdIn (uzs * GRAMS_PER_OZ_1E8) (10 ^ 8 * xau) = Inr out"
    and mn: "minOut \<le> out" "0 < minOut"
    and tf: "token_transferFrom (ex_address X) sender (ex_address X) uzdIn (mk_uzd mk) = Inr uzd'"
    and mint: "oltin_mint now_ts (mk_reserve mk) (ex_address X) sender out (mk_oltin mk) = Inr oltin'"
    and mk': "mk' = mk\<lparr>mk_uzd := uzd', mk_oltin := oltin'\<rparr>"
    unfolding buy_def guard_binds rbind_Inr_iff by auto
  note p = xau [unfolded freshPrice_Inr_iff] uzs [unfolded freshPrice_Inr_iff]
  from p mn show "minOut \<le> out" "0 < minOut" "0 < price (mk_xau mk)" "0 < price (mk_uzs mk)"
    "fresh now_ts (ex_maxAgeXau X) (mk_xau mk)" "fresh now_ts (ex_maxAgeUzs X) (mk_uzs mk)" by simp_all
  show "out = oltin_out (price (mk_xau mk)) (price (mk_uzs mk)) uzdIn"
    using mulDiv_call_Inr [OF assms(1) out] p by (simp add: oltin_out_def)
  have okU: "token_ok (mk_uzd mk)" and okO: "token_ok (mk_oltin mk)" using assms(2) by (simp_all add: market_ok_def)
  note U = token_transferFrom_move [OF okU tf]
  note G = oltin_mint_guard [OF mint]
  note M = mint_internal_effect [OF okO G [THEN conjunct2, THEN conjunct2, THEN conjunct2, THEN conjunct2, THEN conjunct2]]
  show "uzdIn \<le> tk_balances (mk_uzd mk) sender"
    "tk_balances (mk_uzd mk') = moved sender (ex_address X) uzdIn (tk_balances (mk_uzd mk))" using U mk' by simp_all
  have eqs: "tk_balances oltin' = (tk_balances (mk_oltin mk))(sender := tk_balances (mk_oltin mk) sender + out)"
    "tk_totalSupply oltin' = tk_totalSupply (mk_oltin mk) + out"
    "tk_paused oltin' = tk_paused (mk_oltin mk)" "tk_allowances oltin' = tk_allowances (mk_oltin mk)" using M by simp_all
  then show "tk_balances (mk_oltin mk') = (tk_balances (mk_oltin mk))(sender := tk_balances (mk_oltin mk) sender + out)"
    "tk_totalSupply (mk_oltin mk') = tk_totalSupply (mk_oltin mk) + out"
    "tk_totalSupply (mk_oltin mk') \<le> price (mk_reserve mk) * ot_reserveScale (mk_oltin mk)"
    "tk_paused (mk_oltin mk') = tk_paused (mk_oltin mk)" "tk_allowances (mk_oltin mk') = tk_allowances (mk_oltin mk)"
    using G mk' by simp_all
  show "tk_paused (mk_uzd mk') = tk_paused (mk_uzd mk)" using U mk' by simp
  have "token_ok oltin'" "token_ok uzd'" using M U by blast+
  then show "market_ok mk'" by (simp add: mk' market_ok_def)
  show "mk_xau mk' = mk_xau mk" "mk_uzs mk' = mk_uzs mk" by (simp_all add: mk')
qed

text \<open>What a sale that goes through did.\<close>

lemma sell_effect:
  assumes "mulDiv_spec mulDiv" and "market_ok mk" and "sender \<noteq> ex_address X"
    and run: "sell mulDiv X now_ts sender oltinIn minOut mk = Inr (out, mk')"
  shows "out = uzd_out (price (mk_xau mk)) (price (mk_uzs mk)) oltinIn" and "minOut \<le> out"
    and "0 < price (mk_xau mk)" and "0 < price (mk_uzs mk)"
    and "fresh now_ts (ex_maxAgeXau X) (mk_xau mk)" and "fresh now_ts (ex_maxAgeUzs X) (mk_uzs mk)"
    and "out \<le> treasuryBalance X mk" and "oltinIn \<le> tk_balances (mk_oltin mk) sender"
    and "oltinIn \<le> tk_allowances (mk_oltin mk) sender (ex_address X) \<or> UINT256 - 1 \<le> tk_allowances (mk_oltin mk) sender (ex_address X)"
    and "tk_balances (mk_uzd mk') = moved (ex_address X) sender out (tk_balances (mk_uzd mk))"
    and "tk_balances (mk_oltin mk') = (tk_balances (mk_oltin mk))(sender := tk_balances (mk_oltin mk) sender - oltinIn)"
    and "tk_totalSupply (mk_oltin mk') = tk_totalSupply (mk_oltin mk) - oltinIn"
    and "market_ok mk'" and "mk_xau mk' = mk_xau mk" and "mk_uzs mk' = mk_uzs mk"
proof -
  from run obtain xau uzs uzd' oltin' where
    xau: "freshPrice now_ts (ex_maxAgeXau X) (mk_xau mk) = Inr xau"
    and uzs: "freshPrice now_ts (ex_maxAgeUzs X) (mk_uzs mk) = Inr uzs"
    and out: "mulDiv_call mulDiv oltinIn (xau * 10 ^ 8) (GRAMS_PER_OZ_1E8 * uzs) = Inr out"
    and mn: "minOut \<le> out" "out \<le> treasuryBalance X mk"
    and bf: "token_burnFrom (ex_address X) sender oltinIn (mk_oltin mk) = Inr oltin'"
    and tr: "token_transfer (ex_address X) sender out (mk_uzd mk) = Inr uzd'"
    and mk': "mk' = mk\<lparr>mk_uzd := uzd', mk_oltin := oltin'\<rparr>"
    unfolding sell_def guard_binds rbind_Inr_iff by auto
  note p = xau [unfolded freshPrice_Inr_iff] uzs [unfolded freshPrice_Inr_iff]
  from p mn show "minOut \<le> out" "out \<le> treasuryBalance X mk" "0 < price (mk_xau mk)" "0 < price (mk_uzs mk)"
    "fresh now_ts (ex_maxAgeXau X) (mk_xau mk)" "fresh now_ts (ex_maxAgeUzs X) (mk_uzs mk)" by simp_all
  show "out = uzd_out (price (mk_xau mk)) (price (mk_uzs mk)) oltinIn"
    using mulDiv_call_Inr [OF assms(1) out] p by (simp add: uzd_out_def)
  have okU: "token_ok (mk_uzd mk)" and okO: "token_ok (mk_oltin mk)" using assms(2) by (simp_all add: market_ok_def)
  note U = tk.send_moves [OF okU tr] and B = token_burnFrom_effect [OF okO bf]
  show "oltinIn \<le> tk_balances (mk_oltin mk) sender"
    "oltinIn \<le> tk_allowances (mk_oltin mk) sender (ex_address X) \<or> UINT256 - 1 \<le> tk_allowances (mk_oltin mk) sender (ex_address X)"
    using B by simp_all
  show "tk_balances (mk_uzd mk') = moved (ex_address X) sender out (tk_balances (mk_uzd mk))" using U mk' by simp
  show "tk_balances (mk_oltin mk') = (tk_balances (mk_oltin mk))(sender := tk_balances (mk_oltin mk) sender - oltinIn)"
    "tk_totalSupply (mk_oltin mk') = tk_totalSupply (mk_oltin mk) - oltinIn" using B mk' by simp_all
  have "token_ok oltin'" "token_ok uzd'" using B U by blast+
  then show "market_ok mk'" by (simp add: mk' market_ok_def)
  show "mk_xau mk' = mk_xau mk" "mk_uzs mk' = mk_uzs mk" by (simp_all add: mk')
qed

text \<open>Conversely, a purchase within every bound goes through.\<close>

lemma buy_succeeds:
  assumes "mulDiv_spec mulDiv" and ok: "market_ok mk" and nz: "sender \<noteq> address0" "ex_address X \<noteq> address0"
    and "0 < uzdIn" "0 < minOut" "minOut \<le> oltin_out (price (mk_xau mk)) (price (mk_uzs mk)) uzdIn"
    and feeds: "0 < rd_answer (latestRoundData (mk_xau mk))" "0 < rd_answer (latestRoundData (mk_uzs mk))"
      "fresh now_ts (ex_maxAgeXau X) (mk_xau mk)" "fresh now_ts (ex_maxAgeUzs X) (mk_uzs mk)"
    and fits: "price (mk_uzs mk) * GRAMS_PER_OZ_1E8 < UINT256" "10 ^ 8 * price (mk_xau mk) < UINT256"
    and uzd: "\<not> tk_paused (mk_uzd mk)" "uzdIn \<le> tk_balances (mk_uzd mk) sender"
      "uzdIn \<le> tk_allowances (mk_uzd mk) sender (ex_address X)"
    and oltin: "\<not> tk_paused (mk_oltin mk)" "hasRole MINTER_ROLE (ex_address X) (mk_oltin mk)"
    and reserve: "0 < rd_answer (latestRoundData (mk_reserve mk))" "fresh now_ts (ot_maxAgeReserve (mk_oltin mk)) (mk_reserve mk)"
      "price (mk_reserve mk) * ot_reserveScale (mk_oltin mk) < UINT256"
      "tk_totalSupply (mk_oltin mk) + oltin_out (price (mk_xau mk)) (price (mk_uzs mk)) uzdIn
         \<le> price (mk_reserve mk) * ot_reserveScale (mk_oltin mk)"
  shows "\<exists>mk'. buy mulDiv X now_ts sender uzdIn minOut mk
                 = Inr (oltin_out (price (mk_xau mk)) (price (mk_uzs mk)) uzdIn, mk')"
proof -
  let ?out = "oltin_out (price (mk_xau mk)) (price (mk_uzs mk)) uzdIn"
  have okU: "token_ok (mk_uzd mk)" and okO: "token_ok (mk_oltin mk)" using ok by (simp_all add: market_ok_def)
  obtain uzd' where tf: "token_transferFrom (ex_address X) sender (ex_address X) uzdIn (mk_uzd mk) = Inr uzd'"
    using token_transferFrom_succeeds [OF okU uzd(1) nz nz(2) uzd(2,3)] by blast
  have lt: "tk_totalSupply (mk_oltin mk) + ?out < UINT256" "0 < ?out" using reserve assms(6,7) by simp_all
  then obtain oltin' where "mint_internal sender ?out (mk_oltin mk) = Inr oltin'"
    using token_update_mint [OF okO nz(1), of ?out] oltin(1) nz(1) by (auto simp: mint_internal_def)
  then have mint: "oltin_mint now_ts (mk_reserve mk) (ex_address X) sender ?out (mk_oltin mk) = Inr oltin'"
    using lt reserve oltin nz by (simp add: oltin_mint_def guard_binds)
  have md: "mulDiv_call mulDiv uzdIn (price (mk_uzs mk) * GRAMS_PER_OZ_1E8) (10 ^ 8 * price (mk_xau mk)) = Inr ?out"
    using assms(1) feeds(1) lt by (simp add: mulDiv_call_def mulDiv_spec_def oltin_out_def)
  have fp: "freshPrice now_ts (ex_maxAgeXau X) (mk_xau mk) = Inr (price (mk_xau mk))"
    "freshPrice now_ts (ex_maxAgeUzs X) (mk_uzs mk) = Inr (price (mk_uzs mk))"
    using feeds by (simp_all add: freshPrice_Inr_iff)
  have "buy mulDiv X now_ts sender uzdIn minOut mk = Inr (?out, mk\<lparr>mk_uzd := uzd', mk_oltin := oltin'\<rparr>)"
    unfolding buy_def guard_binds fp rbind_simps md using assms(5-7) fits tf mint by simp
  then show ?thesis by blast
qed

text \<open>A sale within the seller's balance and approval and within the treasury goes through.\<close>

lemma sell_succeeds:
  assumes "mulDiv_spec mulDiv" and ok: "market_ok mk" and nz: "sender \<noteq> address0" "ex_address X \<noteq> address0"
    and "0 < oltinIn" "minOut \<le> uzd_out (price (mk_xau mk)) (price (mk_uzs mk)) oltinIn"
    and feeds: "0 < rd_answer (latestRoundData (mk_xau mk))" "0 < rd_answer (latestRoundData (mk_uzs mk))"
      "fresh now_ts (ex_maxAgeXau X) (mk_xau mk)" "fresh now_ts (ex_maxAgeUzs X) (mk_uzs mk)"
    and fits: "price (mk_xau mk) * 10 ^ 8 < UINT256" "GRAMS_PER_OZ_1E8 * price (mk_uzs mk) < UINT256"
    and uzd: "\<not> tk_paused (mk_uzd mk)" "uzd_out (price (mk_xau mk)) (price (mk_uzs mk)) oltinIn \<le> treasuryBalance X mk"
    and oltin: "\<not> tk_paused (mk_oltin mk)" "oltinIn \<le> tk_balances (mk_oltin mk) sender"
      "oltinIn \<le> tk_allowances (mk_oltin mk) sender (ex_address X)"
  shows "\<exists>mk'. sell mulDiv X now_ts sender oltinIn minOut mk
                 = Inr (uzd_out (price (mk_xau mk)) (price (mk_uzs mk)) oltinIn, mk')"
proof -
  let ?out = "uzd_out (price (mk_xau mk)) (price (mk_uzs mk)) oltinIn"
  have okU: "token_ok (mk_uzd mk)" and okO: "token_ok (mk_oltin mk)" using ok by (simp_all add: market_ok_def)
  obtain oltin' where bf: "token_burnFrom (ex_address X) sender oltinIn (mk_oltin mk) = Inr oltin'"
    using token_burnFrom_succeeds [OF okO oltin(1) nz oltin(2,3)] by blast
  have le: "?out \<le> tk_balances (mk_uzd mk) (ex_address X)" using uzd(2) by (simp add: treasuryBalance_def)
  obtain uzd' where tr: "token_transfer (ex_address X) sender ?out (mk_uzd mk) = Inr uzd'"
    using token_transfer_succeeds [OF okU uzd(1) nz(2,1) le] by blast
  have "?out < UINT256" using le balance_le_supply [OF okU] okU by (meson le_less_trans token_ok_def)
  then have md: "mulDiv_call mulDiv oltinIn (price (mk_xau mk) * 10 ^ 8) (GRAMS_PER_OZ_1E8 * price (mk_uzs mk)) = Inr ?out"
    using assms(1) feeds(2) by (simp add: mulDiv_call_def mulDiv_spec_def uzd_out_def GRAMS_PER_OZ_1E8_def)
  have fp: "freshPrice now_ts (ex_maxAgeXau X) (mk_xau mk) = Inr (price (mk_xau mk))"
    "freshPrice now_ts (ex_maxAgeUzs X) (mk_uzs mk) = Inr (price (mk_uzs mk))"
    using feeds by (simp_all add: freshPrice_Inr_iff)
  have "sell mulDiv X now_ts sender oltinIn minOut mk = Inr (?out, mk\<lparr>mk_uzd := uzd', mk_oltin := oltin'\<rparr>)"
    unfolding sell_def guard_binds fp rbind_simps md using assms(5,6) fits uzd(2) bf tr by simp
  then show ?thesis by blast
qed

section \<open>Properties\<close>

text \<open>
  C4.  Trades settle exactly, in both tokens at once.  A purchase that goes through moved exactly
  the paid UZD from the buyer into the treasury and minted exactly the floor of the fresh-price
  amount to the buyer, at least the buyer's minimum and within the attested reserve.  A sale that
  goes through burned exactly the sold OLTIN, which the seller owned and had approved, and paid
  exactly the floor of the fresh-price amount out of a treasury that held it.  Nobody else's
  balance changed in either token.
\<close>

theorem trades_settle_exactly:
  assumes "mulDiv_spec mulDiv" and "market_ok mk" and "user \<noteq> ex_address X"
  shows "(\<forall>uzdIn minOut out mk'. buy mulDiv X now_ts user uzdIn minOut mk = Inr (out, mk') \<longrightarrow>
            out = oltin_out (price (mk_xau mk)) (price (mk_uzs mk)) uzdIn \<and> 0 < minOut \<and> minOut \<le> out
            \<and> fresh now_ts (ex_maxAgeXau X) (mk_xau mk) \<and> fresh now_ts (ex_maxAgeUzs X) (mk_uzs mk)
            \<and> treasuryBalance X mk' = treasuryBalance X mk + uzdIn
            \<and> tk_balances (mk_uzd mk) user = tk_balances (mk_uzd mk') user + uzdIn
            \<and> tk_balances (mk_oltin mk') user = tk_balances (mk_oltin mk) user + out
            \<and> tk_totalSupply (mk_oltin mk') \<le> price (mk_reserve mk) * ot_reserveScale (mk_oltin mk)
            \<and> (\<forall>a. a \<noteq> user \<longrightarrow> tk_balances (mk_oltin mk') a = tk_balances (mk_oltin mk) a
                   \<and> (a \<noteq> ex_address X \<longrightarrow> tk_balances (mk_uzd mk') a = tk_balances (mk_uzd mk) a)))
       \<and> (\<forall>oltinIn minOut out mk'. sell mulDiv X now_ts user oltinIn minOut mk = Inr (out, mk') \<longrightarrow>
            out = uzd_out (price (mk_xau mk)) (price (mk_uzs mk)) oltinIn \<and> minOut \<le> out
            \<and> fresh now_ts (ex_maxAgeXau X) (mk_xau mk) \<and> fresh now_ts (ex_maxAgeUzs X) (mk_uzs mk)
            \<and> treasuryBalance X mk = treasuryBalance X mk' + out
            \<and> tk_balances (mk_uzd mk') user = tk_balances (mk_uzd mk) user + out
            \<and> tk_balances (mk_oltin mk) user = tk_balances (mk_oltin mk') user + oltinIn
            \<and> (oltinIn \<le> tk_allowances (mk_oltin mk) user (ex_address X)
               \<or> UINT256 - 1 \<le> tk_allowances (mk_oltin mk) user (ex_address X))
            \<and> (\<forall>a. a \<noteq> user \<longrightarrow> tk_balances (mk_oltin mk') a = tk_balances (mk_oltin mk) a
                   \<and> (a \<noteq> ex_address X \<longrightarrow> tk_balances (mk_uzd mk') a = tk_balances (mk_uzd mk) a)))"
proof (rule conjI; (rule allI)+; rule impI)
  fix uzdIn minOut out mk'
  assume run: "buy mulDiv X now_ts user uzdIn minOut mk = Inr (out, mk')"
  note e = buy_effect [OF assms run]
  have u: "tk_balances (mk_uzd mk') a = (if a = user then tk_balances (mk_uzd mk) user - uzdIn
      else if a = ex_address X then tk_balances (mk_uzd mk) a + uzdIn else tk_balances (mk_uzd mk) a)" for a
    using e(9) assms(3) by (simp add: moved_apply)
  show "out = oltin_out (price (mk_xau mk)) (price (mk_uzs mk)) uzdIn \<and> 0 < minOut \<and> minOut \<le> out
      \<and> fresh now_ts (ex_maxAgeXau X) (mk_xau mk) \<and> fresh now_ts (ex_maxAgeUzs X) (mk_uzs mk)
      \<and> treasuryBalance X mk' = treasuryBalance X mk + uzdIn
      \<and> tk_balances (mk_uzd mk) user = tk_balances (mk_uzd mk') user + uzdIn
      \<and> tk_balances (mk_oltin mk') user = tk_balances (mk_oltin mk) user + out
      \<and> tk_totalSupply (mk_oltin mk') \<le> price (mk_reserve mk) * ot_reserveScale (mk_oltin mk)
      \<and> (\<forall>a. a \<noteq> user \<longrightarrow> tk_balances (mk_oltin mk') a = tk_balances (mk_oltin mk) a
             \<and> (a \<noteq> ex_address X \<longrightarrow> tk_balances (mk_uzd mk') a = tk_balances (mk_uzd mk) a))"
    using e(1-8,12) assms(3) by (simp add: u e(10) treasuryBalance_def)
next
  fix oltinIn minOut out mk'
  assume run: "sell mulDiv X now_ts user oltinIn minOut mk = Inr (out, mk')"
  note e = sell_effect [OF assms run]
  have u: "tk_balances (mk_uzd mk') a = (if a = ex_address X then tk_balances (mk_uzd mk) a - out
      else if a = user then tk_balances (mk_uzd mk) a + out else tk_balances (mk_uzd mk) a)" for a
    using e(10) assms(3) by (simp add: moved_apply)
  show "out = uzd_out (price (mk_xau mk)) (price (mk_uzs mk)) oltinIn \<and> minOut \<le> out
      \<and> fresh now_ts (ex_maxAgeXau X) (mk_xau mk) \<and> fresh now_ts (ex_maxAgeUzs X) (mk_uzs mk)
      \<and> treasuryBalance X mk = treasuryBalance X mk' + out
      \<and> tk_balances (mk_uzd mk') user = tk_balances (mk_uzd mk) user + out
      \<and> tk_balances (mk_oltin mk) user = tk_balances (mk_oltin mk') user + oltinIn
      \<and> (oltinIn \<le> tk_allowances (mk_oltin mk) user (ex_address X)
         \<or> UINT256 - 1 \<le> tk_allowances (mk_oltin mk) user (ex_address X))
      \<and> (\<forall>a. a \<noteq> user \<longrightarrow> tk_balances (mk_oltin mk') a = tk_balances (mk_oltin mk) a
             \<and> (a \<noteq> ex_address X \<longrightarrow> tk_balances (mk_uzd mk') a = tk_balances (mk_uzd mk) a))"
    using e(1-9) assms(3) by (simp add: u e(11) treasuryBalance_def)
qed

text \<open>A market with a price and a reserve, a buyer with UZD, and the buyer's approvals.\<close>

definition sample_mulDiv :: "nat \<Rightarrow> nat \<Rightarrow> nat \<Rightarrow> nat option" where
  "sample_mulDiv x y d = (if d \<noteq> 0 \<and> x * y div d < UINT256 then Some (x * y div d) else None)"

lemma sample_mulDiv_spec: "mulDiv_spec sample_mulDiv"
  by (simp add: mulDiv_spec_def sample_mulDiv_def)

definition sample_exchange :: exchange where
  "sample_exchange = \<lparr>ex_address = ''exchange'', ex_maxAgeXau = 3600, ex_maxAgeUzs = 259200\<rparr>"

definition sample_market :: market where
  "sample_market =
     \<lparr>mk_oltin = sample_oltin\<lparr>tk_allowances := (\<lambda>_ _. 700)\<rparr>,
      mk_uzd = \<lparr>tk_balances = (\<lambda>_. 0)(''user'' := 1000000000), tk_allowances = (\<lambda>_ _. 1000000000),
                tk_totalSupply = 1000000000, tk_paused = False, tk_roles = []\<rparr>,
      mk_reserve = sample_feed,
      mk_xau = sample_feed\<lparr>att_answer := 400000000000\<rparr>,
      mk_uzs = sample_feed\<lparr>att_answer := 8000\<rparr>\<rparr>"

lemma sample_market_ok: "market_ok sample_market"
proof -
  have h: "holders (mk_uzd sample_market) = {''user''}" by (auto simp: holders_def sample_market_def)
  have "token_ok (mk_uzd sample_market)"
    by (simp add: token_ok_def h) (simp add: sample_market_def UINT256_def)
  moreover have "token_ok (mk_oltin sample_market)"
    by (simp add: token_ok_def holders_def sample_market_def sample_oltin_def)
  ultimately show ?thesis by (simp add: market_ok_def)
qed

lemma sample_addresses: "''user'' \<noteq> address0" "''exchange'' \<noteq> address0"
  by (rule not_address0, simp)+

lemma sample_prices [simp]:
  "rd_answer (latestRoundData (mk_xau sample_market)) = 400000000000"
  "rd_answer (latestRoundData (mk_uzs sample_market)) = 8000"
  "rd_answer (latestRoundData (mk_reserve sample_market)) = 5"
  "ex_address sample_exchange = ''exchange''"
  by (simp_all add: sample_market_def sample_feed_def sample_exchange_def latestRoundData_def)

lemma sample_fresh:
  "fresh 200 (ex_maxAgeXau sample_exchange) (mk_xau sample_market)"
  "fresh 200 (ex_maxAgeUzs sample_exchange) (mk_uzs sample_market)"
  "fresh 200 (ot_maxAgeReserve (mk_oltin sample_market)) (mk_reserve sample_market)"
  by (simp_all add: fresh_def sample_market_def sample_feed_def sample_exchange_def sample_oltin_def latestRoundData_def)

lemma sample_out [simp]: "oltin_out 400000000000 8000 1000000000 = 622"
  by (simp add: oltin_out_def GRAMS_PER_OZ_1E8_def)

lemma sample_buy:
  "\<exists>mk'. buy sample_mulDiv sample_exchange 200 ''user'' 1000000000 600 sample_market = Inr (622, mk')"
proof -
  note run = buy_succeeds [OF sample_mulDiv_spec sample_market_ok, of "''user''" sample_exchange 1000000000 600 200]
  have fits: "8000 * GRAMS_PER_OZ_1E8 < UINT256" "10 ^ 8 * 400000000000 < UINT256" "5 * 10 ^ 18 < UINT256"
    by (simp_all add: GRAMS_PER_OZ_1E8_def UINT256_def)
  have st: "\<not> tk_paused (mk_uzd sample_market)" "tk_balances (mk_uzd sample_market) ''user'' = 1000000000"
    "tk_allowances (mk_uzd sample_market) ''user'' ''exchange'' = 1000000000" "\<not> tk_paused (mk_oltin sample_market)"
    "hasRole MINTER_ROLE ''exchange'' (mk_oltin sample_market)" "ot_reserveScale (mk_oltin sample_market) = 10 ^ 18"
    "tk_totalSupply (mk_oltin sample_market) = 0"
    by (simp_all add: sample_market_def sample_oltin_def hasRole_def)
  show ?thesis using run sample_addresses sample_fresh fits st by simp
qed

theorem trades_settle_exactly_witness:
  "\<exists>mk'. buy sample_mulDiv sample_exchange 200 ''user'' 1000000000 600 sample_market = Inr (622, mk')
     \<and> treasuryBalance sample_exchange mk' = treasuryBalance sample_exchange sample_market + 1000000000"
proof -
  obtain mk' where run: "buy sample_mulDiv sample_exchange 200 ''user'' 1000000000 600 sample_market = Inr (622, mk')"
    using sample_buy by blast
  have "''user'' \<noteq> ex_address sample_exchange" by simp
  from trades_settle_exactly [OF sample_mulDiv_spec sample_market_ok this, of 200, THEN conjunct1, rule_format, OF run] run
  show ?thesis by blast
qed

text \<open>
  C14.  A round trip through the exchange never profits: whoever buys and then, at unchanged prices,
  sells no more OLTIN than the purchase gave is paid no more UZD than the purchase cost, whatever the
  amounts, slippage limits and times of the two calls.
\<close>

theorem swap_roundtrip_never_profits:
  assumes "mulDiv_spec mulDiv" and "market_ok mk" and "user \<noteq> ex_address X"
    and "buy mulDiv X t1 user uzdIn m1 mk = Inr (bought, mk1)"
    and "oltinIn \<le> bought" and "sell mulDiv X t2 user oltinIn m2 mk1 = Inr (paid, mk2)"
  shows "paid \<le> uzdIn \<and> treasuryBalance X mk \<le> treasuryBalance X mk2"
proof -
  note b = buy_effect [OF assms(1-4)]
  note s = sell_effect [OF assms(1) b(13) assms(3,6)]
  have "paid \<le> uzd_out (price (mk_xau mk)) (price (mk_uzs mk)) bought"
    unfolding s(1) b(14,15) uzd_out_def by (intro div_le_mono mult_right_mono assms(5)) simp
  also have "\<dots> \<le> uzdIn" unfolding b(1) by (rule uzd_roundtrip [OF b(5)])
  finally have "paid \<le> uzdIn" .
  moreover have "treasuryBalance X mk1 = treasuryBalance X mk + uzdIn" "treasuryBalance X mk2 = treasuryBalance X mk1 - paid"
    using assms(3) s(7) by (simp_all add: treasuryBalance_def b(9) s(10) moved_apply)
  ultimately show ?thesis by simp
qed

lemma sample_sell:
  assumes "buy sample_mulDiv sample_exchange 200 ''user'' 1000000000 600 sample_market = Inr (622, mk')"
  shows "\<exists>mk2. sell sample_mulDiv sample_exchange 200 ''user'' 622 1 mk' = Inr (999888218, mk2)"
proof -
  have ne: "''user'' \<noteq> ex_address sample_exchange" by simp
  note e = buy_effect [OF sample_mulDiv_spec sample_market_ok ne assms]
  note run = sell_succeeds [OF sample_mulDiv_spec e(13), of "''user''" sample_exchange 622 1 200]
  have fits: "400000000000 * 10 ^ 8 < UINT256" "GRAMS_PER_OZ_1E8 * 8000 < UINT256"
    by (simp_all add: GRAMS_PER_OZ_1E8_def UINT256_def)
  have st: "\<not> tk_paused (mk_uzd mk')" "treasuryBalance sample_exchange mk' = 1000000000" "\<not> tk_paused (mk_oltin mk')"
    "tk_balances (mk_oltin mk') ''user'' = 622" "tk_allowances (mk_oltin mk') ''user'' ''exchange'' = 700"
    by (simp_all add: e(9,10,16,17,18) treasuryBalance_def moved_apply) (simp_all add: sample_market_def sample_oltin_def)
  have out: "uzd_out 400000000000 8000 622 = 999888218" by (simp add: uzd_out_def GRAMS_PER_OZ_1E8_def)
  show ?thesis using run sample_addresses sample_fresh fits st out by (simp add: e(14,15))
qed

theorem swap_roundtrip_never_profits_witness:
  "\<exists>mk1 mk2. buy sample_mulDiv sample_exchange 200 ''user'' 1000000000 600 sample_market = Inr (622, mk1)
     \<and> sell sample_mulDiv sample_exchange 200 ''user'' 622 1 mk1 = Inr (999888218, mk2)
     \<and> treasuryBalance sample_exchange sample_market \<le> treasuryBalance sample_exchange mk2"
proof -
  obtain mk1 mk2 where runs: "buy sample_mulDiv sample_exchange 200 ''user'' 1000000000 600 sample_market = Inr (622, mk1)"
    "sell sample_mulDiv sample_exchange 200 ''user'' 622 1 mk1 = Inr (999888218, mk2)"
    using sample_buy sample_sell by blast
  have "''user'' \<noteq> ex_address sample_exchange" by simp
  from swap_roundtrip_never_profits [OF sample_mulDiv_spec sample_market_ok this runs(1) order_refl runs(2)] runs
  show ?thesis by blast
qed

text \<open>
  C19.  Gold is redeemable: with both feeds positive and fresh and neither token paused, a sale goes
  through for exactly the floor of the fresh-price amount whenever the seller holds and approved the
  OLTIN, the treasury covers the payout and the limit is met.  No allow-list, role, reserve
  attestation or minimum stands between a holder and the redemption.
\<close>

theorem oltin_is_redeemable:
  assumes "mulDiv_spec mulDiv" and ok: "market_ok mk" and nz: "sender \<noteq> address0" "ex_address X \<noteq> address0"
    and "0 < oltinIn" "minOut \<le> uzd_out (price (mk_xau mk)) (price (mk_uzs mk)) oltinIn"
    and feeds: "0 < rd_answer (latestRoundData (mk_xau mk))" "0 < rd_answer (latestRoundData (mk_uzs mk))"
      "fresh now_ts (ex_maxAgeXau X) (mk_xau mk)" "fresh now_ts (ex_maxAgeUzs X) (mk_uzs mk)"
    and fits: "price (mk_xau mk) * 10 ^ 8 < UINT256" "GRAMS_PER_OZ_1E8 * price (mk_uzs mk) < UINT256"
    and uzd: "\<not> tk_paused (mk_uzd mk)" "uzd_out (price (mk_xau mk)) (price (mk_uzs mk)) oltinIn \<le> treasuryBalance X mk"
    and oltin: "\<not> tk_paused (mk_oltin mk)" "oltinIn \<le> tk_balances (mk_oltin mk) sender"
      "oltinIn \<le> tk_allowances (mk_oltin mk) sender (ex_address X)"
  shows "\<exists>mk'. sell mulDiv X now_ts sender oltinIn minOut mk
                 = Inr (uzd_out (price (mk_xau mk)) (price (mk_uzs mk)) oltinIn, mk')"
  by (rule sell_succeeds [OF assms])

definition redeeming_market :: market where
  "redeeming_market = sample_market
     \<lparr>mk_oltin := holding_oltin\<lparr>tk_allowances := (\<lambda>_ _. 7)\<rparr>,
      mk_uzd := \<lparr>tk_balances = (\<lambda>_. 0)(''exchange'' := 1000000000), tk_allowances = (\<lambda>_ _. 0),
                 tk_totalSupply = 1000000000, tk_paused = False, tk_roles = []\<rparr>\<rparr>"

lemma redeeming_market_ok: "market_ok redeeming_market"
proof -
  have h: "holders (mk_uzd redeeming_market) = {''exchange''}" by (auto simp: holders_def redeeming_market_def)
  have "token_ok (mk_uzd redeeming_market)"
    by (simp add: token_ok_def h) (simp add: redeeming_market_def UINT256_def)
  moreover have "token_ok (mk_oltin redeeming_market)"
    using holding_oltin_ok by (simp add: redeeming_market_def token_ok_def holders_def)
  ultimately show ?thesis by (simp add: market_ok_def)
qed

theorem oltin_is_redeemable_witness:
  "\<exists>mk'. sell sample_mulDiv sample_exchange 200 ''user'' 7 1 redeeming_market = Inr (11252761, mk')"
proof -
  note run = oltin_is_redeemable [OF sample_mulDiv_spec redeeming_market_ok, of "''user''" sample_exchange 7 1 200]
  have fits: "400000000000 * 10 ^ 8 < UINT256" "GRAMS_PER_OZ_1E8 * 8000 < UINT256"
    by (simp_all add: GRAMS_PER_OZ_1E8_def UINT256_def)
  have st: "\<not> tk_paused (mk_uzd redeeming_market)" "treasuryBalance sample_exchange redeeming_market = 1000000000"
    "\<not> tk_paused (mk_oltin redeeming_market)" "tk_balances (mk_oltin redeeming_market) ''user'' = 7"
    "tk_allowances (mk_oltin redeeming_market) ''user'' ''exchange'' = 7"
    "mk_xau redeeming_market = mk_xau sample_market" "mk_uzs redeeming_market = mk_uzs sample_market"
    by (simp_all add: redeeming_market_def treasuryBalance_def holding_oltin_def sample_oltin_def)
  have out: "uzd_out 400000000000 8000 7 = 11252761" by (simp add: uzd_out_def GRAMS_PER_OZ_1E8_def)
  show ?thesis using run sample_addresses sample_fresh fits st out by simp
qed

end
