(* ===== verification/Paymaster.thy ===== *)
theory Paymaster
  imports ExchangeContract
begin

text \<open>
  The gas paymaster \<^verbatim>\<open>OltinPaymaster.sol\<close>: it pays the bootloader in ETH and charges the user the
  OLTIN equivalent, under an allow-list, a per-transaction cap and two daily caps.  A call acts on
  the paymaster's state, which includes its ETH balance, and on the OLTIN token.  The ceiling
  version of OpenZeppelin's \<^verbatim>\<open>Math.mulDiv\<close> is an argument with its documented result as a
  hypothesis; whether the bootloader accepts the ETH is an argument too.
\<close>

datatype pm_error =
    NotBootloader
  | InvalidPaymasterInput
  | UnsupportedFlow
  | BadAbi
  | WrongFeeToken address
  | TargetNotSponsored address
  | PerTxCapExceeded nat nat
  | SenderDailyCapExceeded nat nat nat
  | GlobalDailyCapExceeded nat nat nat
  | PaymasterOutOfFunds nat nat
  | RateStale nat nat
  | AllowanceBelowFee nat nat
  | BootloaderPaymentFailed
  | EthTransferFailed
  | ZeroAddress
  | ZeroAmount
  | RateOutOfBounds nat nat nat
  | SurchargeTooHigh nat nat
  | MinFeeTooHigh nat nat
  | AmountExceedsBalance nat nat
  | NotOwner address
  | PmPaused
  | PmNotPaused
  | Overflow
  | TokenRevert revert

definition UINT192 :: nat where "UINT192 = 2 ^ 192"

definition MAX_SURCHARGE_BPS :: nat where "MAX_SURCHARGE_BPS = 500"
definition MAX_MIN_FEE_OLTIN :: nat where "MAX_MIN_FEE_OLTIN = 10 ^ 16"

record daySpend =
  ds_day :: nat
  ds_spentWei :: nat

record paymaster =
  pm_address :: address
  pm_oltinToken :: address
  pm_minRate :: nat
  pm_maxRate :: nat
  pm_maxRateAge :: nat
  pm_oltinPerEth :: nat
  pm_rateUpdatedAt :: nat
  pm_surchargeBps :: nat
  pm_minFeeOltin :: nat
  pm_maxSponsoredEthWei :: nat
  pm_dailyEthCapSender :: nat
  pm_dailyEthCapGlobal :: nat
  pm_totalFeesCollected :: nat
  pm_sponsoredTarget :: "address \<Rightarrow> bool"
  pm_senderSpend :: "address \<Rightarrow> daySpend"
  pm_globalSpend :: daySpend
  pm_paused :: bool
  pm_owner :: address
  pm_eth :: nat

text \<open>A custom error as an early return.\<close>

definition revert_if :: "bool \<Rightarrow> pm_error \<Rightarrow> (pm_error, unit) result" where
  "revert_if b e = (if b then Inl e else Inr ())"

definition pm_checked :: "nat \<Rightarrow> (pm_error, nat) result" where
  "pm_checked v = (if v < UINT256 then Inr v else Inl Overflow)"

definition token_call_pm :: "(revert, 'b) result \<Rightarrow> (pm_error, 'b) result" where
  "token_call_pm r = (case r of Inl e \<Rightarrow> Inl (TokenRevert e) | Inr x \<Rightarrow> Inr x)"

lemma pm_Inr_iff [simp]:
  "revert_if b e = Inr u \<longleftrightarrow> \<not> b"
  "pm_checked v = Inr w \<longleftrightarrow> v < UINT256 \<and> w = v"
  "token_call_pm r = Inr x \<longleftrightarrow> r = Inr x"
  by (auto simp: revert_if_def pm_checked_def token_call_pm_def split: sum.splits)

definition paymaster_constructor ::
    "address \<Rightarrow> nat \<Rightarrow> address \<Rightarrow> address \<Rightarrow> nat \<Rightarrow> nat \<Rightarrow> nat \<Rightarrow> nat \<Rightarrow> nat \<Rightarrow> nat \<Rightarrow> nat \<Rightarrow> nat \<Rightarrow> nat \<Rightarrow> (pm_error, paymaster) result" where
  "paymaster_constructor this now_ts sender oltinToken minRate maxRate maxRateAge initialRate surcharge minFee
       maxSponsored capSender capGlobal =
     rbind (revert_if (oltinToken = address0) ZeroAddress) (\<lambda>_.
     rbind (revert_if (minRate = 0 \<or> maxRate < minRate) (RateOutOfBounds minRate minRate maxRate)) (\<lambda>_.
     rbind (revert_if (maxRateAge = 0) ZeroAmount) (\<lambda>_.
     rbind (revert_if (initialRate < minRate \<or> initialRate > maxRate) (RateOutOfBounds initialRate minRate maxRate)) (\<lambda>_.
     rbind (revert_if (surcharge > MAX_SURCHARGE_BPS) (SurchargeTooHigh surcharge MAX_SURCHARGE_BPS)) (\<lambda>_.
     rbind (revert_if (minFee > MAX_MIN_FEE_OLTIN) (MinFeeTooHigh minFee MAX_MIN_FEE_OLTIN)) (\<lambda>_.
     rbind (revert_if (maxSponsored = 0 \<or> capSender = 0 \<or> capGlobal = 0) ZeroAmount) (\<lambda>_.
     Inr \<lparr>pm_address = this, pm_oltinToken = oltinToken, pm_minRate = minRate, pm_maxRate = maxRate, pm_maxRateAge = maxRateAge,
          pm_oltinPerEth = initialRate, pm_rateUpdatedAt = now_ts, pm_surchargeBps = surcharge, pm_minFeeOltin = minFee,
          pm_maxSponsoredEthWei = maxSponsored, pm_dailyEthCapSender = capSender, pm_dailyEthCapGlobal = capGlobal,
          pm_totalFeesCollected = 0, pm_sponsoredTarget = (\<lambda>_. False),
          pm_senderSpend = (\<lambda>_. \<lparr>ds_day = 0, ds_spentWei = 0\<rparr>), pm_globalSpend = \<lparr>ds_day = 0, ds_spentWei = 0\<rparr>,
          pm_paused = False, pm_owner = sender, pm_eth = 0\<rparr>)))))))"

section \<open>Quoting\<close>

definition ceil_div :: "nat \<Rightarrow> nat \<Rightarrow> nat" where
  "ceil_div n d = (n + d - 1) div d"

definition mulDivUp_spec :: "(nat \<Rightarrow> nat \<Rightarrow> nat \<Rightarrow> nat option) \<Rightarrow> bool" where
  "mulDivUp_spec mulDivUp \<longleftrightarrow>
     (\<forall>x y d. mulDivUp x y d = (if d \<noteq> 0 \<and> ceil_div (x * y) d < UINT256 then Some (ceil_div (x * y) d) else None))"

definition mulDivUp_call :: "(nat \<Rightarrow> nat \<Rightarrow> nat \<Rightarrow> nat option) \<Rightarrow> nat \<Rightarrow> nat \<Rightarrow> nat \<Rightarrow> (pm_error, nat) result" where
  "mulDivUp_call mulDivUp x y d = (case mulDivUp x y d of None \<Rightarrow> Inl Overflow | Some v \<Rightarrow> Inr v)"

definition feeFor :: "(nat \<Rightarrow> nat \<Rightarrow> nat \<Rightarrow> nat option) \<Rightarrow> nat \<Rightarrow> nat \<Rightarrow> paymaster \<Rightarrow> (pm_error, nat) result" where
  "feeFor mulDivUp now_ts requiredEth P =
     (let updatedAt = pm_rateUpdatedAt P in
      rbind (if updatedAt \<le> now_ts then Inr (now_ts - updatedAt) else Inl Overflow) (\<lambda>age.
      rbind (revert_if (age > pm_maxRateAge P) (RateStale updatedAt (pm_maxRateAge P))) (\<lambda>_.
      rbind (mulDivUp_call mulDivUp requiredEth (pm_oltinPerEth P) (10 ^ 18)) (\<lambda>fee1.
      rbind (mulDivUp_call mulDivUp fee1 (10000 + pm_surchargeBps P) 10000) (\<lambda>fee2.
      Inr (if fee2 < pm_minFeeOltin P then pm_minFeeOltin P else fee2))))))"

definition quoteFee :: "(nat \<Rightarrow> nat \<Rightarrow> nat \<Rightarrow> nat option) \<Rightarrow> nat \<Rightarrow> nat \<Rightarrow> nat \<Rightarrow> paymaster \<Rightarrow> (pm_error, nat) result" where
  "quoteFee mulDivUp now_ts gasLimit maxFeePerGas P =
     rbind (pm_checked (gasLimit * maxFeePerGas)) (\<lambda>requiredEth. feeFor mulDivUp now_ts requiredEth P)"

section \<open>Sponsorship\<close>

definition day_of :: "nat \<Rightarrow> nat" where "day_of now_ts = now_ts div 86400 mod UINT64"

definition spent_today :: "nat \<Rightarrow> daySpend \<Rightarrow> nat" where
  "spent_today today s = (if ds_day s = today then ds_spentWei s else 0)"

definition guard_sponsorship ::
    "(nat \<Rightarrow> nat \<Rightarrow> nat \<Rightarrow> nat option) \<Rightarrow> nat \<Rightarrow> address \<Rightarrow> address \<Rightarrow> nat \<Rightarrow> paymaster \<Rightarrow> (pm_error, nat \<times> nat \<times> nat \<times> nat) result" where
  "guard_sponsorship mulDivUp now_ts from to requiredEth P =
     rbind (revert_if (pm_paused P) PmPaused) (\<lambda>_.
     rbind (revert_if (\<not> pm_sponsoredTarget P to) (TargetNotSponsored to)) (\<lambda>_.
     rbind (revert_if (requiredEth > pm_maxSponsoredEthWei P) (PerTxCapExceeded requiredEth (pm_maxSponsoredEthWei P))) (\<lambda>_.
     rbind (revert_if (pm_eth P < requiredEth) (PaymasterOutOfFunds requiredEth (pm_eth P))) (\<lambda>_.
     let today = day_of now_ts; senderSpent = spent_today today (pm_senderSpend P from) in
     rbind (pm_checked (senderSpent + requiredEth)) (\<lambda>s1.
     rbind (revert_if (s1 > pm_dailyEthCapSender P) (SenderDailyCapExceeded requiredEth senderSpent (pm_dailyEthCapSender P))) (\<lambda>_.
     let globalSpent = spent_today today (pm_globalSpend P) in
     rbind (pm_checked (globalSpent + requiredEth)) (\<lambda>g1.
     rbind (revert_if (g1 > pm_dailyEthCapGlobal P) (GlobalDailyCapExceeded requiredEth globalSpent (pm_dailyEthCapGlobal P))) (\<lambda>_.
     rbind (feeFor mulDivUp now_ts requiredEth P) (\<lambda>fee.
     Inr (fee, senderSpent, globalSpent, today))))))))))"

definition checkSponsorship ::
    "(nat \<Rightarrow> nat \<Rightarrow> nat \<Rightarrow> nat option) \<Rightarrow> nat \<Rightarrow> address \<Rightarrow> address \<Rightarrow> nat \<Rightarrow> nat \<Rightarrow> paymaster \<Rightarrow> (pm_error, nat) result" where
  "checkSponsorship mulDivUp now_ts from to gasLimit maxFeePerGas P =
     rbind (pm_checked (gasLimit * maxFeePerGas)) (\<lambda>requiredEth.
     rbind (guard_sponsorship mulDivUp now_ts from to requiredEth P) (\<lambda>(fee, _). Inr fee))"

text \<open>
  The paymaster input of a transaction as the contract reads it: shorter than a selector, another
  flow's selector, or the approval-based flow, whose arguments decode or do not.
\<close>

datatype paymaster_input =
    ShortInput
  | OtherFlow
  | ApprovalBased "(address \<times> nat \<times> string) option"

record zk_transaction =
  tx_from :: address
  tx_to :: address
  tx_gasLimit :: nat
  tx_maxFeePerGas :: nat
  tx_paymasterInput :: paymaster_input

definition fee_token :: "paymaster_input \<Rightarrow> (pm_error, address) result" where
  "fee_token inp =
     (case inp of ShortInput \<Rightarrow> Inl InvalidPaymasterInput
      | OtherFlow \<Rightarrow> Inl UnsupportedFlow
      | ApprovalBased None \<Rightarrow> Inl BadAbi
      | ApprovalBased (Some (token, minAllowance, innerInput)) \<Rightarrow> Inr token)"

definition validateAndPay ::
    "(nat \<Rightarrow> nat \<Rightarrow> nat \<Rightarrow> nat option) \<Rightarrow> address \<Rightarrow> bool \<Rightarrow> nat \<Rightarrow> address \<Rightarrow> zk_transaction \<Rightarrow> paymaster \<Rightarrow> 'a token_scheme
       \<Rightarrow> (pm_error, nat \<times> paymaster \<times> 'a token_scheme) result" where
  "validateAndPay mulDivUp BOOTLOADER ethSent now_ts sender tx P t =
     rbind (revert_if (sender \<noteq> BOOTLOADER) NotBootloader) (\<lambda>_.
     rbind (revert_if (pm_paused P) PmPaused) (\<lambda>_.
     rbind (fee_token (tx_paymasterInput tx)) (\<lambda>token.
     rbind (revert_if (token \<noteq> pm_oltinToken P) (WrongFeeToken token)) (\<lambda>_.
     rbind (pm_checked (tx_gasLimit tx * tx_maxFeePerGas tx)) (\<lambda>requiredEth.
     rbind (guard_sponsorship mulDivUp now_ts (tx_from tx) (tx_to tx) requiredEth P) (\<lambda>(fee, senderSpent, globalSpent, today).
     rbind (revert_if (tk_allowances t (tx_from tx) (pm_address P) < fee)
              (AllowanceBelowFee fee (tk_allowances t (tx_from tx) (pm_address P)))) (\<lambda>_.
     let P1 = P\<lparr>pm_senderSpend := (pm_senderSpend P)
                  (tx_from tx := \<lparr>ds_day = today, ds_spentWei = (senderSpent + requiredEth) mod UINT192\<rparr>),
                pm_globalSpend := \<lparr>ds_day = today, ds_spentWei = (globalSpent + requiredEth) mod UINT192\<rparr>\<rparr> in
     rbind (token_call_pm (token_transferFrom (pm_address P) (tx_from tx) (pm_address P) fee t)) (\<lambda>t'.
     rbind (pm_checked (pm_totalFeesCollected P + fee)) (\<lambda>fees.
     rbind (revert_if (\<not> ethSent) BootloaderPaymentFailed) (\<lambda>_.
     Inr (fee, P1\<lparr>pm_totalFeesCollected := fees, pm_eth := pm_eth P - requiredEth\<rparr>, t')))))))))))"

section \<open>Administration\<close>

definition onlyOwner :: "address \<Rightarrow> paymaster \<Rightarrow> (pm_error, unit) result" where
  "onlyOwner sender P = revert_if (sender \<noteq> pm_owner P) (NotOwner sender)"

definition setRate :: "nat \<Rightarrow> address \<Rightarrow> nat \<Rightarrow> paymaster \<Rightarrow> (pm_error, paymaster) result" where
  "setRate now_ts sender rate P =
     rbind (onlyOwner sender P) (\<lambda>_.
     rbind (revert_if (rate < pm_minRate P \<or> rate > pm_maxRate P) (RateOutOfBounds rate (pm_minRate P) (pm_maxRate P))) (\<lambda>_.
     Inr (P\<lparr>pm_oltinPerEth := rate, pm_rateUpdatedAt := now_ts\<rparr>)))"

definition setFeeConfig :: "address \<Rightarrow> nat \<Rightarrow> nat \<Rightarrow> paymaster \<Rightarrow> (pm_error, paymaster) result" where
  "setFeeConfig sender surcharge minFee P =
     rbind (onlyOwner sender P) (\<lambda>_.
     rbind (revert_if (surcharge > MAX_SURCHARGE_BPS) (SurchargeTooHigh surcharge MAX_SURCHARGE_BPS)) (\<lambda>_.
     rbind (revert_if (minFee > MAX_MIN_FEE_OLTIN) (MinFeeTooHigh minFee MAX_MIN_FEE_OLTIN)) (\<lambda>_.
     Inr (P\<lparr>pm_surchargeBps := surcharge, pm_minFeeOltin := minFee\<rparr>))))"

definition setCaps :: "address \<Rightarrow> nat \<Rightarrow> nat \<Rightarrow> nat \<Rightarrow> paymaster \<Rightarrow> (pm_error, paymaster) result" where
  "setCaps sender perTx perSender perDay P =
     rbind (onlyOwner sender P) (\<lambda>_.
     rbind (revert_if (perTx = 0 \<or> perSender = 0 \<or> perDay = 0) ZeroAmount) (\<lambda>_.
     Inr (P\<lparr>pm_maxSponsoredEthWei := perTx, pm_dailyEthCapSender := perSender, pm_dailyEthCapGlobal := perDay\<rparr>)))"

definition setSponsoredTarget :: "address \<Rightarrow> address \<Rightarrow> bool \<Rightarrow> paymaster \<Rightarrow> (pm_error, paymaster) result" where
  "setSponsoredTarget sender target allowed P =
     rbind (onlyOwner sender P) (\<lambda>_.
     rbind (revert_if (target = address0) ZeroAddress) (\<lambda>_.
     Inr (P\<lparr>pm_sponsoredTarget := (pm_sponsoredTarget P)(target := allowed)\<rparr>)))"

definition pm_pause :: "address \<Rightarrow> paymaster \<Rightarrow> (pm_error, paymaster) result" where
  "pm_pause sender P =
     rbind (onlyOwner sender P) (\<lambda>_. rbind (revert_if (pm_paused P) PmPaused) (\<lambda>_. Inr (P\<lparr>pm_paused := True\<rparr>)))"

definition pm_unpause :: "address \<Rightarrow> paymaster \<Rightarrow> (pm_error, paymaster) result" where
  "pm_unpause sender P =
     rbind (onlyOwner sender P) (\<lambda>_. rbind (revert_if (\<not> pm_paused P) PmNotPaused) (\<lambda>_. Inr (P\<lparr>pm_paused := False\<rparr>)))"

definition withdrawFees :: "address \<Rightarrow> address \<Rightarrow> paymaster \<Rightarrow> 'a token_scheme \<Rightarrow> (pm_error, paymaster \<times> 'a token_scheme) result" where
  "withdrawFees sender to P t =
     rbind (onlyOwner sender P) (\<lambda>_.
     rbind (revert_if (to = address0) ZeroAddress) (\<lambda>_.
     let amount = pm_totalFeesCollected P in
     rbind (revert_if (amount = 0) ZeroAmount) (\<lambda>_.
     rbind (token_call_pm (token_transfer (pm_address P) to amount t)) (\<lambda>t'.
     Inr (P\<lparr>pm_totalFeesCollected := 0\<rparr>, t')))))"

definition withdrawETH :: "bool \<Rightarrow> address \<Rightarrow> address \<Rightarrow> nat \<Rightarrow> paymaster \<Rightarrow> (pm_error, paymaster) result" where
  "withdrawETH ethSent sender to amount P =
     rbind (onlyOwner sender P) (\<lambda>_.
     rbind (revert_if (to = address0) ZeroAddress) (\<lambda>_.
     rbind (revert_if (amount = 0) ZeroAmount) (\<lambda>_.
     rbind (revert_if (amount > pm_eth P) (AmountExceedsBalance amount (pm_eth P))) (\<lambda>_.
     rbind (revert_if (\<not> ethSent) EthTransferFailed) (\<lambda>_.
     Inr (P\<lparr>pm_eth := pm_eth P - amount\<rparr>))))))"

definition receive_eth :: "nat \<Rightarrow> paymaster \<Rightarrow> paymaster" where
  "receive_eth value P = P\<lparr>pm_eth := pm_eth P + value\<rparr>"

section \<open>What a sponsorship does\<close>

lemma guard_Inr:
  assumes "guard_sponsorship mulDivUp now_ts usr tgt eth P = Inr (fee, ss, gs, today)"
  shows "\<not> pm_paused P" and "pm_sponsoredTarget P tgt" and "eth \<le> pm_maxSponsoredEthWei P" and "eth \<le> pm_eth P"
    and "today = day_of now_ts" and "ss = spent_today today (pm_senderSpend P usr)" and "gs = spent_today today (pm_globalSpend P)"
    and "ss + eth \<le> pm_dailyEthCapSender P" and "gs + eth \<le> pm_dailyEthCapGlobal P"
    and "feeFor mulDivUp now_ts eth P = Inr fee"
  using assms unfolding guard_sponsorship_def Let_def rbind_Inr_iff by (auto simp: not_less)

lemma validate_run:
  assumes "validateAndPay mulDivUp B ethSent now_ts sender tx P t = Inr (fee, P', t')"
  obtains ss gs where "sender = B" and "\<not> pm_paused P" and "fee_token (tx_paymasterInput tx) = Inr (pm_oltinToken P)"
    and "guard_sponsorship mulDivUp now_ts (tx_from tx) (tx_to tx) (tx_gasLimit tx * tx_maxFeePerGas tx) P
           = Inr (fee, ss, gs, day_of now_ts)"
    and "fee \<le> tk_allowances t (tx_from tx) (pm_address P)"
    and "token_transferFrom (pm_address P) (tx_from tx) (pm_address P) fee t = Inr t'"
    and "P' = P\<lparr>pm_senderSpend := (pm_senderSpend P)(tx_from tx :=
                  \<lparr>ds_day = day_of now_ts, ds_spentWei = (ss + tx_gasLimit tx * tx_maxFeePerGas tx) mod UINT192\<rparr>),
                pm_globalSpend := \<lparr>ds_day = day_of now_ts, ds_spentWei = (gs + tx_gasLimit tx * tx_maxFeePerGas tx) mod UINT192\<rparr>,
                pm_totalFeesCollected := pm_totalFeesCollected P + fee,
                pm_eth := pm_eth P - tx_gasLimit tx * tx_maxFeePerGas tx\<rparr>"
proof -
  from assms obtain token fee0 ss gs today where *: "sender = B" "\<not> pm_paused P"
    "fee_token (tx_paymasterInput tx) = Inr token" "token = pm_oltinToken P"
    "guard_sponsorship mulDivUp now_ts (tx_from tx) (tx_to tx) (tx_gasLimit tx * tx_maxFeePerGas tx) P = Inr (fee0, ss, gs, today)"
    "fee0 \<le> tk_allowances t (tx_from tx) (pm_address P)"
    "token_transferFrom (pm_address P) (tx_from tx) (pm_address P) fee0 t = Inr t'" "fee = fee0"
    "P' = P\<lparr>pm_senderSpend := (pm_senderSpend P)(tx_from tx :=
                  \<lparr>ds_day = today, ds_spentWei = (ss + tx_gasLimit tx * tx_maxFeePerGas tx) mod UINT192\<rparr>),
                pm_globalSpend := \<lparr>ds_day = today, ds_spentWei = (gs + tx_gasLimit tx * tx_maxFeePerGas tx) mod UINT192\<rparr>,
                pm_totalFeesCollected := pm_totalFeesCollected P + fee0,
                pm_eth := pm_eth P - tx_gasLimit tx * tx_maxFeePerGas tx\<rparr>"
    unfolding validateAndPay_def Let_def rbind_Inr_iff case_prod_beta by (auto simp: not_less)
  have "today = day_of now_ts" by (rule guard_Inr(5) [OF *(5)])
  with * that show thesis by simp
qed

lemma mulDivUp_Inr:
  "mulDivUp_spec mulDivUp \<Longrightarrow> mulDivUp_call mulDivUp x y d = Inr v \<Longrightarrow> v = ceil_div (x * y) d"
  unfolding mulDivUp_spec_def mulDivUp_call_def by (auto split: if_splits option.splits)

lemma feeFor_value:
  assumes "mulDivUp_spec mulDivUp" and "feeFor mulDivUp now_ts eth P = Inr fee"
  shows "fee = max (pm_minFeeOltin P)
           (ceil_div (ceil_div (eth * pm_oltinPerEth P) (10 ^ 18) * (10000 + pm_surchargeBps P)) 10000)"
    and "pm_rateUpdatedAt P \<le> now_ts" and "now_ts - pm_rateUpdatedAt P \<le> pm_maxRateAge P"
proof -
  from assms(2) obtain f1 f2 where f: "mulDivUp_call mulDivUp eth (pm_oltinPerEth P) (10 ^ 18) = Inr f1"
    "mulDivUp_call mulDivUp f1 (10000 + pm_surchargeBps P) 10000 = Inr f2"
    "fee = (if f2 < pm_minFeeOltin P then pm_minFeeOltin P else f2)"
    and fr: "pm_rateUpdatedAt P \<le> now_ts" "now_ts - pm_rateUpdatedAt P \<le> pm_maxRateAge P"
    unfolding feeFor_def Let_def rbind_Inr_iff by (auto simp: not_less split: if_splits)
  from f(3) mulDivUp_Inr [OF assms(1) f(1)] mulDivUp_Inr [OF assms(1) f(2)]
  show "fee = max (pm_minFeeOltin P)
           (ceil_div (ceil_div (eth * pm_oltinPerEth P) (10 ^ 18) * (10000 + pm_surchargeBps P)) 10000)"
    by (simp add: max_def)
  from fr show "pm_rateUpdatedAt P \<le> now_ts" "now_ts - pm_rateUpdatedAt P \<le> pm_maxRateAge P" .
qed

lemma ceil_div_bound: "0 < d \<Longrightarrow> n \<le> ceil_div n d * d"
proof -
  assume d: "0 < d"
  have "(n + d - 1) mod d < d" using d by simp
  moreover have "n + d - 1 = (n + d - 1) div d * d + (n + d - 1) mod d" by simp
  ultimately show ?thesis unfolding ceil_div_def using d by linarith
qed

lemma surcharge_not_less: "n \<le> max m (ceil_div (n * (10000 + b)) 10000)"
proof -
  have "n * 10000 \<le> ceil_div (n * (10000 + b)) 10000 * 10000"
    using ceil_div_bound [of 10000 "n * (10000 + b)"] by (simp add: distrib_left)
  then show ?thesis by simp
qed

section \<open>Daily buckets\<close>

text \<open>The log of sponsored amounts with their days, and what a bucket knows of it.\<close>

definition day_total :: "(nat \<times> nat) list \<Rightarrow> nat \<Rightarrow> nat" where
  "day_total xs d = sum_list (map snd (filter (\<lambda>x. fst x = d) xs))"

definition bucket_ok :: "(nat \<times> nat) list \<Rightarrow> daySpend \<Rightarrow> nat \<Rightarrow> bool" where
  "bucket_ok xs b ts \<longleftrightarrow> (\<forall>x \<in> set xs. fst x \<le> ds_day b) \<and> ds_day b \<le> day_of ts \<and> day_total xs (ds_day b) = ds_spentWei b"

lemma total_snoc: "day_total (xs @ [(d, e)]) d' = day_total xs d' + (if d = d' then e else 0)"
  by (simp add: day_total_def)

lemma total_future: "\<forall>x \<in> set xs. fst x < d \<Longrightarrow> day_total xs d = 0"
proof -
  assume "\<forall>x \<in> set xs. fst x < d"
  then have "filter (\<lambda>x. fst x = d) xs = []" by (auto simp: filter_empty_conv)
  then show ?thesis by (simp add: day_total_def)
qed

lemma day_of_mono: "ts \<le> now_ts \<Longrightarrow> now_ts < UINT64 \<Longrightarrow> day_of ts \<le> day_of now_ts"
proof -
  assume a: "ts \<le> now_ts" "now_ts < UINT64"
  have "now_ts div 86400 \<le> now_ts" "ts div 86400 \<le> now_ts div 86400" using a(1) by (simp_all add: div_le_mono)
  with a show ?thesis by (simp add: day_of_def)
qed

lemma bucket_spent:
  assumes "bucket_ok xs b ts" and "ts \<le> now_ts" and "now_ts < UINT64"
  shows "spent_today (day_of now_ts) b = day_total xs (day_of now_ts)"
proof (cases "ds_day b = day_of now_ts")
  case False
  then have "ds_day b < day_of now_ts" using assms day_of_mono [OF assms(2,3)] by (simp add: bucket_ok_def)
  then have "\<forall>x \<in> set xs. fst x < day_of now_ts" using assms(1) by (auto simp: bucket_ok_def)
  from total_future [OF this] False show ?thesis by (simp add: spent_today_def)
qed (use assms(1) in \<open>auto simp: spent_today_def bucket_ok_def\<close>)

lemma bucket_step:
  assumes "bucket_ok xs b ts" and "ts \<le> now_ts" and "now_ts < UINT64" and "spent_today (day_of now_ts) b + e < UINT192"
  shows "bucket_ok (xs @ [(day_of now_ts, e)])
           \<lparr>ds_day = day_of now_ts, ds_spentWei = (spent_today (day_of now_ts) b + e) mod UINT192\<rparr> now_ts"
  using assms(1,4) bucket_spent [OF assms(1-3)] day_of_mono [OF assms(2,3)]
  by (auto simp: bucket_ok_def total_snoc)

lemma bucket_later: "bucket_ok xs b ts \<Longrightarrow> ts \<le> now_ts \<Longrightarrow> now_ts < UINT64 \<Longrightarrow> bucket_ok xs b now_ts"
  using day_of_mono [of ts now_ts] by (auto simp: bucket_ok_def)

section \<open>Every call, in any order\<close>

datatype pm_call =
    PmSetRate nat
  | PmSetFeeConfig nat nat
  | PmSetCaps nat nat nat
  | PmSetTarget address bool
  | PmPause
  | PmUnpause
  | PmWithdrawFees address
  | PmWithdrawETH bool address nat
  | PmReceive nat

fun pm_exec :: "nat \<Rightarrow> pm_call \<Rightarrow> address \<Rightarrow> paymaster \<Rightarrow> 'a token_scheme \<Rightarrow> (pm_error, paymaster \<times> 'a token_scheme) result" where
  "pm_exec now_ts (PmSetRate r) s P t = rbind (setRate now_ts s r P) (\<lambda>P'. Inr (P', t))"
| "pm_exec now_ts (PmSetFeeConfig b m) s P t = rbind (setFeeConfig s b m P) (\<lambda>P'. Inr (P', t))"
| "pm_exec now_ts (PmSetCaps a b c) s P t = rbind (setCaps s a b c P) (\<lambda>P'. Inr (P', t))"
| "pm_exec now_ts (PmSetTarget a b) s P t = rbind (setSponsoredTarget s a b P) (\<lambda>P'. Inr (P', t))"
| "pm_exec now_ts PmPause s P t = rbind (pm_pause s P) (\<lambda>P'. Inr (P', t))"
| "pm_exec now_ts PmUnpause s P t = rbind (pm_unpause s P) (\<lambda>P'. Inr (P', t))"
| "pm_exec now_ts (PmWithdrawFees a) s P t = withdrawFees s a P t"
| "pm_exec now_ts (PmWithdrawETH ok a v) s P t = rbind (withdrawETH ok s a v P) (\<lambda>P'. Inr (P', t))"
| "pm_exec now_ts (PmReceive v) s P t = Inr (receive_eth v P, t)"

definition pm_config_ok :: "paymaster \<Rightarrow> bool" where
  "pm_config_ok P \<longleftrightarrow> 0 < pm_minRate P \<and> pm_minRate P \<le> pm_oltinPerEth P \<and> pm_oltinPerEth P \<le> pm_maxRate P
     \<and> pm_surchargeBps P \<le> MAX_SURCHARGE_BPS \<and> pm_minFeeOltin P \<le> MAX_MIN_FEE_OLTIN
     \<and> 0 < pm_maxSponsoredEthWei P \<and> 0 < pm_dailyEthCapSender P \<and> 0 < pm_dailyEthCapGlobal P"

lemmas pm_ops = onlyOwner_def setRate_def setFeeConfig_def setCaps_def setSponsoredTarget_def pm_pause_def pm_unpause_def
  withdrawFees_def withdrawETH_def receive_eth_def rbind_Inr_iff

text \<open>An administrative call keeps the configuration in bounds and the buckets as they were.\<close>

lemma pm_exec_keeps:
  assumes "pm_exec now_ts c s P t = Inr (P', t')"
  shows "pm_senderSpend P' = pm_senderSpend P" and "pm_globalSpend P' = pm_globalSpend P"
    and "pm_config_ok P \<Longrightarrow> pm_config_ok P'" and "pm_address P' = pm_address P"
    and "pm_minRate P' = pm_minRate P" and "pm_maxRate P' = pm_maxRate P"
  using assms by (cases c; auto simp: pm_ops pm_config_ok_def Let_def not_less)+

lemma validate_keeps:
  assumes "validateAndPay mulDivUp B ethSent now_ts sender tx P t = Inr (fee, P', t')"
  shows "pm_config_ok P' = pm_config_ok P" and "pm_address P' = pm_address P"
  by (rule validate_run [OF assms], simp add: pm_config_ok_def)+

text \<open>
  The states any sequence of transactions reaches, at times that do not go back, with the log of
  what was sponsored: the day, the user and the ETH.  The caps are below \<^verbatim>\<open>2^192\<close> wei, many orders
  of magnitude above all the ETH there is; the day buckets hold their amounts in that many bits.
  How the ownership moves is the library's \<^verbatim>\<open>Ownable2Step\<close>; the owner may be anyone at any time.
\<close>

inductive pm_reach ::
    "(nat \<Rightarrow> nat \<Rightarrow> nat \<Rightarrow> nat option) \<Rightarrow> address \<Rightarrow> paymaster \<Rightarrow> oltin_token \<Rightarrow> (nat \<times> address \<times> nat) list \<Rightarrow> nat \<Rightarrow> bool"
    for mulDivUp B where
  pm_deployed: "paymaster_constructor this now_ts s oltin r1 r2 age r sur mf c1 c2 c3 = Inr P \<Longrightarrow> token_ok t \<Longrightarrow>
     (\<forall>b. tk_allowances t this b = 0) \<Longrightarrow> now_ts < UINT64 \<Longrightarrow> pm_reach mulDivUp B P t [] now_ts"
| pm_sponsor: "pm_reach mulDivUp B P t L ts \<Longrightarrow> ts \<le> now_ts \<Longrightarrow> now_ts < UINT64 \<Longrightarrow>
     pm_dailyEthCapSender P < UINT192 \<Longrightarrow> pm_dailyEthCapGlobal P < UINT192 \<Longrightarrow> tx_from tx \<noteq> pm_address P \<Longrightarrow>
     validateAndPay mulDivUp B ethSent now_ts s tx P t = Inr (fee, P', t') \<Longrightarrow>
     pm_reach mulDivUp B P' t' (L @ [(day_of now_ts, tx_from tx, tx_gasLimit tx * tx_maxFeePerGas tx)]) now_ts"
| pm_admin: "pm_reach mulDivUp B P t L ts \<Longrightarrow> ts \<le> now_ts \<Longrightarrow> now_ts < UINT64 \<Longrightarrow>
     pm_exec now_ts c s P t = Inr (P', t') \<Longrightarrow> pm_reach mulDivUp B P' t' L now_ts"
| pm_ownership: "pm_reach mulDivUp B P t L ts \<Longrightarrow> pm_reach mulDivUp B (P\<lparr>pm_owner := a\<rparr>) t L ts"
| pm_token: "pm_reach mulDivUp B P t L ts \<Longrightarrow> s \<noteq> pm_address P \<Longrightarrow> oltin_exec tts feed tc s t = Inr t' \<Longrightarrow>
     pm_reach mulDivUp B P t' L ts"

definition day_log :: "(nat \<times> address \<times> nat) list \<Rightarrow> (nat \<times> nat) list" where
  "day_log L = map (\<lambda>(d, u, e). (d, e)) L"

definition sender_log :: "address \<Rightarrow> (nat \<times> address \<times> nat) list \<Rightarrow> (nat \<times> nat) list" where
  "sender_log u L = map (\<lambda>(d, u, e). (d, e)) (filter (\<lambda>(d, v, e). v = u) L)"

lemma log_snoc:
  "day_log (L @ [(d, u, e)]) = day_log L @ [(d, e)]"
  "sender_log v (L @ [(d, u, e)]) = (if v = u then sender_log v L @ [(d, e)] else sender_log v L)"
  by (simp_all add: day_log_def sender_log_def)

definition buckets_ok :: "paymaster \<Rightarrow> (nat \<times> address \<times> nat) list \<Rightarrow> nat \<Rightarrow> bool" where
  "buckets_ok P L ts \<longleftrightarrow> bucket_ok (day_log L) (pm_globalSpend P) ts
     \<and> (\<forall>u. bucket_ok (sender_log u L) (pm_senderSpend P u) ts)"

lemma constructor_facts:
  assumes "paymaster_constructor this now_ts s oltin r1 r2 age r sur mf c1 c2 c3 = Inr P"
  shows "pm_config_ok P" and "buckets_ok P [] now_ts" and "pm_address P = this" and "pm_totalFeesCollected P = 0"
  using assms by (auto simp: paymaster_constructor_def rbind_Inr_iff pm_config_ok_def buckets_ok_def bucket_ok_def
      day_log_def sender_log_def day_total_def not_less)

lemma buckets_sponsor:
  assumes "buckets_ok P L ts" and ts: "ts \<le> now_ts" "now_ts < UINT64"
    and caps: "pm_dailyEthCapSender P < UINT192" "pm_dailyEthCapGlobal P < UINT192"
    and run: "validateAndPay mulDivUp B ethSent now_ts s tx P t = Inr (fee, P', t')"
  shows "buckets_ok P' (L @ [(day_of now_ts, tx_from tx, tx_gasLimit tx * tx_maxFeePerGas tx)]) now_ts"
  using run
proof (rule validate_run)
  let ?e = "tx_gasLimit tx * tx_maxFeePerGas tx"
  fix ss gs
  assume g: "guard_sponsorship mulDivUp now_ts (tx_from tx) (tx_to tx) ?e P = Inr (fee, ss, gs, day_of now_ts)"
    and P': "P' = P\<lparr>pm_senderSpend := (pm_senderSpend P)(tx_from tx :=
                  \<lparr>ds_day = day_of now_ts, ds_spentWei = (ss + ?e) mod UINT192\<rparr>),
                pm_globalSpend := \<lparr>ds_day = day_of now_ts, ds_spentWei = (gs + ?e) mod UINT192\<rparr>,
                pm_totalFeesCollected := pm_totalFeesCollected P + fee, pm_eth := pm_eth P - ?e\<rparr>"
  note G = guard_Inr [OF g]
  have bs: "bucket_ok (sender_log u L) (pm_senderSpend P u) ts" and bg: "bucket_ok (day_log L) (pm_globalSpend P) ts" for u
    using assms(1) by (simp_all add: buckets_ok_def)
  have "bucket_ok (day_log L @ [(day_of now_ts, ?e)]) (pm_globalSpend P') now_ts"
    using bucket_step [OF bg ts, of ?e] G(7,9) caps by (simp add: P')
  moreover have "bucket_ok (sender_log u (L @ [(day_of now_ts, tx_from tx, ?e)])) (pm_senderSpend P' u) now_ts" for u
    using bucket_step [OF bs [of "tx_from tx"] ts, of ?e] bucket_later [OF bs [of u] ts] G(6,8) caps
    by (cases "u = tx_from tx") (simp_all add: P' log_snoc)
  ultimately show ?thesis by (simp add: buckets_ok_def log_snoc)
qed

lemma owner_irrelevant:
  "pm_config_ok (P\<lparr>pm_owner := a\<rparr>) = pm_config_ok P" "buckets_ok (P\<lparr>pm_owner := a\<rparr>) L ts = buckets_ok P L ts"
  by (simp_all add: pm_config_ok_def buckets_ok_def)

lemma pm_reach_ok: "pm_reach mulDivUp B P t L ts \<Longrightarrow> pm_config_ok P \<and> buckets_ok P L ts"
proof (induction rule: pm_reach.induct)
  case (pm_deployed this now_ts s oltin r1 r2 age r sur mf c1 c2 c3 P t)
  then show ?case using constructor_facts(1,2) [OF pm_deployed(1)] by blast
next
  case (pm_sponsor P t L ts now_ts tx ethSent s fee P' t')
  then show ?case
    using validate_keeps(1) [OF pm_sponsor(7)] buckets_sponsor [OF _ pm_sponsor(2-5) pm_sponsor(7)] by blast
next
  case (pm_admin P t L ts now_ts c s P' t')
  then show ?case using pm_exec_keeps(1-3) [OF pm_admin(4)] bucket_later [OF _ pm_admin(2,3)] by (simp add: buckets_ok_def)
qed (simp_all add: owner_irrelevant)

section \<open>Properties\<close>

text \<open>
  C3.  The paymaster's loss is bounded.  Whatever the owner, the users and the bootloader did
  before, a sponsorship that goes through is for an allow-listed target and within the per-transaction
  cap and the ETH the contract holds, and together with everything really sponsored on the same day
  it stays within the daily cap, for the sender and over all senders, at the caps then configured.
\<close>

theorem sponsorship_stays_within_budget:
  assumes "pm_reach mulDivUp B P t L ts" and "ts \<le> now_ts" and "now_ts < UINT64"
    and "validateAndPay mulDivUp B ethSent now_ts s tx P t = Inr (fee, P', t')"
  shows "pm_sponsoredTarget P (tx_to tx) \<and> \<not> pm_paused P
    \<and> tx_gasLimit tx * tx_maxFeePerGas tx \<le> pm_maxSponsoredEthWei P
    \<and> pm_eth P = pm_eth P' + tx_gasLimit tx * tx_maxFeePerGas tx
    \<and> day_total (day_log L) (day_of now_ts) + tx_gasLimit tx * tx_maxFeePerGas tx \<le> pm_dailyEthCapGlobal P
    \<and> day_total (sender_log (tx_from tx) L) (day_of now_ts) + tx_gasLimit tx * tx_maxFeePerGas tx \<le> pm_dailyEthCapSender P"
  using assms(4)
proof (rule validate_run)
  let ?e = "tx_gasLimit tx * tx_maxFeePerGas tx"
  fix ss gs
  assume g: "guard_sponsorship mulDivUp now_ts (tx_from tx) (tx_to tx) ?e P = Inr (fee, ss, gs, day_of now_ts)"
    and P': "P' = P\<lparr>pm_senderSpend := (pm_senderSpend P)(tx_from tx :=
                  \<lparr>ds_day = day_of now_ts, ds_spentWei = (ss + ?e) mod UINT192\<rparr>),
                pm_globalSpend := \<lparr>ds_day = day_of now_ts, ds_spentWei = (gs + ?e) mod UINT192\<rparr>,
                pm_totalFeesCollected := pm_totalFeesCollected P + fee, pm_eth := pm_eth P - ?e\<rparr>"
  note G = guard_Inr [OF g]
  have "buckets_ok P L ts" using pm_reach_ok [OF assms(1)] by simp
  then have "gs = day_total (day_log L) (day_of now_ts)" "ss = day_total (sender_log (tx_from tx) L) (day_of now_ts)"
    using bucket_spent [OF _ assms(2,3), of "day_log L"] bucket_spent [OF _ assms(2,3), of "sender_log (tx_from tx) L"] G(6,7)
    by (simp_all add: buckets_ok_def)
  with G P' show ?thesis by simp
qed

text \<open>
  C12.  The fee is pegged to the ETH the paymaster is about to spend, and to nothing the user
  chooses besides: it covers that ETH at the configured rate, which in every reachable state is at
  least the immutable positive lower bound and not older than the window, it is never below the
  floor, and exactly the fee moves from the user's OLTIN to the paymaster's.
\<close>

theorem fee_is_pegged_to_the_eth_spent:
  assumes "mulDivUp_spec mulDivUp" and "pm_reach mulDivUp B P t L ts" and "token_ok t" and "tx_from tx \<noteq> pm_address P"
    and "validateAndPay mulDivUp B ethSent now_ts s tx P t = Inr (fee, P', t')"
  shows "tx_gasLimit tx * tx_maxFeePerGas tx * pm_oltinPerEth P \<le> fee * 10 ^ 18
    \<and> 0 < pm_minRate P \<and> pm_minRate P \<le> pm_oltinPerEth P \<and> now_ts - pm_rateUpdatedAt P \<le> pm_maxRateAge P
    \<and> pm_minFeeOltin P \<le> fee
    \<and> tk_balances t (tx_from tx) = tk_balances t' (tx_from tx) + fee
    \<and> tk_balances t' (pm_address P) = tk_balances t (pm_address P) + fee
    \<and> pm_totalFeesCollected P' = pm_totalFeesCollected P + fee"
  using assms(5)
proof (rule validate_run)
  let ?e = "tx_gasLimit tx * tx_maxFeePerGas tx"
  fix ss gs
  assume g: "guard_sponsorship mulDivUp now_ts (tx_from tx) (tx_to tx) ?e P = Inr (fee, ss, gs, day_of now_ts)"
    and tf: "token_transferFrom (pm_address P) (tx_from tx) (pm_address P) fee t = Inr t'"
    and P': "P' = P\<lparr>pm_senderSpend := (pm_senderSpend P)(tx_from tx :=
                  \<lparr>ds_day = day_of now_ts, ds_spentWei = (ss + ?e) mod UINT192\<rparr>),
                pm_globalSpend := \<lparr>ds_day = day_of now_ts, ds_spentWei = (gs + ?e) mod UINT192\<rparr>,
                pm_totalFeesCollected := pm_totalFeesCollected P + fee, pm_eth := pm_eth P - ?e\<rparr>"
  note F = feeFor_value [OF assms(1) guard_Inr(10) [OF g]]
  let ?f1 = "ceil_div (?e * pm_oltinPerEth P) (10 ^ 18)"
  have "?f1 \<le> fee" unfolding F(1) by (rule surcharge_not_less)
  then have "?f1 * 10 ^ 18 \<le> fee * 10 ^ 18" by simp
  with ceil_div_bound [of "10 ^ 18" "?e * pm_oltinPerEth P"] have "?e * pm_oltinPerEth P \<le> fee * 10 ^ 18" by simp
  moreover have "pm_config_ok P" using pm_reach_ok [OF assms(2)] by simp
  moreover have "tk_balances t (tx_from tx) = tk_balances t' (tx_from tx) + fee"
    "tk_balances t' (pm_address P) = tk_balances t (pm_address P) + fee"
    using token_transferFrom_move [OF assms(3) tf] assms(4) by (simp_all add: moved_apply)
  moreover have "pm_minFeeOltin P \<le> fee" unfolding F(1) by simp
  ultimately show ?thesis using F(3) P' by (simp add: pm_config_ok_def)
qed

lemma checkSponsorship_granted:
  assumes "checkSponsorship mulDivUp now_ts usr tgt g m P = Inr fee"
  obtains ss gs today where "g * m < UINT256" and "guard_sponsorship mulDivUp now_ts usr tgt (g * m) P = Inr (fee, ss, gs, today)"
  using assms by (auto simp: checkSponsorship_def rbind_Inr_iff)

lemma validate_succeeds:
  assumes inp: "tx_paymasterInput tx = ApprovalBased (Some (pm_oltinToken P, minAllowance, inner))" and np: "\<not> pm_paused P"
    and chk: "checkSponsorship mulDivUp now_ts (tx_from tx) (tx_to tx) (tx_gasLimit tx) (tx_maxFeePerGas tx) P = Inr fee"
    and h: "token_ok t" "\<not> tk_paused t" "tx_from tx \<noteq> address0" "pm_address P \<noteq> address0" "fee \<le> tk_balances t (tx_from tx)"
      "fee \<le> tk_allowances t (tx_from tx) (pm_address P)" "pm_totalFeesCollected P + fee < UINT256"
  shows "\<exists>P' t'. validateAndPay mulDivUp B True now_ts B tx P t = Inr (fee, P', t')"
proof -
  obtain ss gs today where granted: "tx_gasLimit tx * tx_maxFeePerGas tx < UINT256"
    "guard_sponsorship mulDivUp now_ts (tx_from tx) (tx_to tx) (tx_gasLimit tx * tx_maxFeePerGas tx) P = Inr (fee, ss, gs, today)"
    using chk by (rule checkSponsorship_granted)
  obtain t' where "token_transferFrom (pm_address P) (tx_from tx) (pm_address P) fee t = Inr t'"
    using token_transferFrom_succeeds [OF h(1-4) h(4-6)] by blast
  with granted h(6,7) show ?thesis
    by (simp add: validateAndPay_def inp np fee_token_def revert_if_def pm_checked_def token_call_pm_def Let_def not_less [symmetric])
qed

text \<open>
  C13.  The preflight and the validation never disagree.  For a transaction of the bootloader with a
  well-formed input in OLTIN, a refusal of the preflight view is the refusal of the validation, with
  the same typed reason; a validation that goes through charges exactly the fee the preflight named;
  and a transaction the preflight accepts is validated once the user has approved and holds the fee.
\<close>

theorem preflight_agrees_with_validation:
  assumes "tx_paymasterInput tx = ApprovalBased (Some (pm_oltinToken P, minAllowance, inner))" and "\<not> pm_paused P"
  shows "(\<forall>e. checkSponsorship mulDivUp now_ts (tx_from tx) (tx_to tx) (tx_gasLimit tx) (tx_maxFeePerGas tx) P = Inl e
             \<longrightarrow> validateAndPay mulDivUp B ethSent now_ts B tx P t = Inl e)
    \<and> (\<forall>fee P' t'. validateAndPay mulDivUp B ethSent now_ts B tx P t = Inr (fee, P', t')
             \<longrightarrow> checkSponsorship mulDivUp now_ts (tx_from tx) (tx_to tx) (tx_gasLimit tx) (tx_maxFeePerGas tx) P = Inr fee)
    \<and> (\<forall>fee. checkSponsorship mulDivUp now_ts (tx_from tx) (tx_to tx) (tx_gasLimit tx) (tx_maxFeePerGas tx) P = Inr fee
             \<and> token_ok t \<and> \<not> tk_paused t \<and> tx_from tx \<noteq> address0 \<and> pm_address P \<noteq> address0
             \<and> fee \<le> tk_balances t (tx_from tx) \<and> fee \<le> tk_allowances t (tx_from tx) (pm_address P)
             \<and> pm_totalFeesCollected P + fee < UINT256 \<and> ethSent
             \<longrightarrow> (\<exists>P' t'. validateAndPay mulDivUp B ethSent now_ts B tx P t = Inr (fee, P', t')))"
proof -
  let ?e = "tx_gasLimit tx * tx_maxFeePerGas tx"
  let ?G = "guard_sponsorship mulDivUp now_ts (tx_from tx) (tx_to tx) ?e P"
  let ?check = "checkSponsorship mulDivUp now_ts (tx_from tx) (tx_to tx) (tx_gasLimit tx) (tx_maxFeePerGas tx) P"
  let ?validate = "validateAndPay mulDivUp B ethSent now_ts B tx P t"
  note ev = validateAndPay_def checkSponsorship_def assms fee_token_def revert_if_def
  consider "\<not> ?e < UINT256" | (refused) e where "?e < UINT256" "?G = Inl e"
    | (granted) fee ss gs today where "?e < UINT256" "?G = Inr (fee, ss, gs, today)"
    by (cases ?G) auto
  then show ?thesis
  proof cases
    case 1
    then have "?check = Inl Overflow" "?validate = Inl Overflow" by (simp_all add: ev pm_checked_def)
    then show ?thesis by simp
  next
    case refused
    then have "?check = Inl e" "?validate = Inl e" by (simp_all add: ev pm_checked_def)
    then show ?thesis by simp
  next
    case granted
    then have check: "?check = Inr fee" by (simp add: ev pm_checked_def)
    have same: "f = fee" if "?validate = Inr (f, P', t')" for f P' t'
      using that granted(2) by (rule_tac validate_run [OF that]) simp
    have "\<exists>P' t'. ?validate = Inr (fee, P', t')"
      if h: "token_ok t" "\<not> tk_paused t" "tx_from tx \<noteq> address0" "pm_address P \<noteq> address0" "fee \<le> tk_balances t (tx_from tx)"
        "fee \<le> tk_allowances t (tx_from tx) (pm_address P)" "pm_totalFeesCollected P + fee < UINT256" ethSent
      using validate_succeeds [OF assms check h(1-7), of B] h(8) by simp
    with check same show ?thesis by auto
  qed
qed

text \<open>A deployed paymaster with one target and some ETH, and a user who approved the fee.\<close>

definition sample_mulDivUp :: "nat \<Rightarrow> nat \<Rightarrow> nat \<Rightarrow> nat option" where
  "sample_mulDivUp x y d = (if d \<noteq> 0 \<and> ceil_div (x * y) d < UINT256 then Some (ceil_div (x * y) d) else None)"

lemma sample_mulDivUp_spec: "mulDivUp_spec sample_mulDivUp"
  by (simp add: mulDivUp_spec_def sample_mulDivUp_def)

definition deployed_pm :: paymaster where
  "deployed_pm = \<lparr>pm_address = ''paymaster'', pm_oltinToken = ''oltin'', pm_minRate = 1800000000000000000,
     pm_maxRate = 180000000000000000000, pm_maxRateAge = 2592000, pm_oltinPerEth = 18000000000000000000, pm_rateUpdatedAt = 1000,
     pm_surchargeBps = 300, pm_minFeeOltin = 10000000000000, pm_maxSponsoredEthWei = 500000000000000,
     pm_dailyEthCapSender = 500000000000000, pm_dailyEthCapGlobal = 5000000000000000, pm_totalFeesCollected = 0,
     pm_sponsoredTarget = (\<lambda>_. False), pm_senderSpend = (\<lambda>_. \<lparr>ds_day = 0, ds_spentWei = 0\<rparr>),
     pm_globalSpend = \<lparr>ds_day = 0, ds_spentWei = 0\<rparr>, pm_paused = False, pm_owner = ''admin'', pm_eth = 0\<rparr>"

definition open_pm :: paymaster where
  "open_pm = deployed_pm\<lparr>pm_sponsoredTarget := (\<lambda>_. False)(''oltin'' := True), pm_eth := 1000000000000000\<rparr>"

definition fee_oltin :: oltin_token where
  "fee_oltin = sample_oltin\<lparr>tk_balances := (\<lambda>_. 0)(''user'' := 1000000000000000), tk_totalSupply := 1000000000000000,
     tk_allowances := (\<lambda>_ _. 0)(''user'' := (\<lambda>_. 0)(''paymaster'' := 300000000000000))\<rparr>"

lemma fee_oltin_ok: "token_ok fee_oltin"
proof -
  have h: "holders fee_oltin = {''user''}" by (auto simp: holders_def fee_oltin_def)
  show ?thesis by (simp add: token_ok_def h) (simp add: fee_oltin_def UINT256_def)
qed

lemma open_pm_reach: "pm_reach mulDivUp B open_pm fee_oltin [] 1000"
proof -
  have nz: "''oltin'' \<noteq> address0" by (rule not_address0) simp
  have "paymaster_constructor ''paymaster'' 1000 ''admin'' ''oltin'' 1800000000000000000 180000000000000000000 2592000
      18000000000000000000 300 10000000000000 500000000000000 500000000000000 5000000000000000 = Inr deployed_pm"
    using nz by (simp add: paymaster_constructor_def revert_if_def MAX_SURCHARGE_BPS_def MAX_MIN_FEE_OLTIN_def deployed_pm_def)
  moreover have "\<forall>b. tk_allowances fee_oltin ''paymaster'' b = 0" by (simp add: fee_oltin_def)
  moreover have t64: "1000 < UINT64" by (simp add: UINT64_def)
  ultimately have r0: "pm_reach mulDivUp B deployed_pm fee_oltin [] 1000" by (rule pm_deployed [OF _ fee_oltin_ok])
  have "pm_exec 1000 (PmSetTarget ''oltin'' True) ''admin'' deployed_pm fee_oltin
      = Inr (deployed_pm\<lparr>pm_sponsoredTarget := (\<lambda>_. False)(''oltin'' := True)\<rparr>, fee_oltin)"
    using nz by (simp add: setSponsoredTarget_def onlyOwner_def revert_if_def deployed_pm_def)
  from pm_admin [OF r0 order_refl t64 this]
  have r1: "pm_reach mulDivUp B (deployed_pm\<lparr>pm_sponsoredTarget := (\<lambda>_. False)(''oltin'' := True)\<rparr>) fee_oltin [] 1000" .
  have "pm_exec 1000 (PmReceive 1000000000000000) ''admin'' (deployed_pm\<lparr>pm_sponsoredTarget := (\<lambda>_. False)(''oltin'' := True)\<rparr>) fee_oltin
      = Inr (open_pm, fee_oltin)" by (simp add: receive_eth_def open_pm_def deployed_pm_def)
  from pm_admin [OF r1 order_refl t64 this] show ?thesis .
qed

definition sample_tx :: zk_transaction where
  "sample_tx = \<lparr>tx_from = ''user'', tx_to = ''oltin'', tx_gasLimit = 308343, tx_maxFeePerGas = 45250000,
     tx_paymasterInput = ApprovalBased (Some (''oltin'', 0, []))\<rparr>"

lemma sample_check: "checkSponsorship sample_mulDivUp 2000 ''user'' ''oltin'' 308343 45250000 open_pm = Inr 258679734705000"
proof -
  have "\<forall>n \<in> {13952520750000 :: nat, 251145373500000, 258679734705000}. n < UINT256" by (simp add: UINT256_def)
  then show ?thesis
    by (simp add: checkSponsorship_def guard_sponsorship_def revert_if_def pm_checked_def open_pm_def deployed_pm_def
        spent_today_def feeFor_def mulDivUp_call_def sample_mulDivUp_def ceil_div_def Let_def)
qed

lemma sample_pm_facts:
  "tx_from sample_tx = ''user''" "tx_to sample_tx = ''oltin''" "tx_gasLimit sample_tx = 308343" "tx_maxFeePerGas sample_tx = 45250000"
  "pm_address open_pm = ''paymaster''" "\<not> pm_paused open_pm" "pm_totalFeesCollected open_pm = 0"
  "tx_paymasterInput sample_tx = ApprovalBased (Some (pm_oltinToken open_pm, 0, []))"
  "\<not> tk_paused fee_oltin" "tk_balances fee_oltin ''user'' = 1000000000000000"
  "tk_allowances fee_oltin ''user'' ''paymaster'' = 300000000000000"
  by (simp_all add: sample_tx_def open_pm_def deployed_pm_def fee_oltin_def sample_oltin_def)

theorem preflight_agrees_with_validation_witness:
  "\<exists>P' t'. validateAndPay sample_mulDivUp ''bootloader'' True 2000 ''bootloader'' sample_tx open_pm fee_oltin
             = Inr (258679734705000, P', t')"
proof -
  have nz: "''user'' \<noteq> address0" "''paymaster'' \<noteq> address0" by (rule not_address0, simp)+
  have "258679734705000 < UINT256" by (simp add: UINT256_def)
  with preflight_agrees_with_validation [OF sample_pm_facts(8,6), of sample_mulDivUp 2000 "''bootloader''" True fee_oltin,
      THEN conjunct2, THEN conjunct2, THEN spec, of 258679734705000] nz sample_check fee_oltin_ok
  show ?thesis by (simp add: sample_pm_facts)
qed

lemma sample_validate:
  "\<exists>P' t'. validateAndPay sample_mulDivUp ''bootloader'' True 2000 ''bootloader'' sample_tx open_pm fee_oltin
             = Inr (258679734705000, P', t')"
proof -
  have nz: "''user'' \<noteq> address0" "''paymaster'' \<noteq> address0" by (rule not_address0, simp)+
  have "258679734705000 < UINT256" by (simp add: UINT256_def)
  with nz sample_check fee_oltin_ok show ?thesis
    by (intro validate_succeeds [OF sample_pm_facts(8,6)]) (simp_all add: sample_pm_facts)
qed

theorem sponsorship_stays_within_budget_witness:
  "\<exists>P' t'. validateAndPay sample_mulDivUp ''bootloader'' True 2000 ''bootloader'' sample_tx open_pm fee_oltin
             = Inr (258679734705000, P', t') \<and> pm_eth open_pm = pm_eth P' + 13952520750000"
proof -
  obtain P' t' where run: "validateAndPay sample_mulDivUp ''bootloader'' True 2000 ''bootloader'' sample_tx open_pm fee_oltin
             = Inr (258679734705000, P', t')" using sample_validate by blast
  have "(2000 :: nat) < UINT64" by (simp add: UINT64_def)
  with sponsorship_stays_within_budget [OF open_pm_reach _ _ run] have "pm_eth open_pm = pm_eth P' + 13952520750000"
    by (simp add: sample_pm_facts)
  with run show ?thesis by blast
qed

theorem fee_is_pegged_to_the_eth_spent_witness:
  "\<exists>P' t'. validateAndPay sample_mulDivUp ''bootloader'' True 2000 ''bootloader'' sample_tx open_pm fee_oltin
             = Inr (258679734705000, P', t') \<and> tk_balances t' ''paymaster'' = tk_balances fee_oltin ''paymaster'' + 258679734705000"
proof -
  obtain P' t' where run: "validateAndPay sample_mulDivUp ''bootloader'' True 2000 ''bootloader'' sample_tx open_pm fee_oltin
             = Inr (258679734705000, P', t')" using sample_validate by blast
  have "tx_from sample_tx \<noteq> pm_address open_pm" by (simp add: sample_pm_facts)
  from fee_is_pegged_to_the_eth_spent [OF sample_mulDivUp_spec open_pm_reach fee_oltin_ok this run]
  have "tk_balances t' ''paymaster'' = tk_balances fee_oltin ''paymaster'' + 258679734705000" by (simp add: sample_pm_facts)
  with run show ?thesis by blast
qed

end
