(* ===== verification/StakingContract.thy ===== *)
theory StakingContract
  imports Tokens
begin

text \<open>
  The staking contract \<^verbatim>\<open>OltinStaking.sol\<close>: deposits are lots with a seven day lock each, rewards
  accrue at seven percent a year and are paid from a funded pool.  Contract and token are two states
  that a call changes together; a call of the contract on the token is a call of \<open>Erc20\<close> with the
  contract as its sender.  The loops over the lots are the index loops of the source.  The token
  does not call back, so the reentrancy lock is always free when a call starts.
\<close>

definition UINT128 :: nat where "UINT128 = 2 ^ 128"


definition FUNDER_ROLE :: string where "FUNDER_ROLE = ''FUNDER_ROLE''"
definition APY_BPS :: nat where "APY_BPS = 700"
definition LOCK_PERIOD :: nat where "LOCK_PERIOD = 7 * 86400"
definition SECONDS_PER_YEAR :: nat where "SECONDS_PER_YEAR = 365 * 86400"
definition BPS_DENOMINATOR :: nat where "BPS_DENOMINATOR = 10000"

record lot =
  lot_amount :: nat
  lot_lockedUntil :: nat

record stakeInfo =
  si_totalPrincipal :: nat
  si_lastAccrualAt :: nat
  si_unclaimedReward :: nat
  si_lots :: "lot list"

record staking =
  sk_address :: address
  sk_stakes :: "address \<Rightarrow> stakeInfo"
  sk_totalStaked :: nat
  sk_rewardPool :: nat
  sk_paused :: bool
  sk_roles :: "(string \<times> address) list"

definition no_stake :: stakeInfo where
  "no_stake = \<lparr>si_totalPrincipal = 0, si_lastAccrualAt = 0, si_unclaimedReward = 0, si_lots = []\<rparr>"

definition staking_constructor :: "address \<Rightarrow> address \<Rightarrow> address \<Rightarrow> (revert, staking) result" where
  "staking_constructor this sender oltin =
     rbind (require (oltin \<noteq> address0) ''Zero token address'') (\<lambda>_.
     Inr \<lparr>sk_address = this, sk_stakes = (\<lambda>_. no_stake), sk_totalStaked = 0, sk_rewardPool = 0, sk_paused = False,
          sk_roles = [(FUNDER_ROLE, sender), (PAUSER_ROLE, sender), (DEFAULT_ADMIN_ROLE, sender)]\<rparr>)"

definition sk_onlyRole :: "string \<Rightarrow> address \<Rightarrow> staking \<Rightarrow> (revert, unit) result" where
  "sk_onlyRole role who S = (if (role, who) \<in> set (sk_roles S) then Inr () else Inl (Unauthorized who role))"

definition sk_whenNotPaused :: "staking \<Rightarrow> (revert, unit) result" where
  "sk_whenNotPaused S = (if sk_paused S then Inl EnforcedPause else Inr ())"

section \<open>Rewards\<close>

definition calcReward :: "nat \<Rightarrow> nat \<Rightarrow> nat \<Rightarrow> (revert, nat) result" where
  "calcReward now_ts prin lastAccrualAt =
     (if prin = 0 \<or> lastAccrualAt = 0 \<or> now_ts \<le> lastAccrualAt then Inr 0
      else rbind (checked (prin * APY_BPS)) (\<lambda>p.
           rbind (checked (p * (now_ts - lastAccrualAt))) (\<lambda>n.
           Inr (n div (BPS_DENOMINATOR * SECONDS_PER_YEAR)))))"

definition accrue :: "nat \<Rightarrow> stakeInfo \<Rightarrow> (revert, stakeInfo) result" where
  "accrue now_ts s =
     (if si_lastAccrualAt s = 0 then Inr (s\<lparr>si_lastAccrualAt := now_ts\<rparr>)
      else rbind (if si_totalPrincipal s > 0
                  then rbind (calcReward now_ts (si_totalPrincipal s) (si_lastAccrualAt s)) (\<lambda>reward.
                       if reward > 0
                       then rbind (checked (si_unclaimedReward s + reward)) (\<lambda>u. Inr (s\<lparr>si_unclaimedReward := u\<rparr>))
                       else Inr s)
                  else Inr s)
           (\<lambda>s1. Inr (s1\<lparr>si_lastAccrualAt := now_ts\<rparr>)))"

section \<open>Lots\<close>

definition newLot :: "nat \<Rightarrow> nat \<Rightarrow> (revert, lot) result" where
  "newLot now_ts amount =
     rbind (checked (now_ts + LOCK_PERIOD)) (\<lambda>u.
     Inr \<lparr>lot_amount = amount mod UINT128, lot_lockedUntil = u mod UINT64\<rparr>)"

text \<open>The withdrawal loop takes the remaining amount from the unlocked lots in order.\<close>

function drainLots :: "nat \<Rightarrow> nat \<Rightarrow> nat \<Rightarrow> lot list \<Rightarrow> nat \<times> lot list" where
  "drainLots nowTs i remaining lots =
     (if i < length lots \<and> remaining > 0 then
        let l = lots ! i in
        if lot_amount l = 0 then drainLots nowTs (i + 1) remaining lots
        else if lot_lockedUntil l > nowTs then drainLots nowTs (i + 1) remaining lots
        else let take_amt = (if lot_amount l > remaining then remaining else lot_amount l)
             in drainLots nowTs (i + 1) (remaining - take_amt)
                  (lots[i := l\<lparr>lot_amount := lot_amount l - take_amt mod UINT128\<rparr>])
      else (remaining, lots))"
  by pat_completeness auto
termination by (relation "measure (\<lambda>(nowTs, i, remaining, lots). length lots - i)") auto

text \<open>Compaction: a read and a write index over one array, then pops down to the write index.\<close>

function compactRead :: "nat \<Rightarrow> nat \<Rightarrow> lot list \<Rightarrow> nat \<times> lot list" where
  "compactRead rd wr lots =
     (if rd < length lots then
        if lot_amount (lots ! rd) = 0 then compactRead (rd + 1) wr lots
        else compactRead (rd + 1) (wr + 1) (if wr \<noteq> rd then lots[wr := lots ! rd] else lots)
      else (wr, lots))"
  by pat_completeness auto
termination by (relation "measure (\<lambda>(rd, wr, lots). length lots - rd)") auto

function popLots :: "nat \<Rightarrow> lot list \<Rightarrow> lot list" where
  "popLots wr lots = (if length lots > wr then popLots wr (butlast lots) else lots)"
  by pat_completeness auto
termination by (relation "measure (\<lambda>(wr, lots). length lots)") auto

definition compactLots :: "lot list \<Rightarrow> lot list" where
  "compactLots lots = (case compactRead 0 0 lots of (wr, lots') \<Rightarrow> popLots wr lots')"

declare drainLots.simps [simp del] compactRead.simps [simp del] popLots.simps [simp del]

section \<open>External calls\<close>

definition set_stake :: "address \<Rightarrow> stakeInfo \<Rightarrow> staking \<Rightarrow> staking" where
  "set_stake user s S = S\<lparr>sk_stakes := (sk_stakes S)(user := s)\<rparr>"

definition stake :: "nat \<Rightarrow> address \<Rightarrow> nat \<Rightarrow> staking \<Rightarrow> 'a token_scheme \<Rightarrow> (revert, staking \<times> 'a token_scheme) result" where
  "stake now_ts sender amount S t =
     rbind (sk_whenNotPaused S) (\<lambda>_.
     rbind (require (amount > 0) ''Zero amount'') (\<lambda>_.
     rbind (require (amount \<le> UINT128 - 1) ''Amount too large'') (\<lambda>_.
     rbind (accrue now_ts (sk_stakes S sender)) (\<lambda>s.
     rbind (token_transferFrom (sk_address S) sender (sk_address S) amount t) (\<lambda>t'.
     rbind (newLot now_ts amount) (\<lambda>l.
     rbind (checked (si_totalPrincipal s + amount)) (\<lambda>p.
     rbind (checked (sk_totalStaked S + amount)) (\<lambda>n.
     Inr ((set_stake sender (s\<lparr>si_lots := si_lots s @ [l], si_totalPrincipal := p\<rparr>) S)\<lparr>sk_totalStaked := n\<rparr>, t')))))))))"

definition unstake :: "nat \<Rightarrow> address \<Rightarrow> nat \<Rightarrow> staking \<Rightarrow> 'a token_scheme \<Rightarrow> (revert, staking \<times> 'a token_scheme) result" where
  "unstake now_ts sender amount S t =
     rbind (sk_whenNotPaused S) (\<lambda>_.
     rbind (require (amount > 0) ''Zero amount'') (\<lambda>_.
     rbind (accrue now_ts (sk_stakes S sender)) (\<lambda>s.
     rbind (require (si_totalPrincipal s \<ge> amount) ''Insufficient principal'') (\<lambda>_.
     let (remaining, lots) = drainLots now_ts 0 amount (si_lots s) in
     rbind (require (remaining = 0) ''Insufficient unlocked principal'') (\<lambda>_.
     rbind (if amount \<le> sk_totalStaked S then Inr (sk_totalStaked S - amount) else Inl Panic) (\<lambda>n.
     rbind (token_transfer (sk_address S) sender amount t) (\<lambda>t'.
     Inr ((set_stake sender (s\<lparr>si_totalPrincipal := si_totalPrincipal s - amount, si_lots := compactLots lots\<rparr>) S)
            \<lparr>sk_totalStaked := n\<rparr>, t'))))))))"

definition claim :: "nat \<Rightarrow> address \<Rightarrow> staking \<Rightarrow> 'a token_scheme \<Rightarrow> (revert, nat \<times> staking \<times> 'a token_scheme) result" where
  "claim now_ts sender S t =
     rbind (sk_whenNotPaused S) (\<lambda>_.
     rbind (accrue now_ts (sk_stakes S sender)) (\<lambda>s.
     let owed = si_unclaimedReward s in
     if owed = 0 then Inr (0, set_stake sender s S, t)
     else let paid = (if owed > sk_rewardPool S then sk_rewardPool S else owed) in
       if paid > 0 then
         rbind (token_transfer (sk_address S) sender paid t) (\<lambda>t'.
         Inr (paid, (set_stake sender (s\<lparr>si_unclaimedReward := si_unclaimedReward s - paid\<rparr>) S)
                      \<lparr>sk_rewardPool := sk_rewardPool S - paid\<rparr>, t'))
       else Inr (paid, set_stake sender s S, t)))"

definition compound :: "nat \<Rightarrow> address \<Rightarrow> staking \<Rightarrow> (revert, nat \<times> staking) result" where
  "compound now_ts sender S =
     rbind (sk_whenNotPaused S) (\<lambda>_.
     rbind (accrue now_ts (sk_stakes S sender)) (\<lambda>s.
     let owed = si_unclaimedReward s in
     if owed = 0 then Inr (0, set_stake sender s S)
     else let added = (if owed > sk_rewardPool S then sk_rewardPool S else owed) in
       if added > 0 then
         rbind (require (added \<le> UINT128 - 1) ''Reward too large'') (\<lambda>_.
         rbind (newLot now_ts added) (\<lambda>l.
         rbind (checked (si_totalPrincipal s + added)) (\<lambda>p.
         rbind (checked (sk_totalStaked S + added)) (\<lambda>n.
         Inr (added, (set_stake sender (s\<lparr>si_unclaimedReward := si_unclaimedReward s - added,
                                          si_lots := si_lots s @ [l], si_totalPrincipal := p\<rparr>) S)
                       \<lparr>sk_rewardPool := sk_rewardPool S - added, sk_totalStaked := n\<rparr>)))))
       else Inr (added, set_stake sender s S)))"

definition fundRewardPool :: "address \<Rightarrow> nat \<Rightarrow> staking \<Rightarrow> 'a token_scheme \<Rightarrow> (revert, staking \<times> 'a token_scheme) result" where
  "fundRewardPool sender amount S t =
     rbind (sk_onlyRole FUNDER_ROLE sender S) (\<lambda>_.
     rbind (require (amount > 0) ''Zero amount'') (\<lambda>_.
     rbind (token_transferFrom (sk_address S) sender (sk_address S) amount t) (\<lambda>t'.
     rbind (checked (sk_rewardPool S + amount)) (\<lambda>p.
     Inr (S\<lparr>sk_rewardPool := p\<rparr>, t')))))"

definition withdrawRewardPool :: "address \<Rightarrow> nat \<Rightarrow> staking \<Rightarrow> 'a token_scheme \<Rightarrow> (revert, staking \<times> 'a token_scheme) result" where
  "withdrawRewardPool sender amount S t =
     rbind (sk_onlyRole DEFAULT_ADMIN_ROLE sender S) (\<lambda>_.
     rbind (require (amount > 0 \<and> amount \<le> sk_rewardPool S) ''Invalid amount'') (\<lambda>_.
     rbind (token_transfer (sk_address S) sender amount t) (\<lambda>t'.
     Inr (S\<lparr>sk_rewardPool := sk_rewardPool S - amount\<rparr>, t'))))"

definition sk_pause :: "address \<Rightarrow> staking \<Rightarrow> (revert, staking) result" where
  "sk_pause sender S =
     rbind (sk_onlyRole PAUSER_ROLE sender S) (\<lambda>_. rbind (sk_whenNotPaused S) (\<lambda>_. Inr (S\<lparr>sk_paused := True\<rparr>)))"

definition sk_unpause :: "address \<Rightarrow> staking \<Rightarrow> (revert, staking) result" where
  "sk_unpause sender S =
     rbind (sk_onlyRole PAUSER_ROLE sender S)
       (\<lambda>_. if sk_paused S then Inr (S\<lparr>sk_paused := False\<rparr>) else Inl ExpectedPause)"

section \<open>Views\<close>

text \<open>
  The running sums of the two loops are sums of \<^verbatim>\<open>uint128\<close> amounts that add up to at most
  \<^verbatim>\<open>totalPrincipal\<close>, so their checked additions are plain ones.
\<close>

definition pendingReward :: "nat \<Rightarrow> address \<Rightarrow> staking \<Rightarrow> (revert, nat) result" where
  "pendingReward now_ts user S =
     rbind (calcReward now_ts (si_totalPrincipal (sk_stakes S user)) (si_lastAccrualAt (sk_stakes S user))) (\<lambda>r.
     checked (si_unclaimedReward (sk_stakes S user) + r))"

text \<open>
  The view's sum over the lots.  Its checked additions cannot overflow: the lots of a user add up to
  the user's principal, and all principal is held by the contract.
\<close>

fun unlocked_from :: "nat \<Rightarrow> lot list \<Rightarrow> nat \<Rightarrow> nat" where
  "unlocked_from nowTs [] unlocked = unlocked"
| "unlocked_from nowTs (l # ls) unlocked =
     unlocked_from nowTs ls (if lot_amount l > 0 \<and> lot_lockedUntil l \<le> nowTs then unlocked + lot_amount l else unlocked)"

definition unlockedPrincipal :: "nat \<Rightarrow> address \<Rightarrow> staking \<Rightarrow> nat" where
  "unlockedPrincipal now_ts user S = unlocked_from now_ts (si_lots (sk_stakes S user)) 0"

fun info_from :: "nat \<Rightarrow> lot list \<Rightarrow> nat \<times> nat \<Rightarrow> nat \<times> nat" where
  "info_from nowTs [] acc = acc"
| "info_from nowTs (l # ls) (unlocked, nextUnlockAt) =
     (if lot_amount l = 0 then info_from nowTs ls (unlocked, nextUnlockAt)
      else if lot_lockedUntil l \<le> nowTs then info_from nowTs ls (unlocked + lot_amount l, nextUnlockAt)
      else if lot_lockedUntil l < nextUnlockAt then info_from nowTs ls (unlocked, lot_lockedUntil l)
      else info_from nowTs ls (unlocked, nextUnlockAt))"

record stakeView =
  sv_totalPrincipal :: nat
  sv_unlocked :: nat
  sv_pending :: nat
  sv_lotCount :: nat
  sv_nextUnlockAt :: nat

definition getStakeInfo :: "nat \<Rightarrow> address \<Rightarrow> staking \<Rightarrow> (revert, stakeView) result" where
  "getStakeInfo now_ts user S =
     rbind (pendingReward now_ts user S) (\<lambda>pending.
     let s = sk_stakes S user; (unlocked, nextUnlockAt) = info_from now_ts (si_lots s) (0, UINT256 - 1) in
     Inr \<lparr>sv_totalPrincipal = si_totalPrincipal s, sv_unlocked = unlocked, sv_pending = pending,
          sv_lotCount = length (si_lots s),
          sv_nextUnlockAt = (if nextUnlockAt = UINT256 - 1 then 0 else nextUnlockAt)\<rparr>)"

definition getLot :: "address \<Rightarrow> nat \<Rightarrow> staking \<Rightarrow> (revert, nat \<times> nat) result" where
  "getLot user index S =
     (let lots = si_lots (sk_stakes S user) in
      if index < length lots then Inr (lot_amount (lots ! index), lot_lockedUntil (lots ! index)) else Inl Panic)"

section \<open>The loops over the lots\<close>

lemma popLots_take: "wr \<le> length lots \<Longrightarrow> popLots wr lots = take wr lots"
proof (induction wr lots rule: popLots.induct)
  case (1 wr lots)
  show ?case
  proof (cases "wr < length lots")
    case True
    with 1 have "popLots wr lots = take wr (butlast lots)" by (subst popLots.simps) simp
    moreover have "wr \<le> length lots - 1" using True by simp
    ultimately show ?thesis by (simp add: butlast_conv_take min_absorb1)
  next
    case False
    with 1(2) show ?thesis by (subst popLots.simps) simp
  qed
qed

abbreviation live_lot :: "lot \<Rightarrow> bool" where "live_lot l \<equiv> lot_amount l \<noteq> 0"

lemma compactRead_invariant:
  "wr \<le> rd \<Longrightarrow> rd \<le> length lots \<Longrightarrow> compactRead rd wr lots = (n, lots') \<Longrightarrow>
     n \<le> length lots' \<and> take n lots' = take wr lots @ filter live_lot (drop rd lots)"
proof (induction rd wr lots rule: compactRead.induct)
  case (1 rd wr lots)
  show ?case
  proof (cases "rd < length lots")
    case True
    let ?l = "lots ! rd"
    have dr: "drop rd lots = ?l # drop (Suc rd) lots" using True by (simp add: Cons_nth_drop_Suc)
    show ?thesis
    proof (cases "live_lot ?l")
      case False
      with 1(5) True have "compactRead (rd + 1) wr lots = (n, lots')" by (subst (asm) compactRead.simps) simp
      with 1(1) [OF True] False 1(3) True dr show ?thesis by simp
    next
      case live: True
      let ?ls = "if wr \<noteq> rd then lots[wr := ?l] else lots"
      have ls: "?ls = lots[wr := ?l]" by (simp add: list_update_id)
      from 1(5) True live have "compactRead (rd + 1) (wr + 1) ?ls = (n, lots')"
        by (subst (asm) compactRead.simps) simp
      with 1(2) [OF True live] 1(3) True
      have "n \<le> length lots' \<and> take n lots' = take (wr + 1) ?ls @ filter live_lot (drop (rd + 1) ?ls)" by simp
      moreover have "take (wr + 1) ?ls = take wr lots @ [?l]"
        unfolding ls using True 1(3) by (simp add: take_Suc_conv_app_nth)
      moreover have "drop (rd + 1) ?ls = drop (rd + 1) lots" unfolding ls using 1(3) by simp
      ultimately show ?thesis using live dr by simp
    qed
  next
    case False
    with 1(4,5) have "n = wr" "lots' = lots" by (subst (asm) compactRead.simps, simp)+
    with False 1(3,4) show ?thesis by simp
  qed
qed

lemma compactLots_filter: "compactLots lots = filter live_lot lots"
proof -
  obtain n lots' where r: "compactRead 0 0 lots = (n, lots')" by fastforce
  from compactRead_invariant [OF _ _ r] show ?thesis by (simp add: compactLots_def r popLots_take)
qed

text \<open>The withdrawal loop as a recursion over the list.\<close>

definition open_lot :: "nat \<Rightarrow> lot \<Rightarrow> bool" where "open_lot nowTs l \<longleftrightarrow> lot_lockedUntil l \<le> nowTs"

fun drained :: "nat \<Rightarrow> nat \<Rightarrow> lot list \<Rightarrow> nat \<times> lot list" where
  "drained nowTs r [] = (r, [])"
| "drained nowTs r (l # ls) =
     (let d = (if open_lot nowTs l then min (lot_amount l) r else 0); (r', ls') = drained nowTs (r - d) ls
      in (r', l\<lparr>lot_amount := lot_amount l - d\<rparr> # ls'))"

lemma drained_Cons:
  "drained nowTs r (l # ls) =
     (let d = (if open_lot nowTs l then min (lot_amount l) r else 0)
      in (fst (drained nowTs (r - d) ls), l\<lparr>lot_amount := lot_amount l - d\<rparr> # snd (drained nowTs (r - d) ls)))"
  by (simp add: Let_def case_prod_beta)

lemma drained_0: "drained nowTs 0 ls = (0, ls)"
  by (induction ls) simp_all

lemma drainLots_drained:
  assumes "\<forall>l \<in> set lots. lot_amount l < UINT128"
  shows "drainLots nowTs i r lots = (case drained nowTs r (drop i lots) of (r', ls') \<Rightarrow> (r', take i lots @ ls'))"
  using assms
proof (induction nowTs i r lots rule: drainLots.induct)
  case (1 nowTs i r lots)
  show ?case
  proof (cases "i < length lots \<and> r > 0")
    case True
    let ?l = "lots ! i"
    have dr: "drop i lots = ?l # drop (Suc i) lots" and tk: "take (Suc i) lots = take i lots @ [?l]"
      using True by (simp_all add: Cons_nth_drop_Suc take_Suc_conv_app_nth)
    show ?thesis
    proof (cases "lot_amount ?l = 0 \<or> \<not> open_lot nowTs ?l")
      case skip: True
      then have "drainLots nowTs i r lots = drainLots nowTs (i + 1) r lots"
        using True by (subst drainLots.simps) (auto simp: open_lot_def Let_def)
      also have "\<dots> = (case drained nowTs r (drop (i + 1) lots) of (r', ls') \<Rightarrow> (r', take (i + 1) lots @ ls'))"
        using 1(1,2) [OF True refl] 1(4) skip by (auto simp: open_lot_def not_le)
      finally show ?thesis using skip by (auto simp: dr tk Let_def split: prod.splits)
    next
      case False
      let ?d = "min (lot_amount ?l) r"
      let ?ls = "lots[i := ?l\<lparr>lot_amount := lot_amount ?l - ?d\<rparr>]"
      have small: "lot_amount ?l < UINT128" using 1(4) True by simp
      then have md: "?d mod UINT128 = ?d" by simp
      have tke: "(if lot_amount ?l > r then r else lot_amount ?l) = ?d" by (simp add: min_def)
      have step: "drainLots nowTs i r lots = drainLots nowTs (i + 1) (r - ?d) ?ls"
        using True False md by (subst drainLots.simps) (simp add: open_lot_def Let_def tke not_less)
      have "\<forall>x \<in> set ?ls. lot_amount x < UINT128"
        using 1(4) small set_update_subset_insert [of lots i] by fastforce
      with 1(3) [OF True refl _ _ refl] False md tke
      have "drainLots nowTs (i + 1) (r - ?d) ?ls
          = (case drained nowTs (r - ?d) (drop (i + 1) ?ls) of (r', ls') \<Rightarrow> (r', take (i + 1) ?ls @ ls'))"
        by (simp add: open_lot_def not_less)
      with step False show ?thesis
        using True by (auto simp: dr Let_def take_Suc_conv_app_nth split: prod.splits)
    qed
  next
    case False
    then have "drainLots nowTs i r lots = (r, lots)" by (subst drainLots.simps) (rule if_not_P)
    with False show ?thesis by (cases "r = 0") (auto simp: drained_0)
  qed
qed

lemma drainLots_0:
  "\<forall>l \<in> set lots. lot_amount l < UINT128 \<Longrightarrow> drainLots nowTs 0 r lots = drained nowTs r lots"
  by (simp add: drainLots_drained)

definition amounts :: "lot list \<Rightarrow> nat" where "amounts ls = sum_list (map lot_amount ls)"

definition unlocked_sum :: "nat \<Rightarrow> lot list \<Rightarrow> nat" where
  "unlocked_sum nowTs ls = amounts (filter (open_lot nowTs) ls)"

lemma amounts_simps [simp]:
  "amounts [] = 0" "amounts (l # ls) = lot_amount l + amounts ls" "amounts (xs @ ys) = amounts xs + amounts ys"
  by (simp_all add: amounts_def)

lemma amounts_live: "amounts (filter live_lot ls) = amounts ls" "amounts (filter (\<lambda>l. 0 < lot_amount l) ls) = amounts ls"
  by (induction ls) simp_all

lemma unlocked_from_sum: "unlocked_from nowTs ls n = n + unlocked_sum nowTs ls"
  by (induction ls arbitrary: n) (auto simp: unlocked_sum_def open_lot_def)

lemma unlocked_le_amounts: "unlocked_sum nowTs ls \<le> amounts ls"
  by (induction ls) (auto simp: unlocked_sum_def)

lemma drained_remaining: "fst (drained nowTs r ls) = r - unlocked_sum nowTs ls"
  by (induction ls arbitrary: r) (auto simp: unlocked_sum_def Let_def drained_Cons simp del: drained.simps(2))

lemma drained_amounts: "amounts (snd (drained nowTs r ls)) + r = amounts ls + fst (drained nowTs r ls)"
proof (induction ls arbitrary: r)
  case (Cons l ls)
  let ?d = "if open_lot nowTs l then min (lot_amount l) r else 0"
  from Cons.IH [of "r - ?d"] show ?case
    by (auto simp: Let_def drained_Cons min_def simp del: drained.simps(2) split: if_splits)
qed simp

lemma drained_locked: "filter (\<lambda>l. \<not> open_lot nowTs l) (snd (drained nowTs r ls)) = filter (\<lambda>l. \<not> open_lot nowTs l) ls"
  by (induction ls arbitrary: r) (simp_all add: Let_def open_lot_def drained_Cons del: drained.simps(2))

lemma drained_bounded:
  "\<forall>l \<in> set ls. lot_amount l < N \<and> lot_lockedUntil l < M \<Longrightarrow>
   \<forall>l \<in> set (snd (drained nowTs r ls)). lot_amount l < N \<and> lot_lockedUntil l < M"
  by (induction ls arbitrary: r) (auto simp: Let_def drained_Cons simp del: drained.simps(2))

section \<open>The invariant\<close>

text \<open>A finitely supported function on addresses that adds up to \<open>n\<close>.\<close>

definition adds_up :: "(address \<Rightarrow> nat) \<Rightarrow> nat \<Rightarrow> bool" where
  "adds_up f n \<longleftrightarrow> finite {a. f a \<noteq> 0} \<and> (\<Sum>a | f a \<noteq> 0. f a) = n"

lemma adds_up_finite: "finite A \<Longrightarrow> {a. f a \<noteq> 0} \<subseteq> A \<Longrightarrow> adds_up f n \<longleftrightarrow> (\<Sum>a \<in> A. f a) = n"
proof -
  assume A: "finite A" "{a. f a \<noteq> 0} \<subseteq> A"
  then have "(\<Sum>a \<in> A. f a) = (\<Sum>a | f a \<noteq> 0. f a)" by (intro sum.mono_neutral_right) auto
  moreover have "finite {a. f a \<noteq> 0}" using finite_subset [OF A(2,1)] .
  ultimately show ?thesis by (simp only: adds_up_def simp_thms)
qed

lemma adds_up_upd:
  assumes "adds_up f n" and "m + f x = n + v"
  shows "adds_up (f(x := v)) m"
proof -
  let ?A = "insert x {a. f a \<noteq> 0}"
  have fin: "finite ?A" using assms(1) by (simp add: adds_up_def)
  have "(\<Sum>a \<in> ?A. f a) = n" using adds_up_finite [OF fin, of f n] assms(1) by auto
  with sum_fun_upd [OF fin, of x f v] assms(2) have "(\<Sum>a \<in> ?A. (f(x := v)) a) = m" by simp
  then show ?thesis by (subst adds_up_finite [OF fin]) auto
qed

lemma adds_up_member: "adds_up f n \<Longrightarrow> f x \<le> n"
  using member_le_sum [of x "{a. f a \<noteq> 0}" f] by (cases "f x = 0") (auto simp: adds_up_def)

definition stake_ok :: "stakeInfo \<Rightarrow> bool" where
  "stake_ok s \<longleftrightarrow> amounts (si_lots s) = si_totalPrincipal s
     \<and> (\<forall>l \<in> set (si_lots s). lot_amount l < UINT128 \<and> lot_lockedUntil l < UINT64)"

definition staking_ok :: "staking \<Rightarrow> bool" where
  "staking_ok S \<longleftrightarrow> adds_up (\<lambda>a. si_totalPrincipal (sk_stakes S a)) (sk_totalStaked S) \<and> (\<forall>a. stake_ok (sk_stakes S a))"

definition vault_ok :: "staking \<Rightarrow> 'a token_scheme \<Rightarrow> bool" where
  "vault_ok S t \<longleftrightarrow> token_ok t \<and> staking_ok S
     \<and> sk_totalStaked S + sk_rewardPool S \<le> tk_balances t (sk_address S)
     \<and> (\<forall>b. tk_allowances t (sk_address S) b = 0)"

lemma staking_ok_set:
  assumes "staking_ok S" and "stake_ok s" and "n + si_totalPrincipal (sk_stakes S u) = sk_totalStaked S + si_totalPrincipal s"
    and "sk_stakes S' = (sk_stakes S)(u := s)" and "sk_totalStaked S' = n"
  shows "staking_ok S'"
proof -
  have "(\<lambda>a. si_totalPrincipal (sk_stakes S' a)) = (\<lambda>a. si_totalPrincipal (sk_stakes S a))(u := si_totalPrincipal s)"
    by (auto simp: assms(4))
  with assms adds_up_upd [of "\<lambda>a. si_totalPrincipal (sk_stakes S a)" "sk_totalStaked S" n u "si_totalPrincipal s"]
  show ?thesis by (simp add: staking_ok_def)
qed

lemma staking_ok_stake: "staking_ok S \<Longrightarrow> stake_ok (sk_stakes S u) \<and> si_totalPrincipal (sk_stakes S u) \<le> sk_totalStaked S"
  using adds_up_member [of "\<lambda>a. si_totalPrincipal (sk_stakes S a)"] by (simp add: staking_ok_def)

lemma accrue_effect:
  assumes "accrue now_ts s = Inr s'"
  shows "\<exists>r. calcReward now_ts (si_totalPrincipal s) (si_lastAccrualAt s) = Inr r
       \<and> s' = s\<lparr>si_unclaimedReward := si_unclaimedReward s + r, si_lastAccrualAt := now_ts\<rparr>"
  using assms by (auto simp: accrue_def calcReward_def rbind_Inr_iff split: if_splits)

lemma accrue_keeps:
  assumes "accrue now_ts s = Inr s'"
  shows "si_totalPrincipal s' = si_totalPrincipal s" and "si_lots s' = si_lots s" and "stake_ok s' = stake_ok s"
  using accrue_effect [OF assms] by (auto simp: stake_ok_def)

lemma accrue_pending:
  assumes "si_unclaimedReward s < UINT256" and "accrue now_ts s = Inr s'"
  shows "rbind (calcReward now_ts (si_totalPrincipal s) (si_lastAccrualAt s)) (\<lambda>r. checked (si_unclaimedReward s + r))
           = Inr (si_unclaimedReward s')" and "si_unclaimedReward s' < UINT256" and "si_lastAccrualAt s' = now_ts"
  using assms by (auto simp: accrue_def calcReward_def rbind_Inr_iff checked_def split: if_splits)

lemma newLot_effect:
  "newLot now_ts v = Inr l \<Longrightarrow> v < UINT128 \<Longrightarrow>
     lot_amount l = v \<and> lot_lockedUntil l = (now_ts + LOCK_PERIOD) mod UINT64 \<and> lot_lockedUntil l < UINT64"
  by (auto simp: newLot_def rbind_Inr_iff UINT64_def)

lemma stake_ok_add:
  "stake_ok s \<Longrightarrow> newLot now_ts v = Inr l \<Longrightarrow> v < UINT128 \<Longrightarrow>
     stake_ok (s\<lparr>si_lots := si_lots s @ [l], si_totalPrincipal := si_totalPrincipal s + v\<rparr>)"
  by (frule (1) newLot_effect) (auto simp: stake_ok_def)

lemma stake_ok_drain:
  assumes "stake_ok s" and "drainLots now_ts 0 v (si_lots s) = (0, lots)"
  shows "stake_ok (s\<lparr>si_totalPrincipal := si_totalPrincipal s - v, si_lots := compactLots lots\<rparr>)"
    and "v \<le> si_totalPrincipal s" and "v \<le> unlocked_sum now_ts (si_lots s)"
proof -
  have d: "drained now_ts v (si_lots s) = (0, lots)"
    using assms drainLots_0 [of "si_lots s" now_ts v] by (simp add: stake_ok_def)
  from drained_amounts [of now_ts v "si_lots s"] d have am: "amounts lots + v = amounts (si_lots s)" by simp
  have "\<forall>l \<in> set lots. lot_amount l < UINT128 \<and> lot_lockedUntil l < UINT64"
    using drained_bounded [of "si_lots s" UINT128 UINT64 now_ts v] assms(1) d by (simp add: stake_ok_def)
  with am assms(1) show "stake_ok (s\<lparr>si_totalPrincipal := si_totalPrincipal s - v, si_lots := compactLots lots\<rparr>)"
    by (auto simp: stake_ok_def compactLots_filter amounts_live)
  show "v \<le> si_totalPrincipal s" using am assms(1) by (simp add: stake_ok_def)
  show "v \<le> unlocked_sum now_ts (si_lots s)" using drained_remaining [of now_ts v "si_lots s"] d by simp
qed

lemmas call_binds = guard_binds sk_onlyRole_def sk_whenNotPaused_def rbind_Inr_iff

lemma update_row: "token_update src to v t = Inr t' \<Longrightarrow> tk_allowances t' = tk_allowances t"
  by (auto simp: token_update_def erc20_update_def rbind_Inr_iff split: if_splits)

lemma transfer_row: "token_transfer s to v t = Inr t' \<Longrightarrow> tk_allowances t' = tk_allowances t"
  by (simp add: token_transfer_def transfer_internal_def update_row split: if_splits)

lemma approve_row:
  "approve_internal holder s v t = Inr t' \<Longrightarrow> tk_allowances t' = (tk_allowances t)(holder := (tk_allowances t holder)(s := v))"
  by (auto simp: approve_internal_def split: if_splits)

lemma spend_row:
  assumes "spendAllowance holder s v t = Inr t'"
  shows "a \<noteq> holder \<Longrightarrow> tk_allowances t' a = tk_allowances t a" and "tk_allowances t' a b \<le> tk_allowances t a b"
  using assms by (cases rule: spendAllowance_cases, simp_all add: approve_row [where t = t and t' = t'])+

lemma transferFrom_row:
  assumes "token_transferFrom s src to v t = Inr t'"
  shows "a \<noteq> src \<Longrightarrow> tk_allowances t' a = tk_allowances t a" and "tk_allowances t' a b \<le> tk_allowances t a b"
proof -
  from assms obtain t1 where t1: "spendAllowance src s v t = Inr t1" "token_transfer src to v t1 = Inr t'"
    unfolding token_transferFrom_def rbind_Inr_iff token_transfer_def by blast
  from spend_row [OF t1(1)] transfer_row [OF t1(2)]
  show "a \<noteq> src \<Longrightarrow> tk_allowances t' a = tk_allowances t a" "tk_allowances t' a b \<le> tk_allowances t a b" by simp_all
qed

lemma stake_preserves:
  assumes ok: "vault_ok S t" and ne: "sender \<noteq> sk_address S" and run: "stake now_ts sender v S t = Inr (S', t')"
  shows "vault_ok S' t' \<and> sk_address S' = sk_address S"
proof -
  from run obtain s l where v: "v \<le> UINT128 - 1" and s: "accrue now_ts (sk_stakes S sender) = Inr s"
    and t': "token_transferFrom (sk_address S) sender (sk_address S) v t = Inr t'" and l: "newLot now_ts v = Inr l"
    and S': "S' = (set_stake sender (s\<lparr>si_lots := si_lots s @ [l], si_totalPrincipal := si_totalPrincipal s + v\<rparr>) S)
                    \<lparr>sk_totalStaked := sk_totalStaked S + v\<rparr>"
    unfolding stake_def call_binds by auto
  have sok: "staking_ok S" and tok: "token_ok t" using ok by (simp_all add: vault_ok_def)
  have lt: "v < UINT128" using v by (simp add: UINT128_def)
  have st: "stake_ok s" using staking_ok_stake [OF sok] accrue_keeps(3) [OF s] by simp
  have "staking_ok S'"
    using staking_ok_set [OF sok stake_ok_add [OF st l lt], of "sk_totalStaked S + v" sender S'] accrue_keeps(1) [OF s]
    by (simp add: S' set_stake_def)
  moreover from tk.deposit [OF tok t' ne]
  have "token_ok t'" "tk_balances t' (sk_address S) = tk_balances t (sk_address S) + v" by auto
  ultimately show ?thesis using ok transferFrom_row(1) [OF t', of "sk_address S"] ne by (simp add: vault_ok_def S' set_stake_def)
qed

lemma unstake_run:
  assumes "unstake now_ts sender v S t = Inr (S', t')"
  obtains s lots where "0 < v" and "accrue now_ts (sk_stakes S sender) = Inr s"
    and "drainLots now_ts 0 v (si_lots s) = (0, lots)" and "token_transfer (sk_address S) sender v t = Inr t'"
    and "v \<le> sk_totalStaked S" and "\<not> sk_paused S"
    and "S' = (set_stake sender (s\<lparr>si_totalPrincipal := si_totalPrincipal s - v, si_lots := compactLots lots\<rparr>) S)
                \<lparr>sk_totalStaked := sk_totalStaked S - v\<rparr>"
proof -
  from assms obtain s where s: "accrue now_ts (sk_stakes S sender) = Inr s" unfolding unstake_def call_binds by blast
  obtain r lots where d: "drainLots now_ts 0 v (si_lots s) = (r, lots)" by fastforce
  show thesis
    by (rule that [OF _ s, of lots])
      (use assms d in \<open>auto simp: unstake_def call_binds s split: if_splits\<close>)
qed

lemma unstake_preserves:
  assumes ok: "vault_ok S t" and ne: "sender \<noteq> sk_address S" and run: "unstake now_ts sender v S t = Inr (S', t')"
  shows "vault_ok S' t' \<and> sk_address S' = sk_address S"
  using run
proof (rule unstake_run)
  fix s lots
  assume s: "accrue now_ts (sk_stakes S sender) = Inr s" and d: "drainLots now_ts 0 v (si_lots s) = (0, lots)"
    and t': "token_transfer (sk_address S) sender v t = Inr t'" and le: "v \<le> sk_totalStaked S"
    and S': "S' = (set_stake sender (s\<lparr>si_totalPrincipal := si_totalPrincipal s - v, si_lots := compactLots lots\<rparr>) S)
                    \<lparr>sk_totalStaked := sk_totalStaked S - v\<rparr>"
  have sok: "staking_ok S" and tok: "token_ok t" using ok by (simp_all add: vault_ok_def)
  have st: "stake_ok s" using staking_ok_stake [OF sok] accrue_keeps(3) [OF s] by simp
  note dr = stake_ok_drain [OF st d]
  have "staking_ok S'"
    using staking_ok_set [OF sok dr(1), of "sk_totalStaked S - v" sender S'] accrue_keeps(1) [OF s] dr(2) le
    by (simp add: S' set_stake_def)
  moreover from tk.payout [OF tok t' ne]
  have "token_ok t'" "tk_balances t' (sk_address S) = tk_balances t (sk_address S) - v" by auto
  ultimately show ?thesis using ok le transfer_row [OF t'] by (auto simp: vault_ok_def S' set_stake_def)
qed

lemma stake_ok_unclaimed [simp]: "stake_ok (s\<lparr>si_unclaimedReward := u\<rparr>) = stake_ok s"
  by (simp add: stake_ok_def)

lemma claim_run:
  assumes "claim now_ts sender S t = Inr (paid, S', t')"
  obtains s where "accrue now_ts (sk_stakes S sender) = Inr s" and "\<not> sk_paused S"
    and "paid = min (si_unclaimedReward s) (sk_rewardPool S)"
    and "S' = (set_stake sender (s\<lparr>si_unclaimedReward := si_unclaimedReward s - paid\<rparr>) S)
                \<lparr>sk_rewardPool := sk_rewardPool S - paid\<rparr>"
    and "if paid = 0 then t' = t else token_transfer (sk_address S) sender paid t = Inr t'"
  using assms unfolding claim_def call_binds
  by (auto simp: Let_def rbind_Inr_iff min_def set_stake_def split: if_splits)

lemma claim_preserves:
  assumes ok: "vault_ok S t" and ne: "sender \<noteq> sk_address S" and run: "claim now_ts sender S t = Inr (paid, S', t')"
  shows "vault_ok S' t' \<and> sk_address S' = sk_address S"
  using run
proof (rule claim_run)
  fix s
  assume s: "accrue now_ts (sk_stakes S sender) = Inr s" and paid: "paid = min (si_unclaimedReward s) (sk_rewardPool S)"
    and S': "S' = (set_stake sender (s\<lparr>si_unclaimedReward := si_unclaimedReward s - paid\<rparr>) S)
                \<lparr>sk_rewardPool := sk_rewardPool S - paid\<rparr>"
    and t': "if paid = 0 then t' = t else token_transfer (sk_address S) sender paid t = Inr t'"
  have sok: "staking_ok S" and tok: "token_ok t" using ok by (simp_all add: vault_ok_def)
  have st: "stake_ok s" using staking_ok_stake [OF sok] accrue_keeps(3) [OF s] by simp
  have "staking_ok S'"
    by (rule staking_ok_set [OF sok, of "s\<lparr>si_unclaimedReward := si_unclaimedReward s - paid\<rparr>" "sk_totalStaked S" sender])
      (use st accrue_keeps(1) [OF s] in \<open>simp_all add: S' set_stake_def\<close>)
  moreover have "token_ok t' \<and> tk_balances t' (sk_address S) = tk_balances t (sk_address S) - paid
      \<and> tk_allowances t' = tk_allowances t"
    using t' tok tk.payout [OF tok _ ne] transfer_row by (cases "paid = 0") auto
  moreover have "paid \<le> sk_rewardPool S" using paid by simp
  ultimately show ?thesis using ok by (auto simp: vault_ok_def S' set_stake_def)
qed

lemma compound_run:
  assumes "compound now_ts sender S = Inr (added, S')"
  obtains s where "accrue now_ts (sk_stakes S sender) = Inr s" and "\<not> sk_paused S"
    and "added = min (si_unclaimedReward s) (sk_rewardPool S)" and "added = 0" and "S' = set_stake sender s S"
  | s l where "accrue now_ts (sk_stakes S sender) = Inr s" and "\<not> sk_paused S"
    and "added = min (si_unclaimedReward s) (sk_rewardPool S)" and "0 < added" and "added \<le> UINT128 - 1"
    and "newLot now_ts added = Inr l"
    and "S' = (set_stake sender (s\<lparr>si_unclaimedReward := si_unclaimedReward s - added,
                 si_lots := si_lots s @ [l], si_totalPrincipal := si_totalPrincipal s + added\<rparr>) S)
               \<lparr>sk_rewardPool := sk_rewardPool S - added, sk_totalStaked := sk_totalStaked S + added\<rparr>"
proof -
  from assms obtain s where s: "accrue now_ts (sk_stakes S sender) = Inr s" and np: "\<not> sk_paused S"
    unfolding compound_def call_binds by (auto split: if_splits)
  let ?o = "si_unclaimedReward s" and ?p = "sk_rewardPool S"
  have ad: "(if ?o > ?p then ?p else ?o) = min ?o ?p" by (simp add: min_def)
  have run: "(if ?o = 0 then Inr (0, set_stake sender s S)
      else if min ?o ?p > 0 then
         rbind (require (min ?o ?p \<le> UINT128 - 1) ''Reward too large'') (\<lambda>_.
         rbind (newLot now_ts (min ?o ?p)) (\<lambda>l.
         rbind (checked (si_totalPrincipal s + min ?o ?p)) (\<lambda>p.
         rbind (checked (sk_totalStaked S + min ?o ?p)) (\<lambda>n.
         Inr (min ?o ?p, (set_stake sender (s\<lparr>si_unclaimedReward := ?o - min ?o ?p,
                                          si_lots := si_lots s @ [l], si_totalPrincipal := p\<rparr>) S)
                       \<lparr>sk_rewardPool := ?p - min ?o ?p, sk_totalStaked := n\<rparr>)))))
      else Inr (min ?o ?p, set_stake sender s S)) = Inr (added, S')"
    using assms by (simp only: compound_def sk_whenNotPaused_def np if_False rbind_simps s Let_def ad)
  show thesis
  proof (cases "min ?o ?p = 0")
    case True
    then show ?thesis using run by (intro that(1) [OF s np]) (auto split: if_splits)
  next
    case False
    then have "?o \<noteq> 0" "min ?o ?p > 0" by simp_all
    with run obtain l where "min ?o ?p \<le> UINT128 - 1" "newLot now_ts (min ?o ?p) = Inr l" "added = min ?o ?p"
      "S' = (set_stake sender (s\<lparr>si_unclaimedReward := ?o - min ?o ?p, si_lots := si_lots s @ [l],
                 si_totalPrincipal := si_totalPrincipal s + min ?o ?p\<rparr>) S)
              \<lparr>sk_rewardPool := ?p - min ?o ?p, sk_totalStaked := sk_totalStaked S + min ?o ?p\<rparr>"
      by (auto simp: guard_binds rbind_Inr_iff)
    with False show ?thesis by (intro that(2) [OF s np, of l]) simp_all
  qed
qed

lemma compound_preserves:
  assumes ok: "vault_ok S t" and run: "compound now_ts sender S = Inr (added, S')"
  shows "vault_ok S' t \<and> sk_address S' = sk_address S"
proof -
  have sok: "staking_ok S" using ok by (simp add: vault_ok_def)
  show ?thesis
  using run
  proof (cases rule: compound_run)
    case (1 s)
    have st: "stake_ok s" using staking_ok_stake [OF sok] accrue_keeps(3) [OF 1(1)] by simp
    have "staking_ok S'"
      by (rule staking_ok_set [OF sok st, of "sk_totalStaked S" sender])
        (use accrue_keeps(1) [OF 1(1)] in \<open>simp_all add: 1(5) set_stake_def\<close>)
    then show ?thesis using ok by (simp add: vault_ok_def 1(5) set_stake_def)
  next
    case (2 s l)
    have lt: "added < UINT128" using 2(5) by (simp add: UINT128_def)
    have st: "stake_ok (s\<lparr>si_unclaimedReward := si_unclaimedReward s - added\<rparr>)"
      using staking_ok_stake [OF sok] accrue_keeps(3) [OF 2(1)] by simp
    have "staking_ok S'"
      by (rule staking_ok_set [OF sok stake_ok_add [OF st 2(6) lt], of "sk_totalStaked S + added" sender])
        (use accrue_keeps(1) [OF 2(1)] in \<open>simp_all add: 2(7) set_stake_def\<close>)
    moreover have "added \<le> sk_rewardPool S" using 2(3) by simp
    ultimately show ?thesis using ok by (simp add: vault_ok_def 2(7) set_stake_def)
  qed
qed

lemma fundRewardPool_preserves:
  assumes ok: "vault_ok S t" and ne: "sender \<noteq> sk_address S" and run: "fundRewardPool sender v S t = Inr (S', t')"
  shows "vault_ok S' t' \<and> sk_address S' = sk_address S"
proof -
  from run have t': "token_transferFrom (sk_address S) sender (sk_address S) v t = Inr t'"
    and S': "S' = S\<lparr>sk_rewardPool := sk_rewardPool S + v\<rparr>"
    unfolding fundRewardPool_def call_binds by auto
  from ok tk.deposit [OF _ t' ne] transferFrom_row(1) [OF t', of "sk_address S"] ne show ?thesis
    by (simp add: vault_ok_def S' staking_ok_def)
qed

lemma withdrawRewardPool_preserves:
  assumes ok: "vault_ok S t" and ne: "sender \<noteq> sk_address S" and run: "withdrawRewardPool sender v S t = Inr (S', t')"
  shows "vault_ok S' t' \<and> sk_address S' = sk_address S"
proof -
  from run have t': "token_transfer (sk_address S) sender v t = Inr t'" and le: "v \<le> sk_rewardPool S"
    and S': "S' = S\<lparr>sk_rewardPool := sk_rewardPool S - v\<rparr>"
    unfolding withdrawRewardPool_def call_binds by auto
  from ok tk.payout [OF _ t' ne] transfer_row [OF t'] le show ?thesis
    by (auto simp: vault_ok_def S' staking_ok_def)
qed

section \<open>Every call, by anyone, in any order\<close>

datatype staking_call =
    Stake nat
  | Unstake nat
  | Claim
  | Compound
  | FundRewardPool nat
  | WithdrawRewardPool nat
  | SkPause
  | SkUnpause
  | SkGrantRole string address
  | SkRevokeRole string address
  | SkRenounceRole string address

fun staking_exec ::
    "nat \<Rightarrow> staking_call \<Rightarrow> address \<Rightarrow> staking \<Rightarrow> 'a token_scheme \<Rightarrow> (revert, staking \<times> 'a token_scheme) result" where
  "staking_exec now_ts (Stake v) s S t = stake now_ts s v S t"
| "staking_exec now_ts (Unstake v) s S t = unstake now_ts s v S t"
| "staking_exec now_ts Claim s S t = rbind (claim now_ts s S t) (\<lambda>(_, S', t'). Inr (S', t'))"
| "staking_exec now_ts Compound s S t = rbind (compound now_ts s S) (\<lambda>(_, S'). Inr (S', t))"
| "staking_exec now_ts (FundRewardPool v) s S t = fundRewardPool s v S t"
| "staking_exec now_ts (WithdrawRewardPool v) s S t = withdrawRewardPool s v S t"
| "staking_exec now_ts SkPause s S t = rbind (sk_pause s S) (\<lambda>S'. Inr (S', t))"
| "staking_exec now_ts SkUnpause s S t = rbind (sk_unpause s S) (\<lambda>S'. Inr (S', t))"
| "staking_exec now_ts (SkGrantRole r a) s S t =
     rbind (sk_onlyRole DEFAULT_ADMIN_ROLE s S) (\<lambda>_.
     Inr (if (r, a) \<in> set (sk_roles S) then S else S\<lparr>sk_roles := (r, a) # sk_roles S\<rparr>, t))"
| "staking_exec now_ts (SkRevokeRole r a) s S t =
     rbind (sk_onlyRole DEFAULT_ADMIN_ROLE s S) (\<lambda>_. Inr (S\<lparr>sk_roles := filter (\<lambda>x. x \<noteq> (r, a)) (sk_roles S)\<rparr>, t))"
| "staking_exec now_ts (SkRenounceRole r a) s S t =
     (if a \<noteq> s then Inl BadConfirmation else Inr (S\<lparr>sk_roles := filter (\<lambda>x. x \<noteq> (r, a)) (sk_roles S)\<rparr>, t))"

lemma vault_ok_admin:
  "vault_ok S t \<Longrightarrow> vault_ok (S\<lparr>sk_paused := b\<rparr>) t" "vault_ok S t \<Longrightarrow> vault_ok (S\<lparr>sk_roles := r\<rparr>) t"
  by (simp_all add: vault_ok_def staking_ok_def)

lemma staking_exec_preserves:
  assumes ok: "vault_ok S t" and ne: "s \<noteq> sk_address S" and run: "staking_exec now_ts c s S t = Inr (S', t')"
  shows "vault_ok S' t' \<and> sk_address S' = sk_address S"
proof (cases c)
  case Claim
  with run obtain paid where "claim now_ts s S t = Inr (paid, S', t')" by (auto simp: rbind_Inr_iff)
  with claim_preserves [OF ok ne] show ?thesis by blast
next
  case Compound
  with run obtain added where "compound now_ts s S = Inr (added, S')" "t' = t" by (auto simp: rbind_Inr_iff)
  with compound_preserves [OF ok] show ?thesis by blast
qed (use run stake_preserves [OF ok ne] unstake_preserves [OF ok ne] fundRewardPool_preserves [OF ok ne]
      withdrawRewardPool_preserves [OF ok ne] vault_ok_admin [OF ok] ok in
     \<open>auto simp: sk_pause_def sk_unpause_def rbind_Inr_iff split: if_splits\<close>)

text \<open>Calls on the token by anyone else neither take from the contract nor give it an allowance to lose.\<close>

lemma burn_row: "burn_internal a v t = Inr t' \<Longrightarrow> tk_allowances t' = tk_allowances t"
  by (simp add: burn_internal_def update_row split: if_splits)

lemma token_exec_row:
  assumes "token_exec c s t = Inr t'" and "s \<noteq> a"
  shows "tk_allowances t' a b \<le> tk_allowances t a b"
proof (cases c)
  case (Transfer to v)
  with assms transfer_row show ?thesis by fastforce
next
  case (TransferFrom src to v)
  with assms transferFrom_row(2) show ?thesis by fastforce
next
  case (Approve sp v)
  with assms approve_row [of s sp v t t'] show ?thesis by (simp add: token_approve_def)
next
  case (Burn v)
  with assms burn_row show ?thesis by (fastforce simp: token_burn_def)
next
  case (BurnFrom src v)
  with assms obtain t1 where "spendAllowance src s v t = Inr t1" "burn_internal src v t1 = Inr t'"
    by (auto simp: token_burnFrom_def rbind_Inr_iff)
  with spend_row(2) [of src s v t t1 a b] burn_row [of src v t1 t'] show ?thesis by simp
qed (use assms in \<open>auto simp: token_pause_def token_unpause_def grantRole_def revokeRole_def renounceRole_def
    grantRole_internal_def revokeRole_internal_def rbind_Inr_iff split: if_splits\<close>)

lemma oltin_exec_vault:
  assumes ok: "vault_ok S t" and ne: "s \<noteq> sk_address S" and run: "oltin_exec now_ts feed c s t = Inr t'"
  shows "vault_ok S t'"
proof (cases c)
  case (Inherited tc)
  have tok: "token_ok t" using ok by (simp add: vault_ok_def)
  from Inherited run have r: "token_exec tc s t = Inr t'" by simp
  note eff = token_exec_effect [OF tok r, of "sk_address S"]
  have row: "tk_allowances t (sk_address S) b = 0" for b using ok by (simp add: vault_ok_def)
  have "UINT256 - 1 \<noteq> 0" by (simp add: UINT256_def)
  with eff ne row have "tk_balances t (sk_address S) \<le> tk_balances t' (sk_address S)" by (auto simp: may_spend_def)
  moreover have "tk_allowances t' (sk_address S) b = 0" for b using token_exec_row [OF r ne, of b] row by simp
  ultimately show ?thesis using ok eff by (auto simp: vault_ok_def)
next
  case (Mint to v)
  with run have "mint_internal to v t = Inr t'" using oltin_mint_guard by fastforce
  moreover have "token_ok t" using ok by (simp add: vault_ok_def)
  ultimately have "token_ok t'" and "t' = t\<lparr>tk_totalSupply := tk_totalSupply t + v, tk_balances := (tk_balances t)(to := tk_balances t to + v)\<rparr>"
    using mint_internal_effect by blast+
  then show ?thesis using ok by (auto simp: vault_ok_def)
next
  case (SetFeeConfig b d)
  with run ok show ?thesis by (auto simp: oltin_setFeeConfig_def rbind_Inr_iff vault_ok_def token_ok_def holders_def)
qed

text \<open>
  The states that any interleaving of calls on the two contracts can reach from the deployment.
  The contract is never its own caller, and its calls on the token are part of its own operations.
\<close>

inductive vault_reach :: "staking \<Rightarrow> oltin_token \<Rightarrow> staking \<Rightarrow> oltin_token \<Rightarrow> bool" for S0 t0 where
  deployed: "vault_reach S0 t0 S0 t0"
| staking_step: "vault_reach S0 t0 S t \<Longrightarrow> s \<noteq> sk_address S \<Longrightarrow> staking_exec now_ts c s S t = Inr (S', t') \<Longrightarrow>
    vault_reach S0 t0 S' t'"
| token_step: "vault_reach S0 t0 S t \<Longrightarrow> s \<noteq> sk_address S \<Longrightarrow> oltin_exec ts feed tc s t = Inr t' \<Longrightarrow>
    vault_reach S0 t0 S t'"

lemma vault_reach_ok: "vault_reach S0 t0 S t \<Longrightarrow> vault_ok S0 t0 \<Longrightarrow> vault_ok S t"
proof (induction rule: vault_reach.induct)
  case (staking_step S t s now_ts c S' t')
  with staking_exec_preserves show ?case by blast
next
  case (token_step S t s ts feed tc t')
  with oltin_exec_vault show ?case by blast
qed

lemma staking_constructor_ok:
  assumes "staking_constructor this s oltin = Inr S" and "token_ok t" and "\<forall>b. tk_allowances t this b = 0"
  shows "vault_ok S t"
  using assms by (auto simp: staking_constructor_def guard_binds vault_ok_def staking_ok_def adds_up_def stake_ok_def no_stake_def)

section \<open>Properties\<close>

text \<open>
  C2.  The staking contract is always solvent.  From a deployment on, whatever calls anyone makes
  on the staking contract and on the token, in any order and at any times, the contract's OLTIN
  balance covers all the principal and the whole reward pool, the total is the sum of the users'
  principals, and each principal is the sum of that user's lots.
\<close>

theorem staking_is_always_solvent:
  assumes "staking_constructor this deployer oltin = Inr S0" and "token_ok t0" and "\<forall>b. tk_allowances t0 this b = 0"
    and "vault_reach S0 t0 S t"
  shows "sk_totalStaked S + sk_rewardPool S \<le> tk_balances t (sk_address S)
    \<and> adds_up (\<lambda>u. si_totalPrincipal (sk_stakes S u)) (sk_totalStaked S)
    \<and> (\<forall>u. amounts (si_lots (sk_stakes S u)) = si_totalPrincipal (sk_stakes S u))"
  using vault_reach_ok [OF assms(4) staking_constructor_ok [OF assms(1-3)]]
  by (auto simp: vault_ok_def staking_ok_def stake_ok_def)

text \<open>
  The in-place compaction of the lots, a read and a write index over the storage array and a
  loop of pops, ends and leaves exactly the lots with something left, in their order.
\<close>

lemma compactLots_is_filter: "compactLots lots = filter (\<lambda>l. lot_amount l \<noteq> 0) lots"
  by (rule compactLots_filter)

definition sample_staking :: staking where
  "sample_staking = \<lparr>sk_address = ''vault'', sk_stakes = (\<lambda>_. no_stake), sk_totalStaked = 0, sk_rewardPool = 0,
     sk_paused = False, sk_roles = [(FUNDER_ROLE, ''admin''), (PAUSER_ROLE, ''admin''), (DEFAULT_ADMIN_ROLE, ''admin'')]\<rparr>"

lemma sample_staking_deployed: "staking_constructor ''vault'' ''admin'' ''oltin'' = Inr sample_staking"
proof -
  have "''oltin'' \<noteq> address0" by (rule not_address0) simp
  then show ?thesis by (simp add: staking_constructor_def sample_staking_def require_def)
qed

definition approved_oltin :: oltin_token where
  "approved_oltin = holding_oltin\<lparr>tk_allowances := (\<lambda>_ _. 0)(''user'' := (\<lambda>_. 0)(''vault'' := 5))\<rparr>"

lemma sample_approval:
  "oltin_exec 0 sample_feed (Inherited (Approve ''vault'' 5)) ''user'' holding_oltin = Inr approved_oltin"
proof -
  have "''user'' \<noteq> address0" "''vault'' \<noteq> address0" by (rule not_address0, simp)+
  then show ?thesis by (simp add: token_approve_def approve_internal_def approved_oltin_def holding_oltin_def sample_oltin_def)
qed

lemma stake_succeeds:
  assumes ok: "vault_ok S t" and np: "\<not> sk_paused S" "\<not> tk_paused t" and nz: "sender \<noteq> address0" "sk_address S \<noteq> address0"
    and v: "0 < v" "v < UINT128" and acc: "accrue now_ts (sk_stakes S sender) = Inr s"
    and fits: "now_ts + LOCK_PERIOD < UINT256" "sk_totalStaked S + v < UINT256"
    and have_v: "v \<le> tk_balances t sender" "v \<le> tk_allowances t sender (sk_address S)"
  shows "\<exists>S' t'. stake now_ts sender v S t = Inr (S', t')"
proof -
  have tok: "token_ok t" and sok: "staking_ok S" using ok by (simp_all add: vault_ok_def)
  obtain t' where t': "token_transferFrom (sk_address S) sender (sk_address S) v t = Inr t'"
    using token_transferFrom_succeeds [OF tok np(2) nz nz(2) have_v] by blast
  obtain l where l: "newLot now_ts v = Inr l" using fits(1) by (auto simp: newLot_def checked_def)
  have "si_totalPrincipal s + v < UINT256"
    using staking_ok_stake [OF sok, of sender] accrue_keeps(1) [OF acc] fits(2) by linarith
  moreover have "v \<le> UINT128 - 1" using v(2) by simp
  ultimately show ?thesis
    using np(1) v(1) fits(2) by (simp add: stake_def sk_whenNotPaused_def require_def checked_def acc t' l)
qed

lemma sample_vault:
  "vault_ok sample_staking holding_oltin" "vault_ok sample_staking approved_oltin"
  using staking_constructor_ok [OF sample_staking_deployed holding_oltin_ok] oltin_exec_vault [OF _ _ sample_approval]
  by (simp_all add: sample_staking_def holding_oltin_def sample_oltin_def)

lemma sample_stake: "\<exists>S t. stake 1000 ''user'' 5 sample_staking approved_oltin = Inr (S, t)"
proof -
  have nz: "''user'' \<noteq> address0" "''vault'' \<noteq> address0" by (rule not_address0, simp)+
  have fits: "1000 + LOCK_PERIOD < UINT256" "5 < UINT256" "5 < UINT128"
    by (simp_all add: LOCK_PERIOD_def UINT256_def UINT128_def)
  have acc: "accrue 1000 (sk_stakes sample_staking ''user'') = Inr (no_stake\<lparr>si_lastAccrualAt := 1000\<rparr>)"
    by (simp add: accrue_def sample_staking_def no_stake_def)
  show ?thesis
    using stake_succeeds [OF sample_vault(2) _ _ _ _ _ fits(3) acc] nz fits
    by (simp add: sample_staking_def approved_oltin_def holding_oltin_def sample_oltin_def)
qed

theorem staking_is_always_solvent_witness:
  "\<exists>S t. stake 1000 ''user'' 5 sample_staking approved_oltin = Inr (S, t)
     \<and> sk_totalStaked S + sk_rewardPool S \<le> tk_balances t (sk_address S)"
proof -
  obtain S t where run: "stake 1000 ''user'' 5 sample_staking approved_oltin = Inr (S, t)" using sample_stake by blast
  have ne: "''user'' \<noteq> sk_address sample_staking" by (simp add: sample_staking_def)
  have "vault_reach sample_staking holding_oltin sample_staking approved_oltin"
    by (rule token_step [OF deployed ne sample_approval])
  moreover have "staking_exec 1000 (Stake 5) ''user'' sample_staking approved_oltin = Inr (S, t)" using run by simp
  ultimately have "vault_reach sample_staking holding_oltin S t" by (rule staking_step [OF _ ne])
  moreover have "\<forall>b. tk_allowances holding_oltin ''vault'' b = 0" by (simp add: holding_oltin_def sample_oltin_def)
  ultimately show ?thesis
    using staking_is_always_solvent [OF sample_staking_deployed holding_oltin_ok] run by blast
qed

lemma amounts_split: "amounts ls = unlocked_sum nowTs ls + amounts (filter (\<lambda>l. \<not> open_lot nowTs l) ls)"
  by (induction ls) (simp_all add: unlocked_sum_def)

lemma drained_unlocked:
  "unlocked_sum nowTs (snd (drained nowTs r ls)) + r = unlocked_sum nowTs ls + fst (drained nowTs r ls)"
  using drained_amounts [of nowTs r ls] amounts_split [of ls nowTs] amounts_split [of "snd (drained nowTs r ls)" nowTs]
  by (simp add: drained_locked)

lemma unlocked_live: "unlocked_sum nowTs (filter live_lot ls) = unlocked_sum nowTs ls"
  by (induction ls) (auto simp: unlocked_sum_def)

lemma unstake_succeeds:
  assumes ok: "vault_ok S t" and nz: "sender \<noteq> address0" "sk_address S \<noteq> address0"
    and np: "\<not> sk_paused S" "\<not> tk_paused t" and v: "0 < v" "v \<le> unlockedPrincipal now_ts sender S"
    and acc: "accrue now_ts (sk_stakes S sender) = Inr s"
  shows "\<exists>r. unstake now_ts sender v S t = Inr r"
proof -
  have tok: "token_ok t" and sok: "staking_ok S" using ok by (simp_all add: vault_ok_def)
  have st: "stake_ok s" and lots: "si_lots s = si_lots (sk_stakes S sender)"
    and prin: "si_totalPrincipal s \<le> sk_totalStaked S"
    using staking_ok_stake [OF sok, of sender] accrue_keeps [OF acc] by simp_all
  have un: "v \<le> unlocked_sum now_ts (si_lots s)" using v(2) by (simp add: unlockedPrincipal_def unlocked_from_sum lots)
  have dl: "drainLots now_ts 0 v (si_lots s) = drained now_ts v (si_lots s)"
    using drainLots_0 st by (simp add: stake_ok_def)
  obtain ls where ls: "drained now_ts v (si_lots s) = (0, ls)"
    using drained_remaining [of now_ts v "si_lots s"] un by (cases "drained now_ts v (si_lots s)") simp
  have le: "v \<le> si_totalPrincipal s"
    using un unlocked_le_amounts [of now_ts "si_lots s"] st by (simp add: stake_ok_def)
  have "v \<le> tk_balances t (sk_address S)" using le prin ok by (simp add: vault_ok_def)
  then obtain t' where "token_transfer (sk_address S) sender v t = Inr t'"
    using token_transfer_succeeds [OF tok np(2) nz(2,1)] by blast
  with np(1) v(1) le prin show ?thesis
    by (simp add: unstake_def sk_whenNotPaused_def require_def acc dl ls)
qed

lemma filter_conj_live: "filter (\<lambda>l. P l \<and> live_lot l) (filter live_lot ls) = filter live_lot (filter P ls)"
  by (induction ls) auto

lemma unstake_effect:
  assumes ok: "vault_ok S t" and ne: "sender \<noteq> sk_address S" and run: "unstake now_ts sender v S t = Inr (S', t')"
  shows "v \<le> unlockedPrincipal now_ts sender S"
    and "tk_balances t' sender = tk_balances t sender + v"
    and "si_totalPrincipal (sk_stakes S' sender) + v = si_totalPrincipal (sk_stakes S sender)"
    and "unlockedPrincipal now_ts sender S' + v = unlockedPrincipal now_ts sender S"
    and "filter (\<lambda>l. \<not> open_lot now_ts l \<and> live_lot l) (si_lots (sk_stakes S' sender))
       = filter live_lot (filter (\<lambda>l. \<not> open_lot now_ts l) (si_lots (sk_stakes S sender)))"
    and "u \<noteq> sender \<Longrightarrow> sk_stakes S' u = sk_stakes S u"
proof -
  from run obtain s lots where s: "accrue now_ts (sk_stakes S sender) = Inr s"
    and d: "drainLots now_ts 0 v (si_lots s) = (0, lots)" and t': "token_transfer (sk_address S) sender v t = Inr t'"
    and S': "S' = (set_stake sender (s\<lparr>si_totalPrincipal := si_totalPrincipal s - v, si_lots := compactLots lots\<rparr>) S)
                    \<lparr>sk_totalStaked := sk_totalStaked S - v\<rparr>" by (rule unstake_run)
  have tok: "token_ok t" and sok: "staking_ok S" using ok by (simp_all add: vault_ok_def)
  have st: "stake_ok s" and same: "si_lots s = si_lots (sk_stakes S sender)" "si_totalPrincipal s = si_totalPrincipal (sk_stakes S sender)"
    using staking_ok_stake [OF sok, of sender] accrue_keeps [OF s] by simp_all
  note dr = stake_ok_drain [OF st d]
  have dd: "drained now_ts v (si_lots s) = (0, lots)"
    using d drainLots_0 [of "si_lots s" now_ts v] st by (simp add: stake_ok_def)
  show "v \<le> unlockedPrincipal now_ts sender S" using dr(3) by (simp add: unlockedPrincipal_def unlocked_from_sum same)
  show "tk_balances t' sender = tk_balances t sender + v" using tk.send_moves [OF tok t'] ne by (simp add: moved_apply)
  show "si_totalPrincipal (sk_stakes S' sender) + v = si_totalPrincipal (sk_stakes S sender)"
    using dr(2) by (simp add: S' set_stake_def same)
  show "unlockedPrincipal now_ts sender S' + v = unlockedPrincipal now_ts sender S"
    using drained_unlocked [of now_ts v "si_lots s"] unlocked_live [of now_ts lots]
    by (simp add: S' set_stake_def unlockedPrincipal_def unlocked_from_sum compactLots_filter dd [unfolded same] same)
  show "filter (\<lambda>l. \<not> open_lot now_ts l \<and> live_lot l) (si_lots (sk_stakes S' sender))
      = filter live_lot (filter (\<lambda>l. \<not> open_lot now_ts l) (si_lots (sk_stakes S sender)))"
  proof -
    have "si_lots (sk_stakes S' sender) = filter live_lot lots" by (simp add: S' set_stake_def compactLots_filter)
    moreover have "filter (\<lambda>l. \<not> open_lot now_ts l) lots = filter (\<lambda>l. \<not> open_lot now_ts l) (si_lots (sk_stakes S sender))"
      using drained_locked [of now_ts v "si_lots s"] dd by (simp add: same)
    ultimately show ?thesis using filter_conj_live [of "\<lambda>l. \<not> open_lot now_ts l" lots] by (simp only:)
  qed
  show "u \<noteq> sender \<Longrightarrow> sk_stakes S' u = sk_stakes S u" by (simp add: S' set_stake_def)
qed

text \<open>
  C11.  A withdrawal of principal succeeds exactly up to the unlocked principal the contract reports,
  in every state that is in order and not paused.  It then pays exactly the amount, lowers the
  principal and the unlocked principal by it, leaves every locked lot with its amount and its lock,
  and touches nobody else's stake.
\<close>

theorem unstake_pays_exactly_the_unlocked:
  assumes "vault_ok S t" and "sender \<noteq> sk_address S" and "sender \<noteq> address0" and "sk_address S \<noteq> address0"
    and "\<not> sk_paused S" and "\<not> tk_paused t" and "0 < v" and "accrue now_ts (sk_stakes S sender) = Inr s"
  shows "((\<exists>r. unstake now_ts sender v S t = Inr r) \<longleftrightarrow> v \<le> unlockedPrincipal now_ts sender S)
    \<and> (\<forall>S' t'. unstake now_ts sender v S t = Inr (S', t') \<longrightarrow>
         tk_balances t' sender = tk_balances t sender + v
         \<and> si_totalPrincipal (sk_stakes S' sender) + v = si_totalPrincipal (sk_stakes S sender)
         \<and> unlockedPrincipal now_ts sender S' + v = unlockedPrincipal now_ts sender S
         \<and> filter (\<lambda>l. \<not> open_lot now_ts l \<and> live_lot l) (si_lots (sk_stakes S' sender))
           = filter live_lot (filter (\<lambda>l. \<not> open_lot now_ts l) (si_lots (sk_stakes S sender)))
         \<and> (\<forall>u. u \<noteq> sender \<longrightarrow> sk_stakes S' u = sk_stakes S u))"
proof -
  have "(\<exists>r. unstake now_ts sender v S t = Inr r) \<longleftrightarrow> v \<le> unlockedPrincipal now_ts sender S"
  proof
    assume "\<exists>r. unstake now_ts sender v S t = Inr r"
    then obtain S' t' where "unstake now_ts sender v S t = Inr (S', t')" by auto
    then show "v \<le> unlockedPrincipal now_ts sender S" by (rule unstake_effect(1) [OF assms(1,2)])
  qed (rule unstake_succeeds [OF assms(1,3-7) _ assms(8)])
  with unstake_effect(2-6) [OF assms(1,2)] show ?thesis by (intro conjI allI impI) auto
qed

definition staked_vault :: staking where
  "staked_vault = sample_staking\<lparr>sk_totalStaked := 5,
     sk_stakes := (\<lambda>_. no_stake)(''user'' := \<lparr>si_totalPrincipal = 5, si_lastAccrualAt = 1000, si_unclaimedReward = 0,
       si_lots = [\<lparr>lot_amount = 5, lot_lockedUntil = 605800\<rparr>]\<rparr>)\<rparr>"

definition staked_oltin :: oltin_token where
  "staked_oltin = sample_oltin\<lparr>tk_balances := (\<lambda>_. 0)(''user'' := 2, ''vault'' := 5), tk_totalSupply := 7\<rparr>"

lemma staked_oltin_ok: "token_ok staked_oltin"
proof -
  have h: "holders staked_oltin = {''user'', ''vault''}" by (auto simp: holders_def staked_oltin_def)
  show ?thesis by (simp add: token_ok_def h) (simp add: staked_oltin_def UINT256_def)
qed

lemma staked_vault_ok: "vault_ok staked_vault staked_oltin"
proof -
  have "adds_up (\<lambda>a. si_totalPrincipal (sk_stakes sample_staking a)) 0"
    by (simp add: adds_up_def sample_staking_def no_stake_def)
  then have "adds_up ((\<lambda>a. si_totalPrincipal (sk_stakes sample_staking a))(''user'' := 5)) 5"
    by (rule adds_up_upd) (simp add: sample_staking_def no_stake_def)
  moreover have "(\<lambda>a. si_totalPrincipal (sk_stakes sample_staking a))(''user'' := 5) = (\<lambda>a. si_totalPrincipal (sk_stakes staked_vault a))"
    by (auto simp: sample_staking_def staked_vault_def)
  ultimately have "staking_ok staked_vault"
    by (simp add: staking_ok_def stake_ok_def) (simp add: staked_vault_def no_stake_def UINT128_def UINT64_def)
  then show ?thesis using staked_oltin_ok
    by (simp add: vault_ok_def) (simp add: staked_vault_def sample_staking_def staked_oltin_def sample_oltin_def)
qed

lemma staked_vault_accrue:
  "accrue 700000 (sk_stakes staked_vault ''user'') = Inr ((sk_stakes staked_vault ''user'')\<lparr>si_lastAccrualAt := 700000\<rparr>)"
  by (simp add: staked_vault_def accrue_def calcReward_def checked_def UINT256_def APY_BPS_def BPS_DENOMINATOR_def SECONDS_PER_YEAR_def)

theorem unstake_pays_exactly_the_unlocked_witness:
  "(\<exists>r. unstake 700000 ''user'' 3 staked_vault staked_oltin = Inr r)
     \<and> \<not> (\<exists>r. unstake 700000 ''user'' 6 staked_vault staked_oltin = Inr r)"
proof -
  have nz: "''user'' \<noteq> address0" "sk_address staked_vault \<noteq> address0" "''user'' \<noteq> sk_address staked_vault"
    by (rule not_address0, simp add: staked_vault_def sample_staking_def)+ (simp add: staked_vault_def sample_staking_def)
  have np: "\<not> sk_paused staked_vault" "\<not> tk_paused staked_oltin"
    by (simp_all add: staked_vault_def sample_staking_def staked_oltin_def sample_oltin_def)
  have un: "unlockedPrincipal 700000 ''user'' staked_vault = 5" by (simp add: unlockedPrincipal_def staked_vault_def)
  note use_it = unstake_pays_exactly_the_unlocked [OF staked_vault_ok nz(3,1,2) np _ staked_vault_accrue]
  have "\<exists>r. unstake 700000 ''user'' 3 staked_vault staked_oltin = Inr r" using use_it [of 3] un by simp
  moreover have "\<not> (\<exists>r. unstake 700000 ''user'' 6 staked_vault staked_oltin = Inr r)" using use_it [of 6] un by simp
  ultimately show ?thesis by blast
qed

text \<open>
  C20.  A claim pays exactly the pending reward the contract reports, or the whole pool if that is
  less: the claimant's wallet grows by it, the pool falls by it, the rest stays claimable, and
  principal, lots and the total staked are untouched.
\<close>

theorem claim_pays_the_pending_reward:
  assumes "vault_ok S t" and "sender \<noteq> sk_address S" and "si_unclaimedReward (sk_stakes S sender) < UINT256"
    and "claim now_ts sender S t = Inr (paid, S', t')"
  shows "\<exists>pending. pendingReward now_ts sender S = Inr pending \<and> paid = min pending (sk_rewardPool S)
     \<and> pendingReward now_ts sender S' = Inr (pending - paid)
     \<and> sk_rewardPool S = sk_rewardPool S' + paid \<and> tk_balances t' sender = tk_balances t sender + paid
     \<and> si_totalPrincipal (sk_stakes S' sender) = si_totalPrincipal (sk_stakes S sender)
     \<and> si_lots (sk_stakes S' sender) = si_lots (sk_stakes S sender) \<and> sk_totalStaked S' = sk_totalStaked S"
  using assms(4)
proof (rule claim_run)
  fix s
  assume s: "accrue now_ts (sk_stakes S sender) = Inr s" and paid: "paid = min (si_unclaimedReward s) (sk_rewardPool S)"
    and S': "S' = (set_stake sender (s\<lparr>si_unclaimedReward := si_unclaimedReward s - paid\<rparr>) S)
                \<lparr>sk_rewardPool := sk_rewardPool S - paid\<rparr>"
    and t': "if paid = 0 then t' = t else token_transfer (sk_address S) sender paid t = Inr t'"
  have tok: "token_ok t" using assms(1) by (simp add: vault_ok_def)
  note pend = accrue_pending [OF assms(3) s]
  have "tk_balances t' sender = tk_balances t sender + paid"
    using t' tk.send_moves [OF tok, of "sk_address S" sender paid t'] assms(2) by (cases "paid = 0") (simp_all add: moved_apply)
  moreover have "pendingReward now_ts sender S' = Inr (si_unclaimedReward s - paid)"
    using pend by (simp add: pendingReward_def S' set_stake_def calcReward_def checked_def)
  ultimately show ?thesis using pend paid accrue_keeps [OF s]
    by (intro exI [of _ "si_unclaimedReward s"]) (simp add: pendingReward_def S' set_stake_def)
qed

definition rewarded_vault :: staking where
  "rewarded_vault = staked_vault\<lparr>sk_totalStaked := 2, sk_rewardPool := 3,
     sk_stakes := (\<lambda>_. no_stake)(''user'' := \<lparr>si_totalPrincipal = 2, si_lastAccrualAt = 1000, si_unclaimedReward = 4,
       si_lots = [\<lparr>lot_amount = 2, lot_lockedUntil = 605800\<rparr>]\<rparr>)\<rparr>"

lemma rewarded_vault_ok: "vault_ok rewarded_vault staked_oltin"
proof -
  have "adds_up (\<lambda>_. 0) 0" by (simp add: adds_up_def)
  then have "adds_up ((\<lambda>_. 0)(''user'' := 2)) 2" by (rule adds_up_upd) simp
  moreover have "(\<lambda>_. 0)(''user'' := 2) = (\<lambda>a. si_totalPrincipal (sk_stakes rewarded_vault a))"
    by (auto simp: rewarded_vault_def no_stake_def)
  ultimately have "staking_ok rewarded_vault"
    by (simp add: staking_ok_def stake_ok_def) (simp add: rewarded_vault_def no_stake_def UINT128_def UINT64_def)
  then show ?thesis using staked_oltin_ok
    by (simp add: vault_ok_def) (simp add: rewarded_vault_def staked_vault_def sample_staking_def staked_oltin_def sample_oltin_def)
qed

theorem claim_pays_the_pending_reward_witness:
  "\<exists>S' t'. claim 2000 ''user'' rewarded_vault staked_oltin = Inr (3, S', t')
     \<and> tk_balances t' ''user'' = tk_balances staked_oltin ''user'' + 3 \<and> pendingReward 2000 ''user'' S' = Inr 1"
proof -
  have nz: "''user'' \<noteq> address0" "''vault'' \<noteq> address0" by (rule not_address0, simp)+
  have big: "(1400 :: nat) < UINT256" "1400000 < UINT256" "4 < UINT256" by (simp_all add: UINT256_def)
  have acc: "accrue 2000 (sk_stakes rewarded_vault ''user'') = Inr ((sk_stakes rewarded_vault ''user'')\<lparr>si_lastAccrualAt := 2000\<rparr>)"
    using big by (simp add: rewarded_vault_def accrue_def calcReward_def checked_def APY_BPS_def BPS_DENOMINATOR_def SECONDS_PER_YEAR_def)
  have st: "sk_address rewarded_vault = ''vault''" "\<not> sk_paused rewarded_vault" "sk_rewardPool rewarded_vault = 3"
    "si_unclaimedReward (sk_stakes rewarded_vault ''user'') = 4" "\<not> tk_paused staked_oltin" "tk_balances staked_oltin ''vault'' = 5"
    by (simp_all add: rewarded_vault_def staked_vault_def sample_staking_def staked_oltin_def sample_oltin_def)
  obtain t' where "token_transfer ''vault'' ''user'' 3 staked_oltin = Inr t'"
    using token_transfer_succeeds [OF staked_oltin_ok st(5) nz(2,1), of 3] st(6) by auto
  then obtain S' where run: "claim 2000 ''user'' rewarded_vault staked_oltin = Inr (3, S', t')"
    by (simp add: claim_def sk_whenNotPaused_def acc st)
  have "''user'' \<noteq> sk_address rewarded_vault" "si_unclaimedReward (sk_stakes rewarded_vault ''user'') < UINT256"
    using big by (simp_all add: st)
  from claim_pays_the_pending_reward [OF rewarded_vault_ok this run] obtain pending where
    p: "pendingReward 2000 ''user'' rewarded_vault = Inr pending" "pendingReward 2000 ''user'' S' = Inr (pending - 3)"
      "tk_balances t' ''user'' = tk_balances staked_oltin ''user'' + 3" by blast
  have "pending = 4" using p(1) accrue_pending(1) [OF _ acc] big by (simp add: pendingReward_def st)
  with p run show ?thesis by auto
qed

lemma floor_split: "a div c + b div c \<le> (a + b) div c \<and> (a + b) div c \<le> a div c + b div c + (1 :: nat)"
proof (cases "c = 0")
  case False
  then have "a mod c < c" "b mod c < c" by simp_all
  then have "a mod c + b mod c < 2 * c" by linarith
  then have "(a mod c + b mod c) div c < 2" by (rule less_mult_imp_div_less)
  moreover have "(a + b) div c = a div c + b div c + (a mod c + b mod c) div c" by (rule div_add1_eq)
  ultimately show ?thesis by simp
qed simp

lemma calcReward_value:
  "calcReward now_ts p last_ts = Inr r \<Longrightarrow> 0 < last_ts \<Longrightarrow>
     r = p * APY_BPS * (now_ts - last_ts) div (BPS_DENOMINATOR * SECONDS_PER_YEAR)"
  by (auto simp: calcReward_def rbind_Inr_iff split: if_splits)

text \<open>
  Accruing more often gains nothing: touching the stake at an intermediate time, by any call
  that accrues, leaves at most the reward of accruing once, and costs at most one wei of it.
\<close>

lemma accruing_often_gains_nothing:
  assumes "0 < si_lastAccrualAt s" and "si_lastAccrualAt s \<le> t1" and "t1 \<le> t2"
    and "accrue t1 s = Inr s1" and "accrue t2 s1 = Inr s2" and "accrue t2 s = Inr s'"
  shows "si_unclaimedReward s2 \<le> si_unclaimedReward s' \<and> si_unclaimedReward s' \<le> si_unclaimedReward s2 + 1"
proof -
  let ?k = "si_totalPrincipal s * APY_BPS" and ?c = "BPS_DENOMINATOR * SECONDS_PER_YEAR" and ?a = "si_lastAccrualAt s"
  obtain r1 where r1: "calcReward t1 (si_totalPrincipal s) ?a = Inr r1"
    "s1 = s\<lparr>si_unclaimedReward := si_unclaimedReward s + r1, si_lastAccrualAt := t1\<rparr>" using accrue_effect [OF assms(4)] by blast
  obtain r2 where r2: "calcReward t2 (si_totalPrincipal s) t1 = Inr r2"
    "s2 = s1\<lparr>si_unclaimedReward := si_unclaimedReward s1 + r2, si_lastAccrualAt := t2\<rparr>"
    using accrue_effect [OF assms(5)] r1(2) by auto
  obtain r where r: "calcReward t2 (si_totalPrincipal s) ?a = Inr r"
    "s' = s\<lparr>si_unclaimedReward := si_unclaimedReward s + r, si_lastAccrualAt := t2\<rparr>" using accrue_effect [OF assms(6)] by blast
  have "t2 - ?a = (t1 - ?a) + (t2 - t1)" using assms(2,3) by simp
  then have "?k * (t2 - ?a) = ?k * (t1 - ?a) + ?k * (t2 - t1)" by (simp only: distrib_left)
  with floor_split [of "?k * (t1 - ?a)" ?c "?k * (t2 - t1)"] assms(1,2)
    calcReward_value [OF r1(1)] calcReward_value [OF r2(1)] calcReward_value [OF r(1)]
  show ?thesis by (simp add: r1(2) r2(2) r(2))
qed

definition old_stake :: stakeInfo where
  "old_stake = \<lparr>si_totalPrincipal = 10 ^ 18, si_lastAccrualAt = 1000, si_unclaimedReward = 0, si_lots = []\<rparr>"

lemma accruing_often_gains_nothing_witness:
  "\<exists>s1 s2 s'. accrue 1001 old_stake = Inr s1 \<and> accrue 1002 s1 = Inr s2 \<and> accrue 1002 old_stake = Inr s'
     \<and> si_unclaimedReward s2 = 4439370876 \<and> si_unclaimedReward s' = 4439370877"
proof -
  note ev = accrue_def calcReward_def checked_def UINT256_def APY_BPS_def BPS_DENOMINATOR_def SECONDS_PER_YEAR_def old_stake_def
  obtain s1 where s1: "accrue 1001 old_stake = Inr s1" "s1 = old_stake\<lparr>si_unclaimedReward := 2219685438, si_lastAccrualAt := 1001\<rparr>"
    by (simp add: ev)
  obtain s2 where s2: "accrue 1002 s1 = Inr s2" "si_unclaimedReward s2 = 4439370876" by (simp add: s1(2)) (simp add: ev)
  obtain s' where s': "accrue 1002 old_stake = Inr s'" "si_unclaimedReward s' = 4439370877" by (simp add: ev)
  have "0 < si_lastAccrualAt old_stake" "si_lastAccrualAt old_stake \<le> 1001" "(1001 :: nat) \<le> 1002" by (simp_all add: old_stake_def)
  from accruing_often_gains_nothing [OF this s1(1) s2(1) s'(1)] s1 s2 s' show ?thesis by blast
qed

text \<open>What the loop of the view computes.\<close>

lemma info_from_spec:
  assumes "info_from nowTs ls (u, n) = (u', n')"
  shows "u' = u + unlocked_sum nowTs ls \<and> n' \<le> n
    \<and> (\<forall>l \<in> set ls. live_lot l \<and> \<not> open_lot nowTs l \<longrightarrow> n' \<le> lot_lockedUntil l)
    \<and> (n' = n \<or> (\<exists>l \<in> set ls. live_lot l \<and> \<not> open_lot nowTs l \<and> n' = lot_lockedUntil l))"
  using assms
proof (induction ls arbitrary: u n)
  case (Cons l ls)
  show ?case
  proof (cases "live_lot l \<and> \<not> open_lot nowTs l \<and> lot_lockedUntil l < n")
    case True
    then have "info_from nowTs ls (u, lot_lockedUntil l) = (u', n')" using Cons.prems by (simp add: open_lot_def)
    from Cons.IH [OF this] True show ?thesis by (auto simp: unlocked_sum_def)
  next
    case False
    let ?u = "if live_lot l \<and> open_lot nowTs l then u + lot_amount l else u"
    have "info_from nowTs ls (?u, n) = (u', n')" using Cons.prems False by (auto simp: open_lot_def split: if_splits)
    from Cons.IH [OF this] False show ?thesis by (auto simp: unlocked_sum_def split: if_splits)
  qed
qed (simp add: unlocked_sum_def)

lemma unlocked_sum_same:
  "(\<And>l. l \<in> set ls \<Longrightarrow> live_lot l \<Longrightarrow> open_lot t l = open_lot nowTs l) \<Longrightarrow> unlocked_sum t ls = unlocked_sum nowTs ls"
  by (induction ls) (auto simp: unlocked_sum_def)

lemma all_unlocked:
  "(\<forall>l \<in> set ls. \<not> (live_lot l \<and> \<not> open_lot nowTs l)) \<longleftrightarrow> unlocked_sum nowTs ls = amounts ls"
proof -
  have "unlocked_sum nowTs ls = amounts ls \<longleftrightarrow> amounts (filter (\<lambda>l. \<not> open_lot nowTs l) ls) = 0"
    using amounts_split [of ls nowTs] by simp
  also have "\<dots> \<longleftrightarrow> (\<forall>l \<in> set ls. \<not> (live_lot l \<and> \<not> open_lot nowTs l))" by (auto simp: amounts_def)
  finally show ?thesis ..
qed

text \<open>
  The stake view is true: it reports the unlocked principal of the other view, never more than
  the principal, the pending reward a claim would settle, and as the next unlock time zero when
  nothing is locked and otherwise the earliest lock that is still running, before which the unlocked
  principal does not change.
\<close>

lemma stake_view_is_true:
  assumes "staking_ok S" and "getStakeInfo now_ts user S = Inr V"
  shows "sv_unlocked V = unlockedPrincipal now_ts user S \<and> sv_unlocked V \<le> sv_totalPrincipal V
    \<and> pendingReward now_ts user S = Inr (sv_pending V)
    \<and> (sv_nextUnlockAt V = 0 \<longleftrightarrow> sv_unlocked V = sv_totalPrincipal V)
    \<and> (sv_nextUnlockAt V \<noteq> 0 \<longrightarrow>
         (\<exists>l \<in> set (si_lots (sk_stakes S user)). live_lot l \<and> \<not> open_lot now_ts l \<and> lot_lockedUntil l = sv_nextUnlockAt V)
         \<and> (\<forall>t. now_ts \<le> t \<and> t < sv_nextUnlockAt V \<longrightarrow> unlockedPrincipal t user S = unlockedPrincipal now_ts user S))"
proof -
  let ?ls = "si_lots (sk_stakes S user)"
  obtain u n where un: "info_from now_ts ?ls (0, UINT256 - 1) = (u, n)" by fastforce
  note sp = info_from_spec [OF un]
  have st: "stake_ok (sk_stakes S user)" using assms(1) by (simp add: staking_ok_def)
  have V: "sv_unlocked V = u" "sv_totalPrincipal V = amounts ?ls" "sv_nextUnlockAt V = (if n = UINT256 - 1 then 0 else n)"
    "pendingReward now_ts user S = Inr (sv_pending V)"
    using assms(2) un st by (auto simp: getStakeInfo_def rbind_Inr_iff stake_ok_def Let_def)
  have ul: "unlockedPrincipal t user S = unlocked_sum t ?ls" for t by (simp add: unlockedPrincipal_def unlocked_from_sum)
  have lock64: "lot_lockedUntil l < UINT256 - 1" if "l \<in> set ?ls" for l
  proof -
    have "lot_lockedUntil l < UINT64" using st that by (simp add: stake_ok_def)
    also have "UINT64 < UINT256 - 1" by (simp add: UINT64_def UINT256_def)
    finally show ?thesis .
  qed
  have zero: "n = UINT256 - 1 \<longleftrightarrow> (\<forall>l \<in> set ?ls. \<not> (live_lot l \<and> \<not> open_lot now_ts l))"
    using sp lock64 by (metis leD)
  have same: "unlocked_sum t ?ls = unlocked_sum now_ts ?ls" if "now_ts \<le> t" "t < n" for t
    using sp that by (intro unlocked_sum_same) (fastforce simp: open_lot_def)
  have u: "u = unlocked_sum now_ts ?ls" using sp by simp
  have common: "sv_unlocked V = unlockedPrincipal now_ts user S" "sv_unlocked V \<le> sv_totalPrincipal V"
    using unlocked_le_amounts [of now_ts ?ls] by (simp_all add: V ul u)
  have eq: "sv_unlocked V = sv_totalPrincipal V \<longleftrightarrow> n = UINT256 - 1"
    unfolding V u zero all_unlocked ..
  show ?thesis
  proof (cases "n = UINT256 - 1")
    case True
    then have "sv_nextUnlockAt V = 0" by (simp add: V)
    with True eq common V(4) show ?thesis by blast
  next
    case False
    then have nx: "sv_nextUnlockAt V = n" by (simp only: V if_False)
    from sp False obtain l where l: "l \<in> set ?ls" "live_lot l" "\<not> open_lot now_ts l" "n = lot_lockedUntil l" by blast
    then have "n \<noteq> 0" by (simp add: open_lot_def)
    then have iff: "sv_nextUnlockAt V = 0 \<longleftrightarrow> sv_unlocked V = sv_totalPrincipal V" using eq False unfolding nx by blast
    have first: "\<exists>l \<in> set ?ls. live_lot l \<and> \<not> open_lot now_ts l \<and> lot_lockedUntil l = sv_nextUnlockAt V"
      unfolding nx using l by blast
    have until: "\<forall>t. now_ts \<le> t \<and> t < sv_nextUnlockAt V \<longrightarrow> unlockedPrincipal t user S = unlockedPrincipal now_ts user S"
      unfolding nx ul using same by blast
    show ?thesis by (intro conjI impI) (rule common V(4) iff first until)+
  qed
qed

lemma stake_view_is_true_witness:
  "\<exists>V. getStakeInfo 2000 ''user'' staked_vault = Inr V \<and> sv_nextUnlockAt V = 605800
     \<and> unlockedPrincipal 605799 ''user'' staked_vault = unlockedPrincipal 2000 ''user'' staked_vault"
proof -
  have big: "605800 \<noteq> UINT256 - Suc 0" "605800 < UINT256 - Suc 0" "3500000 < UINT256" "3500 < UINT256"
    by (simp_all add: UINT256_def)
  obtain V where V: "getStakeInfo 2000 ''user'' staked_vault = Inr V" "sv_nextUnlockAt V = 605800"
    using big by (simp add: getStakeInfo_def staked_vault_def pendingReward_def calcReward_def checked_def
        APY_BPS_def BPS_DENOMINATOR_def SECONDS_PER_YEAR_def Let_def)
  have "staking_ok staked_vault" using staked_vault_ok by (simp add: vault_ok_def)
  note view = stake_view_is_true [OF this V(1), THEN conjunct2, THEN conjunct2, THEN conjunct2, THEN conjunct2]
  have "sv_nextUnlockAt V \<noteq> 0" by (simp add: V(2))
  from mp [OF view this, THEN conjunct2, THEN spec, of 605799] V(2)
  have "unlockedPrincipal 605799 ''user'' staked_vault = unlockedPrincipal 2000 ''user'' staked_vault" by simp
  with V show ?thesis by blast
qed

end
