(* ===== verification/Deploy.thy ===== *)
theory Deploy
  imports Keepers Paymaster StakingContract
begin

text \<open>
  The deployment scripts under \<^verbatim>\<open>contracts/deploy\<close> and the shared configuration
  \<^verbatim>\<open>contracts/config/paymasterConfig.ts\<close>, run against a chain of the modelled contracts.  A script
  is a state transformer that may stop early and leaves the chain as it was at that point; the
  connection may be lost before any awaited call.  The addresses of new contracts, the addresses of
  keys and the explorer are arguments.  Gas is not accounted.
\<close>

section \<open>The chain and the scripts\<close>

record chain =
  ch_net :: nat \<comment> \<open>how many more awaited calls the connection survives\<close>
  ch_nonce :: nat
  ch_eth :: "address \<Rightarrow> nat"
  ch_attestors :: "address \<rightharpoonup> attestor"
  ch_oltins :: "address \<rightharpoonup> oltin_token"
  ch_tokens :: "address \<rightharpoonup> token"
  ch_exchanges :: "address \<rightharpoonup> exchange \<times> address \<times> address \<times> address \<times> address"
  ch_stakings :: "address \<rightharpoonup> staking \<times> address"
  ch_paymasters :: "address \<rightharpoonup> paymaster"

datatype script_error =
    Thrown string
  | BadArgument
  | NoContract address
  | Reverted revert
  | PmReverted pm_error
  | FeedReverted evm_error
  | ConnectionLost
  | InsufficientFunds

text \<open>A program on a state \<open>'s\<close>; the deployment scripts act on a chain.\<close>

type_synonym ('s, 'a) action = "'s \<Rightarrow> (script_error, 'a) result \<times> 's"
type_synonym 'a script = "(chain, 'a) action"

definition sret :: "'a \<Rightarrow> ('s, 'a) action" where "sret x c = (Inr x, c)"
definition sthrow :: "script_error \<Rightarrow> ('s, 'a) action" where "sthrow e c = (Inl e, c)"

definition sbind :: "('s, 'a) action \<Rightarrow> ('a \<Rightarrow> ('s, 'b) action) \<Rightarrow> ('s, 'b) action" where
  "sbind m f c = (case m c of (Inl e, c') \<Rightarrow> (Inl e, c') | (Inr x, c') \<Rightarrow> f x c')"

text \<open>An awaited call: it goes out only while the connection holds.\<close>

definition awaits :: "'a script \<Rightarrow> 'a script" where
  "awaits m c = (if ch_net c = 0 then (Inl ConnectionLost, c) else m (c\<lparr>ch_net := ch_net c - 1\<rparr>))"

definition sthrow_if :: "bool \<Rightarrow> string \<Rightarrow> ('s, unit) action" where
  "sthrow_if b msg = (if b then sthrow (Thrown msg) else sret ())"

definition lifted :: "('e \<Rightarrow> script_error) \<Rightarrow> ('e, 'a) result \<Rightarrow> ('s, 'a) action" where
  "lifted g r = (case r of Inl e \<Rightarrow> sthrow (g e) | Inr x \<Rightarrow> sret x)"

definition option_or :: "script_error \<Rightarrow> 'a option \<Rightarrow> ('s, 'a) action" where
  "option_or e x = (case x of None \<Rightarrow> sthrow e | Some y \<Rightarrow> sret y)"

lemma sbind_Inr_iff: "sbind m f c = (Inr y, c') \<longleftrightarrow> (\<exists>x c1. m c = (Inr x, c1) \<and> f x c1 = (Inr y, c'))"
  by (auto simp: sbind_def split: prod.splits sum.splits)

lemma script_Inr_iff [simp]:
  "sret x c = (Inr x', c') \<longleftrightarrow> x' = x \<and> c' = c"
  "sthrow e c \<noteq> (Inr z, c')"
  "sthrow_if b msg c = (Inr u, c') \<longleftrightarrow> \<not> b \<and> c' = c"
  "option_or e v c = (Inr w, c') \<longleftrightarrow> v = Some w \<and> c' = c"
  "lifted g r c = (Inr y, c') \<longleftrightarrow> r = Inr y \<and> c' = c"
  by (auto simp: sret_def sthrow_def sthrow_if_def option_or_def lifted_def split: option.splits sum.splits)

lemma awaits_Inr_iff [simp]:
  "awaits m c = (Inr q, c') \<longleftrightarrow> 0 < ch_net c \<and> m (c\<lparr>ch_net := ch_net c - 1\<rparr>) = (Inr q, c')"
  by (auto simp: awaits_def)

section \<open>Calls\<close>

definition new_address :: "(nat \<Rightarrow> address) \<Rightarrow> address script" where
  "new_address newAddr c = (Inr (newAddr (ch_nonce c)), c\<lparr>ch_nonce := ch_nonce c + 1\<rparr>)"

definition deploy_attestor :: "(nat \<Rightarrow> address) \<Rightarrow> address \<Rightarrow> int \<Rightarrow> address script" where
  "deploy_attestor newAddr sender dec = awaits (sbind (new_address newAddr) (\<lambda>a c.
     (Inr a, c\<lparr>ch_attestors := (ch_attestors c)(a \<mapsto> attestor_constructor sender dec)\<rparr>)))"

definition deploy_oltin :: "(nat \<Rightarrow> address) \<Rightarrow> address \<Rightarrow> address \<Rightarrow> nat \<Rightarrow> address \<Rightarrow> address script" where
  "deploy_oltin newAddr sender reserveAddr maxAge feeCollector = awaits (\<lambda>c.
     sbind (option_or (NoContract reserveAddr) (ch_attestors c reserveAddr)) (\<lambda>feed.
     sbind (lifted Reverted (oltin_constructor sender reserveAddr feed maxAge feeCollector)) (\<lambda>t.
     sbind (new_address newAddr) (\<lambda>a c. (Inr a, c\<lparr>ch_oltins := (ch_oltins c)(a \<mapsto> t)\<rparr>)))) c)"

definition deploy_uzd :: "(nat \<Rightarrow> address) \<Rightarrow> address \<Rightarrow> address script" where
  "deploy_uzd newAddr sender = awaits (sbind (new_address newAddr) (\<lambda>a c.
     (Inr a, c\<lparr>ch_tokens := (ch_tokens c)(a \<mapsto> uzd_constructor sender)\<rparr>)))"

definition deploy_exchange ::
    "(nat \<Rightarrow> address) \<Rightarrow> address \<Rightarrow> address \<Rightarrow> address \<Rightarrow> address \<Rightarrow> nat \<Rightarrow> nat \<Rightarrow> address script" where
  "deploy_exchange newAddr oltin uzd xau uzs maxAgeXau maxAgeUzs = awaits (\<lambda>c.
     sbind (lifted Reverted (exchange_constructor (newAddr (ch_nonce c)) oltin uzd xau uzs maxAgeXau maxAgeUzs)) (\<lambda>x.
     sbind (new_address newAddr) (\<lambda>a c. (Inr a, c\<lparr>ch_exchanges := (ch_exchanges c)(a \<mapsto> (x, oltin, uzd, xau, uzs))\<rparr>))) c)"

definition deploy_staking :: "(nat \<Rightarrow> address) \<Rightarrow> address \<Rightarrow> address \<Rightarrow> address script" where
  "deploy_staking newAddr sender oltin = awaits (\<lambda>c.
     sbind (lifted Reverted (staking_constructor (newAddr (ch_nonce c)) sender oltin)) (\<lambda>S.
     sbind (new_address newAddr) (\<lambda>a c. (Inr a, c\<lparr>ch_stakings := (ch_stakings c)(a \<mapsto> (S, oltin))\<rparr>))) c)"

definition oltin_tx :: "address \<Rightarrow> (oltin_token \<Rightarrow> (revert, oltin_token) result) \<Rightarrow> unit script" where
  "oltin_tx a f = awaits (\<lambda>c.
     sbind (option_or (NoContract a) (ch_oltins c a)) (\<lambda>t.
     sbind (lifted Reverted (f t)) (\<lambda>t' c. (Inr (), c\<lparr>ch_oltins := (ch_oltins c)(a \<mapsto> t')\<rparr>))) c)"

definition oltin_read :: "address \<Rightarrow> (oltin_token \<Rightarrow> 'a) \<Rightarrow> 'a script" where
  "oltin_read a f = awaits (\<lambda>c. sbind (option_or (NoContract a) (ch_oltins c a)) (\<lambda>t. sret (f t)) c)"

definition feed_tx :: "address \<Rightarrow> (attestor \<Rightarrow> (evm_error, attestor) result) \<Rightarrow> unit script" where
  "feed_tx a f = awaits (\<lambda>c.
     sbind (option_or (NoContract a) (ch_attestors c a)) (\<lambda>t.
     sbind (lifted FeedReverted (f t)) (\<lambda>t' c. (Inr (), c\<lparr>ch_attestors := (ch_attestors c)(a \<mapsto> t')\<rparr>))) c)"

definition feed_read :: "address \<Rightarrow> (attestor \<Rightarrow> 'a) \<Rightarrow> 'a script" where
  "feed_read a f = awaits (\<lambda>c. sbind (option_or (NoContract a) (ch_attestors c a)) (\<lambda>t. sret (f t)) c)"

definition pm_tx :: "address \<Rightarrow> (paymaster \<Rightarrow> (pm_error, paymaster) result) \<Rightarrow> unit script" where
  "pm_tx a f = awaits (\<lambda>c.
     sbind (option_or (NoContract a) (ch_paymasters c a)) (\<lambda>t.
     sbind (lifted PmReverted (f t)) (\<lambda>t' c. (Inr (), c\<lparr>ch_paymasters := (ch_paymasters c)(a \<mapsto> t')\<rparr>))) c)"

definition pm_read :: "address \<Rightarrow> (paymaster \<Rightarrow> (pm_error, 'a) result) \<Rightarrow> 'a script" where
  "pm_read a f = awaits (\<lambda>c. sbind (option_or (NoContract a) (ch_paymasters c a)) (\<lambda>t. lifted PmReverted (f t)) c)"

text \<open>A number given for a \<^verbatim>\<open>uint256\<close>: only a safe non-negative integer is encoded.\<close>

definition uint_arg :: "js_number \<Rightarrow> nat option" where
  "uint_arg x = (case x of Fin n d \<Rightarrow> if n mod int d = 0 \<and> 0 \<le> n div int d \<and> n div int d < 2 ^ 53 then Some (nat (n div int d)) else None
                 | _ \<Rightarrow> None)"

definition key_env :: "(string \<Rightarrow> address option) \<Rightarrow> env \<Rightarrow> string \<Rightarrow> string \<Rightarrow> address script" where
  "key_env walletOf env name msg =
     (case env name of None \<Rightarrow> sthrow (Thrown msg)
      | Some pk \<Rightarrow> if pk = [] then sthrow (Thrown msg) else option_or BadArgument (walletOf pk))"

section \<open>\<^verbatim>\<open>deployV3.ts\<close>\<close>

text \<open>The poster's address for an optional key; a malformed key throws.\<close>

definition posterAddress :: "(string \<Rightarrow> address option) \<Rightarrow> string option \<Rightarrow> address option script" where
  "posterAddress walletOf key =
     (case key of None \<Rightarrow> sret None
      | Some k \<Rightarrow> if k = [] then sret None else sbind (option_or BadArgument (walletOf k)) (\<lambda>a. sret (Some a)))"

fun grant_posters :: "address \<Rightarrow> string \<Rightarrow> (address \<times> address option) list \<Rightarrow> unit script" where
  "grant_posters sender role [] = sret ()"
| "grant_posters sender role ((feed, None) # ks) = grant_posters sender role ks"
| "grant_posters sender role ((feed, Some keeper) # ks) =
     sbind (feed_tx feed (att_grantRole sender role keeper)) (\<lambda>_. grant_posters sender role ks)"

record v3_stack =
  v3_reserve :: address
  v3_xau :: address
  v3_uzs :: address
  v3_oltin :: address
  v3_exchange :: address

text \<open>The wiring: the minter role for the exchange, and a poster per feed.\<close>

definition wire_roles :: "(string \<Rightarrow> address option) \<Rightarrow> env \<Rightarrow> address \<Rightarrow> v3_stack \<Rightarrow> v3_stack script" where
  "wire_roles walletOf env wallet st =
     sbind (oltin_read (v3_oltin st) (\<lambda>_. MINTER_ROLE)) (\<lambda>minter.
     sbind (oltin_tx (v3_oltin st) (grantRole wallet minter (v3_exchange st))) (\<lambda>_.
     sbind (feed_read (v3_reserve st) (\<lambda>_. POSTER_ROLE)) (\<lambda>poster.
     sbind (posterAddress walletOf (env ''KEY_RESERVE'')) (\<lambda>kr.
     sbind (posterAddress walletOf (env ''KEY_XAU'')) (\<lambda>kx.
     sbind (posterAddress walletOf (env ''KEY_UZS'')) (\<lambda>ku.
     sbind (grant_posters wallet poster [(v3_reserve st, kr), (v3_xau st, kx), (v3_uzs st, ku)]) (\<lambda>_.
     sret st)))))))"

definition deployV3 :: "(string \<Rightarrow> address option) \<Rightarrow> (nat \<Rightarrow> address) \<Rightarrow> env \<Rightarrow> v3_stack script" where
  "deployV3 walletOf newAddr env =
     sbind (key_env walletOf env ''PRIVATE_KEY'' ''Set PRIVATE_KEY'') (\<lambda>wallet.
     sbind (option_or (Thrown ''Set UZD_ADDRESS'') (case env ''UZD_ADDRESS'' of None \<Rightarrow> None | Some u \<Rightarrow> if u = [] then None else Some u)) (\<lambda>uzdAddress.
     let maxAgeReserve = js_Number (env_or env ''MAX_AGE_RESERVE'' ''3600'');
         maxAgeXau = js_Number (env_or env ''MAX_AGE_XAU'' ''3600'');
         maxAgeUzs = js_Number (env_or env ''MAX_AGE_UZS'' ''259200'');
         feeCollector = env_or env ''FEE_COLLECTOR'' wallet in
     sbind (deploy_attestor newAddr wallet 0) (\<lambda>reserveAddr.
     sbind (deploy_attestor newAddr wallet 8) (\<lambda>xauAddr.
     sbind (deploy_attestor newAddr wallet 8) (\<lambda>uzsAddr.
     sbind (option_or BadArgument (uint_arg maxAgeReserve)) (\<lambda>ageReserve.
     sbind (deploy_oltin newAddr wallet reserveAddr ageReserve feeCollector) (\<lambda>oltinAddr.
     sbind (option_or BadArgument (uint_arg maxAgeXau)) (\<lambda>ageXau.
     sbind (option_or BadArgument (uint_arg maxAgeUzs)) (\<lambda>ageUzs.
     sbind (deploy_exchange newAddr oltinAddr uzdAddress xauAddr uzsAddr ageXau ageUzs) (\<lambda>exchangeAddr.
     wire_roles walletOf env wallet
       \<lparr>v3_reserve = reserveAddr, v3_xau = xauAddr, v3_uzs = uzsAddr, v3_oltin = oltinAddr, v3_exchange = exchangeAddr\<rparr>))))))))))"

section \<open>\<^verbatim>\<open>deployV31.ts\<close>\<close>

definition OLTIN_V3 :: address where "OLTIN_V3 = ''0x906bcf6c92ed1b30aA453c69eB40aeDbb3d5B3A5''"
definition XAU_FEED :: address where "XAU_FEED = ''0xe0AFc7eD0c6028b8172C2b108624168d235e8BFD''"
definition UZS_FEED :: address where "UZS_FEED = ''0x637347fd661cFFAE9B562aFA394A392214fa24aD''"
definition PAYMASTER :: address where "PAYMASTER = ''0x817ED8bd0C92703785CbCC500440840603DA0Bb4''"
definition OLD_UZD :: address where "OLD_UZD = ''0x95b30Be4fdE1C48d7C5dC22C1EBA061219125A32''"
definition OLD_EXCHANGE :: address where "OLD_EXCHANGE = ''0xc367D7761Cc2A1b4D15475017136085E3EF74e0C''"

definition check :: "bool \<Rightarrow> string \<Rightarrow> unit script" where
  "check condition label = sthrow_if (\<not> condition) (''VERIFY FAILED: '' @ label)"

fun check_codes :: "(address \<Rightarrow> bool) \<Rightarrow> address list \<Rightarrow> unit script" where
  "check_codes codeMatches [] = sret ()"
| "check_codes codeMatches (a # as) =
     sbind (awaits (sret (codeMatches a))) (\<lambda>same.
     sbind (check same ''bytecode == local artifact'') (\<lambda>_. check_codes codeMatches as))"

fun set_targets :: "address \<Rightarrow> address \<Rightarrow> (address \<times> bool) list \<Rightarrow> unit script" where
  "set_targets pm sender [] = sret ()"
| "set_targets pm sender ((target, allowed) # ts) =
     sbind (pm_tx pm (setSponsoredTarget sender target allowed)) (\<lambda>_.
     sbind (pm_read pm (\<lambda>P. Inr (pm_sponsoredTarget P target))) (\<lambda>now_allowed.
     sbind (check (now_allowed = allowed) ''sponsoredTarget'') (\<lambda>_. set_targets pm sender ts)))"

definition deployV31 ::
    "(string \<Rightarrow> address option) \<Rightarrow> (nat \<Rightarrow> address) \<Rightarrow> (address \<Rightarrow> bool) \<Rightarrow> env \<Rightarrow> (address \<times> address) script" where
  "deployV31 walletOf newAddr codeMatches env =
     sbind (key_env walletOf env ''PRIVATE_KEY'' ''Set PRIVATE_KEY'') (\<lambda>wallet.
     let maxAgeXau = js_Number (env_or env ''MAX_AGE_XAU'' ''3600'');
         maxAgeUzs = js_Number (env_or env ''MAX_AGE_UZS'' ''259200'') in
     sbind (deploy_uzd newAddr wallet) (\<lambda>uzdAddr.
     sbind (option_or BadArgument (uint_arg maxAgeXau)) (\<lambda>ageXau.
     sbind (option_or BadArgument (uint_arg maxAgeUzs)) (\<lambda>ageUzs.
     sbind (deploy_exchange newAddr OLTIN_V3 uzdAddr XAU_FEED UZS_FEED ageXau ageUzs) (\<lambda>exchangeAddr.
     sbind (check_codes codeMatches [uzdAddr, exchangeAddr]) (\<lambda>_.
     sbind (oltin_read OLTIN_V3 (\<lambda>_. MINTER_ROLE)) (\<lambda>minter.
     sbind (oltin_tx OLTIN_V3 (grantRole wallet minter exchangeAddr)) (\<lambda>_.
     sbind (oltin_read OLTIN_V3 (hasRole minter exchangeAddr)) (\<lambda>granted.
     sbind (check granted ''MINTER_ROLE: Exchange2 = true'') (\<lambda>_.
     sbind (oltin_tx OLTIN_V3 (revokeRole wallet minter OLD_EXCHANGE)) (\<lambda>_.
     sbind (oltin_read OLTIN_V3 (hasRole minter OLD_EXCHANGE)) (\<lambda>held.
     sbind (check (\<not> held) ''MINTER_ROLE: OLD Exchange = false'') (\<lambda>_.
     sbind (pm_read PAYMASTER (\<lambda>P. Inr (pm_owner P))) (\<lambda>pmOwner.
     sbind (check (js_lower pmOwner = js_lower wallet) ''paymaster owner == deployer'') (\<lambda>_.
     sbind (set_targets PAYMASTER wallet [(uzdAddr, True), (exchangeAddr, True), (OLD_UZD, False), (OLD_EXCHANGE, False)]) (\<lambda>_.
     sret (uzdAddr, exchangeAddr)))))))))))))))))"

section \<open>\<^verbatim>\<open>paymasterConfig.ts\<close> and \<^verbatim>\<open>deployPaymasterFixed.ts\<close>\<close>

definition RATE :: nat where "RATE = 18000000000000000000"
definition MIN_RATE :: nat where "MIN_RATE = 1800000000000000000"
definition MAX_RATE :: nat where "MAX_RATE = 180000000000000000000"
definition MAX_RATE_AGE :: nat where "MAX_RATE_AGE = 30 * 24 * 60 * 60"
definition SURCHARGE_BPS :: nat where "SURCHARGE_BPS = 300"
definition MIN_FEE_OLTIN :: nat where "MIN_FEE_OLTIN = 10000000000000"
definition PER_TX_CAP :: nat where "PER_TX_CAP = 500000000000000"
definition SENDER_DAILY_CAP :: nat where "SENDER_DAILY_CAP = 500000000000000"
definition GLOBAL_DAILY_CAP :: nat where "GLOBAL_DAILY_CAP = 5000000000000000"
definition SAMPLE_GAS_LIMIT :: nat where "SAMPLE_GAS_LIMIT = 308343"
definition SAMPLE_MAX_FEE_PER_GAS :: nat where "SAMPLE_MAX_FEE_PER_GAS = 45250000"

datatype pm_arg = AddressArg address | UintArg nat

definition paymasterArgs :: "address \<Rightarrow> pm_arg list" where
  "paymasterArgs oltinToken =
     [AddressArg oltinToken, UintArg MIN_RATE, UintArg MAX_RATE, UintArg MAX_RATE_AGE, UintArg RATE, UintArg SURCHARGE_BPS,
      UintArg MIN_FEE_OLTIN, UintArg PER_TX_CAP, UintArg SENDER_DAILY_CAP, UintArg GLOBAL_DAILY_CAP]"

text \<open>The factory encodes the arguments against the constructor's ten parameters or throws.\<close>

fun construct_paymaster :: "address \<Rightarrow> nat \<Rightarrow> address \<Rightarrow> pm_arg list \<Rightarrow> paymaster script" where
  "construct_paymaster this now_ts sender
      [AddressArg t, UintArg r1, UintArg r2, UintArg age, UintArg r, UintArg b, UintArg m, UintArg c1, UintArg c2, UintArg c3] =
     lifted PmReverted (paymaster_constructor this now_ts sender t r1 r2 age r b m c1 c2 c3)"
| "construct_paymaster this now_ts sender _ = sthrow BadArgument"

definition deploy_paymaster :: "(nat \<Rightarrow> address) \<Rightarrow> nat \<Rightarrow> address \<Rightarrow> pm_arg list \<Rightarrow> address script" where
  "deploy_paymaster newAddr now_ts sender args = awaits (\<lambda>c.
     sbind (construct_paymaster (newAddr (ch_nonce c)) now_ts sender args) (\<lambda>P.
     sbind (new_address newAddr) (\<lambda>a c. (Inr a, c\<lparr>ch_paymasters := (ch_paymasters c)(a \<mapsto> P)\<rparr>))) c)"

definition eth_of :: "address \<Rightarrow> chain \<Rightarrow> nat" where
  "eth_of a c = (case ch_paymasters c a of Some P \<Rightarrow> pm_eth P | None \<Rightarrow> ch_eth c a)"

definition getBalance :: "address \<Rightarrow> nat script" where
  "getBalance a = awaits (\<lambda>c. (Inr (eth_of a c), c))"

definition send_eth :: "address \<Rightarrow> address \<Rightarrow> nat \<Rightarrow> unit script" where
  "send_eth sender to value = awaits (\<lambda>c.
     if ch_eth c sender < value then (Inl InsufficientFunds, c)
     else let c1 = c\<lparr>ch_eth := (ch_eth c)(sender := ch_eth c sender - value)\<rparr> in
       (Inr (), case ch_paymasters c1 to of
          Some P \<Rightarrow> c1\<lparr>ch_paymasters := (ch_paymasters c1)(to \<mapsto> receive_eth value P)\<rparr>
        | None \<Rightarrow> c1\<lparr>ch_eth := (ch_eth c1)(to := ch_eth c1 to + value)\<rparr>))"

fun allow_targets :: "address \<Rightarrow> address \<Rightarrow> address list \<Rightarrow> unit script" where
  "allow_targets pm sender [] = sret ()"
| "allow_targets pm sender (t # ts) = sbind (pm_tx pm (setSponsoredTarget sender t True)) (\<lambda>_. allow_targets pm sender ts)"

fun check_targets :: "address \<Rightarrow> address list \<Rightarrow> unit script" where
  "check_targets pm [] = sret ()"
| "check_targets pm (t # ts) =
     sbind (pm_read pm (\<lambda>P. Inr (pm_sponsoredTarget P t))) (\<lambda>ok.
     sbind (sthrow_if (\<not> ok) ''allowlist missing'') (\<lambda>_. check_targets pm ts))"

text \<open>Sweeping the old paymaster, a contract whose source is gone: its call is an argument.\<close>

definition sweep_old :: "(address \<Rightarrow> address \<Rightarrow> unit script) \<Rightarrow> address \<Rightarrow> string option \<Rightarrow> unit script" where
  "sweep_old oldWithdraw wallet oldPaymaster =
     (case oldPaymaster of None \<Rightarrow> sret ()
      | Some old \<Rightarrow> if old = [] then sret () else
          sbind (getBalance old) (\<lambda>oldBalance.
          if oldBalance > 0 then
            sbind (awaits (oldWithdraw old wallet)) (\<lambda>_.
            sbind (getBalance old) (\<lambda>left. sthrow_if (left \<noteq> 0) ''sweep failed''))
          else sret ()))"

definition fund_to :: "address \<Rightarrow> address \<Rightarrow> nat \<Rightarrow> unit script" where
  "fund_to wallet pm target =
     sbind (getBalance pm) (\<lambda>current. if current < target then send_eth wallet pm (target - current) else sret ())"

definition paymaster_sanity ::
    "(nat \<Rightarrow> nat \<Rightarrow> nat \<Rightarrow> nat option) \<Rightarrow> nat \<Rightarrow> address \<Rightarrow> address \<Rightarrow> nat \<Rightarrow> address list \<Rightarrow> unit script" where
  "paymaster_sanity mulDivUp now_ts pm oltin target targets =
     sbind (pm_read pm (\<lambda>P. Inr (pm_oltinToken P))) (\<lambda>bound.
     sbind (sthrow_if (js_lower bound \<noteq> js_lower oltin) ''oltinToken() mismatch'') (\<lambda>_.
     sbind (getBalance pm) (\<lambda>balance.
     sbind (sthrow_if (balance < target) ''balance too low'') (\<lambda>_.
     sbind (check_targets pm targets) (\<lambda>_.
     sbind (pm_read pm (\<lambda>P. Inr (pm_oltinPerEth P))) (\<lambda>rate.
     sbind (sthrow_if (rate \<noteq> RATE) ''rate mismatch'') (\<lambda>_.
     sbind (pm_read pm (quoteFee mulDivUp now_ts SAMPLE_GAS_LIMIT SAMPLE_MAX_FEE_PER_GAS)) (\<lambda>quote.
     sbind (pm_read pm (\<lambda>P. Inr (pm_minFeeOltin P))) (\<lambda>floor.
     sbind (sthrow_if (quote \<le> floor * 10) ''fee floor dominates the peg'') (\<lambda>_.
     sbind (pm_read pm (\<lambda>P. Inr (pm_maxSponsoredEthWei P))) (\<lambda>perTx.
     sbind (pm_read pm (\<lambda>P. Inr (pm_dailyEthCapSender P))) (\<lambda>sender.
     sbind (pm_read pm (\<lambda>P. Inr (pm_dailyEthCapGlobal P))) (\<lambda>global.
     sbind (sthrow_if (perTx \<noteq> PER_TX_CAP \<or> sender \<noteq> SENDER_DAILY_CAP \<or> global \<noteq> GLOBAL_DAILY_CAP) ''caps mismatch'') (\<lambda>_.
     sbind (pm_read pm (\<lambda>P. Inr (pm_rateUpdatedAt P))) (\<lambda>since.
     sthrow_if (8640000000000000 < (since + MAX_RATE_AGE) * 1000) ''Invalid time value'')))))))))))))))"

definition DEFAULT_STAKING :: address where "DEFAULT_STAKING = ''0xD3b6ffd1dE409e1C37BA5B867d6eC3897A721fAa''"

definition deployPaymasterFixed ::
    "(nat \<Rightarrow> nat \<Rightarrow> nat \<Rightarrow> nat option) \<Rightarrow> (string \<Rightarrow> address option) \<Rightarrow> (nat \<Rightarrow> address) \<Rightarrow> (string \<Rightarrow> nat option)
       \<Rightarrow> (address \<Rightarrow> address \<Rightarrow> unit script) \<Rightarrow> nat \<Rightarrow> env \<Rightarrow> address script" where
  "deployPaymasterFixed mulDivUp walletOf newAddr parseEther oldWithdraw now_ts env =
     sbind (key_env walletOf env ''PRIVATE_KEY'' ''Set PRIVATE_KEY'') (\<lambda>wallet.
     let oltin = env_or env ''OLTIN_ADDRESS'' OLTIN_V3; uzd = env_or env ''UZD_ADDRESS'' OLD_UZD;
         exchange = env_or env ''EXCHANGE_ADDRESS'' OLD_EXCHANGE; staking = env_or env ''STAKING_ADDRESS'' DEFAULT_STAKING;
         fundEth = env_or env ''PAYMASTER_FUND_ETH'' ''0.01''; targets = [oltin, uzd, exchange, staking] in
     sbind (sweep_old oldWithdraw wallet (env ''OLD_PAYMASTER'')) (\<lambda>_.
     let existing = env_or env ''PAYMASTER_ADDRESS'' [] in
     sbind (if existing \<noteq> [] then sret existing else deploy_paymaster newAddr now_ts wallet (paymasterArgs oltin)) (\<lambda>pm.
     sbind (allow_targets pm wallet targets) (\<lambda>_.
     sbind (option_or BadArgument (parseEther fundEth)) (\<lambda>target.
     sbind (fund_to wallet pm target) (\<lambda>_.
     sbind (paymaster_sanity mulDivUp now_ts pm oltin target targets) (\<lambda>_.
     sret pm)))))))"

section \<open>\<^verbatim>\<open>deploySecondAsset.ts\<close>, \<^verbatim>\<open>deployPaymasterStaking.ts\<close>, \<^verbatim>\<open>deploy-uzd-staking.ts\<close>\<close>

definition deploySecondAsset :: "(string \<Rightarrow> address option) \<Rightarrow> (nat \<Rightarrow> address) \<Rightarrow> env \<Rightarrow> (address \<times> address \<times> address) script" where
  "deploySecondAsset walletOf newAddr env =
     sbind (key_env walletOf env ''PRIVATE_KEY'' ''Set PRIVATE_KEY'') (\<lambda>wallet.
     sbind (option_or BadArgument (js_BigInt (env_or env ''SECOND_MAX_AGE_RESERVE'' ''86400''))) (\<lambda>maxAge.
     let feeCollector = env_or env ''FEE_COLLECTOR'' wallet in
     sbind (deploy_attestor newAddr wallet 0) (\<lambda>reserveAddr.
     sbind (if 0 \<le> maxAge \<and> maxAge < int UINT256 then deploy_oltin newAddr wallet reserveAddr (nat maxAge) feeCollector
            else sthrow BadArgument) (\<lambda>tokenAddr.
     sbind (oltin_read tokenAddr (\<lambda>_. MINTER_ROLE)) (\<lambda>role.
     let minter = env_or env ''SECOND_MINTER'' wallet in
     sbind (oltin_tx tokenAddr (grantRole wallet role minter)) (\<lambda>_.
     sbind (posterAddress walletOf (env ''KEY_RESERVE_2'')) (\<lambda>keeper.
     sbind (case keeper of None \<Rightarrow> sret ()
            | Some k \<Rightarrow> sbind (feed_read reserveAddr (\<lambda>_. POSTER_ROLE)) (\<lambda>poster. feed_tx reserveAddr (att_grantRole wallet poster k))) (\<lambda>_.
     sret (reserveAddr, tokenAddr, minter)))))))))"

definition deployPaymasterStaking ::
    "(string \<Rightarrow> address option) \<Rightarrow> (nat \<Rightarrow> address) \<Rightarrow> (string \<Rightarrow> nat option) \<Rightarrow> nat \<Rightarrow> env \<Rightarrow> (address \<times> address) script" where
  "deployPaymasterStaking walletOf newAddr parseEther now_ts env =
     sbind (key_env walletOf env ''PRIVATE_KEY'' ''Set PRIVATE_KEY'') (\<lambda>wallet.
     let oltin = env_or env ''OLTIN_ADDRESS'' OLTIN_V3; fundEth = env_or env ''PAYMASTER_FUND_ETH'' ''0.01'' in
     sbind (deploy_paymaster newAddr now_ts wallet [AddressArg oltin]) (\<lambda>pm.
     sbind (option_or BadArgument (parseEther fundEth)) (\<lambda>value.
     sbind (send_eth wallet pm value) (\<lambda>_.
     sbind (deploy_staking newAddr wallet oltin) (\<lambda>stakingAddr.
     sbind (awaits (\<lambda>c. option_or (NoContract stakingAddr) (map_option snd (ch_stakings c stakingAddr)) c)) (\<lambda>bound.
     sbind (sthrow_if (js_lower bound \<noteq> js_lower oltin) ''staking.oltin() mismatch'') (\<lambda>_.
     sbind (getBalance pm) (\<lambda>balance.
     sbind (sthrow_if (balance \<noteq> value) ''paymaster balance mismatch'') (\<lambda>_.
     sret (pm, stakingAddr))))))))))"

definition OLTIN_V2 :: address where "OLTIN_V2 = ''0x4A56B78DBFc2E6c914f5413B580e86ee1A474347''"

definition deploy_uzd_staking :: "(string \<Rightarrow> address option) \<Rightarrow> (nat \<Rightarrow> address) \<Rightarrow> env \<Rightarrow> (address \<times> address) script" where
  "deploy_uzd_staking walletOf newAddr env =
     sbind (key_env walletOf env ''PRIVATE_KEY'' ''Set PRIVATE_KEY'') (\<lambda>wallet.
     sbind (deploy_uzd newAddr wallet) (\<lambda>uzdAddr.
     sbind (deploy_staking newAddr wallet OLTIN_V2) (\<lambda>stakingAddr.
     sret (uzdAddr, stakingAddr))))"

section \<open>Reasoning about scripts\<close>

text \<open>
  What holds after a script, whether it ends or stops on the way: \<open>Q\<close> of the result and the chain,
  or \<open>E\<close> of the chain at the point where it stopped.
\<close>

definition wp :: "('s, 'a) action \<Rightarrow> ('a \<Rightarrow> 's \<Rightarrow> bool) \<Rightarrow> ('s \<Rightarrow> bool) \<Rightarrow> 's \<Rightarrow> bool" where
  "wp m Q E c = (case m c of (Inl e, c') \<Rightarrow> E c' | (Inr x, c') \<Rightarrow> Q x c')"

named_theorems wps

lemma wp_core [wps]:
  "wp (sret x) Q1 E c = Q1 x c"
  "wp (sthrow e) Q2 E c = E c"
  "wp (sbind m f) Q3 E c = wp m (\<lambda>x. wp (f x) Q3 E) E c"
  by (auto simp: wp_def sret_def sthrow_def sbind_def split: prod.splits sum.splits)

lemma wp_awaits [wps]:
  "wp (awaits m) Q E c = (if ch_net c = 0 then E c else wp m Q E (c\<lparr>ch_net := ch_net c - 1\<rparr>))"
  by (simp add: wp_def awaits_def)

lemma wp_guards [wps]:
  "wp (sthrow_if b msg) Q E c = (if b then E c else Q () c)"
  "wp (option_or e v) R E c = (case v of None \<Rightarrow> E c | Some y \<Rightarrow> R y c)"
  "wp (lifted g r) S E c = (case r of Inl e \<Rightarrow> E c | Inr y \<Rightarrow> S y c)"
  by (auto simp: sthrow_if_def option_or_def lifted_def wp_core split: option.splits sum.splits)

lemma wp_check [wps]: "wp (check d msg) Q E c = (if d then Q () c else E c)"
  by (simp add: check_def wp_guards)

lemma wp_deploy [wps]:
  "wp (deploy_attestor newAddr s d) Q E c =
     (if ch_net c = 0 then E c else Q (newAddr (ch_nonce c)) (c\<lparr>ch_net := ch_net c - 1, ch_nonce := ch_nonce c + 1,
        ch_attestors := (ch_attestors c)(newAddr (ch_nonce c) \<mapsto> attestor_constructor s d)\<rparr>))"
  "wp (deploy_uzd newAddr s) Q E c =
     (if ch_net c = 0 then E c else Q (newAddr (ch_nonce c)) (c\<lparr>ch_net := ch_net c - 1, ch_nonce := ch_nonce c + 1,
        ch_tokens := (ch_tokens c)(newAddr (ch_nonce c) \<mapsto> uzd_constructor s)\<rparr>))"
  by (simp_all add: deploy_attestor_def deploy_uzd_def awaits_def wp_def sbind_def new_address_def)

lemma wp_tx [wps]:
  "wp (oltin_tx a f) Q E c = (if ch_net c = 0 then E c else
     let c1 = c\<lparr>ch_net := ch_net c - 1\<rparr> in
     case ch_oltins c a of None \<Rightarrow> E c1 | Some t \<Rightarrow>
     (case f t of Inl e \<Rightarrow> E c1 | Inr t' \<Rightarrow> Q () (c1\<lparr>ch_oltins := (ch_oltins c)(a \<mapsto> t')\<rparr>)))"
  "wp (oltin_read a h) R E c = (if ch_net c = 0 then E c else
     let c1 = c\<lparr>ch_net := ch_net c - 1\<rparr> in case ch_oltins c a of None \<Rightarrow> E c1 | Some t \<Rightarrow> R (h t) c1)"
  by (auto simp: oltin_tx_def oltin_read_def awaits_def Let_def wp_def sbind_def sret_def option_or_def lifted_def sthrow_def
      split: option.splits sum.splits)

lemma wp_pm [wps]:
  "wp (pm_tx a f) Q E c = (if ch_net c = 0 then E c else
     let c1 = c\<lparr>ch_net := ch_net c - 1\<rparr> in
     case ch_paymasters c a of None \<Rightarrow> E c1 | Some t \<Rightarrow>
     (case f t of Inl e \<Rightarrow> E c1 | Inr t' \<Rightarrow> Q () (c1\<lparr>ch_paymasters := (ch_paymasters c)(a \<mapsto> t')\<rparr>)))"
  "wp (pm_read a h) R E c = (if ch_net c = 0 then E c else
     let c1 = c\<lparr>ch_net := ch_net c - 1\<rparr> in case ch_paymasters c a of None \<Rightarrow> E c1 | Some t \<Rightarrow>
     (case h t of Inl e \<Rightarrow> E c1 | Inr y \<Rightarrow> R y c1))"
  by (auto simp: pm_tx_def pm_read_def awaits_def Let_def wp_def sbind_def sret_def option_or_def lifted_def sthrow_def
      split: option.splits sum.splits)

lemma wp_feed [wps]:
  "wp (feed_tx a f) Q E c = (if ch_net c = 0 then E c else
     let c1 = c\<lparr>ch_net := ch_net c - 1\<rparr> in
     case ch_attestors c a of None \<Rightarrow> E c1 | Some t \<Rightarrow>
     (case f t of Inl e \<Rightarrow> E c1 | Inr t' \<Rightarrow> Q () (c1\<lparr>ch_attestors := (ch_attestors c)(a \<mapsto> t')\<rparr>)))"
  "wp (feed_read a h) R E c = (if ch_net c = 0 then E c else
     let c1 = c\<lparr>ch_net := ch_net c - 1\<rparr> in case ch_attestors c a of None \<Rightarrow> E c1 | Some t \<Rightarrow> R (h t) c1)"
  by (auto simp: feed_tx_def feed_read_def awaits_def Let_def wp_def sbind_def sret_def option_or_def lifted_def sthrow_def
      split: option.splits sum.splits)

lemma wp_deploy_checked [wps]:
  "wp (deploy_exchange newAddr o1 u x z m1 m2) Q E c = (if ch_net c = 0 then E c else
     case exchange_constructor (newAddr (ch_nonce c)) o1 u x z m1 m2 of Inl e \<Rightarrow> E (c\<lparr>ch_net := ch_net c - 1\<rparr>)
     | Inr X \<Rightarrow> Q (newAddr (ch_nonce c)) (c\<lparr>ch_net := ch_net c - 1, ch_nonce := ch_nonce c + 1,
         ch_exchanges := (ch_exchanges c)(newAddr (ch_nonce c) \<mapsto> (X, o1, u, x, z))\<rparr>))"
  "wp (deploy_oltin newAddr s r age fc) Q E c = (if ch_net c = 0 then E c else
     case ch_attestors c r of None \<Rightarrow> E (c\<lparr>ch_net := ch_net c - 1\<rparr>) | Some feed \<Rightarrow>
     (case oltin_constructor s r feed age fc of Inl e \<Rightarrow> E (c\<lparr>ch_net := ch_net c - 1\<rparr>)
      | Inr t \<Rightarrow> Q (newAddr (ch_nonce c)) (c\<lparr>ch_net := ch_net c - 1, ch_nonce := ch_nonce c + 1,
          ch_oltins := (ch_oltins c)(newAddr (ch_nonce c) \<mapsto> t)\<rparr>)))"
  by (auto simp: deploy_exchange_def deploy_oltin_def awaits_def wp_def sbind_def new_address_def option_or_def lifted_def sthrow_def sret_def
      split: option.splits sum.splits)

lemma grantRole_cases:
  "grantRole s r a t = (if hasRole DEFAULT_ADMIN_ROLE s t then Inr (grantRole_internal r a t) else Inl (Unauthorized s DEFAULT_ADMIN_ROLE))"
  "revokeRole s r a t = (if hasRole DEFAULT_ADMIN_ROLE s t then Inr (revokeRole_internal r a t) else Inl (Unauthorized s DEFAULT_ADMIN_ROLE))"
  by (simp_all add: grantRole_def revokeRole_def onlyRole_def)

lemma hasRole_internal [simp]:
  "hasRole r' a' (grantRole_internal r a t) \<longleftrightarrow> hasRole r' a' t \<or> (r' = r \<and> a' = a)"
  "hasRole r' a' (revokeRole_internal r a t) \<longleftrightarrow> hasRole r' a' t \<and> \<not> (r' = r \<and> a' = a)"
  by (auto simp: hasRole_def grantRole_internal_def revokeRole_internal_def)

lemma roles_keep_books [simp]:
  "tk_balances (grantRole_internal r a t) = tk_balances t" "tk_totalSupply (grantRole_internal r a t) = tk_totalSupply t"
  "tk_balances (revokeRole_internal r a t) = tk_balances t" "tk_totalSupply (revokeRole_internal r a t) = tk_totalSupply t"
  by (simp_all add: grantRole_internal_def revokeRole_internal_def)

lemma address0_third: "a ! 2 \<noteq> CHR ''0'' \<Longrightarrow> a \<noteq> address0"
  by (auto simp: address0_def nth_append)

lemma known_nonzero [simp]: "OLD_EXCHANGE \<noteq> address0" "OLD_UZD \<noteq> address0" "OLTIN_V3 \<noteq> address0" "XAU_FEED \<noteq> address0" "UZS_FEED \<noteq> address0"
  by (rule address0_third, simp add: OLD_EXCHANGE_def OLD_UZD_def OLTIN_V3_def XAU_FEED_def UZS_FEED_def)+

lemma setSponsoredTarget_cases:
  "setSponsoredTarget s a b P = (if s \<noteq> pm_owner P then Inl (NotOwner s) else if a = address0 then Inl ZeroAddress
     else Inr (P\<lparr>pm_sponsoredTarget := (pm_sponsoredTarget P)(a := b)\<rparr>))"
  by (simp add: setSponsoredTarget_def onlyOwner_def revert_if_def)

lemma wp_run: "m c = (r, c') \<Longrightarrow> wp m Q E c \<Longrightarrow> case r of Inl e \<Rightarrow> E c' | Inr x \<Rightarrow> Q x c'"
  by (simp add: wp_def)

lemma oltin_constructor_cases:
  "oltin_constructor s r (attestor_constructor w 0) age fc =
     (if r = address0 then Inl (Require ''Zero address'') else
      Inr \<lparr>tk_balances = (\<lambda>_. 0), tk_allowances = (\<lambda>_ _. 0), tk_totalSupply = 0, tk_paused = False,
          tk_roles = [(PAUSER_ROLE, s), (DEFAULT_ADMIN_ROLE, s)],
          ot_reserveFeed = r, ot_reserveDecimals = 0, ot_reserveScale = 10 ^ 18,
          ot_maxAgeReserve = age, ot_transferFeeBps = 50, ot_feeCollector = fc\<rparr>)"
  by (simp add: oltin_constructor_def attestor_constructor_def require_def)

lemma wp_mono: "wp m Q E c \<Longrightarrow> (\<And>x c'. Q x c' \<Longrightarrow> Q' x c') \<Longrightarrow> (\<And>c'. E c' \<Longrightarrow> E' c') \<Longrightarrow> wp m Q' E' c"
  by (auto simp: wp_def split: prod.splits sum.splits)

lemma wp_exists: "wp m Q (\<lambda>_. False) c \<Longrightarrow> \<exists>x c'. m c = (Inr x, c') \<and> Q x c'"
  by (auto simp: wp_def split: prod.splits sum.splits)

lemma exchange_constructor_cases:
  "exchange_constructor this o1 u x z m1 m2 =
     (if o1 = address0 \<or> u = address0 \<or> x = address0 \<or> z = address0 then Inl (Require ''Zero address'')
      else Inr \<lparr>ex_address = this, ex_maxAgeXau = m1, ex_maxAgeUzs = m2\<rparr>)"
  by (auto simp: exchange_constructor_def require_def)

end
