(* ===== verification/Migration.thy ===== *)
theory Migration
  imports Deploy
begin

text \<open>
  What the deployment scripts leave behind: the re-issue of the money edge, the wiring of a fresh
  stack, and the paymaster's redeployment.
\<close>

text \<open>The OLTIN token with the same books and at least one of the two exchanges able to mint.\<close>

definition mint_open :: "oltin_token \<Rightarrow> address \<Rightarrow> chain \<Rightarrow> bool" where
  "mint_open t new c \<longleftrightarrow> (\<exists>t'. ch_oltins c OLTIN_V3 = Some t' \<and> tk_balances t' = tk_balances t \<and> tk_totalSupply t' = tk_totalSupply t
     \<and> (hasRole MINTER_ROLE OLD_EXCHANGE t' \<or> hasRole MINTER_ROLE new t'))"

definition migrated :: "oltin_token \<Rightarrow> paymaster option \<Rightarrow> address \<times> address \<Rightarrow> chain \<Rightarrow> bool" where
  "migrated t pm r c \<longleftrightarrow> (case r of (uzd, new) \<Rightarrow>
     (\<exists>t'. ch_oltins c OLTIN_V3 = Some t' \<and> (\<forall>who. hasRole MINTER_ROLE who t' \<longleftrightarrow> who = new \<or> who \<noteq> OLD_EXCHANGE \<and> hasRole MINTER_ROLE who t))
     \<and> (\<exists>P P'. pm = Some P \<and> ch_paymasters c PAYMASTER = Some P'
          \<and> pm_sponsoredTarget P' = (pm_sponsoredTarget P)(uzd := True, new := True, OLD_UZD := False, OLD_EXCHANGE := False)))"

text \<open>
  C32.  Re-issuing the money edge never leaves the gold token without a minter.  At whatever call
  the script stops or the connection is lost, the OLTIN books are what they were and the old or the
  new exchange holds the minter role; and when the script ends, the new exchange holds it, the old
  one does not, every other minter is as before, and the paymaster sponsors the new contracts and
  not the old ones.
\<close>

theorem reissue_never_strands_the_minter:
  assumes "ch_oltins c OLTIN_V3 = Some t" and "hasRole MINTER_ROLE OLD_EXCHANGE t" and "newAddr (Suc (ch_nonce c)) \<noteq> OLD_EXCHANGE"
    and "deployV31 walletOf newAddr codeMatches env c = (r, c')"
  shows "mint_open t (newAddr (Suc (ch_nonce c))) c' \<and> (\<forall>x. r = Inr x \<longrightarrow> migrated t (ch_paymasters c PAYMASTER) x c')"
proof -
  let ?open = "mint_open t (newAddr (Suc (ch_nonce c)))"
  have "wp (deployV31 walletOf newAddr codeMatches env) (\<lambda>x c'. ?open c' \<and> migrated t (ch_paymasters c PAYMASTER) x c') ?open c"
    unfolding deployV31_def key_env_def using assms(3)
    by (auto simp: wps Let_def mint_open_def migrated_def assms(1,2) grantRole_cases setSponsoredTarget_cases
        split: option.splits sum.splits)
  from wp_run [OF assms(4) this] show ?thesis by (cases r) auto
qed

text \<open>The effect of the keeper grants: every feed gains the posters listed for it, and nothing else changes.\<close>

definition posters_for :: "string \<Rightarrow> (address \<times> address option) list \<Rightarrow> address \<Rightarrow> (string \<times> address) set" where
  "posters_for role ks a = {(role, k) | k. (a, Some k) \<in> set ks}"

definition granted :: "string \<Rightarrow> (address \<times> address option) list \<Rightarrow> chain \<Rightarrow> chain \<Rightarrow> bool" where
  "granted role ks c c' \<longleftrightarrow> ch_oltins c' = ch_oltins c \<and> ch_exchanges c' = ch_exchanges c
     \<and> (\<forall>a f. ch_attestors c a = Some f \<longrightarrow> (\<exists>rs. ch_attestors c' a = Some (f\<lparr>att_roles := rs\<rparr>)
          \<and> set rs = set (att_roles f) \<union> posters_for role ks a))"

lemma posters_for_simps [simp]:
  "posters_for role [] a = {}"
  "posters_for role ((b, None) # ks) a = posters_for role ks a"
  "posters_for role ((b, Some k) # ks) a = (if a = b then insert (role, k) (posters_for role ks a) else posters_for role ks a)"
  by (auto simp: posters_for_def)

lemma grantedD:
  "granted role ks c c' \<Longrightarrow> ch_attestors c a = Some f \<Longrightarrow>
     \<exists>rs. ch_attestors c' a = Some (f\<lparr>att_roles := rs\<rparr>) \<and> set rs = set (att_roles f) \<union> posters_for role ks a"
  by (simp add: granted_def)

lemma granted_none: "granted role [] c c"
proof -
  have "f = f\<lparr>att_roles := att_roles f\<rparr>" for f :: attestor by simp
  then show ?thesis unfolding granted_def by (metis posters_for_simps(1) sup_bot_right)
qed

lemma att_grantRole_adds:
  assumes "att_grantRole s role k f = Inr f'"
  shows "\<exists>rs. f' = f\<lparr>att_roles := rs\<rparr> \<and> set rs = insert (role, k) (set (att_roles f))"
proof (cases "(role, k) \<in> set (att_roles f)")
  case True
  with assms show ?thesis
    by (intro exI [of _ "att_roles f"]) (auto simp: att_grantRole_def split: if_splits)
next
  case False
  with assms show ?thesis
    by (intro exI [of _ "(role, k) # att_roles f"]) (auto simp: att_grantRole_def split: if_splits)
qed

lemma granted_step:
  assumes "ch_attestors c a = Some f" and "att_grantRole s role k f = Inr f'"
    and "granted role ks (c\<lparr>ch_net := n, ch_attestors := (ch_attestors c)(a \<mapsto> f')\<rparr>) c'"
  shows "granted role ((a, Some k) # ks) c c'"
proof -
  obtain rs where f': "f' = f\<lparr>att_roles := rs\<rparr>" "set rs = insert (role, k) (set (att_roles f))"
    using att_grantRole_adds [OF assms(2)] by blast
  have "\<exists>rs'. ch_attestors c' b = Some (h\<lparr>att_roles := rs'\<rparr>)
      \<and> set rs' = set (att_roles h) \<union> posters_for role ((a, Some k) # ks) b"
    if b: "ch_attestors c b = Some h" for b h
  proof (cases "b = a")
    case True
    obtain rs' where "ch_attestors c' a = Some (f'\<lparr>att_roles := rs'\<rparr>)" "set rs' = set (att_roles f') \<union> posters_for role ks a"
      using grantedD [OF assms(3), of a f'] by auto
    with f' True b assms(1) show ?thesis by (intro exI [of _ rs']) auto
  next
    case False
    with grantedD [OF assms(3), of b h] b show ?thesis by simp
  qed
  with assms(3) show ?thesis by (simp add: granted_def)
qed

lemma wp_grant_posters:
  assumes "\<And>c'. granted role ks c c' \<Longrightarrow> Q () c'"
  shows "wp (grant_posters s role ks) Q (\<lambda>_. True) c"
  using assms
proof (induction s role ks arbitrary: c rule: grant_posters.induct)
  case (1 s role)
  then show ?case by (simp add: wps granted_none)
next
  case (2 s role feed ks)
  have "granted role ((feed, None) # ks) c c'" if "granted role ks c c'" for c' using that by (simp add: granted_def)
  with 2 show ?case by simp
next
  case (3 s role feed keeper ks)
  show ?case
  proof (cases "ch_attestors c feed")
    case None
    then show ?thesis by (simp add: wps Let_def)
  next
    case (Some f)
    show ?thesis
    proof (cases "att_grantRole s role keeper f")
      case (Inl e)
      with Some show ?thesis by (simp add: wps Let_def)
    next
      case (Inr f')
      have "granted role ((feed, Some keeper) # ks) c c'"
        if "granted role ks (c\<lparr>ch_net := ch_net c - 1, ch_attestors := (ch_attestors c)(feed \<mapsto> f')\<rparr>) c'" for c'
        by (rule granted_step [OF Some Inr that])
      with 3(2) Inr Some show ?thesis by (simp add: wps Let_def 3(1))
    qed
  qed
qed

text \<open>
  A fresh feed: nothing posted yet, the deployer its one admin, and its posters exactly the deployer
  and the keeper, when a key is given for one.
\<close>

definition feed_ok :: "chain \<Rightarrow> address \<Rightarrow> int \<Rightarrow> address \<Rightarrow> address option \<Rightarrow> bool" where
  "feed_ok c a dec wallet keeper \<longleftrightarrow> (\<exists>f. ch_attestors c a = Some f \<and> att_decimals f = dec \<and> att_roundId f = 0
     \<and> (\<forall>role who. (role, who) \<in> set (att_roles f) \<longleftrightarrow>
          role = DEFAULT_ADMIN_ROLE \<and> who = wallet \<or> role = POSTER_ROLE \<and> (who = wallet \<or> keeper = Some who)))"

definition poster_of :: "(string \<Rightarrow> address option) \<Rightarrow> string option \<Rightarrow> address option" where
  "poster_of walletOf key = (case key of None \<Rightarrow> None | Some k \<Rightarrow> if k = [] then None else walletOf k)"

definition age_env :: "env \<Rightarrow> string \<Rightarrow> string \<Rightarrow> nat option" where
  "age_env env name dflt = uint_arg (js_Number (env_or env name dflt))"

text \<open>What the deployment is to leave: the gold token, the exchange and the feeds as the environment configures them.\<close>

definition token_wired :: "env \<Rightarrow> address \<Rightarrow> v3_stack \<Rightarrow> oltin_token \<Rightarrow> bool" where
  "token_wired env wallet st T \<longleftrightarrow>
     (\<forall>role who. hasRole role who T \<longleftrightarrow>
        role = MINTER_ROLE \<and> who = v3_exchange st \<or> (role = PAUSER_ROLE \<or> role = DEFAULT_ADMIN_ROLE) \<and> who = wallet)
     \<and> tk_totalSupply T = 0 \<and> tk_balances T = (\<lambda>_. 0) \<and> \<not> tk_paused T
     \<and> ot_reserveFeed T = v3_reserve st \<and> ot_reserveScale T = 10 ^ 18
     \<and> age_env env ''MAX_AGE_RESERVE'' ''3600'' = Some (ot_maxAgeReserve T)
     \<and> ot_transferFeeBps T = 50 \<and> ot_feeCollector T = env_or env ''FEE_COLLECTOR'' wallet"

definition exchange_wired :: "env \<Rightarrow> v3_stack \<Rightarrow> exchange \<Rightarrow> bool" where
  "exchange_wired env st X \<longleftrightarrow>
     ex_address X = v3_exchange st \<and> age_env env ''MAX_AGE_XAU'' ''3600'' = Some (ex_maxAgeXau X)
     \<and> age_env env ''MAX_AGE_UZS'' ''259200'' = Some (ex_maxAgeUzs X)"

definition wired :: "(string \<Rightarrow> address option) \<Rightarrow> env \<Rightarrow> address \<Rightarrow> address \<Rightarrow> v3_stack \<Rightarrow> chain \<Rightarrow> bool" where
  "wired walletOf env wallet uzd st c \<longleftrightarrow>
     distinct [v3_reserve st, v3_xau st, v3_uzs st]
     \<and> (\<exists>T. ch_oltins c (v3_oltin st) = Some T \<and> token_wired env wallet st T)
     \<and> (\<exists>X. ch_exchanges c (v3_exchange st) = Some (X, v3_oltin st, uzd, v3_xau st, v3_uzs st) \<and> exchange_wired env st X)
     \<and> feed_ok c (v3_reserve st) 0 wallet (poster_of walletOf (env ''KEY_RESERVE''))
     \<and> feed_ok c (v3_xau st) 8 wallet (poster_of walletOf (env ''KEY_XAU''))
     \<and> feed_ok c (v3_uzs st) 8 wallet (poster_of walletOf (env ''KEY_UZS''))"

lemma feed_ok_granted:
  assumes "granted POSTER_ROLE ks c c'" and "ch_attestors c a = Some (attestor_constructor wallet dec)"
    and "\<And>k. (a, Some k) \<in> set ks \<longleftrightarrow> keeper = Some k"
  shows "feed_ok c' a dec wallet keeper"
proof -
  from grantedD [OF assms(1,2)] obtain rs where "ch_attestors c' a = Some (attestor_constructor wallet dec\<lparr>att_roles := rs\<rparr>)"
    "set rs = {(DEFAULT_ADMIN_ROLE, wallet), (POSTER_ROLE, wallet)} \<union> posters_for POSTER_ROLE ks a"
    by (auto simp: attestor_constructor_def)
  with assms(3) show ?thesis by (auto simp: feed_ok_def attestor_constructor_def posters_for_def)
qed

lemma wired_tail:
  assumes g: "granted POSTER_ROLE [(v3_reserve st, poster_of walletOf (env ''KEY_RESERVE'')),
      (v3_xau st, poster_of walletOf (env ''KEY_XAU'')), (v3_uzs st, poster_of walletOf (env ''KEY_UZS''))] c c'"
    and d: "v3_reserve st \<noteq> v3_xau st" "v3_reserve st \<noteq> v3_uzs st" "v3_xau st \<noteq> v3_uzs st"
    and f: "ch_attestors c (v3_reserve st) = Some (attestor_constructor wallet 0)"
      "ch_attestors c (v3_xau st) = Some (attestor_constructor wallet 8)"
      "ch_attestors c (v3_uzs st) = Some (attestor_constructor wallet 8)"
    and t: "ch_oltins c (v3_oltin st) = Some T" "token_wired env wallet st T"
    and x: "ch_exchanges c (v3_exchange st) = Some (X, v3_oltin st, uzd, v3_xau st, v3_uzs st)" "exchange_wired env st X"
  shows "wired walletOf env wallet uzd st c'"
proof -
  have "feed_ok c' (v3_reserve st) 0 wallet (poster_of walletOf (env ''KEY_RESERVE''))"
    "feed_ok c' (v3_xau st) 8 wallet (poster_of walletOf (env ''KEY_XAU''))"
    "feed_ok c' (v3_uzs st) 8 wallet (poster_of walletOf (env ''KEY_UZS''))"
    using d by (auto intro!: feed_ok_granted [OF g] f)
  moreover have "ch_oltins c' = ch_oltins c" "ch_exchanges c' = ch_exchanges c" using g by (simp_all add: granted_def)
  ultimately show ?thesis using d t x by (simp add: wired_def)
qed

lemma wp_poster_of: "Q (poster_of walletOf key) c \<Longrightarrow> wp (posterAddress walletOf key) Q (\<lambda>_. True) c"
  by (auto simp: posterAddress_def poster_of_def wps split: option.splits)

lemma token_wired_fresh:
  assumes "tk_roles T = [(PAUSER_ROLE, wallet), (DEFAULT_ADMIN_ROLE, wallet)]" "tk_totalSupply T = 0" "tk_balances T = (\<lambda>_. 0)"
    "\<not> tk_paused T" "ot_reserveFeed T = v3_reserve st" "ot_reserveScale T = 10 ^ 18"
    "age_env env ''MAX_AGE_RESERVE'' ''3600'' = Some (ot_maxAgeReserve T)" "ot_transferFeeBps T = 50"
    "ot_feeCollector T = env_or env ''FEE_COLLECTOR'' wallet" "ex = v3_exchange st"
  shows "token_wired env wallet st (grantRole_internal MINTER_ROLE ex T)"
proof -
  have "hasRole role who T \<longleftrightarrow> (role = PAUSER_ROLE \<or> role = DEFAULT_ADMIN_ROLE) \<and> who = wallet" for role who
    using assms(1) by (auto simp: hasRole_def)
  then show ?thesis using assms(2-) unfolding token_wired_def by (auto simp: grantRole_internal_def hasRole_def)
qed

lemma wp_wire:
  assumes d: "v3_reserve st \<noteq> v3_xau st" "v3_reserve st \<noteq> v3_uzs st" "v3_xau st \<noteq> v3_uzs st"
    and f: "ch_attestors c (v3_reserve st) = Some (attestor_constructor wallet 0)"
      "ch_attestors c (v3_xau st) = Some (attestor_constructor wallet 8)" "ch_attestors c (v3_uzs st) = Some (attestor_constructor wallet 8)"
    and t: "ch_oltins c (v3_oltin st) = Some T" "tk_roles T = [(PAUSER_ROLE, wallet), (DEFAULT_ADMIN_ROLE, wallet)]"
      "token_wired env wallet st (grantRole_internal MINTER_ROLE (v3_exchange st) T)"
    and x: "ch_exchanges c (v3_exchange st) = Some (X, v3_oltin st, uzd, v3_xau st, v3_uzs st)" "exchange_wired env st X"
  shows "wp (wire_roles walletOf env wallet st) (wired walletOf env wallet uzd) (\<lambda>_. True) c"
proof -
  let ?T = "grantRole_internal MINTER_ROLE (v3_exchange st) T"
  have adm: "hasRole DEFAULT_ADMIN_ROLE wallet T" using t(2) by (simp add: hasRole_def)
  have post: "wp (grant_posters wallet POSTER_ROLE [(v3_reserve st, poster_of walletOf (env ''KEY_RESERVE'')),
      (v3_xau st, poster_of walletOf (env ''KEY_XAU'')), (v3_uzs st, poster_of walletOf (env ''KEY_UZS''))])
      (\<lambda>_ c. wired walletOf env wallet uzd st c) (\<lambda>_. True) c2"
    if c2: "ch_attestors c2 = ch_attestors c" "ch_oltins c2 = (ch_oltins c)(v3_oltin st \<mapsto> ?T)" "ch_exchanges c2 = ch_exchanges c"
    for c2
    by (rule wp_grant_posters, rule wired_tail [where c = c2, OF _ d]) (use f t(3) x c2 in simp_all)
  show ?thesis unfolding wire_roles_def
    apply (simp add: wps Let_def t(1) f(1) adm grantRole_cases del: grant_posters.simps)
    apply (intro impI)
    apply (rule wp_poster_of, subst wp_core, rule wp_poster_of, subst wp_core, rule wp_poster_of)
    apply (simp only: wp_core)
    apply (rule wp_mono [OF post])
    apply (simp_all add: wp_core)
    done
qed

text \<open>
  C33.  A deployment that ends is wired as the environment configures it, by the wallet of
  \<^verbatim>\<open>PRIVATE_KEY\<close>: the exchange is the one holder of the minter role on a gold token with no
  supply, administered by the deployer alone, whose mint reads the deployed reserve feed in grams;
  the exchange trades it against the UZD of \<^verbatim>\<open>UZD_ADDRESS\<close> and reads the two deployed price feeds of
  eight decimals, within the configured ages; and the three feeds are distinct, each is empty, and its posters
  are the deployer and the wallet of its own keeper key, both of them and nobody else.
\<close>

theorem deployV3_wires_one_minter:
  assumes "inj newAddr" and "deployV3 walletOf newAddr env c = (Inr st, c')"
  shows "\<exists>pk wallet uzd. env ''PRIVATE_KEY'' = Some pk \<and> pk \<noteq> [] \<and> walletOf pk = Some wallet
     \<and> env ''UZD_ADDRESS'' = Some uzd \<and> uzd \<noteq> [] \<and> wired walletOf env wallet uzd st c'"
proof -
  have ne: "newAddr m = newAddr n \<longleftrightarrow> m = n" for m n using assms(1) by (auto dest: injD)
  let ?Q = "\<lambda>st c'. \<exists>pk wallet uzd. env ''PRIVATE_KEY'' = Some pk \<and> pk \<noteq> [] \<and> walletOf pk = Some wallet
     \<and> env ''UZD_ADDRESS'' = Some uzd \<and> uzd \<noteq> [] \<and> wired walletOf env wallet uzd st c'"
  have "wp (deployV3 walletOf newAddr env) ?Q (\<lambda>_. True) c"
    unfolding deployV3_def key_env_def
    by (simp add: wps Let_def ne oltin_constructor_cases exchange_constructor_cases split: option.split)
      (intro allI impI conjI, rule wp_mono [OF wp_wire],
       auto simp: ne age_env_def exchange_wired_def intro!: token_wired_fresh)
  from wp_run [OF assms(2) this] show ?thesis by simp
qed

section \<open>Concrete runs\<close>

definition sample_newAddr :: "nat \<Rightarrow> address" where "sample_newAddr n = ''new'' @ replicate n CHR ''1''"

definition sample_walletOf :: "string \<Rightarrow> address option" where "sample_walletOf k = (if k = ''pk'' then Some ''0xdeployer'' else Some ''0xkeeper'')"

definition sample_env :: env where
  "sample_env = [''PRIVATE_KEY'' \<mapsto> ''pk'', ''UZD_ADDRESS'' \<mapsto> ''0xuzd'', ''KEY_RESERVE'' \<mapsto> ''kr'']"

definition live_oltin :: oltin_token where
  "live_oltin = \<lparr>tk_balances = (\<lambda>_. 0), tk_allowances = (\<lambda>_ _. 0), tk_totalSupply = 0, tk_paused = False,
     tk_roles = [(MINTER_ROLE, OLD_EXCHANGE), (PAUSER_ROLE, ''0xdeployer''), (DEFAULT_ADMIN_ROLE, ''0xdeployer'')],
     ot_reserveFeed = ''0xr'', ot_reserveDecimals = 0, ot_reserveScale = 10 ^ 18,
     ot_maxAgeReserve = 3600, ot_transferFeeBps = 50, ot_feeCollector = ''0xdeployer''\<rparr>"

definition live_pm :: paymaster where
  "live_pm = deployed_pm\<lparr>pm_owner := ''0xdeployer'', pm_sponsoredTarget := (\<lambda>a. a = OLD_UZD \<or> a = OLD_EXCHANGE)\<rparr>"

definition live_chain :: chain where
  "live_chain = \<lparr>ch_net = 100, ch_nonce = 0, ch_eth = (\<lambda>_. 10 ^ 18), ch_attestors = Map.empty, ch_oltins = [OLTIN_V3 \<mapsto> live_oltin],
     ch_tokens = Map.empty, ch_exchanges = Map.empty, ch_stakings = Map.empty, ch_paymasters = [PAYMASTER \<mapsto> live_pm]\<rparr>"

lemma uint_ages [simp]: "uint_arg (js_Number ''3600'') = Some 3600" "uint_arg (js_Number ''259200'') = Some 259200"
  by (simp_all add: js_Number_def unsigned_decimal_def exponent_part_def prefixed_def uint_arg_def js_simps)

lemma new_distinct [simp]: "sample_newAddr m = sample_newAddr n \<longleftrightarrow> m = n" "sample_newAddr n \<noteq> address0"
  "sample_newAddr m \<noteq> OLTIN_V3" "sample_newAddr m \<noteq> OLD_UZD" "sample_newAddr m \<noteq> OLD_EXCHANGE" 
   "OLTIN_V3 \<noteq> sample_newAddr m" "OLD_UZD \<noteq> sample_newAddr m" "OLD_EXCHANGE \<noteq> sample_newAddr m"
  by (auto simp: sample_newAddr_def address0_def OLTIN_V3_def OLD_UZD_def OLD_EXCHANGE_def dest: arg_cong [of _ _ length] )

lemma live_simps:
  "ch_net live_chain = 100" "ch_nonce live_chain = 0" "ch_oltins live_chain = [OLTIN_V3 \<mapsto> live_oltin]" "ch_paymasters live_chain = [PAYMASTER \<mapsto> live_pm]"
  "hasRole DEFAULT_ADMIN_ROLE ''0xdeployer'' live_oltin" "pm_owner live_pm = ''0xdeployer''"
  by (simp_all add: live_chain_def live_oltin_def hasRole_def live_pm_def)

lemmas sample_run = sample_env_def env_or_def sample_walletOf_def wps Let_def live_simps exchange_constructor_cases oltin_constructor_cases
  grantRole_cases setSponsoredTarget_cases

lemma sample_reissue: "\<exists>x c'. deployV31 sample_walletOf sample_newAddr (\<lambda>_. True) sample_env live_chain = (Inr x, c')"
proof -
  have "wp (deployV31 sample_walletOf sample_newAddr (\<lambda>_. True) sample_env) (\<lambda>_ _. True) (\<lambda>_. False) live_chain"
    unfolding deployV31_def key_env_def by (simp add: sample_run)
  from wp_exists [OF this] show ?thesis by blast
qed

lemma att_grantRole_fresh: "\<exists>f. att_grantRole s r k (attestor_constructor s d) = Inr f"
  by (auto simp: att_grantRole_def attestor_constructor_def)

lemma sample_deploy: "\<exists>x c'. deployV3 sample_walletOf sample_newAddr sample_env live_chain = (Inr x, c')"
proof -
  have "wp (deployV3 sample_walletOf sample_newAddr sample_env) (\<lambda>_ _. True) (\<lambda>_. False) live_chain"
    unfolding deployV3_def key_env_def wire_roles_def
    using att_grantRole_fresh [of "''0xdeployer''" POSTER_ROLE "''0xkeeper''" 0] address0_third [of "''0xuzd''"]
    by (auto simp add: sample_run posterAddress_def hasRole_def)
  from wp_exists [OF this] show ?thesis by blast
qed

lemma live_facts:
  "ch_oltins live_chain OLTIN_V3 = Some live_oltin" "hasRole MINTER_ROLE OLD_EXCHANGE live_oltin"
  "sample_newAddr (Suc (ch_nonce live_chain)) \<noteq> OLD_EXCHANGE" "ch_paymasters live_chain PAYMASTER = Some live_pm"
  by (simp_all add: live_simps) (simp add: live_oltin_def hasRole_def)

theorem reissue_never_strands_the_minter_witness:
  "\<exists>x c'. deployV31 sample_walletOf sample_newAddr (\<lambda>_. True) sample_env live_chain = (Inr x, c') \<and> migrated live_oltin (Some live_pm) x c'"
proof -
  obtain x c' where r: "deployV31 sample_walletOf sample_newAddr (\<lambda>_. True) sample_env live_chain = (Inr x, c')"
    using sample_reissue by blast
  from reissue_never_strands_the_minter [OF live_facts(1-3) r] r show ?thesis by (auto simp: live_facts(4))
qed

theorem deployV3_wires_one_minter_witness:
  "\<exists>st c'. deployV3 sample_walletOf sample_newAddr sample_env live_chain = (Inr st, c')
     \<and> wired sample_walletOf sample_env ''0xdeployer'' ''0xuzd'' st c' \<and> feed_ok c' (v3_reserve st) 0 ''0xdeployer'' (Some ''0xkeeper'')"
proof -
  obtain st c' where r: "deployV3 sample_walletOf sample_newAddr sample_env live_chain = (Inr st, c')"
    using sample_deploy by blast
  have "inj sample_newAddr" by (rule injI) simp
  from deployV3_wires_one_minter [OF this r] have w: "wired sample_walletOf sample_env ''0xdeployer'' ''0xuzd'' st c'"
    by (simp add: sample_env_def sample_walletOf_def)
  have "poster_of sample_walletOf (sample_env ''KEY_RESERVE'') = Some ''0xkeeper''"
    by (simp add: poster_of_def sample_env_def sample_walletOf_def)
  with r w show ?thesis by (auto simp: wired_def)
qed

end
