(* ===== verification/Redeploy.thy ===== *)
theory Redeploy
  imports Deploy
begin

text \<open>
  The redeployment of the paymaster (\<^verbatim>\<open>deployPaymasterFixed.ts\<close>): what a run that ends
  did, call by call, and what follows from it.
\<close>

section \<open>Runs that end\<close>

definition pm_allows :: "address list \<Rightarrow> paymaster \<Rightarrow> paymaster" where
  "pm_allows ts P = P\<lparr>pm_sponsoredTarget := (\<lambda>a. a \<in> set ts \<or> pm_sponsoredTarget P a)\<rparr>"

lemma pm_allows_sel [simp]:
  "pm_eth (pm_allows ts P) = pm_eth P" "pm_oltinToken (pm_allows ts P) = pm_oltinToken P" "pm_owner (pm_allows ts P) = pm_owner P"
  "pm_oltinPerEth (pm_allows ts P) = pm_oltinPerEth P" "pm_minFeeOltin (pm_allows ts P) = pm_minFeeOltin P"
  "pm_sponsoredTarget (pm_allows ts P) a \<longleftrightarrow> a \<in> set ts \<or> pm_sponsoredTarget P a"
  by (simp_all add: pm_allows_def)

lemma pm_allows_Nil [simp]: "pm_allows [] P = P"
  by (simp add: pm_allows_def)

lemma pm_allows_Cons: "pm_allows ts (P\<lparr>pm_sponsoredTarget := (pm_sponsoredTarget P)(t := True)\<rparr>) = pm_allows (t # ts) P"
  by (simp add: pm_allows_def fun_eq_iff)

lemma pm_allows_id: "\<forall>t \<in> set ts. pm_sponsoredTarget P t \<Longrightarrow> pm_allows ts P = P"
  by (cases P) (auto simp: pm_allows_def)

text \<open>A run of calls that change one paymaster only.\<close>

definition pm_step :: "nat \<Rightarrow> address \<Rightarrow> paymaster \<Rightarrow> chain \<Rightarrow> chain" where
  "pm_step n pm P c = c\<lparr>ch_net := ch_net c - n, ch_paymasters := (ch_paymasters c)(pm \<mapsto> P)\<rparr>"

lemma pm_step_simps [simp]:
  "ch_net (pm_step n pm P c) = ch_net c - n" "ch_eth (pm_step n pm P c) = ch_eth c" "ch_paymasters (pm_step n pm P c) pm = Some P"
  "ch_paymasters (pm_step n pm P c) = (ch_paymasters c)(pm \<mapsto> P)"
  "pm_step m pm P' (pm_step n pm P c) = pm_step (m + n) pm P' c"
  by (simp_all add: pm_step_def)

lemma allow_targets_run:
  assumes "ch_paymasters c pm = Some P"
  shows "allow_targets pm s ts c = (Inr u, c') \<longleftrightarrow>
    (\<forall>t \<in> set ts. t \<noteq> address0) \<and> (ts = [] \<or> s = pm_owner P) \<and> length ts \<le> ch_net c \<and> c' = pm_step (length ts) pm (pm_allows ts P) c"
  using assms
proof (induction ts arbitrary: c P)
  case Nil
  then show ?case by (cases c) (auto simp: pm_step_def)
next
  case (Cons t ts)
  let ?P = "P\<lparr>pm_sponsoredTarget := (pm_sponsoredTarget P)(t := True)\<rparr>"
  have 1: "pm_tx pm (setSponsoredTarget s t True) c = (Inr (), c1) \<longleftrightarrow>
      s = pm_owner P \<and> t \<noteq> address0 \<and> 0 < ch_net c \<and> c1 = pm_step 1 pm ?P c" for c1
    using Cons.prems by (auto simp: pm_tx_def sbind_Inr_iff setSponsoredTarget_cases pm_step_def split: if_splits)
  have 2: "ch_paymasters (pm_step 1 pm ?P c) pm = Some ?P" by simp
  show ?case using Cons.IH [OF 2] by (auto simp: sbind_Inr_iff 1 pm_allows_Cons)
qed

lemma pm_read_run:
  assumes "ch_paymasters c pm = Some P"
  shows "pm_read pm h c = (Inr x, c') \<longleftrightarrow> h P = Inr x \<and> 0 < ch_net c \<and> c' = pm_step 1 pm P c"
  using assms by (auto simp: pm_read_def sbind_Inr_iff pm_step_def fun_upd_idem)

lemma getBalance_run:
  assumes "ch_paymasters c pm = Some P"
  shows "getBalance pm c = (Inr x, c') \<longleftrightarrow> x = pm_eth P \<and> 0 < ch_net c \<and> c' = pm_step 1 pm P c"
  using assms by (auto simp: getBalance_def eth_of_def pm_step_def fun_upd_idem)

lemma check_targets_run:
  assumes "ch_paymasters c pm = Some P"
  shows "check_targets pm ts c = (Inr u, c') \<longleftrightarrow>
    (\<forall>t \<in> set ts. pm_sponsoredTarget P t) \<and> length ts \<le> ch_net c \<and> c' = pm_step (length ts) pm P c"
  using assms
proof (induction ts arbitrary: c)
  case Nil
  then show ?case by (cases c) (auto simp: pm_step_def fun_upd_idem)
next
  case (Cons t ts)
  have 2: "ch_paymasters (pm_step 1 pm P c) pm = Some P" by simp
  show ?case using Cons.IH [OF 2] by (auto simp: sbind_Inr_iff pm_read_run [OF Cons.prems])
qed

text \<open>What the sanity step reads and compares, as one predicate of the contract's state.\<close>

definition sane_pm :: "(nat \<Rightarrow> nat \<Rightarrow> nat \<Rightarrow> nat option) \<Rightarrow> nat \<Rightarrow> address \<Rightarrow> nat \<Rightarrow> address list \<Rightarrow> paymaster \<Rightarrow> bool" where
  "sane_pm mulDivUp now_ts oltin target targets P \<longleftrightarrow>
     js_lower (pm_oltinToken P) = js_lower oltin \<and> target \<le> pm_eth P \<and> (\<forall>t \<in> set targets. pm_sponsoredTarget P t)
     \<and> pm_oltinPerEth P = RATE
     \<and> (\<exists>quote. quoteFee mulDivUp now_ts SAMPLE_GAS_LIMIT SAMPLE_MAX_FEE_PER_GAS P = Inr quote \<and> 10 * pm_minFeeOltin P < quote)
     \<and> pm_maxSponsoredEthWei P = PER_TX_CAP \<and> pm_dailyEthCapSender P = SENDER_DAILY_CAP \<and> pm_dailyEthCapGlobal P = GLOBAL_DAILY_CAP
     \<and> (pm_rateUpdatedAt P + MAX_RATE_AGE) * 1000 \<le> 8640000000000000"

lemma sanity_run:
  assumes "ch_paymasters c pm = Some P"
  shows "paymaster_sanity mulDivUp now_ts pm oltin target targets c = (Inr u, c') \<longleftrightarrow>
    sane_pm mulDivUp now_ts oltin target targets P \<and> 9 + length targets \<le> ch_net c \<and> c' = pm_step (9 + length targets) pm P c"
proof -
  have st: "ch_paymasters (pm_step n pm P c) pm = Some P" for n c by simp
  have nine: "9 + k = Suc (Suc (Suc (Suc (Suc (Suc (Suc (Suc (Suc k))))))))" for k by simp
  show ?thesis
    unfolding paymaster_sanity_def sbind_Inr_iff pm_read_run [OF assms] pm_read_run [OF st] getBalance_run [OF st]
      check_targets_run [OF st] script_Inr_iff
    apply (simp add: pm_read_run [OF st] getBalance_run [OF st] check_targets_run [OF st] pm_read_run [OF assms])
    apply (auto simp: sane_pm_def nine)
    done
qed

text \<open>The balances after a top-up to the target.\<close>

definition topped_up :: "address \<Rightarrow> nat \<Rightarrow> paymaster \<Rightarrow> chain \<Rightarrow> chain \<Rightarrow> bool" where
  "topped_up wallet target P c c' \<longleftrightarrow>
     (if pm_eth P < target then target - pm_eth P \<le> ch_eth c wallet \<and> ch_eth c' = (ch_eth c)(wallet := ch_eth c wallet - (target - pm_eth P))
      else ch_eth c' = ch_eth c)"

definition with_eth :: "nat \<Rightarrow> paymaster \<Rightarrow> paymaster" where
  "with_eth target P = (if pm_eth P < target then P\<lparr>pm_eth := target\<rparr> else P)"

lemma with_eth_sel [simp]:
  "pm_eth (with_eth v P) = max (pm_eth P) v" "pm_owner (with_eth v P) = pm_owner P" "pm_sponsoredTarget (with_eth v P) = pm_sponsoredTarget P"
  by (auto simp: with_eth_def)

lemma fund_to_run:
  assumes "ch_paymasters c pm = Some P"
  shows "fund_to wallet pm target c = (Inr u, c') \<longleftrightarrow>
    (if pm_eth P < target then
       1 < ch_net c \<and> target - pm_eth P \<le> ch_eth c wallet
       \<and> c' = pm_step 2 pm (with_eth target P) (c\<lparr>ch_eth := (ch_eth c)(wallet := ch_eth c wallet - (target - pm_eth P))\<rparr>)
     else 0 < ch_net c \<and> c' = pm_step 1 pm P c)"
proof -
  have 2: "send_eth wallet pm v (pm_step (Suc 0) pm P c) = (Inr (), c1) \<longleftrightarrow>
      1 < ch_net c \<and> v \<le> ch_eth c wallet
      \<and> c1 = pm_step 2 pm (receive_eth v P) (c\<lparr>ch_eth := (ch_eth c)(wallet := ch_eth c wallet - v)\<rparr>)" for v c1
    by (auto simp: send_eth_def pm_step_def Let_def numeral_2_eq_2)
  have "pm_eth P < target \<Longrightarrow> receive_eth (target - pm_eth P) P = with_eth target P" by (simp add: receive_eth_def with_eth_def)
  then show ?thesis by (auto simp: fund_to_def sbind_Inr_iff getBalance_run [OF assms] 2)
qed

definition config_pm :: "address \<Rightarrow> nat \<Rightarrow> address \<Rightarrow> address \<Rightarrow> paymaster" where
  "config_pm this now_ts sender oltin =
     \<lparr>pm_address = this, pm_oltinToken = oltin, pm_minRate = MIN_RATE, pm_maxRate = MAX_RATE, pm_maxRateAge = MAX_RATE_AGE,
      pm_oltinPerEth = RATE, pm_rateUpdatedAt = now_ts, pm_surchargeBps = SURCHARGE_BPS, pm_minFeeOltin = MIN_FEE_OLTIN,
      pm_maxSponsoredEthWei = PER_TX_CAP, pm_dailyEthCapSender = SENDER_DAILY_CAP, pm_dailyEthCapGlobal = GLOBAL_DAILY_CAP,
      pm_totalFeesCollected = 0, pm_sponsoredTarget = (\<lambda>_. False),
      pm_senderSpend = (\<lambda>_. \<lparr>ds_day = 0, ds_spentWei = 0\<rparr>), pm_globalSpend = \<lparr>ds_day = 0, ds_spentWei = 0\<rparr>,
      pm_paused = False, pm_owner = sender, pm_eth = 0\<rparr>"

lemma deploy_config_run:
  "deploy_paymaster newAddr now_ts sender (paymasterArgs oltin) c = (Inr a, c') \<longleftrightarrow>
     oltin \<noteq> address0 \<and> 0 < ch_net c \<and> a = newAddr (ch_nonce c)
     \<and> c' = (pm_step 1 a (config_pm a now_ts sender oltin) c)\<lparr>ch_nonce := ch_nonce c + 1\<rparr>"
proof -
  have "paymaster_constructor this now_ts sender oltin MIN_RATE MAX_RATE MAX_RATE_AGE RATE SURCHARGE_BPS MIN_FEE_OLTIN PER_TX_CAP
      SENDER_DAILY_CAP GLOBAL_DAILY_CAP = (if oltin = address0 then Inl ZeroAddress else Inr (config_pm this now_ts sender oltin))" for this
    by (simp add: paymaster_constructor_def revert_if_def config_pm_def MIN_RATE_def MAX_RATE_def MAX_RATE_AGE_def RATE_def SURCHARGE_BPS_def
        MIN_FEE_OLTIN_def PER_TX_CAP_def SENDER_DAILY_CAP_def GLOBAL_DAILY_CAP_def MAX_SURCHARGE_BPS_def MAX_MIN_FEE_OLTIN_def)
  then show ?thesis
    by (auto simp: deploy_paymaster_def paymasterArgs_def sbind_Inr_iff new_address_def pm_step_def split: if_splits)
qed

lemma config_quote:
  assumes "mulDivUp_spec mulDivUp" and "pm_oltinPerEth P = RATE" and "pm_surchargeBps P = SURCHARGE_BPS" and "pm_minFeeOltin P = MIN_FEE_OLTIN"
    and "pm_rateUpdatedAt P = now_ts"
  shows "quoteFee mulDivUp now_ts SAMPLE_GAS_LIMIT SAMPLE_MAX_FEE_PER_GAS P = Inr 258679734705000"
proof -
  have "\<forall>n \<in> {13952520750000 :: nat, 251145373500000, 258679734705000}. n < UINT256" by (simp add: UINT256_def)
  with assms(1) show ?thesis
    by (simp add: quoteFee_def pm_checked_def feeFor_def mulDivUp_spec_def mulDivUp_call_def Let_def revert_if_def ceil_div_def assms(2-)
        RATE_def SURCHARGE_BPS_def MIN_FEE_OLTIN_def SAMPLE_GAS_LIMIT_def SAMPLE_MAX_FEE_PER_GAS_def)
qed

definition paymaster_targets :: "env \<Rightarrow> address list" where
  "paymaster_targets env = [env_or env ''OLTIN_ADDRESS'' OLTIN_V3, env_or env ''UZD_ADDRESS'' OLD_UZD,
     env_or env ''EXCHANGE_ADDRESS'' OLD_EXCHANGE, env_or env ''STAKING_ADDRESS'' DEFAULT_STAKING]"

text \<open>The paymaster a run works on, and the chain once it exists.\<close>

definition start_pm :: "(nat \<Rightarrow> address) \<Rightarrow> nat \<Rightarrow> address \<Rightarrow> env \<Rightarrow> chain \<Rightarrow> address \<Rightarrow> paymaster \<Rightarrow> chain \<Rightarrow> bool" where
  "start_pm newAddr now_ts wallet env c pm P c1 \<longleftrightarrow>
     (if env_or env ''PAYMASTER_ADDRESS'' [] \<noteq> [] then pm = env_or env ''PAYMASTER_ADDRESS'' [] \<and> ch_paymasters c pm = Some P \<and> c1 = c
      else env_or env ''OLTIN_ADDRESS'' OLTIN_V3 \<noteq> address0 \<and> 0 < ch_net c \<and> pm = newAddr (ch_nonce c)
        \<and> P = config_pm pm now_ts wallet (env_or env ''OLTIN_ADDRESS'' OLTIN_V3)
        \<and> c1 = (pm_step 1 pm P c)\<lparr>ch_nonce := ch_nonce c + 1\<rparr>)"

lemma start_pm_has: "start_pm newAddr now_ts wallet env c pm P c1 \<Longrightarrow> ch_paymasters c1 pm = Some P"
  by (auto simp: start_pm_def split: if_splits)

text \<open>The rest of a run, from the paymaster's existence to the last check.\<close>

definition pm_tail :: "(nat \<Rightarrow> nat \<Rightarrow> nat \<Rightarrow> nat option) \<Rightarrow> nat \<Rightarrow> address \<Rightarrow> address \<Rightarrow> address list \<Rightarrow> nat \<Rightarrow> address \<Rightarrow> paymaster \<Rightarrow> chain \<Rightarrow> chain \<Rightarrow> bool" where
  "pm_tail mulDivUp now_ts wallet oltin targets target pm P c c' \<longleftrightarrow>
     (\<forall>t \<in> set targets. t \<noteq> address0) \<and> (targets = [] \<or> wallet = pm_owner P)
     \<and> sane_pm mulDivUp now_ts oltin target targets (with_eth target (pm_allows targets P))
     \<and> (if pm_eth P < target then
          11 + 2 * length targets \<le> ch_net c \<and> target - pm_eth P \<le> ch_eth c wallet
          \<and> c' = pm_step (11 + 2 * length targets) pm (with_eth target (pm_allows targets P))
               (c\<lparr>ch_eth := (ch_eth c)(wallet := ch_eth c wallet - (target - pm_eth P))\<rparr>)
        else 10 + 2 * length targets \<le> ch_net c \<and> c' = pm_step (10 + 2 * length targets) pm (pm_allows targets P) c)"

lemma tail_run:
  assumes "ch_paymasters c pm = Some P"
  shows "(\<exists>c1 c2. allow_targets pm wallet targets c = (Inr (), c1) \<and> fund_to wallet pm target c1 = (Inr (), c2)
        \<and> paymaster_sanity mulDivUp now_ts pm oltin target targets c2 = (Inr (), c')) \<longleftrightarrow>
     pm_tail mulDivUp now_ts wallet oltin targets target pm P c c'"
proof (cases "pm_eth P < target")
  case True
  have f: "fund_to wallet pm target (pm_step n pm (pm_allows targets P) c) = (Inr (), c2) \<longleftrightarrow>
      n + 2 \<le> ch_net c \<and> target - pm_eth P \<le> ch_eth c wallet
      \<and> c2 = pm_step (n + 2) pm (with_eth target (pm_allows targets P)) (c\<lparr>ch_eth := (ch_eth c)(wallet := ch_eth c wallet - (target - pm_eth P))\<rparr>)" for n c2
    using True by (auto simp: fund_to_run [where P = "pm_allows targets P"] pm_step_def)
  have s: "paymaster_sanity mulDivUp now_ts pm oltin target targets (pm_step n pm Q d) = (Inr (), c') \<longleftrightarrow>
      sane_pm mulDivUp now_ts oltin target targets Q \<and> 9 + length targets \<le> ch_net d - n \<and> c' = pm_step (9 + length targets + n) pm Q d" for n Q d
    by (simp add: sanity_run [where P = Q])
  show ?thesis unfolding allow_targets_run [OF assms] pm_tail_def
    using True by (auto simp: f s algebra_simps)
next
  case False
  have f: "fund_to wallet pm target (pm_step n pm (pm_allows targets P) c) = (Inr (), c2) \<longleftrightarrow>
      n + 1 \<le> ch_net c \<and> c2 = pm_step (n + 1) pm (pm_allows targets P) c" for n c2
    using False by (auto simp: fund_to_run [where P = "pm_allows targets P"])
  have s: "paymaster_sanity mulDivUp now_ts pm oltin target targets (pm_step n pm Q d) = (Inr (), c') \<longleftrightarrow>
      sane_pm mulDivUp now_ts oltin target targets Q \<and> 9 + length targets \<le> ch_net d - n \<and> c' = pm_step (9 + length targets + n) pm Q d" for n Q d
    by (simp add: sanity_run [where P = Q])
  show ?thesis unfolding allow_targets_run [OF assms] pm_tail_def
    using False by (auto simp: f s algebra_simps with_eth_def)
qed

lemma start_run:
  "(if env_or env ''PAYMASTER_ADDRESS'' [] \<noteq> [] then sret (env_or env ''PAYMASTER_ADDRESS'' [])
     else deploy_paymaster newAddr now_ts wallet (paymasterArgs (env_or env ''OLTIN_ADDRESS'' OLTIN_V3))) c = (Inr pm, c1)
     \<and> ch_paymasters c1 pm = Some P \<longleftrightarrow> start_pm newAddr now_ts wallet env c pm P c1"
  by (auto simp: start_pm_def deploy_config_run)

lemma allow_targets_has: "allow_targets pm s (t # ts) c = (Inr u, c') \<Longrightarrow> \<exists>P. ch_paymasters c pm = Some P"
  by (auto simp: sbind_Inr_iff pm_tx_def)

lemma key_env_run: "key_env walletOf env n m d = (Inr w, d') \<longleftrightarrow> (\<exists>pk. env n = Some pk \<and> pk \<noteq> [] \<and> walletOf pk = Some w) \<and> d' = d"
  by (auto simp: key_env_def split: option.splits)

lemma run_shuffle:
  assumes "\<And>w c0 c1 t. S w c0 c1 \<and> R w t c1 \<longleftrightarrow> (\<exists>P. F w c0 P c1 \<and> G w P t c1)"
  shows "(\<exists>pk w c0 c1 t. A pk \<and> B pk \<and> C pk w \<and> D w c0 \<and> S w c0 c1 \<and> T t \<and> R w t c1) \<longleftrightarrow>
    (\<exists>pk w c0 P c1 t. A pk \<and> B pk \<and> C pk w \<and> D w c0 \<and> F w c0 P c1 \<and> T t \<and> G w P t c1)"
  using assms by blast

text \<open>
  The recovery of the retired paymaster's ETH, when it ends: with no \<^verbatim>\<open>OLD_PAYMASTER\<close> nothing is
  called; an empty one costs the one balance query; otherwise the contract's own withdrawal ran to
  its end and left it empty.
\<close>

definition recovered :: "(address \<Rightarrow> address \<Rightarrow> unit script) \<Rightarrow> address \<Rightarrow> string option \<Rightarrow> chain \<Rightarrow> chain \<Rightarrow> bool" where
  "recovered oldWithdraw wallet oldPaymaster c c0 \<longleftrightarrow>
     (case oldPaymaster of None \<Rightarrow> c0 = c
      | Some old \<Rightarrow> if old = [] then c0 = c else
          0 < ch_net c
          \<and> (if eth_of old c = 0 then c0 = c\<lparr>ch_net := ch_net c - 1\<rparr>
             else 1 < ch_net c
               \<and> (\<exists>d. oldWithdraw old wallet (c\<lparr>ch_net := ch_net c - 2\<rparr>) = (Inr (), d) \<and> 0 < ch_net d \<and> eth_of old d = 0
                     \<and> c0 = d\<lparr>ch_net := ch_net d - 1\<rparr>)))"

lemma eth_of_net [simp]: "eth_of a (c\<lparr>ch_net := n\<rparr>) = eth_of a c"
  by (simp add: eth_of_def split: option.split)

lemma sweep_run: "sweep_old oldWithdraw wallet oldPaymaster c = (Inr u, c0) \<longleftrightarrow> recovered oldWithdraw wallet oldPaymaster c c0"
  by (auto simp: sweep_old_def recovered_def sbind_Inr_iff getBalance_def Let_def numeral_2_eq_2 split: option.splits if_splits)

lemma recovered_empty: "recovered oldWithdraw wallet (Some old) c c0 \<Longrightarrow> old \<noteq> [] \<Longrightarrow> eth_of old c0 = 0"
  by (auto simp: recovered_def split: if_splits)

text \<open>A run that ends: the recovery, the start, the four allowances, the top-up and the checks.\<close>

lemma redeploy_run:
  "deployPaymasterFixed mulDivUp walletOf newAddr parseEther oldWithdraw now_ts env c = (Inr pm, c') \<longleftrightarrow>
    (\<exists>pk wallet c0 P c1 target. env ''PRIVATE_KEY'' = Some pk \<and> pk \<noteq> [] \<and> walletOf pk = Some wallet
       \<and> recovered oldWithdraw wallet (env ''OLD_PAYMASTER'') c c0
       \<and> start_pm newAddr now_ts wallet env c0 pm P c1 \<and> parseEther (env_or env ''PAYMASTER_FUND_ETH'' ''0.01'') = Some target
       \<and> pm_tail mulDivUp now_ts wallet (env_or env ''OLTIN_ADDRESS'' OLTIN_V3) (paymaster_targets env) target pm P c1 c')"
    (is "?L \<longleftrightarrow> ?R")
proof -
  let ?o = "env_or env ''OLTIN_ADDRESS'' OLTIN_V3"
  let ?start = "\<lambda>w. if env_or env ''PAYMASTER_ADDRESS'' [] \<noteq> [] then sret (env_or env ''PAYMASTER_ADDRESS'' [])
     else deploy_paymaster newAddr now_ts w (paymasterArgs ?o)"
  let ?rest = "\<lambda>w target c1. \<exists>c2 c3. allow_targets pm w (paymaster_targets env) c1 = (Inr (), c2) \<and> fund_to w pm target c2 = (Inr (), c3)
        \<and> paymaster_sanity mulDivUp now_ts pm ?o target (paymaster_targets env) c3 = (Inr (), c')"
  have "?L \<longleftrightarrow> (\<exists>pk w c0 c1 target. env ''PRIVATE_KEY'' = Some pk \<and> pk \<noteq> [] \<and> walletOf pk = Some w
      \<and> recovered oldWithdraw w (env ''OLD_PAYMASTER'') c c0 \<and> ?start w c0 = (Inr pm, c1)
      \<and> parseEther (env_or env ''PAYMASTER_FUND_ETH'' ''0.01'') = Some target \<and> ?rest w target c1)"
  proof -
    define S where "S = ?start"
    have S: "(if env_or env ''PAYMASTER_ADDRESS'' [] \<noteq> [] then sret (env_or env ''PAYMASTER_ADDRESS'' [])
       else deploy_paymaster newAddr now_ts w (paymasterArgs ?o)) = S w" for w by (simp add: S_def)
    show ?thesis
      unfolding deployPaymasterFixed_def sbind_Inr_iff Let_def key_env_run sweep_run paymaster_targets_def S
      by (simp only: option.simps script_Inr_iff) (auto simp del: allow_targets.simps; blast)
  qed
  also have "\<dots> \<longleftrightarrow> ?R"
  proof -
    have "?start w c0 = (Inr pm, c1) \<and> ?rest w target c1 \<longleftrightarrow>
        (\<exists>P. start_pm newAddr now_ts w env c0 pm P c1 \<and> pm_tail mulDivUp now_ts w ?o (paymaster_targets env) target pm P c1 c')" for w c0 c1 target
    proof (intro iffI conjI)
      assume l: "?start w c0 = (Inr pm, c1) \<and> ?rest w target c1"
      then obtain c2 where "allow_targets pm w (paymaster_targets env) c1 = (Inr (), c2)" by (elim conjE exE)
      then obtain P where P: "ch_paymasters c1 pm = Some P" unfolding paymaster_targets_def by (blast dest: allow_targets_has)
      have "start_pm newAddr now_ts w env c0 pm P c1" using l P by (simp only: start_run [symmetric])
      moreover have "pm_tail mulDivUp now_ts w ?o (paymaster_targets env) target pm P c1 c'"
        using l by (simp only: tail_run [OF P, symmetric])
      ultimately show "\<exists>P. start_pm newAddr now_ts w env c0 pm P c1 \<and> pm_tail mulDivUp now_ts w ?o (paymaster_targets env) target pm P c1 c'"
        by (intro exI conjI)
    next
      assume "\<exists>P. start_pm newAddr now_ts w env c0 pm P c1 \<and> pm_tail mulDivUp now_ts w ?o (paymaster_targets env) target pm P c1 c'"
      then obtain P where P: "start_pm newAddr now_ts w env c0 pm P c1" "pm_tail mulDivUp now_ts w ?o (paymaster_targets env) target pm P c1 c'"
        by (elim exE conjE)
      show "?start w c0 = (Inr pm, c1)" using start_run [THEN iffD2, OF P(1)] by (rule conjunct1)
      show "?rest w target c1" by (rule tail_run [OF start_pm_has [OF P(1)], THEN iffD2, OF P(2)])
    qed
    then show ?thesis by (rule run_shuffle)
  qed
  finally show ?thesis .
qed

lemma with_eth_max: "with_eth v P = P\<lparr>pm_eth := max (pm_eth P) v\<rparr>"
  by (cases P) (auto simp: with_eth_def)

text \<open>The contract a redeployment is to leave: a fresh one is the configuration's, field by field.\<close>

definition as_configured :: "(nat \<Rightarrow> address) \<Rightarrow> nat \<Rightarrow> address \<Rightarrow> env \<Rightarrow> nat \<Rightarrow> chain \<Rightarrow> address \<Rightarrow> paymaster \<Rightarrow> bool" where
  "as_configured newAddr now_ts wallet env target c0 pm P \<longleftrightarrow>
     (if env_or env ''PAYMASTER_ADDRESS'' [] = [] then
        pm = newAddr (ch_nonce c0)
        \<and> P = (config_pm pm now_ts wallet (env_or env ''OLTIN_ADDRESS'' OLTIN_V3))
               \<lparr>pm_sponsoredTarget := (\<lambda>a. a \<in> set (paymaster_targets env)), pm_eth := target\<rparr>
      else pm = env_or env ''PAYMASTER_ADDRESS'' []
        \<and> (\<exists>P0. ch_paymasters c0 pm = Some P0
              \<and> P = P0\<lparr>pm_sponsoredTarget := (\<lambda>a. a \<in> set (paymaster_targets env) \<or> pm_sponsoredTarget P0 a),
                       pm_eth := max (pm_eth P0) target\<rparr>))"

lemma start_configured:
  assumes "start_pm newAddr now_ts wallet env c0 pm P c1"
  shows "as_configured newAddr now_ts wallet env target c0 pm (with_eth target (pm_allows (paymaster_targets env) P))"
  using assms by (auto simp: start_pm_def as_configured_def with_eth_max pm_allows_def config_pm_def split: if_splits)

text \<open>
  C34.  A redeployment of the paymaster that ends first recovered the ETH of the retired paymaster,
  when \<^verbatim>\<open>OLD_PAYMASTER\<close> names one: what is left on it then is nothing.  From there on it leaves a
  contract owned by the wallet of \<^verbatim>\<open>PRIVATE_KEY\<close>.  A fresh one has every field as
  \<^verbatim>\<open>paymasterConfig.ts\<close> gives it (bounds and age of the rate, rate, surcharge, fee floor and caps),
  sponsors exactly the four contracts and holds exactly the target; one named by
  \<^verbatim>\<open>PAYMASTER_ADDRESS\<close> gained the four contracts and the ETH missing to the target, and nothing else.
  Either way the contract passed the read-back: bound to the gold token, rate and caps as
  configured, the peg and not the floor pricing a typical transaction.  The ETH it gained is exactly
  what the deployer gave, never more than the target, and nothing else on the chain changed since
  the recovery.
\<close>

theorem redeployed_paymaster_is_checked:
  assumes "parseEther (env_or env ''PAYMASTER_FUND_ETH'' ''0.01'') = Some target"
    and "deployPaymasterFixed mulDivUp walletOf newAddr parseEther oldWithdraw now_ts env c = (Inr pm, c')"
  shows "\<exists>pk wallet c0 P given. env ''PRIVATE_KEY'' = Some pk \<and> pk \<noteq> [] \<and> walletOf pk = Some wallet
    \<and> recovered oldWithdraw wallet (env ''OLD_PAYMASTER'') c c0
    \<and> (\<forall>old. env ''OLD_PAYMASTER'' = Some old \<longrightarrow> old \<noteq> [] \<longrightarrow> eth_of old c0 = 0)
    \<and> as_configured newAddr now_ts wallet env target c0 pm P \<and> pm_owner P = wallet
    \<and> sane_pm mulDivUp now_ts (env_or env ''OLTIN_ADDRESS'' OLTIN_V3) target (paymaster_targets env) P
    \<and> given \<le> target \<and> given \<le> ch_eth c0 wallet \<and> ch_eth c' = (ch_eth c0)(wallet := ch_eth c0 wallet - given)
    \<and> pm_eth P = given + (if env_or env ''PAYMASTER_ADDRESS'' [] = [] then 0 else eth_of pm c0)
    \<and> ch_paymasters c' = (ch_paymasters c0)(pm \<mapsto> P) \<and> ch_attestors c' = ch_attestors c0 \<and> ch_oltins c' = ch_oltins c0
    \<and> ch_tokens c' = ch_tokens c0 \<and> ch_exchanges c' = ch_exchanges c0 \<and> ch_stakings c' = ch_stakings c0"
proof -
  let ?ts = "paymaster_targets env" and ?o = "env_or env ''OLTIN_ADDRESS'' OLTIN_V3"
  obtain pk wallet c0 P c1 where k: "env ''PRIVATE_KEY'' = Some pk" "pk \<noteq> []" "walletOf pk = Some wallet"
    and r: "recovered oldWithdraw wallet (env ''OLD_PAYMASTER'') c c0"
    and s: "start_pm newAddr now_ts wallet env c0 pm P c1" and t: "pm_tail mulDivUp now_ts wallet ?o ?ts target pm P c1 c'"
    using assms(2) unfolding redeploy_run assms(1) by auto
  let ?P = "with_eth target (pm_allows ?ts P)"
  have w: "pm_owner ?P = wallet" using t by (simp add: pm_tail_def paymaster_targets_def)
  have old: "\<forall>old. env ''OLD_PAYMASTER'' = Some old \<longrightarrow> old \<noteq> [] \<longrightarrow> eth_of old c0 = 0" using r by (auto dest: recovered_empty)
  have e: "pm_eth P = (if env_or env ''PAYMASTER_ADDRESS'' [] = [] then 0 else eth_of pm c0)" "ch_eth c1 = ch_eth c0"
    using s by (auto simp: start_pm_def eth_of_def config_pm_def split: if_splits)
  have c1: "ch_paymasters c1 = (ch_paymasters c0)(pm \<mapsto> P)" "ch_attestors c1 = ch_attestors c0" "ch_oltins c1 = ch_oltins c0"
    "ch_tokens c1 = ch_tokens c0" "ch_exchanges c1 = ch_exchanges c0" "ch_stakings c1 = ch_stakings c0"
    using s by (auto simp: start_pm_def pm_step_def fun_upd_idem split: if_splits)
  have f: "ch_eth c' = (ch_eth c0)(wallet := ch_eth c0 wallet - (target - pm_eth P)) \<and> target - pm_eth P \<le> ch_eth c0 wallet
      \<and> ch_paymasters c' = (ch_paymasters c1)(pm \<mapsto> ?P)
      \<and> ch_attestors c' = ch_attestors c1 \<and> ch_oltins c' = ch_oltins c1 \<and> ch_tokens c' = ch_tokens c1
      \<and> ch_exchanges c' = ch_exchanges c1 \<and> ch_stakings c' = ch_stakings c1"
    using t e(2) by (auto simp: pm_tail_def pm_step_def with_eth_def split: if_splits)
  have q: "sane_pm mulDivUp now_ts ?o target ?ts ?P" using t by (simp add: pm_tail_def)
  have g: "pm_eth ?P = target - pm_eth P + pm_eth P" by simp
  show ?thesis
    by (rule exI [of _ pk], rule exI [of _ wallet], rule exI [of _ c0], rule exI [of _ ?P], rule exI [of _ "target - pm_eth P"])
      (use k r old w q f c1 start_configured [OF s, of target] g [unfolded e(1)] in \<open>simp add: e(1)\<close>)
qed

lemma fresh_run:
  assumes "mulDivUp_spec mulDivUp" and "recovered oldWithdraw wallet (env ''OLD_PAYMASTER'') c c0" and "env_or env ''PAYMASTER_ADDRESS'' [] = []"
    and "env ''PRIVATE_KEY'' = Some pk" and "pk \<noteq> []" and "walletOf pk = Some wallet" and "address0 \<notin> set (paymaster_targets env)"
    and "parseEther (env_or env ''PAYMASTER_FUND_ETH'' ''0.01'') = Some target" and "target \<le> ch_eth c0 wallet"
    and "20 \<le> ch_net c0" and "(now_ts + MAX_RATE_AGE) * 1000 \<le> 8640000000000000"
  shows "\<exists>c' P. deployPaymasterFixed mulDivUp walletOf newAddr parseEther oldWithdraw now_ts env c = (Inr (newAddr (ch_nonce c0)), c')
    \<and> ch_paymasters c' (newAddr (ch_nonce c0)) = Some P \<and> pm_rateUpdatedAt P = now_ts \<and> pm_maxRateAge P = MAX_RATE_AGE"
proof -
  let ?pm = "newAddr (ch_nonce c0)" and ?o = "env_or env ''OLTIN_ADDRESS'' OLTIN_V3" and ?ts = "paymaster_targets env"
  let ?P = "config_pm ?pm now_ts wallet ?o"
  let ?c1 = "(pm_step 1 ?pm ?P c0)\<lparr>ch_nonce := ch_nonce c0 + 1\<rparr>"
  have o: "?o \<noteq> address0" and nz: "\<forall>t \<in> set ?ts. t \<noteq> address0" and l: "length ?ts = 4"
    using assms(7) by (auto simp: paymaster_targets_def)
  have st: "start_pm newAddr now_ts wallet env c0 ?pm ?P ?c1" using assms(3,10) o by (simp add: start_pm_def)
  let ?Q = "with_eth target (pm_allows ?ts ?P)"
  have Q: "pm_oltinToken ?Q = ?o" "pm_oltinPerEth ?Q = RATE" "pm_surchargeBps ?Q = SURCHARGE_BPS" "pm_minFeeOltin ?Q = MIN_FEE_OLTIN"
    "pm_rateUpdatedAt ?Q = now_ts" "pm_maxSponsoredEthWei ?Q = PER_TX_CAP" "pm_dailyEthCapSender ?Q = SENDER_DAILY_CAP"
    "pm_dailyEthCapGlobal ?Q = GLOBAL_DAILY_CAP" by (simp_all add: with_eth_def pm_allows_def config_pm_def)
  have "10 * MIN_FEE_OLTIN < 258679734705000" by (simp add: MIN_FEE_OLTIN_def)
  then have "sane_pm mulDivUp now_ts ?o target ?ts ?Q"
    using Q config_quote [OF assms(1) Q(2-5)] assms(11) by (simp add: sane_pm_def)
  moreover have "pm_eth ?P = 0" "pm_owner ?P = wallet" by (simp_all add: config_pm_def)
  ultimately obtain c' where t: "pm_tail mulDivUp now_ts wallet ?o ?ts target ?pm ?P ?c1 c'"
    using nz assms(9,10) by (cases "target = 0") (auto simp: pm_tail_def l)
  have "ch_paymasters c' ?pm = Some ?Q" using t by (auto simp: pm_tail_def with_eth_def split: if_splits)
  moreover have "pm_maxRateAge ?Q = MAX_RATE_AGE" by (simp add: with_eth_def pm_allows_def config_pm_def)
  moreover have "deployPaymasterFixed mulDivUp walletOf newAddr parseEther oldWithdraw now_ts env c = (Inr ?pm, c')"
    using st t assms(2,4-6,8) unfolding redeploy_run by blast
  ultimately show ?thesis using Q(5) by blast
qed

text \<open>
  A fresh deployment passes its own checks: with the documented ceiling division, four
  non-zero targets, and once the retired paymaster's ETH is recovered a deployer that holds the
  target amount and a connection that survives twenty calls, the script ends with the new
  paymaster, whatever the chain was.
\<close>

lemma fresh_redeployment_ends:
  assumes "mulDivUp_spec mulDivUp" and "recovered oldWithdraw wallet (env ''OLD_PAYMASTER'') c c0" and "env_or env ''PAYMASTER_ADDRESS'' [] = []"
    and "env ''PRIVATE_KEY'' = Some pk" and "pk \<noteq> []" and "walletOf pk = Some wallet" and "address0 \<notin> set (paymaster_targets env)"
    and "parseEther (env_or env ''PAYMASTER_FUND_ETH'' ''0.01'') = Some target" and "target \<le> ch_eth c0 wallet"
    and "20 \<le> ch_net c0" and "(now_ts + MAX_RATE_AGE) * 1000 \<le> 8640000000000000"
  shows "\<exists>c'. deployPaymasterFixed mulDivUp walletOf newAddr parseEther oldWithdraw now_ts env c = (Inr (newAddr (ch_nonce c0)), c')"
  using fresh_run [where env = env and walletOf = walletOf and parseEther = parseEther and pk = pk, OF assms] by blast

lemma env_or_upd [simp]: "env_or (e(k \<mapsto> v)) k' d = (if k' = k then v else env_or e k' d)"
  by (simp add: env_or_def)

lemma quoteFee_later:
  "pm_rateUpdatedAt P \<le> now_ts \<Longrightarrow> now_ts \<le> later \<Longrightarrow> later \<le> pm_rateUpdatedAt P + pm_maxRateAge P \<Longrightarrow>
     quoteFee mulDivUp later g f P = quoteFee mulDivUp now_ts g f P"
proof -
  assume "pm_rateUpdatedAt P \<le> now_ts" "now_ts \<le> later" "later \<le> pm_rateUpdatedAt P + pm_maxRateAge P"
  then have "\<not> pm_maxRateAge P < later - pm_rateUpdatedAt P" "\<not> pm_maxRateAge P < now_ts - pm_rateUpdatedAt P"
    "pm_rateUpdatedAt P \<le> now_ts" "pm_rateUpdatedAt P \<le> later" by linarith+
  then show ?thesis by (simp add: quoteFee_def feeFor_def Let_def revert_if_def)
qed

lemma quoteFee_since: "quoteFee mulDivUp now_ts g f P = Inr q \<Longrightarrow> pm_rateUpdatedAt P \<le> now_ts"
  by (auto simp: quoteFee_def feeFor_def Let_def rbind_Inr_iff split: if_splits)

lemma expired_quote: "pm_rateUpdatedAt P + pm_maxRateAge P < later \<Longrightarrow> quoteFee mulDivUp later g f P \<noteq> Inr q"
  by (auto simp: quoteFee_def feeFor_def Let_def rbind_Inr_iff)

lemma recovered_again:
  assumes "\<And>old. oldPaymaster = Some old \<Longrightarrow> old \<noteq> [] \<Longrightarrow> eth_of old c = 0"
  shows "recovered oldWithdraw wallet oldPaymaster c c0 \<longleftrightarrow>
     (if oldPaymaster = None \<or> oldPaymaster = Some [] then c0 = c else 0 < ch_net c \<and> c0 = c\<lparr>ch_net := ch_net c - 1\<rparr>)"
  using assms by (auto simp: recovered_def split: option.split)

text \<open>The run itself gives ETH to the paymaster it works on only: any other empty account stays empty.\<close>

lemma run_keeps_empty:
  assumes "start_pm newAddr now_ts wallet env c0 pm P c1" and "pm_tail mulDivUp now_ts wallet oltin targets target pm P c1 c'"
    and "eth_of a c0 = 0" and "a \<noteq> pm"
  shows "eth_of a c' = 0"
proof -
  have "ch_paymasters c' a = ch_paymasters c0 a" and "ch_eth c1 = ch_eth c0"
    using assms(1,2,4) by (auto simp: start_pm_def pm_tail_def pm_step_def split: if_splits)
  moreover have "ch_eth c' a \<le> ch_eth c1 a" using assms(2) by (auto simp: pm_tail_def split: if_splits)
  ultimately show ?thesis using assms(3) by (auto simp: eth_of_def split: option.splits)
qed

text \<open>How many calls a second run makes: eighteen, and one more to find the retired paymaster empty.\<close>

definition rerun_calls :: "string option \<Rightarrow> nat" where
  "rerun_calls oldPaymaster = (if oldPaymaster = None \<or> oldPaymaster = Some [] then 18 else 19)"

text \<open>
  C35.  Running the redeployment again, with the environment of the first run and
  \<^verbatim>\<open>PAYMASTER_ADDRESS\<close> set to the paymaster it made, changes nothing.  Up to the end of the rate's
  age (the last moment at which the contract accepts the posted rate) the second run ends with the
  same contract, spends no ETH and leaves the chain as the first run left it, but for the calls it
  made: eighteen, and a nineteenth that finds the retired paymaster empty when \<^verbatim>\<open>OLD_PAYMASTER\<close>
  names one, whatever its withdrawal does.  Once the rate has expired, the second run does not end:
  its sample quote reverts.  The retired paymaster must not be the one the run made.
\<close>

theorem redeployment_is_idempotent:
  assumes "deployPaymasterFixed mulDivUp walletOf newAddr parseEther oldWithdraw now_ts env c = (Inr pm, c')"
    and "pm \<noteq> []" and "env ''OLD_PAYMASTER'' \<noteq> Some pm" and "ch_paymasters c' pm = Some P" and "now_ts \<le> later"
    and "rerun_calls (env ''OLD_PAYMASTER'') \<le> n"
  shows "if later \<le> pm_rateUpdatedAt P + pm_maxRateAge P then
      deployPaymasterFixed mulDivUp walletOf newAddr parseEther oldWithdraw later (env(''PAYMASTER_ADDRESS'' \<mapsto> pm)) (c'\<lparr>ch_net := n\<rparr>)
        = (Inr pm, c'\<lparr>ch_net := n - rerun_calls (env ''OLD_PAYMASTER'')\<rparr>)
    else \<forall>x c''. deployPaymasterFixed mulDivUp walletOf newAddr parseEther oldWithdraw later (env(''PAYMASTER_ADDRESS'' \<mapsto> pm))
        (c'\<lparr>ch_net := n\<rparr>) \<noteq> (Inr x, c'')"
proof -
  let ?o = "env_or env ''OLTIN_ADDRESS'' OLTIN_V3" and ?ts = "paymaster_targets env" and ?env = "env(''PAYMASTER_ADDRESS'' \<mapsto> pm)"
  let ?c = "c'\<lparr>ch_net := n\<rparr>" and ?op = "env ''OLD_PAYMASTER''"
  define k where "k = rerun_calls ?op - 18"
  have k: "rerun_calls ?op = k + 18" by (simp add: k_def rerun_calls_def)
  obtain pk wallet c0 P0 c1 target where r: "env ''PRIVATE_KEY'' = Some pk" "pk \<noteq> []" "walletOf pk = Some wallet"
      "parseEther (env_or env ''PAYMASTER_FUND_ETH'' ''0.01'') = Some target"
    and rec: "recovered oldWithdraw wallet ?op c c0" and st: "start_pm newAddr now_ts wallet env c0 pm P0 c1"
    and t: "pm_tail mulDivUp now_ts wallet ?o ?ts target pm P0 c1 c'"
    using assms(1) unfolding redeploy_run by blast
  have P: "P = with_eth target (pm_allows ?ts P0)" using t assms(4) by (auto simp: pm_tail_def with_eth_def split: if_splits)
  have s: "sane_pm mulDivUp now_ts ?o target ?ts P" and w: "wallet = pm_owner P" and nz: "\<forall>t \<in> set ?ts. t \<noteq> address0"
    using t by (auto simp: pm_tail_def P paymaster_targets_def)
  have e: "target \<le> pm_eth P" and a: "pm_allows ?ts P = P" using s by (auto simp: sane_pm_def intro: pm_allows_id)
  have we: "with_eth target P = P" using e by (simp add: with_eth_def)
  have ts: "paymaster_targets ?env = ?ts" and l: "length ?ts = 4" by (simp_all add: paymaster_targets_def)
  have old: "eth_of old ?c = 0" if "?op = Some old" "old \<noteq> []" for old
    using run_keeps_empty [OF st t recovered_empty [OF rec [unfolded that(1)] that(2)]] that(1) assms(3) by auto
  have again: "recovered oldWithdraw wallet ?op ?c d \<longleftrightarrow> k \<le> n \<and> d = c'\<lparr>ch_net := n - k\<rparr>" for d
    using recovered_again [of ?op, OF old] k by (auto simp: rerun_calls_def split: if_splits)
  have start: "start_pm newAddr later wallet ?env d x Q d1 \<longleftrightarrow> x = pm \<and> ch_paymasters d pm = Some Q \<and> d1 = d" for d x Q d1
    using assms(2) by (auto simp: start_pm_def)
  have rerun: "deployPaymasterFixed mulDivUp walletOf newAddr parseEther oldWithdraw later ?env ?c = (Inr x, c'') \<longleftrightarrow>
      x = pm \<and> k \<le> n \<and> pm_tail mulDivUp later wallet ?o ?ts target pm P (c'\<lparr>ch_net := n - k\<rparr>) c''" for x c''
    unfolding redeploy_run ts using r assms(4) by (auto simp: again start)
  have tail: "pm_tail mulDivUp later wallet ?o ?ts target pm P (c'\<lparr>ch_net := n - k\<rparr>) c'' \<longleftrightarrow>
      sane_pm mulDivUp later ?o target ?ts P \<and> 18 \<le> n - k \<and> c'' = c'\<lparr>ch_net := n - k - 18\<rparr>" for c''
    using nz w e assms(4) by (auto simp: pm_tail_def a we l pm_step_def fun_upd_idem)
  from s obtain q where q: "quoteFee mulDivUp now_ts SAMPLE_GAS_LIMIT SAMPLE_MAX_FEE_PER_GAS P = Inr q" by (auto simp: sane_pm_def)
  show ?thesis
  proof (cases "later \<le> pm_rateUpdatedAt P + pm_maxRateAge P")
    case True
    then have "sane_pm mulDivUp later ?o target ?ts P"
      using s quoteFee_later [OF quoteFee_since [OF q] assms(5)] by (simp add: sane_pm_def)
    then show ?thesis using True assms(6) k by (simp add: rerun tail)
  next
    case False
    then have "\<not> sane_pm mulDivUp later ?o target ?ts P" using expired_quote [of P later] by (auto simp: sane_pm_def)
    with False show ?thesis by (simp add: rerun tail)
  qed
qed

text \<open>A deployer with one ETH, and the documented parsing of its funding target.\<close>

definition sample_parseEther :: "string \<Rightarrow> nat option" where
  "sample_parseEther s = (if s = ''0.01'' then Some (10 ^ 16) else None)"

definition redeploy_env :: env where
  "redeploy_env = [''PRIVATE_KEY'' \<mapsto> ''pk'', ''OLD_PAYMASTER'' \<mapsto> ''0xold'']"

definition bare_chain :: chain where
  "bare_chain = \<lparr>ch_net = 100, ch_nonce = 0, ch_eth = (\<lambda>_. 10 ^ 18), ch_attestors = Map.empty, ch_oltins = Map.empty,
     ch_tokens = Map.empty, ch_exchanges = Map.empty, ch_stakings = Map.empty, ch_paymasters = Map.empty\<rparr>"

text \<open>A retired paymaster that pays out its whole balance, and the chain after it did.\<close>

definition sample_withdraw :: "address \<Rightarrow> address \<Rightarrow> unit script" where
  "sample_withdraw old wallet c = (Inr (), c\<lparr>ch_eth := (ch_eth c)(old := 0, wallet := ch_eth c wallet + ch_eth c old)\<rparr>)"

definition swept_chain :: chain where
  "swept_chain = bare_chain\<lparr>ch_net := 97, ch_eth := (\<lambda>_. 10 ^ 18)(''0xold'' := 0, ''0xdeployer'' := 2 * 10 ^ 18)\<rparr>"

lemma redeploy_env_facts:
  "recovered sample_withdraw ''0xdeployer'' (redeploy_env ''OLD_PAYMASTER'') bare_chain swept_chain"
  "env_or redeploy_env ''PAYMASTER_ADDRESS'' [] = []" "redeploy_env ''PRIVATE_KEY'' = Some ''pk''"
  "address0 \<notin> set (paymaster_targets redeploy_env)"
  "sample_parseEther (env_or redeploy_env ''PAYMASTER_FUND_ETH'' ''0.01'') = Some (10 ^ 16)" "10 ^ 16 \<le> ch_eth swept_chain ''0xdeployer''"
  "20 \<le> ch_net swept_chain" "(1000 + MAX_RATE_AGE) * 1000 \<le> 8640000000000000" "redeploy_env ''OLD_PAYMASTER'' = Some ''0xold''"
proof -
  have "DEFAULT_STAKING \<noteq> address0" by (rule address0_third) (simp add: DEFAULT_STAKING_def)
  then show "address0 \<notin> set (paymaster_targets redeploy_env)"
    by (simp add: paymaster_targets_def redeploy_env_def env_or_def known_nonzero [THEN not_sym] not_sym)
  show "recovered sample_withdraw ''0xdeployer'' (redeploy_env ''OLD_PAYMASTER'') bare_chain swept_chain"
    by (simp add: recovered_def redeploy_env_def eth_of_def bare_chain_def sample_withdraw_def swept_chain_def)
qed (simp_all add: redeploy_env_def env_or_def sample_parseEther_def bare_chain_def swept_chain_def MAX_RATE_AGE_def)

abbreviation sample_redeploy :: "nat \<Rightarrow> env \<Rightarrow> address script" where
  "sample_redeploy \<equiv> deployPaymasterFixed sample_mulDivUp (\<lambda>_. Some ''0xdeployer'') (\<lambda>_. ''0xpm'') sample_parseEther sample_withdraw"

lemma sample_redeploy_run:
  "\<exists>c'. sample_redeploy 1000 redeploy_env bare_chain = (Inr ''0xpm'', c')
     \<and> (\<exists>P. ch_paymasters c' ''0xpm'' = Some P \<and> pm_rateUpdatedAt P = 1000 \<and> pm_maxRateAge P = MAX_RATE_AGE)"
  using fresh_run [where env = redeploy_env and walletOf = "\<lambda>_. Some ''0xdeployer''" and parseEther = sample_parseEther and newAddr = "\<lambda>_. ''0xpm''" and pk = "''pk''",
      OF sample_mulDivUp_spec redeploy_env_facts(1-3) _ _ redeploy_env_facts(4-8)]
  by simp

theorem redeployed_paymaster_is_checked_witness:
  "\<exists>c' P. sample_redeploy 1000 redeploy_env bare_chain = (Inr ''0xpm'', c') \<and> ch_paymasters c' ''0xpm'' = Some P
     \<and> pm_owner P = ''0xdeployer'' \<and> pm_eth P = 10 ^ 16 \<and> pm_surchargeBps P = SURCHARGE_BPS \<and> pm_maxRateAge P = MAX_RATE_AGE"
proof -
  obtain c' where r: "sample_redeploy 1000 redeploy_env bare_chain = (Inr ''0xpm'', c')" using sample_redeploy_run by blast
  from redeployed_paymaster_is_checked [OF redeploy_env_facts(5) r] obtain wallet c0 P
    where "Some ''0xdeployer'' = Some wallet" "ch_paymasters c' = (ch_paymasters c0)(''0xpm'' \<mapsto> P)" "pm_owner P = wallet"
      "as_configured (\<lambda>_. ''0xpm'') 1000 wallet redeploy_env (10 ^ 16) c0 ''0xpm'' P"
    by (elim exE conjE) (rule that)
  with r show ?thesis by (simp add: as_configured_def redeploy_env_facts(2) config_pm_def)
qed

lemma fresh_redeployment_ends_witness:
  "\<exists>c'. sample_redeploy 1000 redeploy_env bare_chain = (Inr ''0xpm'', c')"
  using fresh_redeployment_ends [where env = redeploy_env and walletOf = "\<lambda>_. Some ''0xdeployer''" and parseEther = sample_parseEther and newAddr = "\<lambda>_. ''0xpm''" and pk = "''pk''",
      OF sample_mulDivUp_spec redeploy_env_facts(1-3) _ _ redeploy_env_facts(4-8)] by simp

theorem redeployment_is_idempotent_witness:
  "\<exists>c'. sample_redeploy 5000 (redeploy_env(''PAYMASTER_ADDRESS'' \<mapsto> ''0xpm'')) (c'\<lparr>ch_net := 30\<rparr>) = (Inr ''0xpm'', c'\<lparr>ch_net := 11\<rparr>)
     \<and> (\<forall>x c''. sample_redeploy (10 ^ 9) (redeploy_env(''PAYMASTER_ADDRESS'' \<mapsto> ''0xpm'')) (c'\<lparr>ch_net := 30\<rparr>) \<noteq> (Inr x, c''))"
proof -
  obtain c' P where r: "sample_redeploy 1000 redeploy_env bare_chain = (Inr ''0xpm'', c')"
    "ch_paymasters c' ''0xpm'' = Some P" "pm_rateUpdatedAt P = 1000" "pm_maxRateAge P = MAX_RATE_AGE" using sample_redeploy_run by blast
  have "''0xpm'' \<noteq> []" "redeploy_env ''OLD_PAYMASTER'' \<noteq> Some ''0xpm''" "rerun_calls (redeploy_env ''OLD_PAYMASTER'') = 19"
    by (simp_all add: redeploy_env_facts(9) rerun_calls_def)
  with redeployment_is_idempotent [OF r(1) _ _ r(2), of 5000 30] redeployment_is_idempotent [OF r(1) _ _ r(2), of "10 ^ 9" 30]
  show ?thesis by (intro exI [of _ c']) (simp add: r(3,4) MAX_RATE_AGE_def)
qed

end
