(* ===== verification/Legacy.thy ===== *)
theory Legacy
  imports Deploy
begin

text \<open>
  The second gold token \<^verbatim>\<open>OltinTokenV2.sol\<close> and the operations scripts that act on it:
  \<^verbatim>\<open>scripts/fundRewardPool.ts\<close>, \<^verbatim>\<open>scripts/migrate.ts\<close> and \<^verbatim>\<open>scripts/migrateAll.ts\<close>.  The scripts run
  alone on the two tokens and the staking contract; each awaited call may fail on its own, and a
  transaction is two of them, the sending and the wait for the receipt.
\<close>

section \<open>The token\<close>

record oltin_v2 = token +
  v2_transferFeeBps :: nat
  v2_feeCollector :: address

definition v2_constructor :: "address \<Rightarrow> address \<Rightarrow> oltin_v2" where
  "v2_constructor sender feeCollector =
     \<lparr>tk_balances = (\<lambda>_. 0), tk_allowances = (\<lambda>_ _. 0), tk_totalSupply = 0, tk_paused = False,
      tk_roles = [(PAUSER_ROLE, sender), (BURNER_ROLE, sender), (MINTER_ROLE, sender), (DEFAULT_ADMIN_ROLE, sender)],
      v2_transferFeeBps = 50, v2_feeCollector = feeCollector\<rparr>"

definition v2_mint :: "address \<Rightarrow> address \<Rightarrow> nat \<Rightarrow> oltin_v2 \<Rightarrow> (revert, oltin_v2) result" where
  "v2_mint sender to amount t =
     rbind (onlyRole MINTER_ROLE sender t) (\<lambda>_.
     rbind (whenNotPaused t) (\<lambda>_.
     rbind (require (to \<noteq> address0) ''Zero address'') (\<lambda>_.
     rbind (require (amount > 0) ''Zero amount'') (\<lambda>_.
     mint_internal to amount t))))"

definition v2_burn :: "address \<Rightarrow> address \<Rightarrow> nat \<Rightarrow> oltin_v2 \<Rightarrow> (revert, oltin_v2) result" where
  "v2_burn sender src amount t =
     rbind (onlyRole BURNER_ROLE sender t) (\<lambda>_.
     rbind (whenNotPaused t) (\<lambda>_.
     rbind (require (src \<noteq> address0) ''Zero address'') (\<lambda>_.
     rbind (require (amount > 0) ''Zero amount'') (\<lambda>_.
     rbind (require (tk_balances t src \<ge> amount) ''Insufficient balance'') (\<lambda>_.
     burn_internal src amount t)))))"

definition adminTransfer :: "address \<Rightarrow> address \<Rightarrow> address \<Rightarrow> nat \<Rightarrow> string \<Rightarrow> oltin_v2 \<Rightarrow> (revert, oltin_v2) result" where
  "adminTransfer sender src to amount transferId t =
     rbind (onlyRole MINTER_ROLE sender t) (\<lambda>_.
     rbind (whenNotPaused t) (\<lambda>_.
     rbind (require (src \<noteq> address0 \<and> to \<noteq> address0) ''Zero address'') (\<lambda>_.
     rbind (require (amount > 0) ''Zero amount'') (\<lambda>_.
     rbind (require (tk_balances t src \<ge> amount) ''Insufficient balance'') (\<lambda>_.
     rbind (require (transferId \<noteq> []) ''Transfer ID required'') (\<lambda>_.
     rbind (checked (amount * v2_transferFeeBps t)) (\<lambda>p.
     let fee = p div 10000 in
     rbind (if fee \<le> amount then Inr (amount - fee) else Inl Panic) (\<lambda>netAmount.
     rbind (token_update src to netAmount t) (\<lambda>t1.
     if fee > 0 \<and> v2_feeCollector t1 \<noteq> address0 then token_update src (v2_feeCollector t1) fee t1 else Inr t1)))))))))"

definition v2_setFeeConfig :: "address \<Rightarrow> nat \<Rightarrow> address \<Rightarrow> oltin_v2 \<Rightarrow> (revert, oltin_v2) result" where
  "v2_setFeeConfig sender feeBps collector t =
     rbind (onlyRole DEFAULT_ADMIN_ROLE sender t) (\<lambda>_.
     rbind (require (feeBps \<le> 500) ''Fee max 5%'') (\<lambda>_.
     Inr (t\<lparr>v2_transferFeeBps := feeBps, v2_feeCollector := collector\<rparr>)))"

datatype v2_call =
    V2Inherited token_call
  | V2Mint address nat
  | V2Burn address nat
  | V2AdminTransfer address address nat string
  | V2SetFeeConfig nat address

fun v2_exec :: "v2_call \<Rightarrow> address \<Rightarrow> oltin_v2 \<Rightarrow> (revert, oltin_v2) result" where
  "v2_exec (V2Inherited c) s t = token_exec c s t"
| "v2_exec (V2Mint to v) s t = v2_mint s to v t"
| "v2_exec (V2Burn a v) s t = v2_burn s a v t"
| "v2_exec (V2AdminTransfer a b v i) s t = adminTransfer s a b v i t"
| "v2_exec (V2SetFeeConfig b c) s t = v2_setFeeConfig s b c t"

section \<open>The scripts' world\<close>

record legacy =
  lg_net :: "bool list" \<comment> \<open>whether each further awaited call goes through; none after the last\<close>
  lg_v1 :: token
  lg_v2 :: oltin_v2
  lg_staking :: staking

definition lg_call :: "(legacy, 'a) action \<Rightarrow> (legacy, 'a) action" where
  "lg_call m s = (case lg_net s of [] \<Rightarrow> (Inl ConnectionLost, s)
     | b # bs \<Rightarrow> let s1 = s\<lparr>lg_net := bs\<rparr> in if b then m s1 else (Inl ConnectionLost, s1))"

definition lg_read :: "(legacy \<Rightarrow> 'a) \<Rightarrow> (legacy, 'a) action" where
  "lg_read f = lg_call (\<lambda>s. (Inr (f s), s))"

text \<open>A transaction: sent, then waited for.\<close>

definition lg_tx :: "(legacy \<Rightarrow> (revert, legacy) result) \<Rightarrow> (legacy, unit) action" where
  "lg_tx f = sbind (lg_call (\<lambda>s. case f s of Inl e \<Rightarrow> (Inl (Reverted e), s) | Inr s' \<Rightarrow> (Inr (), s')))
               (\<lambda>_. lg_call (sret ()))"

definition on_v2 :: "(oltin_v2 \<Rightarrow> (revert, oltin_v2) result) \<Rightarrow> legacy \<Rightarrow> (revert, legacy) result" where
  "on_v2 f s = rbind (f (lg_v2 s)) (\<lambda>t. Inr (s\<lparr>lg_v2 := t\<rparr>))"

text \<open>An amount for a \<^verbatim>\<open>uint256\<close> argument.\<close>

definition big_arg :: "nat \<Rightarrow> (legacy, nat) action" where
  "big_arg v = option_or BadArgument (if v < UINT256 then Some v else None)"

section \<open>\<^verbatim>\<open>fundRewardPool.ts\<close>\<close>

definition pool_target :: "env \<Rightarrow> (script_error, nat) result" where
  "pool_target env =
     (let fundAmountRaw = env_or env ''FUND_AMOUNT_OLTIN'' ''1000'' in
      if \<not> all_digits fundAmountRaw then Inl (Thrown ''FUND_AMOUNT_OLTIN must be a positive integer'')
      else Inr (digits_val fundAmountRaw * 10 ^ 18))"

definition fund_steps :: "address \<Rightarrow> nat \<Rightarrow> (legacy, unit) action" where
  "fund_steps wallet toFund =
     sbind (lg_read (\<lambda>s. tk_balances (lg_v2 s) wallet)) (\<lambda>balance.
     sbind (lg_read (\<lambda>s. tk_allowances (lg_v2 s) wallet (sk_address (lg_staking s)))) (\<lambda>currentAllowance.
     sbind (if balance < toFund
            then sbind (big_arg (toFund - balance)) (\<lambda>toMint. lg_tx (on_v2 (v2_mint wallet wallet toMint)))
            else sret ()) (\<lambda>_.
     sbind (if currentAllowance < toFund
            then sbind (big_arg toFund) (\<lambda>v. lg_tx (\<lambda>s. on_v2 (token_approve wallet (sk_address (lg_staking s)) v) s))
            else sret ()) (\<lambda>_.
     sbind (big_arg toFund) (\<lambda>v. lg_tx (\<lambda>s.
       rbind (fundRewardPool wallet v (lg_staking s) (lg_v2 s)) (\<lambda>(S, t). Inr (s\<lparr>lg_staking := S, lg_v2 := t\<rparr>))))))))"

definition fundRewardPool_main :: "(string \<Rightarrow> address option) \<Rightarrow> env \<Rightarrow> (legacy, unit) action" where
  "fundRewardPool_main walletOf env =
     sbind (case env ''PRIVATE_KEY'' of None \<Rightarrow> sthrow (Thrown ''PRIVATE_KEY not set'')
            | Some k \<Rightarrow> if k = [] then sthrow (Thrown ''PRIVATE_KEY not set'') else sret k) (\<lambda>privateKey.
     sbind (lifted (\<lambda>e. e) (pool_target env)) (\<lambda>targetAmount.
     sbind (option_or BadArgument (walletOf privateKey)) (\<lambda>wallet.
     sbind (lg_read (\<lambda>s. sk_rewardPool (lg_staking s))) (\<lambda>rewardPoolBefore.
     if rewardPoolBefore \<ge> targetAmount then sret ()
     else sbind (fund_steps wallet (targetAmount - rewardPoolBefore)) (\<lambda>_.
          sbind (lg_read (\<lambda>s. sk_rewardPool (lg_staking s))) (\<lambda>_. sret ()))))))"

section \<open>\<^verbatim>\<open>migrate.ts\<close> and \<^verbatim>\<open>migrateAll.ts\<close>\<close>

definition WALLETS :: "address list" where
  "WALLETS = [''0x27d887d138813c6125e41f4eea23170537ca7978'', ''0x986c0c9689281d454a97ca12db35f2ae2ea810d9'',
     ''0xda558938057a14037e381b06de5ec8ef527d03bd'']"

text \<open>\<^verbatim>\<open>balanceOf\<close> of a string: the client throws on what is no address.\<close>

definition v1_balanceOf :: "(string \<Rightarrow> bool) \<Rightarrow> string \<Rightarrow> (legacy, nat) action" where
  "v1_balanceOf isAddress a =
     (if isAddress a then lg_read (\<lambda>s. tk_balances (lg_v1 s) a) else sthrow BadArgument)"

fun fetch_balances :: "(string \<Rightarrow> bool) \<Rightarrow> string list \<Rightarrow> (legacy, (address \<times> nat) list) action" where
  "fetch_balances isAddress [] = sret []"
| "fetch_balances isAddress (a # as) =
     sbind (v1_balanceOf isAddress a) (\<lambda>balance.
     sbind (fetch_balances isAddress as) (\<lambda>rest. sret (if balance > 0 then (a, balance) # rest else rest)))"

text \<open>\<^verbatim>\<open>try ... catch\<close>: whether the body ended, what it did staying done.\<close>

definition attempt :: "('s, 'a) action \<Rightarrow> ('s, 'a option) action" where
  "attempt m s = (case m s of (Inl e, s') \<Rightarrow> (Inr None, s') | (Inr x, s') \<Rightarrow> (Inr (Some x), s'))"

fun mint_all :: "address \<Rightarrow> (address \<times> nat) list \<Rightarrow> (legacy, bool list) action" where
  "mint_all minter [] = sret []"
| "mint_all minter ((a, balance) # ms) =
     sbind (attempt (lg_tx (on_v2 (v2_mint minter a balance)))) (\<lambda>ok.
     sbind (mint_all minter ms) (\<lambda>oks. sret ((ok \<noteq> None) # oks)))"

definition minter_env :: "(string \<Rightarrow> address option) \<Rightarrow> env \<Rightarrow> (legacy, address) action" where
  "minter_env walletOf env =
     option_or BadArgument (case env ''MINTER_PRIVATE_KEY'' of None \<Rightarrow> None | Some k \<Rightarrow> walletOf k)"

definition migrate_main :: "(string \<Rightarrow> bool) \<Rightarrow> (string \<Rightarrow> address option) \<Rightarrow> env \<Rightarrow> (legacy, bool list) action" where
  "migrate_main isAddress walletOf env =
     sbind (minter_env walletOf env) (\<lambda>wallet.
     sbind (fetch_balances isAddress WALLETS) (\<lambda>toMigrate. mint_all wallet toMigrate))"

text \<open>The longer list is read from a file, one address a line; a line that cannot be read is skipped.\<close>

definition file_wallets :: "string \<Rightarrow> string list" where
  "file_wallets raw = filter (\<lambda>w. w \<noteq> []) (map js_trim (js_split (CHR 0x0A) raw))"

fun fetch_found :: "(string \<Rightarrow> bool) \<Rightarrow> string list \<Rightarrow> (legacy, (address \<times> nat) list) action" where
  "fetch_found isAddress [] = sret []"
| "fetch_found isAddress (a # as) =
     sbind (attempt (v1_balanceOf isAddress a)) (\<lambda>b.
     sbind (fetch_found isAddress as) (\<lambda>rest.
     sret (case b of None \<Rightarrow> rest | Some balance \<Rightarrow> if balance > 0 then (a, balance) # rest else rest)))"

definition migrateAll_main ::
    "(string \<Rightarrow> bool) \<Rightarrow> (string \<Rightarrow> address option) \<Rightarrow> env \<Rightarrow> string option \<Rightarrow> (legacy, nat \<times> nat \<times> nat) action" where
  "migrateAll_main isAddress walletOf env walletsRaw =
     sbind (minter_env walletOf env) (\<lambda>wallet.
     sbind (lg_read (\<lambda>_. ())) (\<lambda>_.
     sbind (option_or (Thrown ''ENOENT'') walletsRaw) (\<lambda>raw.
     sbind (fetch_found isAddress (file_wallets raw)) (\<lambda>toMigrate.
     sbind (mint_all wallet toMigrate) (\<lambda>oks.
     sbind (lg_read (\<lambda>s. tk_totalSupply (lg_v2 s))) (\<lambda>v2Supply.
     sret (length (filter (\<lambda>ok. ok) oks), length (filter (\<lambda>ok. \<not> ok) oks), v2Supply)))))))"

section \<open>Reasoning\<close>

lemma wp_lg_call:
  assumes "\<And>n. wp m Q E (s\<lparr>lg_net := n\<rparr>)" and "\<And>n. E (s\<lparr>lg_net := n\<rparr>)"
  shows "wp (lg_call m) Q E s"
proof -
  have "E s" using assms(2) [of "lg_net s"] by simp
  with assms show ?thesis by (auto simp: lg_call_def wp_def Let_def split: list.splits)
qed

lemma wp_lg_read:
  assumes "\<And>n. Q (f (s\<lparr>lg_net := n\<rparr>)) (s\<lparr>lg_net := n\<rparr>)" and "\<And>n. E (s\<lparr>lg_net := n\<rparr>)"
  shows "wp (lg_read f) Q E s"
  unfolding lg_read_def by (rule wp_lg_call) (simp_all add: wp_def assms)

lemma wp_lg_tx:
  assumes "\<And>n s' k. f (s\<lparr>lg_net := n\<rparr>) = Inr s' \<Longrightarrow> Q () (s'\<lparr>lg_net := k\<rparr>) \<and> E (s'\<lparr>lg_net := k\<rparr>)"
    and "\<And>n. E (s\<lparr>lg_net := n\<rparr>)"
  shows "wp (lg_tx f) Q E s"
  unfolding lg_tx_def wp_core
proof (rule wp_lg_call)
  fix n
  show "wp (\<lambda>s. case f s of Inl e \<Rightarrow> (Inl (Reverted e), s) | Inr s' \<Rightarrow> (Inr (), s')) (\<lambda>x. wp (lg_call (sret ())) Q E) E (s\<lparr>lg_net := n\<rparr>)"
  proof (cases "f (s\<lparr>lg_net := n\<rparr>)")
    case (Inl e)
    with assms(2) show ?thesis by (simp add: wp_def)
  next
    case (Inr s')
    have "wp (lg_call (sret ())) Q E s'" using assms(1) [OF Inr] by (intro wp_lg_call) (simp_all add: wp_core)
    with Inr show ?thesis by (simp add: wp_def)
  qed
qed (rule assms(2))

lemma wp_attempt: "wp m (\<lambda>x. Q (Some x)) (Q None) s \<Longrightarrow> wp (attempt m) Q E s"
  by (auto simp: wp_def attempt_def split: prod.splits sum.splits)

lemma v2_mint_effect:
  assumes "token_ok t" and "v2_mint sender to v t = Inr t'"
  shows "token_ok t' \<and> t' = t\<lparr>tk_totalSupply := tk_totalSupply t + v, tk_balances := (tk_balances t)(to := tk_balances t to + v)\<rparr>"
  using assms(2) mint_internal_effect [OF assms(1), of to v t'] by (auto simp: v2_mint_def guard_binds)

section \<open>The migration\<close>

text \<open>What a list of mints credits to an account when those marked have landed.\<close>

fun credited :: "(address \<times> nat) list \<Rightarrow> bool list \<Rightarrow> address \<Rightarrow> nat" where
  "credited ((x, b) # ms) (l # ls) a = (if l \<and> x = a then b else 0) + credited ms ls a"
| "credited ms ls a = 0"

definition landed :: "(address \<times> nat) list \<Rightarrow> bool list \<Rightarrow> legacy \<Rightarrow> legacy \<Rightarrow> bool" where
  "landed ms ls s s' \<longleftrightarrow> length ls = length ms \<and> token_ok (lg_v2 s') \<and> lg_v1 s' = lg_v1 s \<and> lg_staking s' = lg_staking s
     \<and> (\<forall>a. tk_balances (lg_v2 s') a = tk_balances (lg_v2 s) a + credited ms ls a)"

lemma wp_mint_all:
  assumes "token_ok (lg_v2 s)"
  shows "wp (mint_all minter ms) (\<lambda>oks s'. \<exists>ls. landed ms ls s s' \<and> list_all2 (\<longrightarrow>) oks ls) (\<lambda>_. False) s"
  using assms
proof (induction minter ms arbitrary: s rule: mint_all.induct)
  case (1 minter)
  then show ?case by (simp add: wp_core landed_def)
next
  case (2 minter a b ms)
  have step: "wp (sbind (mint_all minter ms) (\<lambda>oks. sret ((ok \<noteq> None) # oks)))
      (\<lambda>oks s'. \<exists>ls. landed ((a, b) # ms) ls s s' \<and> list_all2 (\<longrightarrow>) oks ls) (\<lambda>_. False) s1"
    if s1: "token_ok (lg_v2 s1)" "lg_v1 s1 = lg_v1 s" "lg_staking s1 = lg_staking s"
      "\<And>x. tk_balances (lg_v2 s1) x = tk_balances (lg_v2 s) x + (if l \<and> a = x then b else 0)" and l: "ok \<noteq> None \<longrightarrow> l" for ok l s1
    unfolding wp_core
  proof (rule wp_mono [OF 2(1) [OF s1(1)]])
    fix oks s' assume "\<exists>ls. landed ms ls s1 s' \<and> list_all2 (\<longrightarrow>) oks ls"
    then obtain ls where "landed ms ls s1 s'" "list_all2 (\<longrightarrow>) oks ls" by blast
    with s1 l show "\<exists>ls. landed ((a, b) # ms) ls s s' \<and> list_all2 (\<longrightarrow>) ((ok \<noteq> None) # oks) ls"
      by (intro exI [of _ "l # ls"]) (auto simp: landed_def)
  qed
  show ?case unfolding mint_all.simps wp_core(3) [of "attempt _"]
  proof (intro wp_attempt wp_lg_tx conjI)
    fix n s' k assume "on_v2 (v2_mint minter a b) (s\<lparr>lg_net := n\<rparr>) = Inr s'"
    then obtain t where t: "v2_mint minter a b (lg_v2 s) = Inr t" "s' = s\<lparr>lg_net := n, lg_v2 := t\<rparr>"
      by (auto simp: on_v2_def rbind_Inr_iff)
    note eff = v2_mint_effect [OF 2(2) t(1)]
    show "wp (sbind (mint_all minter ms) (\<lambda>oks. sret ((Some () \<noteq> None) # oks)))
      (\<lambda>oks s'. \<exists>ls. landed ((a, b) # ms) ls s s' \<and> list_all2 (\<longrightarrow>) oks ls) (\<lambda>_. False) (s'\<lparr>lg_net := k\<rparr>)"
      by (rule step [of _ True]) (use eff t(2) in auto)
    show "wp (sbind (mint_all minter ms) (\<lambda>oks. sret ((None \<noteq> (None :: unit option)) # oks)))
      (\<lambda>oks s'. \<exists>ls. landed ((a, b) # ms) ls s s' \<and> list_all2 (\<longrightarrow>) oks ls) (\<lambda>_. False) (s'\<lparr>lg_net := k\<rparr>)"
      by (rule step [of _ True]) (use eff t(2) in auto)
  next
    fix n
    show "wp (sbind (mint_all minter ms) (\<lambda>oks. sret ((None \<noteq> (None :: unit option)) # oks)))
      (\<lambda>oks s'. \<exists>ls. landed ((a, b) # ms) ls s s' \<and> list_all2 (\<longrightarrow>) oks ls) (\<lambda>_. False) (s\<lparr>lg_net := n\<rparr>)"
      by (rule step [of _ False]) (use 2(2) in auto)
  qed
qed

text \<open>The states a script has not changed but for the calls it used up.\<close>

definition same_world :: "legacy \<Rightarrow> legacy \<Rightarrow> bool" where
  "same_world s s' \<longleftrightarrow> lg_v1 s' = lg_v1 s \<and> lg_v2 s' = lg_v2 s \<and> lg_staking s' = lg_staking s"

lemma same_world_simps [simp]: "same_world s s" "same_world s (s'\<lparr>lg_net := n\<rparr>) = same_world s s'"
  by (simp_all add: same_world_def)

lemma same_world_trans: "same_world s s1 \<Longrightarrow> same_world s1 s2 \<Longrightarrow> same_world s s2"
  by (simp add: same_world_def)

definition v1_entries :: "legacy \<Rightarrow> string list \<Rightarrow> (address \<times> nat) list \<Rightarrow> bool" where
  "v1_entries s as ms \<longleftrightarrow> (distinct as \<longrightarrow> distinct (map fst ms))
     \<and> (\<forall>(a, b) \<in> set ms. a \<in> set as \<and> b = tk_balances (lg_v1 s) a \<and> 0 < b)"

lemma v1_entries_simps: "v1_entries s [] []"
  "v1_entries s as ms \<Longrightarrow> v1_entries s (a # as) ms"
  "v1_entries s as ms \<Longrightarrow> 0 < tk_balances (lg_v1 s) a \<Longrightarrow> v1_entries s (a # as) ((a, tk_balances (lg_v1 s) a) # ms)"
  by (auto simp: v1_entries_def)

lemma v1_entries_cong: "same_world s s1 \<Longrightarrow> v1_entries s1 as ms = v1_entries s as ms"
  by (simp add: v1_entries_def same_world_def)

lemma wp_v1_balanceOf:
  "(\<And>n. isAddress a \<Longrightarrow> Q (tk_balances (lg_v1 s) a) (s\<lparr>lg_net := n\<rparr>)) \<Longrightarrow> (\<And>n. E (s\<lparr>lg_net := n\<rparr>)) \<Longrightarrow> wp (v1_balanceOf isAddress a) Q E s"
proof -
  assume q: "\<And>n. isAddress a \<Longrightarrow> Q (tk_balances (lg_v1 s) a) (s\<lparr>lg_net := n\<rparr>)" and e: "\<And>n. E (s\<lparr>lg_net := n\<rparr>)"
  have "E s" using e [of "lg_net s"] by simp
  with q e show ?thesis by (auto simp: v1_balanceOf_def wp_core intro!: wp_lg_read)
qed

lemma wp_fetch_balances:
  "wp (fetch_balances isAddress as)
     (\<lambda>ms s'. v1_entries s as ms \<and> same_world s s' \<and> (\<forall>a \<in> set as. 0 < tk_balances (lg_v1 s) a \<longrightarrow> a \<in> fst ` set ms)) (same_world s) s"
proof (induction isAddress as arbitrary: s rule: fetch_balances.induct)
  case (1 isAddress)
  then show ?case by (simp add: wp_core v1_entries_simps)
next
  case (2 isAddress a as)
  show ?case unfolding fetch_balances.simps wp_core(3)
  proof (rule wp_v1_balanceOf)
    fix n
    let ?s = "s\<lparr>lg_net := n\<rparr>"
    have c: "v1_entries ?s as ms = v1_entries s as ms" for ms by (rule v1_entries_cong) simp
    show "wp (fetch_balances isAddress as)
       (\<lambda>rest. wp (sret (if 0 < tk_balances (lg_v1 s) a then (a, tk_balances (lg_v1 s) a) # rest else rest))
          (\<lambda>ms s'. v1_entries s (a # as) ms \<and> same_world s s' \<and> (\<forall>x \<in> set (a # as). 0 < tk_balances (lg_v1 s) x \<longrightarrow> x \<in> fst ` set ms)) (same_world s))
       (same_world s) ?s"
      by (rule wp_mono [OF 2]) (auto simp: wp_core c v1_entries_simps same_world_def)
  qed simp
qed

lemma wp_fetch_found:
  "wp (fetch_found isAddress as) (\<lambda>ms s'. v1_entries s as ms \<and> same_world s s') (\<lambda>_. False) s"
proof (induction isAddress as arbitrary: s rule: fetch_found.induct)
  case (1 isAddress)
  then show ?case by (simp add: wp_core v1_entries_simps)
next
  case (2 isAddress a as)
  have step: "wp (fetch_found isAddress as)
      (\<lambda>rest. wp (sret (case b of None \<Rightarrow> rest | Some v \<Rightarrow> if 0 < v then (a, v) # rest else rest))
         (\<lambda>ms s'. v1_entries s (a # as) ms \<and> same_world s s') (\<lambda>_. False)) (\<lambda>_. False) (s\<lparr>lg_net := n\<rparr>)"
    if "b = None \<or> b = Some (tk_balances (lg_v1 s) a)" for b n
  proof -
    have c: "v1_entries (s\<lparr>lg_net := n\<rparr>) as ms = v1_entries s as ms" for ms by (rule v1_entries_cong) simp
    show ?thesis using that by (intro wp_mono [OF 2]) (auto simp: wp_core c v1_entries_simps same_world_def)
  qed
  show ?case unfolding fetch_found.simps wp_core(3) [of "attempt _"] wp_core(3) [of "fetch_found _ _"]
    by (intro wp_attempt wp_v1_balanceOf step) simp_all
qed

lemma credited_other: "a \<notin> fst ` set ms \<Longrightarrow> credited ms ls a = 0"
  by (induction ms ls a rule: credited.induct) auto

lemma credited_cases:
  "distinct (map fst ms) \<Longrightarrow> \<forall>(x, b) \<in> set ms. b = f x \<Longrightarrow> credited ms ls a = 0 \<or> a \<in> fst ` set ms \<and> credited ms ls a = f a"
  by (induction ms ls a rule: credited.induct) (auto simp: credited_other)

lemma credited_all:
  "distinct (map fst ms) \<Longrightarrow> \<forall>(x, b) \<in> set ms. b = f x \<Longrightarrow> length ls = length ms \<Longrightarrow> False \<notin> set ls \<Longrightarrow> a \<in> fst ` set ms \<Longrightarrow> credited ms ls a = f a"
  by (induction ms ls a rule: credited.induct) (auto simp: credited_other)

lemma credited_count:
  "distinct (map fst ms) \<Longrightarrow> \<forall>(x, b) \<in> set ms. b = f x \<and> 0 < b \<Longrightarrow> length ls = length ms \<Longrightarrow>
     length (filter (\<lambda>l. l) ls) \<le> card {a \<in> fst ` set ms. credited ms ls a = f a}"
proof (induction ms ls "undefined :: address" rule: credited.induct)
  case (1 x b ms l ls)
  let ?S = "{a \<in> fst ` set ms. credited ms ls a = f a}" and ?S' = "{a \<in> fst ` set ((x, b) # ms). credited ((x, b) # ms) (l # ls) a = f a}"
  from 1 have IH: "length (filter (\<lambda>l. l) ls) \<le> card ?S" by auto
  have fin: "finite ?S" "finite ?S'" by auto
  have sub: "?S \<subseteq> ?S'" using 1(2) by auto
  show ?case
  proof (cases l)
    case True
    have nx: "x \<notin> ?S" using 1(2) by auto
    have "insert x ?S \<subseteq> ?S'" using sub 1(2,3) True by (auto simp: credited_other)
    from card_mono [OF fin(2) this] card_insert_disjoint [OF fin(1) nx] IH True show ?thesis by simp
  next
    case False
    with IH card_mono [OF fin(2) sub] show ?thesis by simp
  qed
qed auto

lemma wp_minter_env: "(\<And>w. Q w s) \<Longrightarrow> E s \<Longrightarrow> wp (minter_env walletOf env) Q E s"
  by (auto simp: minter_env_def wp_guards split: option.split)

definition copied :: "legacy \<Rightarrow> legacy \<Rightarrow> address list \<Rightarrow> bool" where
  "copied s s' as \<longleftrightarrow> lg_v1 s' = lg_v1 s \<and> lg_staking s' = lg_staking s
     \<and> (\<forall>a. tk_balances (lg_v2 s') a = tk_balances (lg_v2 s) a
            \<or> a \<in> set as \<and> tk_balances (lg_v2 s') a = tk_balances (lg_v2 s) a + tk_balances (lg_v1 s) a)"

lemma copied_same: "same_world s s' \<Longrightarrow> copied s s' as"
  by (simp add: same_world_def copied_def)

lemma copied_net [simp]: "copied s (s'\<lparr>lg_net := n\<rparr>) as = copied s s' as"
  by (simp add: copied_def)

lemma landed_copied:
  assumes "landed ms ls s1 s'" and "same_world s s1" and "v1_entries s as ms" and "distinct as"
  shows "copied s s' as"
proof -
  have m: "distinct (map fst ms)" "\<forall>(x, b) \<in> set ms. b = tk_balances (lg_v1 s) x" "fst ` set ms \<subseteq> set as"
    using assms(3,4) by (auto simp: v1_entries_def)
  have "tk_balances (lg_v2 s') a = tk_balances (lg_v2 s) a
      \<or> a \<in> set as \<and> tk_balances (lg_v2 s') a = tk_balances (lg_v2 s) a + tk_balances (lg_v1 s) a" for a
    using credited_cases [OF m(1,2), of ls a] m(3) assms(1,2) by (auto simp: landed_def same_world_def)
  with assms(1,2) show ?thesis by (simp add: copied_def landed_def same_world_def)
qed

text \<open>
  The migration gives every listed wallet its old balance at most once: whatever calls fail
  and wherever the script stops, the first token and the staking contract are untouched, and a
  balance of the second token is what it was or, for a listed wallet, grown by exactly its balance
  of the first; when every mint was reported done, every listed wallet has been given its balance.
\<close>

lemma migration_copies_each_balance_at_most_once:
  assumes "token_ok (lg_v2 s)" and "migrate_main isAddress walletOf env s = (r, s')"
  shows "copied s s' WALLETS
    \<and> (\<forall>oks. r = Inr oks \<and> False \<notin> set oks \<longrightarrow>
         (\<forall>a \<in> set WALLETS. tk_balances (lg_v2 s') a = tk_balances (lg_v2 s) a + tk_balances (lg_v1 s) a))"
proof -
  let ?Q = "\<lambda>oks s'. copied s s' WALLETS \<and> (False \<notin> set oks \<longrightarrow>
         (\<forall>a \<in> set WALLETS. tk_balances (lg_v2 s') a = tk_balances (lg_v2 s) a + tk_balances (lg_v1 s) a))"
  have d: "distinct WALLETS" by (simp add: WALLETS_def)
  have "wp (migrate_main isAddress walletOf env) ?Q (\<lambda>s'. copied s s' WALLETS) s"
    unfolding migrate_main_def wp_core
  proof (intro wp_minter_env copied_same wp_mono [OF wp_fetch_balances] wp_mono [OF wp_mint_all])
    fix ms s1
    assume m: "v1_entries s WALLETS ms \<and> same_world s s1 \<and> (\<forall>a \<in> set WALLETS. 0 < tk_balances (lg_v1 s) a \<longrightarrow> a \<in> fst ` set ms)"
    then show "token_ok (lg_v2 s1)" using assms(1) by (simp add: same_world_def)
    fix oks s2 assume "\<exists>ls. landed ms ls s1 s2 \<and> list_all2 (\<longrightarrow>) oks ls"
    then obtain ls where ls: "landed ms ls s1 s2" "list_all2 (\<longrightarrow>) oks ls" by blast
    have "tk_balances (lg_v2 s2) a = tk_balances (lg_v2 s) a + tk_balances (lg_v1 s) a"
      if all: "False \<notin> set oks" and a: "a \<in> set WALLETS" for a
    proof (cases "0 < tk_balances (lg_v1 s) a")
      case True
      have "False \<notin> set ls" using all ls(2) by (force simp: list_all2_conv_all_nth in_set_conv_nth)
      moreover have "distinct (map fst ms)" "\<forall>(x, b) \<in> set ms. b = tk_balances (lg_v1 s) x" "a \<in> fst ` set ms"
        using m d a True by (auto simp: v1_entries_def)
      ultimately show ?thesis using credited_all [of ms "tk_balances (lg_v1 s)" ls a] ls(1) m by (auto simp: landed_def same_world_def)
    next
      case False
      with landed_copied [OF ls(1) _ _ d, of s] m show ?thesis by (auto simp: copied_def)
    qed
    with landed_copied [OF ls(1) _ _ d, of s] m show "?Q oks s2" by blast
  qed simp_all
  from wp_run [OF assms(2) this] show ?thesis by (cases r) auto
qed

text \<open>
  The migration of the whole file: for a file that names no wallet twice, every balance of
  the second token is what it was or, for a wallet of the file, grown by exactly its balance of the
  first; and the number of successes the script reports is at most the number of wallets that hold
  their balance, the supply it reports the supply of the token.
\<close>

lemma file_migration_never_overpays:
  assumes "token_ok (lg_v2 s)" and "distinct (file_wallets raw)" and "migrateAll_main isAddress walletOf env (Some raw) s = (r, s')"
  shows "copied s s' (file_wallets raw)
    \<and> (\<forall>success failed supply. r = Inr (success, failed, supply) \<longrightarrow> supply = tk_totalSupply (lg_v2 s')
         \<and> success \<le> card {a \<in> set (file_wallets raw). tk_balances (lg_v2 s') a = tk_balances (lg_v2 s) a + tk_balances (lg_v1 s) a})"
proof -
  let ?as = "file_wallets raw"
  let ?got = "\<lambda>s'. {a \<in> set ?as. tk_balances (lg_v2 s') a = tk_balances (lg_v2 s) a + tk_balances (lg_v1 s) a}"
  let ?Q = "\<lambda>(success, failed, supply) s'. copied s s' ?as \<and> supply = tk_totalSupply (lg_v2 s') \<and> success \<le> card (?got s')"
  have "wp (migrateAll_main isAddress walletOf env (Some raw)) ?Q (\<lambda>s'. copied s s' ?as) s"
    unfolding migrateAll_main_def wp_core wp_guards option.simps
  proof (intro wp_minter_env wp_lg_read copied_same)
    fix n
    let ?s = "s\<lparr>lg_net := n\<rparr>"
    have c: "v1_entries ?s ?as ms = v1_entries s ?as ms" for ms by (rule v1_entries_cong) simp
    show "wp (fetch_found isAddress ?as)
       (\<lambda>toMigrate. wp (mint_all w toMigrate)
          (\<lambda>oks. wp (lg_read (\<lambda>s. tk_totalSupply (lg_v2 s)))
             (\<lambda>v2Supply. ?Q (length (filter (\<lambda>ok. ok) oks), length (filter (\<lambda>ok. \<not> ok) oks), v2Supply)) (\<lambda>s'. copied s s' ?as))
          (\<lambda>s'. copied s s' ?as)) (\<lambda>s'. copied s s' ?as) ?s" for w
    proof (intro wp_mono [OF wp_fetch_found] wp_mono [OF wp_mint_all] wp_lg_read)
      fix ms s1 assume m: "v1_entries ?s ?as ms \<and> same_world ?s s1"
      then show "token_ok (lg_v2 s1)" using assms(1) by (simp add: same_world_def)
      have m1: "v1_entries s ?as ms" "same_world s s1" using m c by (auto simp: same_world_def)
      fix oks s2 k assume "\<exists>ls. landed ms ls s1 s2 \<and> list_all2 (\<longrightarrow>) oks ls"
      then obtain ls where ls: "landed ms ls s1 s2" "list_all2 (\<longrightarrow>) oks ls" by blast
      note cp = landed_copied [OF ls(1) m1(2,1) assms(2)]
      then show "copied s (s2\<lparr>lg_net := k\<rparr>) ?as" by simp
      have "length (filter (\<lambda>ok. ok) oks) \<le> length (filter (\<lambda>l. l) ls)"
        using ls(2) by (induction rule: list_all2_induct) auto
      also have "\<dots> \<le> card {a \<in> fst ` set ms. credited ms ls a = tk_balances (lg_v1 s) a}"
        using m1(1) assms(2) ls(1) by (intro credited_count) (auto simp: v1_entries_def landed_def)
      also have "\<dots> \<le> card (?got s2)"
        using ls(1) m1 by (intro card_mono) (auto simp: landed_def same_world_def v1_entries_def)
      finally show "?Q (length (filter (\<lambda>ok. ok) oks), length (filter (\<lambda>ok. \<not> ok) oks), tk_totalSupply (lg_v2 (s2\<lparr>lg_net := k\<rparr>))) (s2\<lparr>lg_net := k\<rparr>)"
        using cp by simp
    qed simp_all
  qed simp_all
  from wp_run [OF assms(3) this] show ?thesis by (cases r) auto
qed

section \<open>The reward pool\<close>

definition fundable :: "address \<Rightarrow> nat \<Rightarrow> legacy \<Rightarrow> bool" where
  "fundable w T s \<longleftrightarrow> token_ok (lg_v2 s) \<and> \<not> tk_paused (lg_v2 s) \<and> w \<noteq> address0 \<and> sk_address (lg_staking s) \<noteq> address0
     \<and> w \<noteq> sk_address (lg_staking s) \<and> hasRole MINTER_ROLE w (lg_v2 s) \<and> (FUNDER_ROLE, w) \<in> set (sk_roles (lg_staking s))
     \<and> T < UINT256 \<and> tk_totalSupply (lg_v2 s) + (T - sk_rewardPool (lg_staking s) - tk_balances (lg_v2 s) w) < UINT256"

text \<open>The end: the pool is at the target, and only the shortfall of the funder was minted.\<close>

definition funded :: "address \<Rightarrow> nat \<Rightarrow> legacy \<Rightarrow> legacy \<Rightarrow> bool" where
  "funded w T s s' \<longleftrightarrow> (let v = T - sk_rewardPool (lg_staking s); sk = sk_address (lg_staking s) in
     sk_address (lg_staking s') = sk \<and> sk_rewardPool (lg_staking s') = max (sk_rewardPool (lg_staking s)) T
     \<and> tk_totalSupply (lg_v2 s') = tk_totalSupply (lg_v2 s) + (v - tk_balances (lg_v2 s) w)
     \<and> tk_balances (lg_v2 s') w = tk_balances (lg_v2 s) w - v \<and> tk_balances (lg_v2 s') sk = tk_balances (lg_v2 s) sk + v
     \<and> (\<forall>a. a \<noteq> w \<and> a \<noteq> sk \<longrightarrow> tk_balances (lg_v2 s') a = tk_balances (lg_v2 s) a))"

text \<open>On the way: the pool is untouched, and what was minted no longer has to be.\<close>

definition funding :: "address \<Rightarrow> nat \<Rightarrow> legacy \<Rightarrow> legacy \<Rightarrow> bool" where
  "funding w T s s' \<longleftrightarrow> (let v = T - sk_rewardPool (lg_staking s) in
     fundable w T s' \<and> sk_address (lg_staking s') = sk_address (lg_staking s) \<and> sk_rewardPool (lg_staking s') = sk_rewardPool (lg_staking s)
     \<and> tk_totalSupply (lg_v2 s') + (v - tk_balances (lg_v2 s') w) = tk_totalSupply (lg_v2 s) + (v - tk_balances (lg_v2 s) w)
     \<and> tk_balances (lg_v2 s') w - v = tk_balances (lg_v2 s) w - v
     \<and> (\<forall>a. a \<noteq> w \<longrightarrow> tk_balances (lg_v2 s') a = tk_balances (lg_v2 s) a))"

definition partly_funded :: "address \<Rightarrow> nat \<Rightarrow> legacy \<Rightarrow> legacy \<Rightarrow> bool" where
  "partly_funded w T s s' \<longleftrightarrow> funding w T s s' \<or> funded w T s s' \<and> fundable w T s'"

lemma fund_net [simp]:
  "fundable w T (s\<lparr>lg_net := n\<rparr>) = fundable w T s" "funded w T s (s'\<lparr>lg_net := n\<rparr>) = funded w T s s'"
  "funding w T s (s'\<lparr>lg_net := n\<rparr>) = funding w T s s'" "partly_funded w T s (s'\<lparr>lg_net := n\<rparr>) = partly_funded w T s s'"
  "funded w T (s\<lparr>lg_net := n\<rparr>) s' = funded w T s s'"
  by (simp_all add: fundable_def funded_def funding_def partly_funded_def)

lemma net_last:
  "s\<lparr>lg_net := n, lg_v2 := t\<rparr> = s\<lparr>lg_v2 := t, lg_net := n\<rparr>"
  "s\<lparr>lg_net := n, lg_staking := S, lg_v2 := t\<rparr> = s\<lparr>lg_staking := S, lg_v2 := t, lg_net := n\<rparr>"
  by simp_all

lemma funding_refl: "fundable w T s \<Longrightarrow> funding w T s s"
  by (simp add: funding_def)

lemma funded_enough: "T \<le> sk_rewardPool (lg_staking s) \<Longrightarrow> funded w T s s"
  by (simp add: funded_def)

lemma partly_funded_then:
  "partly_funded w T s s1 \<Longrightarrow> funded w T s1 s2 \<Longrightarrow> funded w T s s2"
  unfolding partly_funded_def
proof (elim disjE conjE)
  assume a: "funding w T s s1" "funded w T s1 s2"
  then have "w \<noteq> sk_address (lg_staking s)" by (auto simp: funding_def fundable_def Let_def)
  with a show ?thesis by (auto simp: funding_def funded_def Let_def)
next
  assume "funded w T s s1" "funded w T s1 s2"
  then show ?thesis by (auto simp: funded_def Let_def)
qed

lemma funding_mint:
  assumes f: "funding w T s s1" and v: "v = T - sk_rewardPool (lg_staking s)"
    and m: "v2_mint w w (v - tk_balances (lg_v2 s1) w) (lg_v2 s1) = Inr t"
  shows "funding w T s (s1\<lparr>lg_v2 := t\<rparr>)"
proof -
  have ok: "token_ok (lg_v2 s1)" and p: "sk_rewardPool (lg_staking s1) = sk_rewardPool (lg_staking s)"
    using f by (simp_all add: funding_def fundable_def Let_def)
  note eff = v2_mint_effect [OF ok m]
  let ?m = "v - tk_balances (lg_v2 s1) w"
  have t: "tk_balances t = (tk_balances (lg_v2 s1))(w := tk_balances (lg_v2 s1) w + ?m)" "tk_totalSupply t = tk_totalSupply (lg_v2 s1) + ?m"
    "tk_paused t = tk_paused (lg_v2 s1)" "tk_roles t = tk_roles (lg_v2 s1)"
    by (simp_all add: eff [THEN conjunct2])
  have "token_ok t" using eff by blast
  then have "fundable w T (s1\<lparr>lg_v2 := t\<rparr>)" using f t p v by (auto simp: funding_def fundable_def Let_def hasRole_def)
  with f t(1,2) v show ?thesis by (auto simp: funding_def Let_def) arith
qed

lemma funding_approve:
  assumes f: "funding w T s s1" and a: "token_approve w sp v (lg_v2 s1) = Inr t"
  shows "funding w T s (s1\<lparr>lg_v2 := t\<rparr>)"
proof -
  note k = approve_keeps [OF a [unfolded token_approve_def]]
  have "token_ok t = token_ok (lg_v2 s1)" by (rule token_ok_cong) (simp_all add: k)
  with f k show ?thesis by (auto simp: funding_def fundable_def Let_def hasRole_def)
qed

lemma funding_fund:
  assumes f: "funding w T s s1" and v: "v = T - sk_rewardPool (lg_staking s)" and lt: "sk_rewardPool (lg_staking s) < T"
    and r: "fundRewardPool w v (lg_staking s1) (lg_v2 s1) = Inr (S, t)"
  shows "funded w T s (s1\<lparr>lg_staking := S, lg_v2 := t\<rparr>) \<and> fundable w T (s1\<lparr>lg_staking := S, lg_v2 := t\<rparr>)"
proof -
  let ?sk = "sk_address (lg_staking s)"
  have fb: "fundable w T s1" and a: "sk_address (lg_staking s1) = ?sk" and p: "sk_rewardPool (lg_staking s1) = sk_rewardPool (lg_staking s)"
    using f by (simp_all add: funding_def Let_def)
  have ok: "token_ok (lg_v2 s1)" and ne: "w \<noteq> ?sk" using fb a by (simp_all add: fundable_def)
  from r have t: "token_transferFrom ?sk w ?sk v (lg_v2 s1) = Inr t" and S: "S = (lg_staking s1)\<lparr>sk_rewardPool := T\<rparr>"
    using lt v by (auto simp: fundRewardPool_def call_binds a p)
  note mv = token_transferFrom_move [OF ok t]
  have b: "tk_balances t x = moved w ?sk v (tk_balances (lg_v2 s1)) x" for x using mv by simp
  have "funded w T s (s1\<lparr>lg_staking := S, lg_v2 := t\<rparr>)"
    using f mv lt ne by (auto simp: funded_def funding_def Let_def S b moved_apply v a max_def)
  moreover have "tk_totalSupply (lg_v2 s1) < UINT256" using ok by (simp add: token_ok_def)
  then have "fundable w T (s1\<lparr>lg_staking := S, lg_v2 := t\<rparr>)"
    using fb mv by (simp add: fundable_def S hasRole_def)
  ultimately show ?thesis by blast
qed

lemma wp_fund_steps:
  assumes "fundable w T s" and "funding w T s s1" and "sk_rewardPool (lg_staking s) < T" and "same_world s s1"
  shows "wp (fund_steps w (T - sk_rewardPool (lg_staking s))) (\<lambda>_ s'. funded w T s s' \<and> fundable w T s') (partly_funded w T s) s1"
proof -
  let ?v = "T - sk_rewardPool (lg_staking s)"
  have part: "funding w T s x \<Longrightarrow> partly_funded w T s x" for x by (simp add: partly_funded_def)
  have last: "wp (sbind (big_arg ?v) (\<lambda>v. lg_tx (\<lambda>s. rbind (fundRewardPool w v (lg_staking s) (lg_v2 s)) (\<lambda>(S, t). Inr (s\<lparr>lg_staking := S, lg_v2 := t\<rparr>)))))
      (\<lambda>_ s'. funded w T s s' \<and> fundable w T s') (partly_funded w T s) x" if "funding w T s x" for x
    using that part funding_fund [OF that refl assms(3)]
    by (auto simp: big_arg_def wp_core wp_guards rbind_Inr_iff partly_funded_def net_last intro!: wp_lg_tx)
  have appr: "wp (if c then sbind (big_arg ?v) (\<lambda>v. lg_tx (\<lambda>s. on_v2 (token_approve w (sk_address (lg_staking s)) v) s)) else sret ())
      (\<lambda>_ x. funding w T s x) (partly_funded w T s) x" if "funding w T s x" for x c
    using that part funding_approve [OF that]
    by (auto simp: big_arg_def wp_core wp_guards rbind_Inr_iff on_v2_def net_last intro!: wp_lg_tx)
  have mint: "wp (if b < ?v then sbind (big_arg (?v - b)) (\<lambda>toMint. lg_tx (on_v2 (v2_mint w w toMint))) else sret ())
      (\<lambda>_ x. funding w T s x) (partly_funded w T s) x" if "funding w T s x" "b = tk_balances (lg_v2 x) w" for x b
    using that part funding_mint [OF that(1) refl]
    by (auto simp: big_arg_def wp_core wp_guards rbind_Inr_iff on_v2_def net_last intro!: wp_lg_tx)
  have f: "funding w T s (s1\<lparr>lg_net := n\<rparr>)" for n using assms(2) by simp
  show ?thesis unfolding fund_steps_def wp_core(3)
    by (intro wp_lg_read wp_mono [OF mint] wp_mono [OF appr] last [unfolded wp_core(3)]) (use f part in \<open>auto simp: part\<close>)
qed

lemma wp_fund_main:
  assumes "fundable w T s" and "env ''PRIVATE_KEY'' = Some k" and "k \<noteq> []" and "walletOf k = Some w" and "pool_target env = Inr T"
  shows "wp (fundRewardPool_main walletOf env) (\<lambda>_ s'. funded w T s s' \<and> fundable w T s') (partly_funded w T s) s"
proof -
  have part: "partly_funded w T s (s\<lparr>lg_net := n\<rparr>)" for n using funding_refl [OF assms(1)] by (simp add: partly_funded_def)
  have run: "wp (if T \<le> p then sret () else sbind (fund_steps w (T - p)) (\<lambda>_. sbind (lg_read (\<lambda>s. sk_rewardPool (lg_staking s))) (\<lambda>_. sret ())))
      (\<lambda>_ s'. funded w T s s' \<and> fundable w T s') (partly_funded w T s) (s\<lparr>lg_net := n\<rparr>)" if p: "p = sk_rewardPool (lg_staking s)" for p n
  proof (cases "T \<le> p")
    case True
    with p funded_enough [of T s] assms(1) show ?thesis by (simp add: wp_core)
  next
    case False
    have "wp (fund_steps w (T - p)) (\<lambda>_ s'. funded w T s s' \<and> fundable w T s') (partly_funded w T s) (s\<lparr>lg_net := n\<rparr>)"
      unfolding p using False p assms(1) by (intro wp_fund_steps) (simp_all add: funding_refl)
    then have "wp (sbind (fund_steps w (T - p)) (\<lambda>_. sbind (lg_read (\<lambda>s. sk_rewardPool (lg_staking s))) (\<lambda>_. sret ())))
        (\<lambda>_ s'. funded w T s s' \<and> fundable w T s') (partly_funded w T s) (s\<lparr>lg_net := n\<rparr>)"
      unfolding wp_core(3)
    proof (rule wp_mono)
      fix u c' assume "funded w T s c' \<and> fundable w T c'"
      then show "wp (lg_read (\<lambda>s. sk_rewardPool (lg_staking s))) (\<lambda>_. wp (sret ()) (\<lambda>_ s'. funded w T s s' \<and> fundable w T s') (partly_funded w T s))
          (partly_funded w T s) c'" by (intro wp_lg_read) (simp_all add: wp_core partly_funded_def)
    qed
    with False show ?thesis by simp
  qed
  show ?thesis unfolding fundRewardPool_main_def wp_core(3) assms(2) option.simps
    using assms(3) by (simp add: wp_core wp_guards assms(4,5)) (rule wp_lg_read, rule run, simp, rule part)
qed

text \<open>With the connection up, every step goes through.\<close>

lemma wp_read_up:
  "lg_net s = True # bs \<Longrightarrow> Q (f (s\<lparr>lg_net := bs\<rparr>)) (s\<lparr>lg_net := bs\<rparr>) \<Longrightarrow> wp (lg_read f) Q E s"
  by (simp add: lg_read_def lg_call_def wp_def Let_def)

lemma wp_tx_up:
  "lg_net s = True # True # bs \<Longrightarrow> f (s\<lparr>lg_net := True # bs\<rparr>) = Inr s1 \<Longrightarrow> lg_net s1 = True # bs \<Longrightarrow> Q () (s1\<lparr>lg_net := bs\<rparr>)
     \<Longrightarrow> wp (lg_tx f) Q E s"
  by (simp add: lg_tx_def lg_call_def wp_def sbind_def sret_def Let_def)

lemma fund_ends:
  assumes fb: "fundable w T s" and "env ''PRIVATE_KEY'' = Some k" and "k \<noteq> []" and "walletOf k = Some w" and "pool_target env = Inr T"
    and net: "lg_net s = replicate 10 True"
  shows "\<exists>s'. fundRewardPool_main walletOf env s = (Inr (), s')"
proof -
  let ?S = "lg_staking s" and ?t = "lg_v2 s"
  let ?sk = "sk_address ?S" and ?v = "T - sk_rewardPool ?S"
  note f = fb [unfolded fundable_def]
  have "T < UINT256" using f by blast
  then have nz: "?v < UINT256" "T - (sk_rewardPool ?S + tk_balances ?t w) < UINT256" by linarith+
  have ten: "replicate 10 True = [True, True, True, True, True, True, True, True, True, True]" by (simp add: numeral_eq_Suc)
  have mint: "\<exists>t'. v2_mint w w m t = Inr t' \<and> token_ok t' \<and> tk_balances t' w = tk_balances t w + m
      \<and> tk_allowances t' = tk_allowances t \<and> tk_paused t' = tk_paused t"
    if "token_ok t" "\<not> tk_paused t" "hasRole MINTER_ROLE w t" "0 < m" "tk_totalSupply t + m < UINT256" for t m
  proof -
    have "w \<noteq> address0" using f by blast
    with that have "v2_mint w w m t = Inr (t\<lparr>tk_totalSupply := tk_totalSupply t + m, tk_balances := (tk_balances t)(w := tk_balances t w + m)\<rparr>)"
      using token_update_mint [OF that(1), of w m] by (simp add: v2_mint_def guard_binds mint_internal_def)
    with token_ok_mint [OF that(1,5), of w] show ?thesis by simp
  qed
  have appr: "\<exists>t'. token_approve w ?sk ?v t = Inr t' \<and> token_ok t' \<and> tk_balances t' = tk_balances t \<and> tk_allowances t' w ?sk = ?v \<and> tk_paused t' = tk_paused t"
    if "token_ok t" for t :: oltin_v2
  proof -
    have a: "token_approve w ?sk ?v t = Inr (t\<lparr>tk_allowances := (tk_allowances t)(w := (tk_allowances t w)(?sk := ?v))\<rparr>)"
      using f by (simp add: token_approve_def approve_internal_def)
    moreover have "token_ok (t\<lparr>tk_allowances := (tk_allowances t)(w := (tk_allowances t w)(?sk := ?v))\<rparr>) = token_ok t" by (rule token_ok_cong) simp_all
    ultimately show ?thesis using that by simp
  qed
  have fund: "\<exists>t'. fundRewardPool w ?v ?S t = Inr (?S\<lparr>sk_rewardPool := T\<rparr>, t')"
    if u: "token_ok t" "\<not> tk_paused t" "?v \<le> tk_balances t w" "?v \<le> tk_allowances t w ?sk" "\<not> T \<le> sk_rewardPool ?S" for t :: oltin_v2
  proof -
    obtain t' where "token_transferFrom ?sk w ?sk ?v t = Inr t'"
      using token_transferFrom_succeeds [OF u(1,2), of w ?sk ?sk ?v] u f by auto
    with u f show ?thesis by (simp add: fundRewardPool_def call_binds)
  qed
  have "wp (fundRewardPool_main walletOf env) (\<lambda>_ _. True) (\<lambda>_. False) s"
  proof (cases "T \<le> sk_rewardPool ?S")
    case True
    show ?thesis unfolding fundRewardPool_main_def wp_core(3) assms(2) option.simps
      using assms(3) True by (simp add: wp_core wp_guards assms(4,5)) (rule wp_read_up [OF net [unfolded ten]], simp add: wp_core)
  next
    case False
    obtain t1 where t1: "token_ok t1" "\<not> tk_paused t1" "?v \<le> tk_balances t1 w" "tk_allowances t1 = tk_allowances ?t"
      and m: "tk_balances ?t w < ?v \<longrightarrow> v2_mint w w (?v - tk_balances ?t w) ?t = Inr t1" "\<not> tk_balances ?t w < ?v \<longrightarrow> t1 = ?t"
    proof (cases "tk_balances ?t w < ?v")
      case True
      then have "0 < ?v - tk_balances ?t w" by simp
      with mint [of ?t "?v - tk_balances ?t w"] f obtain t' where t': "v2_mint w w (?v - tk_balances ?t w) ?t = Inr t'" "token_ok t'"
        "tk_balances t' w = tk_balances ?t w + (?v - tk_balances ?t w)" "tk_allowances t' = tk_allowances ?t" "tk_paused t' = tk_paused ?t" by blast
      show ?thesis by (rule that [of t']) (use t' f True in auto)
    next
      case False
      then show ?thesis using f that [of ?t] by auto
    qed
    obtain t2 where t2: "token_ok t2" "\<not> tk_paused t2" "?v \<le> tk_balances t2 w" "?v \<le> tk_allowances t2 w ?sk"
      and a: "tk_allowances ?t w ?sk < ?v \<longrightarrow> token_approve w ?sk ?v t1 = Inr t2" "\<not> tk_allowances ?t w ?sk < ?v \<longrightarrow> t2 = t1"
    proof (cases "tk_allowances ?t w ?sk < ?v")
      case True
      then show ?thesis using appr [OF t1(1)] t1 that by auto
    next
      case False
      then show ?thesis using t1 that [of t1] by auto
    qed
    obtain t3 where t3: "fundRewardPool w ?v ?S t2 = Inr (?S\<lparr>sk_rewardPool := T\<rparr>, t3)" using fund [OF t2 False] by blast
    show ?thesis
      using net [unfolded ten] m a t3 False nz assms(3)
      by (cases "tk_balances ?t w < ?v"; cases "tk_allowances ?t w ?sk < ?v")
        (simp_all add: fundRewardPool_main_def fund_steps_def wp_def sbind_def sret_def lg_read_def lg_tx_def lg_call_def big_arg_def
          option_or_def lifted_def on_v2_def assms(2,4,5))
  qed
  from wp_exists [OF this] show ?thesis by simp
qed

text \<open>
  C36.  Funding the reward pool can be interrupted anywhere and run again.  Whatever call of a
  first run fails, a second run with the connection up ends; the pool is then at the target or above
  as it was, exactly the funder's shortfall has been minted over both runs, the funder's balance has
  fallen by what the pool gained and no other balance has moved.
\<close>

theorem interrupted_funding_resumes:
  assumes "fundable w T s" and "env ''PRIVATE_KEY'' = Some k" and "k \<noteq> []" and "walletOf k = Some w" and "pool_target env = Inr T"
    and "fundRewardPool_main walletOf env s = (r, s1)"
  shows "\<exists>s2. fundRewardPool_main walletOf env (s1\<lparr>lg_net := replicate 10 True\<rparr>) = (Inr (), s2) \<and> funded w T s s2"
proof -
  let ?s1 = "s1\<lparr>lg_net := replicate 10 True\<rparr>"
  from wp_run [OF assms(6) wp_fund_main [where env = env and walletOf = walletOf, OF assms(1-5)]]
  have p: "partly_funded w T s s1" by (cases r) (auto simp: partly_funded_def)
  then have fb: "fundable w T ?s1" by (auto simp: partly_funded_def funding_def Let_def)
  obtain s2 where s2: "fundRewardPool_main walletOf env ?s1 = (Inr (), s2)" using fund_ends [where env = env and walletOf = walletOf, OF fb assms(2-5)] by auto
  from wp_run [OF s2 wp_fund_main [where env = env and walletOf = walletOf, OF fb assms(2-5)]] have "funded w T ?s1 s2" by simp
  with partly_funded_then [OF p, of s2] s2 show ?thesis by auto
qed

section \<open>Administrative transfers\<close>

text \<open>
  An administrative transfer of the second token never creates or destroys units and costs
  the sender at most the stated amount: the recipient gets exactly the amount less the fee, the fee
  goes to the collector or, when there is none, stays with the sender.
\<close>

lemma admin_transfer_moves_the_net_amount:
  assumes "token_ok t" and "src \<noteq> to" and "v2_feeCollector t \<noteq> src" and "v2_feeCollector t \<noteq> to"
    and "adminTransfer sender src to amount transferId t = Inr t'"
  shows "\<exists>fee. fee = amount * v2_transferFeeBps t div 10000 \<and> fee \<le> amount \<and> amount \<le> tk_balances t src
     \<and> token_ok t' \<and> tk_totalSupply t' = tk_totalSupply t
     \<and> tk_balances t' to = tk_balances t to + (amount - fee)
     \<and> (if v2_feeCollector t = address0 then tk_balances t' src + (amount - fee) = tk_balances t src
        else tk_balances t' src + amount = tk_balances t src
          \<and> tk_balances t' (v2_feeCollector t) = tk_balances t (v2_feeCollector t) + fee)
     \<and> (\<forall>a. a \<notin> {src, to, v2_feeCollector t} \<longrightarrow> tk_balances t' a = tk_balances t a)"
proof -
  let ?fee = "amount * v2_transferFeeBps t div 10000" and ?fc = "v2_feeCollector t"
  from assms(5) obtain t1 where nz: "src \<noteq> address0" "to \<noteq> address0" and le: "amount \<le> tk_balances t src" "?fee \<le> amount"
    and t1: "token_update src to (amount - ?fee) t = Inr t1"
    and t': "(if 0 < ?fee \<and> v2_feeCollector t1 \<noteq> address0 then token_update src (v2_feeCollector t1) ?fee t1 else Inr t1) = Inr t'"
    by (auto simp: adminTransfer_def guard_binds rbind_Inr_iff Let_def split: if_splits)
  from t1 have e1: "t1 = t\<lparr>tk_balances := moved src to (amount - ?fee) (tk_balances t)\<rparr>" and l1: "amount - ?fee \<le> tk_balances t src"
    using token_update_move [OF assms(1) nz] by auto
  have ok1: "token_ok t1" unfolding e1 by (rule token_ok_move [OF assms(1) l1])
  have fc: "v2_feeCollector t1 = ?fc" by (simp add: e1)
  show ?thesis
  proof (cases "0 < ?fee \<and> ?fc \<noteq> address0")
    case True
    with t' have "token_update src ?fc ?fee t1 = Inr t'" by (simp add: fc)
    then have e2: "t' = t1\<lparr>tk_balances := moved src ?fc ?fee (tk_balances t1)\<rparr>" and l2: "?fee \<le> tk_balances t1 src"
      using token_update_move [OF ok1 nz(1), of ?fc] True by auto
    have ok2: "token_ok t'" unfolding e2 by (rule token_ok_move [OF ok1 l2])
    show ?thesis using True le l2 ok2 assms(2-4) by (intro exI [of _ ?fee]) (auto simp: e2 e1 moved_apply)
  next
    case False
    with t' have "t' = t1" by (simp add: fc)
    with False le ok1 assms(2-4) show ?thesis by (intro exI [of _ ?fee]) (auto simp: e1 moved_apply)
  qed
qed

section \<open>Concrete runs\<close>

definition sample_v2 :: oltin_v2 where
  "sample_v2 = v2_constructor ''0xdeployer'' ''0xfees''"

definition sample_legacy :: legacy where
  "sample_legacy = \<lparr>lg_net = replicate 12 True, lg_v1 = (uzd_constructor ''0xdeployer'')\<lparr>tk_balances := (\<lambda>_. 7)\<rparr>, lg_v2 = sample_v2,
     lg_staking = \<lparr>sk_address = ''0xstaking'', sk_stakes = (\<lambda>_. no_stake), sk_totalStaked = 0, sk_rewardPool = 0, sk_paused = False,
       sk_roles = [(FUNDER_ROLE, ''0xdeployer'')]\<rparr>\<rparr>"

lemma sample_v2_ok: "token_ok sample_v2"
  by (simp add: token_ok_def holders_def sample_v2_def v2_constructor_def)

lemma sample_fundable: "fundable ''0xdeployer'' (10 ^ 21) sample_legacy"
proof -
  have "''0xdeployer'' \<noteq> address0" "''0xstaking'' \<noteq> address0" by (rule address0_third, simp)+
  moreover have "10 ^ 21 < UINT256" by (simp add: UINT256_def)
  ultimately show ?thesis using sample_v2_ok
    by (simp add: fundable_def sample_legacy_def sample_v2_def v2_constructor_def hasRole_def MINTER_ROLE_def)
qed

lemma sample_pool_target: "pool_target [''PRIVATE_KEY'' \<mapsto> ''pk''] = Inr (10 ^ 21)"
  by (simp add: pool_target_def env_or_def all_digits_def js_simps)

theorem interrupted_funding_resumes_witness:
  "\<exists>r s1 s2. fundRewardPool_main (\<lambda>_. Some ''0xdeployer'') [''PRIVATE_KEY'' \<mapsto> ''pk''] (sample_legacy\<lparr>lg_net := [True, True, True, True, False]\<rparr>) = (r, s1)
     \<and> fundRewardPool_main (\<lambda>_. Some ''0xdeployer'') [''PRIVATE_KEY'' \<mapsto> ''pk''] (s1\<lparr>lg_net := replicate 10 True\<rparr>) = (Inr (), s2)
     \<and> sk_rewardPool (lg_staking s2) = 10 ^ 21"
proof -
  let ?s = "sample_legacy\<lparr>lg_net := [True, True, True, True, False]\<rparr>" and ?env = "[''PRIVATE_KEY'' \<mapsto> ''pk'']" and ?w = "\<lambda>_. Some ''0xdeployer''"
  obtain r s1 where r: "fundRewardPool_main ?w ?env ?s = (r, s1)" by fastforce
  have f: "fundable ''0xdeployer'' (10 ^ 21) ?s" using sample_fundable by simp
  have "\<exists>s2. fundRewardPool_main ?w ?env (s1\<lparr>lg_net := replicate 10 True\<rparr>) = (Inr (), s2) \<and> funded ''0xdeployer'' (10 ^ 21) ?s s2"
    by (rule interrupted_funding_resumes [OF f _ _ _ sample_pool_target r, of "''pk''"]) simp_all
  moreover have "sk_rewardPool (lg_staking ?s) = 0" by (simp add: sample_legacy_def)
  ultimately show ?thesis using r by (fastforce simp: funded_def Let_def)
qed

lemma migration_copies_each_balance_at_most_once_witness:
  "\<exists>r s'. migrate_main (\<lambda>_. True) (\<lambda>_. Some ''0xdeployer'') [''MINTER_PRIVATE_KEY'' \<mapsto> ''pk''] sample_legacy = (r, s')
     \<and> copied sample_legacy s' WALLETS"
proof -
  obtain r s' where r: "migrate_main (\<lambda>_. True) (\<lambda>_. Some ''0xdeployer'') [''MINTER_PRIVATE_KEY'' \<mapsto> ''pk''] sample_legacy = (r, s')" by fastforce
  have "token_ok (lg_v2 sample_legacy)" using sample_v2_ok by (simp add: sample_legacy_def)
  from migration_copies_each_balance_at_most_once [OF this r] r show ?thesis by blast
qed

lemma file_migration_never_overpays_witness:
  "\<exists>r s'. migrateAll_main (\<lambda>_. True) (\<lambda>_. Some ''0xdeployer'') [''MINTER_PRIVATE_KEY'' \<mapsto> ''pk''] (Some ''0xa \<newline>0xb\<newline>'') sample_legacy = (r, s')
     \<and> copied sample_legacy s' [''0xa'', ''0xb'']"
proof -
  let ?raw = "''0xa \<newline>0xb\<newline>''"
  obtain r s' where r: "migrateAll_main (\<lambda>_. True) (\<lambda>_. Some ''0xdeployer'') [''MINTER_PRIVATE_KEY'' \<mapsto> ''pk''] (Some ?raw) sample_legacy = (r, s')" by fastforce
  have w: "file_wallets ?raw = [''0xa'', ''0xb'']" by (simp add: file_wallets_def js_simps)
  have ok: "token_ok (lg_v2 sample_legacy)" using sample_v2_ok by (simp add: sample_legacy_def)
  have d: "distinct (file_wallets ?raw)" by (simp add: w)
  from file_migration_never_overpays [OF ok d r] r show ?thesis unfolding w by blast
qed

definition holding_v2 :: oltin_v2 where
  "holding_v2 = sample_v2\<lparr>tk_balances := (\<lambda>_. 0)(''0xuser'' := 1000), tk_totalSupply := 1000\<rparr>"

lemma admin_transfer_moves_the_net_amount_witness:
  "\<exists>t'. adminTransfer ''0xdeployer'' ''0xuser'' ''0xshop'' 1000 ''t1'' holding_v2 = Inr t' \<and> tk_balances t' ''0xshop'' = 995 \<and> tk_balances t' ''0xfees'' = 5"
proof -
  have u: "n < 100000 \<Longrightarrow> n < UINT256" for n :: nat by (simp add: UINT256_def)
  have "holders holding_v2 = {''0xuser''}" by (auto simp: holders_def holding_v2_def)
  then have ok: "token_ok holding_v2" by (simp add: token_ok_def) (simp add: holding_v2_def u)
  have nz: "''0xuser'' \<noteq> address0" "''0xshop'' \<noteq> address0" "''0xfees'' \<noteq> address0" by (rule address0_third, simp)+
  have fb: "v2_transferFeeBps holding_v2 = 50" "v2_feeCollector holding_v2 = ''0xfees''" by (simp_all add: holding_v2_def sample_v2_def v2_constructor_def)
  have t1: "token_update ''0xuser'' ''0xshop'' 995 holding_v2 = Inr (holding_v2\<lparr>tk_balances := moved ''0xuser'' ''0xshop'' 995 (tk_balances holding_v2)\<rparr>)"
    by (subst token_update_move [OF ok nz(1,2)]) (simp add: holding_v2_def sample_v2_def v2_constructor_def)
  let ?t1 = "holding_v2\<lparr>tk_balances := moved ''0xuser'' ''0xshop'' 995 (tk_balances holding_v2)\<rparr>"
  have ok1: "token_ok ?t1" by (rule token_ok_move [OF ok]) (simp add: holding_v2_def)
  have t2: "\<exists>t'. token_update ''0xuser'' ''0xfees'' 5 ?t1 = Inr t'"
    by (intro exI, subst token_update_move [OF ok1 nz(1,3)]) (simp add: holding_v2_def sample_v2_def v2_constructor_def moved_apply)
  have h: "hasRole MINTER_ROLE ''0xdeployer'' holding_v2" "\<not> tk_paused holding_v2" "tk_balances holding_v2 ''0xuser'' = 1000"
    by (simp_all add: holding_v2_def sample_v2_def v2_constructor_def hasRole_def)
  have "adminTransfer ''0xdeployer'' ''0xuser'' ''0xshop'' 1000 ''t1'' holding_v2 = token_update ''0xuser'' ''0xfees'' 5 ?t1"
    using u [of 50000] by (simp add: adminTransfer_def onlyRole_def whenNotPaused_def require_def checked_def h nz fb t1 Let_def)
  with t2 have "\<exists>t'. adminTransfer ''0xdeployer'' ''0xuser'' ''0xshop'' 1000 ''t1'' holding_v2 = Inr t'" by simp
  then obtain t' where r: "adminTransfer ''0xdeployer'' ''0xuser'' ''0xshop'' 1000 ''t1'' holding_v2 = Inr t'" by blast
  have "''0xuser'' \<noteq> ''0xshop''" "v2_feeCollector holding_v2 \<noteq> ''0xuser''" "v2_feeCollector holding_v2 \<noteq> ''0xshop''" by (simp_all add: fb)
  note eff = admin_transfer_moves_the_net_amount [OF ok this r]
  have "tk_balances holding_v2 ''0xshop'' = 0" "tk_balances holding_v2 ''0xfees'' = 0" by (simp_all add: holding_v2_def)
  with eff nz(3) have "tk_balances t' ''0xshop'' = 995 \<and> tk_balances t' ''0xfees'' = 5" by (simp add: fb)
  with r show ?thesis by blast
qed

end
