(* ===== verification/Smoke.thy ===== *)
theory Smoke
  imports Deploy JsonValue
begin

text \<open>
  The gasless smoke \<^verbatim>\<open>scripts/smoke-gasless.ts\<close>: one sponsored transfer on the live stack, from the
  quote to the balances it is judged by.  Whether and when the network includes the transaction, what
  the client library gives for its receipt and whether that comes before the timer are arguments;
  what the inclusion does is the paymaster's validation followed by the transfer.
\<close>

section \<open>Pure parts\<close>

definition AA_OVERHEAD :: nat where "AA_OVERHEAD = 150000"
definition MARGIN_BPS :: int where "MARGIN_BPS = 12000"
definition ONE_GRAM :: nat where "ONE_GRAM = 1000000000000000000"

definition allowanceWithMargin :: "int \<Rightarrow> int \<Rightarrow> int" where
  "allowanceWithMargin quote marginBps = (let num = quote * marginBps in (num + 9999) sdiv 10000)"

datatype miningOutcome = Mined | MinedReverted | SilentlyRefused

definition classifyMining :: "nat option \<Rightarrow> bool \<Rightarrow> (script_error, miningOutcome) result" where
  "classifyMining receiptStatus timedOut =
     (if receiptStatus = Some 1 then Inr Mined
      else if receiptStatus = Some 0 then Inr MinedReverted
      else if timedOut then Inr SilentlyRefused
      else Inl (Thrown ''no receipt and no timeout''))"

text \<open>The revert data of a client error, wherever the library nested it.\<close>

definition nested_data :: "json \<Rightarrow> string \<Rightarrow> string option" where
  "nested_data e key = (case js_prop e key of None \<Rightarrow> None
     | Some nested \<Rightarrow> if \<not> is_object nested then None
         else case as_string (js_prop nested ''data'') of Some d \<Rightarrow> Some d
         | None \<Rightarrow> (case js_prop nested ''error'' of None \<Rightarrow> None
             | Some deep \<Rightarrow> if is_object deep then as_string (js_prop deep ''data'') else None))"

definition revertData :: "json \<Rightarrow> string" where
  "revertData e = (if \<not> is_object e then []
     else case as_string (js_prop e ''data'') of Some d \<Rightarrow> d
     | None \<Rightarrow> (case nested_data e ''error'' of Some d \<Rightarrow> d
         | None \<Rightarrow> (case nested_data e ''info'' of Some d \<Rightarrow> d | None \<Rightarrow> [])))"

fun js_includes :: "string \<Rightarrow> string \<Rightarrow> bool" where
  "js_includes [] p \<longleftrightarrow> p = []"
| "js_includes (c # cs) p \<longleftrightarrow> js_startsWith (c # cs) p \<or> js_includes cs p"

section \<open>The sponsored transaction\<close>

record smoke_net =
  sn_bare :: "nat option" \<comment> \<open>the bare gas estimate; none when it throws\<close>
  sn_gasPrice :: "nat option"
  sn_clock :: nat \<comment> \<open>the time the views are called at\<close>
  sn_inclusion :: "(nat \<times> nat) option" \<comment> \<open>the block's time and the gas refund, if it is included\<close>
  sn_receipt :: "nat \<Rightarrow> nat option" \<comment> \<open>what the wait resolves to for a status; none when it rejects\<close>
  sn_first :: bool \<comment> \<open>the wait settles before the timer\<close>
  sn_error :: "pm_error \<Rightarrow> string \<times> json" \<comment> \<open>the client's message and error object for a revert\<close>

definition BOOTLOADER :: address where "BOOTLOADER = ''bootloader''"

definition gas_limit :: "smoke_net \<Rightarrow> nat" where
  "gas_limit net = (case sn_bare net of None \<Rightarrow> 0 | Some bare \<Rightarrow> bare + AA_OVERHEAD)"

definition max_fee :: "smoke_net \<Rightarrow> nat" where
  "max_fee net = (case sn_gasPrice net of None \<Rightarrow> 45250000 | Some p \<Rightarrow> p)"

definition sponsored_tx :: "smoke_net \<Rightarrow> address \<Rightarrow> nat \<Rightarrow> zk_transaction" where
  "sponsored_tx net client allowance = \<lparr>tx_from = client, tx_to = OLTIN_V3, tx_gasLimit = gas_limit net, tx_maxFeePerGas = max_fee net,
     tx_paymasterInput = ApprovalBased (Some (OLTIN_V3, allowance, []))\<rparr>"

text \<open>What the network does with it: the receipt's status and the two contracts after it.\<close>

definition sponsored ::
    "(nat \<Rightarrow> nat \<Rightarrow> nat \<Rightarrow> nat option) \<Rightarrow> smoke_net \<Rightarrow> address \<Rightarrow> address \<Rightarrow> nat \<Rightarrow> paymaster \<Rightarrow> oltin_token
       \<Rightarrow> (nat \<times> paymaster \<times> oltin_token) option" where
  "sponsored mulDivUp net client recipient allowance P t =
     (case sn_inclusion net of None \<Rightarrow> None
      | Some (now_ts, refund) \<Rightarrow>
          (case validateAndPay mulDivUp BOOTLOADER True now_ts BOOTLOADER (sponsored_tx net client allowance) P t of
             Inl e \<Rightarrow> None
           | Inr (fee, P', t') \<Rightarrow>
               (case token_transfer client recipient ONE_GRAM t' of
                  Inl e \<Rightarrow> Some (0, receive_eth refund P', t')
                | Inr t'' \<Rightarrow> Some (1, receive_eth refund P', t''))))"

definition mine :: "(nat \<Rightarrow> nat \<Rightarrow> nat \<Rightarrow> nat option) \<Rightarrow> smoke_net \<Rightarrow> address \<Rightarrow> address \<Rightarrow> nat \<Rightarrow> nat option script" where
  "mine mulDivUp net client recipient allowance c =
     (case (ch_paymasters c PAYMASTER, ch_oltins c OLTIN_V3) of
        (Some P, Some t) \<Rightarrow>
          (case sponsored mulDivUp net client recipient allowance P t of
             None \<Rightarrow> (Inr None, c)
           | Some (status, P', t') \<Rightarrow>
               (Inr (Some status), c\<lparr>ch_paymasters := (ch_paymasters c)(PAYMASTER \<mapsto> P'), ch_oltins := (ch_oltins c)(OLTIN_V3 \<mapsto> t')\<rparr>))
      | _ \<Rightarrow> (Inr None, c))"

text \<open>The race of the receipt against the timer.\<close>

definition race :: "smoke_net \<Rightarrow> nat option \<Rightarrow> nat option" where
  "race net status = (case status of None \<Rightarrow> None | Some s \<Rightarrow> if sn_first net then sn_receipt net s else None)"

section \<open>The script\<close>

record smoke_reading =
  sr_clientEth :: nat
  sr_pmEth :: nat
  sr_clientOltin :: nat
  sr_recipientOltin :: nat
  sr_fees :: nat

definition read_deltas :: "address \<Rightarrow> address \<Rightarrow> smoke_reading script" where
  "read_deltas client recipient =
     sbind (getBalance client) (\<lambda>clientEth.
     sbind (getBalance PAYMASTER) (\<lambda>pmEth.
     sbind (oltin_read OLTIN_V3 (\<lambda>t. tk_balances t client)) (\<lambda>clientOltin.
     sbind (oltin_read OLTIN_V3 (\<lambda>t. tk_balances t recipient)) (\<lambda>recipientOltin.
     sbind (pm_read PAYMASTER (\<lambda>P. Inr (pm_totalFeesCollected P))) (\<lambda>fees.
     sret \<lparr>sr_clientEth = clientEth, sr_pmEth = pmEth, sr_clientOltin = clientOltin,
            sr_recipientOltin = recipientOltin, sr_fees = fees\<rparr>)))))"

definition smoke_checks :: "smoke_reading \<Rightarrow> smoke_reading \<Rightarrow> bool list" where
  "smoke_checks b a =
     [int (sr_recipientOltin a) - int (sr_recipientOltin b) = int ONE_GRAM,
      int (sr_clientOltin b) - int (sr_clientOltin a) = int ONE_GRAM + (int (sr_fees a) - int (sr_fees b)),
      sr_fees a > sr_fees b,
      sr_clientEth b = sr_clientEth a,
      sr_pmEth b > sr_pmEth a]"

definition negative_preflight :: "(nat \<Rightarrow> nat \<Rightarrow> nat \<Rightarrow> nat option) \<Rightarrow> smoke_net \<Rightarrow> string \<Rightarrow> address \<Rightarrow> unit script" where
  "negative_preflight mulDivUp net selector client = awaits (\<lambda>c.
     sbind (option_or (NoContract PAYMASTER) (ch_paymasters c PAYMASTER)) (\<lambda>P.
     case checkSponsorship mulDivUp (sn_clock net) client client (gas_limit net) (max_fee net) P of
       Inr _ \<Rightarrow> sthrow (Thrown ''negative preflight did NOT revert'')
     | Inl e \<Rightarrow> if js_includes (fst (sn_error net e)) ''TargetNotSponsored'' \<or> js_startsWith (revertData (snd (sn_error net e))) selector
         then sret () else sthrow (PmReverted e)) c)"

text \<open>From the readings before the sponsored transaction to the verdict.\<close>

definition smoke_tail ::
    "(nat \<Rightarrow> nat \<Rightarrow> nat \<Rightarrow> nat option) \<Rightarrow> smoke_net \<Rightarrow> address \<Rightarrow> address \<Rightarrow> nat \<Rightarrow> nat script" where
  "smoke_tail mulDivUp net client recipient allowance =
     sbind (read_deltas client recipient) (\<lambda>before.
     sbind (awaits (sret ())) (\<lambda>_.
     sbind (mine mulDivUp net client recipient allowance) (\<lambda>status.
     let receiptStatus = race net status in
     sbind (lifted (\<lambda>e. e) (classifyMining receiptStatus (receiptStatus = None))) (\<lambda>outcome.
     if outcome \<noteq> Mined then sret 1
     else sbind (read_deltas client recipient) (\<lambda>after.
          sret (if list_all (\<lambda>ok. ok) (smoke_checks before after) then 0 else 1))))))"

definition smoke_main ::
    "(nat \<Rightarrow> nat \<Rightarrow> nat \<Rightarrow> nat option) \<Rightarrow> (string \<Rightarrow> address option) \<Rightarrow> string \<Rightarrow> smoke_net \<Rightarrow> env \<Rightarrow> nat script" where
  "smoke_main mulDivUp walletOf selector net env =
     sbind (key_env walletOf env ''DEMO_KEY_1'' ''DEMO_KEY_1 not set in contracts/.env'') (\<lambda>client.
     sbind (key_env walletOf env ''DEMO_KEY_2'' ''DEMO_KEY_2 not set in contracts/.env'') (\<lambda>recipient.
     sbind (awaits (option_or BadArgument (sn_bare net))) (\<lambda>_.
     sbind (awaits (sret (sn_gasPrice net))) (\<lambda>_.
     sbind (pm_read PAYMASTER (quoteFee mulDivUp (sn_clock net) (gas_limit net) (max_fee net))) (\<lambda>quoted.
     let allowance = nat (allowanceWithMargin (int quoted) MARGIN_BPS) in
     sbind (pm_read PAYMASTER (checkSponsorship mulDivUp (sn_clock net) client OLTIN_V3 (gas_limit net) (max_fee net))) (\<lambda>_.
     sbind (negative_preflight mulDivUp net selector client) (\<lambda>_.
     sbind (if allowance < UINT256 then oltin_tx OLTIN_V3 (token_approve client PAYMASTER allowance) else sthrow BadArgument) (\<lambda>_.
     smoke_tail mulDivUp net client recipient allowance))))))))"

definition smoke_exit :: "(script_error, nat) result \<Rightarrow> nat" where
  "smoke_exit r = (case r of Inl _ \<Rightarrow> 1 | Inr n \<Rightarrow> n)"

section \<open>Properties\<close>

lemma allowanceWithMargin_ceil:
  "0 \<le> q \<Longrightarrow> 0 \<le> m \<Longrightarrow> allowanceWithMargin q m = (q * m + 9999) div 10000"
  by (simp add: allowanceWithMargin_def Let_def sdiv_pos_nonneg)

text \<open>The allowance covers every fee up to the margin over the quote.\<close>

lemma margin_covers_drift:
  assumes "10000 * fee \<le> 12000 * q"
  shows "fee \<le> nat (allowanceWithMargin (int q) MARGIN_BPS)"
  using assms by (simp add: allowanceWithMargin_ceil MARGIN_BPS_def)

lemma wp_getBalance [wps]:
  "wp (getBalance a) Q E c = (if ch_net c = 0 then E c else
     Q (eth_of a (c\<lparr>ch_net := ch_net c - 1\<rparr>)) (c\<lparr>ch_net := ch_net c - 1\<rparr>))"
  by (simp add: getBalance_def awaits_def wp_def)

lemma wp_negative [wps]:
  "wp (negative_preflight mulDivUp net selector client) Q E c = (if ch_net c = 0 then E c else
     let c1 = c\<lparr>ch_net := ch_net c - 1\<rparr> in
     case ch_paymasters c PAYMASTER of None \<Rightarrow> E c1 | Some P \<Rightarrow>
     (case checkSponsorship mulDivUp (sn_clock net) client client (gas_limit net) (max_fee net) P of Inr _ \<Rightarrow> E c1
      | Inl e \<Rightarrow> if js_includes (fst (sn_error net e)) ''TargetNotSponsored'' \<or> js_startsWith (revertData (snd (sn_error net e))) selector
         then Q () c1 else E c1))"
  by (auto simp: negative_preflight_def awaits_def wp_def sbind_def sret_def option_or_def sthrow_def Let_def split: option.splits sum.splits)

lemma wp_read_deltas:
  assumes "ch_paymasters c PAYMASTER = Some P" and "ch_oltins c OLTIN_V3 = Some t" and "ch_paymasters c client = None"
    and "\<And>n. Q \<lparr>sr_clientEth = ch_eth c client, sr_pmEth = pm_eth P, sr_clientOltin = tk_balances t client,
            sr_recipientOltin = tk_balances t recipient, sr_fees = pm_totalFeesCollected P\<rparr> (c\<lparr>ch_net := n\<rparr>)"
  shows "wp (read_deltas client recipient) Q (\<lambda>_. True) c"
  using assms by (simp add: read_deltas_def wps eth_of_def Let_def)

text \<open>What the readings before and after a transaction of the network say.\<close>

lemma sponsored_effect:
  assumes spec: "mulDivUp_spec mulDivUp" and ok: "token_ok t" and cfg: "pm_config_ok P" and a: "pm_address P = PAYMASTER"
    and ne: "client \<noteq> recipient" "client \<noteq> PAYMASTER" "recipient \<noteq> PAYMASTER"
    and gas: "0 < gas_limit net" "0 < max_fee net" and refund: "\<And>ts r. sn_inclusion net = Some (ts, r) \<Longrightarrow> r < gas_limit net * max_fee net"
    and s: "sponsored mulDivUp net client recipient allowance P t = Some (1, P', t')"
  shows "tk_balances t' recipient = tk_balances t recipient + ONE_GRAM
    \<and> tk_balances t' client + ONE_GRAM + pm_totalFeesCollected P' = tk_balances t client + pm_totalFeesCollected P
    \<and> pm_totalFeesCollected P < pm_totalFeesCollected P' \<and> pm_eth P' < pm_eth P"
proof -
  let ?tx = "sponsored_tx net client allowance" and ?eth = "gas_limit net * max_fee net"
  obtain ts refund fee P1 t1 where i: "sn_inclusion net = Some (ts, refund)"
    and v: "validateAndPay mulDivUp BOOTLOADER True ts BOOTLOADER ?tx P t = Inr (fee, P1, t1)"
    and tr: "token_transfer client recipient ONE_GRAM t1 = Inr t'" and P': "P' = receive_eth refund P1"
    using s by (auto simp: sponsored_def split: option.splits sum.splits)
  have tx: "tx_from ?tx = client" "tx_to ?tx = OLTIN_V3" "tx_gasLimit ?tx = gas_limit net" "tx_maxFeePerGas ?tx = max_fee net"
    by (simp_all add: sponsored_tx_def)
  obtain ss gs where
      g: "guard_sponsorship mulDivUp ts client OLTIN_V3 ?eth P = Inr (fee, ss, gs, day_of ts)"
    and m: "token_transferFrom (pm_address P) client (pm_address P) fee t = Inr t1"
    and P1: "pm_totalFeesCollected P1 = pm_totalFeesCollected P + fee" "pm_eth P1 = pm_eth P - ?eth"
    by (rule validate_run [OF v, unfolded tx]) (rule that, simp_all)
  note gi = guard_Inr [OF g]
  have e: "0 < ?eth" "?eth \<le> pm_eth P" using gas gi(4) by simp_all
  have "0 < ?eth * pm_oltinPerEth P" using e(1) cfg by (simp add: pm_config_ok_def)
  then have "0 < ceil_div (?eth * pm_oltinPerEth P) (10 ^ 18)" using ceil_div_bound [of "10 ^ 18" "?eth * pm_oltinPerEth P"] by (cases "ceil_div (?eth * pm_oltinPerEth P) (10 ^ 18)") auto
  with feeFor_value(1) [OF spec gi(10)] surcharge_not_less [of "ceil_div (?eth * pm_oltinPerEth P) (10 ^ 18)" "pm_minFeeOltin P" "pm_surchargeBps P"]
  have fee: "0 < fee" by simp
  note mv = token_transferFrom_move [OF ok m]
  from mv have ok1: "token_ok t1" by blast
  note tm = transfer_internal_move [OF ok1 tr [unfolded token_transfer_def]]
  have b1: "tk_balances t1 x = moved client PAYMASTER fee (tk_balances t) x" for x using mv by (simp add: a)
  have b2: "tk_balances t' x = moved client recipient ONE_GRAM (tk_balances t1) x" for x
    using tm by auto
  have l: "fee \<le> tk_balances t client" "ONE_GRAM \<le> tk_balances t1 client" using mv tm by blast+
  show ?thesis using ne l fee e refund [OF i] by (simp add: b2 moved_apply b1 P' P1 receive_eth_def)
qed

definition smoke_world :: "(nat \<Rightarrow> nat \<Rightarrow> nat \<Rightarrow> nat option) \<Rightarrow> smoke_net \<Rightarrow> address \<Rightarrow> address \<Rightarrow> paymaster \<Rightarrow> oltin_token \<Rightarrow> chain \<Rightarrow> bool" where
  "smoke_world mulDivUp net client recipient P t c \<longleftrightarrow>
     mulDivUp_spec mulDivUp \<and> ch_paymasters c PAYMASTER = Some P \<and> ch_oltins c OLTIN_V3 = Some t \<and> ch_paymasters c client = None
     \<and> token_ok t \<and> pm_config_ok P \<and> pm_address P = PAYMASTER \<and> client \<noteq> recipient \<and> client \<noteq> PAYMASTER \<and> recipient \<noteq> PAYMASTER
     \<and> 0 < max_fee net \<and> sn_receipt net 0 \<in> {None, Some 0} \<and> sn_receipt net 1 \<in> {None, Some 1}
     \<and> (\<forall>ts r. sn_inclusion net = Some (ts, r) \<longrightarrow> r < gas_limit net * max_fee net)"

definition went_through :: "(nat \<Rightarrow> nat \<Rightarrow> nat \<Rightarrow> nat option) \<Rightarrow> smoke_net \<Rightarrow> address \<Rightarrow> address \<Rightarrow> nat \<Rightarrow> paymaster \<Rightarrow> oltin_token \<Rightarrow> bool" where
  "went_through mulDivUp net client recipient allowance P t \<longleftrightarrow>
     (case sponsored mulDivUp net client recipient allowance P t of None \<Rightarrow> False | Some (status, _) \<Rightarrow> status = 1)
     \<and> race net (Some 1) = Some 1"

lemma sponsored_status: "sponsored mulDivUp net client recipient allowance P t = Some (s, P', t') \<Longrightarrow> s = 0 \<or> s = 1"
  by (auto simp: sponsored_def split: option.splits sum.splits)

lemma race_faithful:
  assumes "sn_receipt net 0 \<in> {None, Some 0}" and "sn_receipt net 1 \<in> {None, Some 1}" and "s = 0 \<or> s = 1" and "race net (Some s) = Some r"
  shows "r = s"
  using assms by (auto simp: race_def split: if_splits)

lemma wp_smoke_tail:
  assumes w: "smoke_world mulDivUp net client recipient P t c" and g: "0 < gas_limit net"
  shows "wp (smoke_tail mulDivUp net client recipient allowance)
     (\<lambda>n _. n \<le> 1 \<and> (n = 0 \<longleftrightarrow> went_through mulDivUp net client recipient allowance P t)) (\<lambda>_. True) c"
proof -
  note W = w [unfolded smoke_world_def]
  let ?b = "\<lparr>sr_clientEth = ch_eth c client, sr_pmEth = pm_eth P, sr_clientOltin = tk_balances t client,
            sr_recipientOltin = tk_balances t recipient, sr_fees = pm_totalFeesCollected P\<rparr>"
  let ?S = "sponsored mulDivUp net client recipient allowance P t"
  show ?thesis unfolding smoke_tail_def wp_core(3)
  proof (rule wp_read_deltas)
    fix n
    let ?c = "c\<lparr>ch_net := n - 1\<rparr>"
    have "wp (mine mulDivUp net client recipient allowance) Q (\<lambda>_. True) ?c"
      if "?S = None \<Longrightarrow> Q None ?c"
        and "\<And>s P' t'. ?S = Some (s, P', t') \<Longrightarrow> Q (Some s) (?c\<lparr>ch_paymasters := (ch_paymasters c)(PAYMASTER \<mapsto> P'), ch_oltins := (ch_oltins c)(OLTIN_V3 \<mapsto> t')\<rparr>)" for Q
      using W that by (cases ?S) (auto simp: mine_def wp_def)
    note mine = this
    let ?K = "\<lambda>status. let receiptStatus = race net status in
                 sbind (lifted (\<lambda>e. e) (classifyMining receiptStatus (receiptStatus = None))) (\<lambda>outcome.
                 if outcome \<noteq> Mined then sret 1
                 else sbind (read_deltas client recipient) (\<lambda>after.
                      sret (if list_all (\<lambda>ok. ok) (smoke_checks ?b after) then 0 else 1)))"
    let ?Q = "\<lambda>n _. n \<le> (1 :: nat) \<and> (n = 0 \<longleftrightarrow> went_through mulDivUp net client recipient allowance P t)"
    have lost: "wp (?K None) ?Q (\<lambda>_. True) ?c" if "?S = None"
      using that by (simp add: race_def classifyMining_def wps went_through_def)
    have seen: "wp (?K (Some s)) ?Q (\<lambda>_. True) (?c\<lparr>ch_paymasters := (ch_paymasters c)(PAYMASTER \<mapsto> P'), ch_oltins := (ch_oltins c)(OLTIN_V3 \<mapsto> t')\<rparr>)"
      if s: "?S = Some (s, P', t')" for s P' t'
    proof (cases "race net (Some s)")
      case None
      then show ?thesis using s by (auto simp: classifyMining_def wps went_through_def Let_def)
    next
      case (Some r)
      then have r: "r = s" using race_faithful [of net s r] sponsored_status [OF s] W by blast
      show ?thesis
      proof (cases "s = 1")
        case False
        then have "s = 0" using sponsored_status [OF s] by simp
        then show ?thesis using s Some r by (simp add: classifyMining_def wps went_through_def Let_def)
      next
        case True
        have "tk_balances t' recipient = tk_balances t recipient + ONE_GRAM
          \<and> tk_balances t' client + ONE_GRAM + pm_totalFeesCollected P' = tk_balances t client + pm_totalFeesCollected P
          \<and> pm_totalFeesCollected P < pm_totalFeesCollected P' \<and> pm_eth P' < pm_eth P"
          by (rule sponsored_effect [where net = net and mulDivUp = mulDivUp and allowance = allowance]) (use W g s True in auto)
        then have "list_all (\<lambda>ok. ok) (smoke_checks ?b \<lparr>sr_clientEth = ch_eth c client, sr_pmEth = pm_eth P', sr_clientOltin = tk_balances t' client,
            sr_recipientOltin = tk_balances t' recipient, sr_fees = pm_totalFeesCollected P'\<rparr>)"
          by (simp add: smoke_checks_def)
        moreover have "went_through mulDivUp net client recipient allowance P t"
          using s Some r True by (simp add: went_through_def)
        ultimately show ?thesis using Some r True W
          by (auto simp: classifyMining_def wp_core wp_guards Let_def intro!: wp_read_deltas [where P = P' and t = t'])
      qed
    qed
    show "wp (awaits (sret ())) (\<lambda>u. wp (mine mulDivUp net client recipient allowance) (\<lambda>status. wp (?K status) ?Q (\<lambda>_. True)) (\<lambda>_. True)) (\<lambda>_. True) (c\<lparr>ch_net := n\<rparr>)"
      unfolding wp_awaits wp_core using mine [where Q = "\<lambda>status. wp (?K status) ?Q (\<lambda>_. True)", OF lost seen] by simp
  qed (use W in auto)
qed

text \<open>The steps of a script that may stop, when only what holds at its end matters.\<close>

lemma wp_steps:
  "(\<And>n. wp m Q (\<lambda>_. True) (c\<lparr>ch_net := n\<rparr>)) \<Longrightarrow> wp (awaits m) Q (\<lambda>_. True) c"
  "ch_paymasters c a = Some P \<Longrightarrow> (\<And>n y. h P = Inr y \<Longrightarrow> R y (c\<lparr>ch_net := n\<rparr>)) \<Longrightarrow> wp (pm_read a h) R (\<lambda>_. True) c"
  "ch_oltins c a = Some t \<Longrightarrow> (\<And>n t'. f t = Inr t' \<Longrightarrow> S () (c\<lparr>ch_net := n, ch_oltins := (ch_oltins c)(a \<mapsto> t')\<rparr>))
     \<Longrightarrow> wp (oltin_tx a f) S (\<lambda>_. True) c"
  "ch_paymasters c PAYMASTER = Some P \<Longrightarrow> (\<And>n. T () (c\<lparr>ch_net := n\<rparr>))
     \<Longrightarrow> wp (negative_preflight mulDivUp net selector client) T (\<lambda>_. True) c"
  by (simp_all add: wps Let_def split: option.splits sum.splits)

lemma wp_key_env:
  "env name = Some k \<Longrightarrow> walletOf k = Some a \<Longrightarrow> Q a c \<Longrightarrow> wp (key_env walletOf env name msg) Q (\<lambda>_. True) c"
  by (simp add: key_env_def wps)

text \<open>
  C37. The gasless smoke is green exactly when the paymaster sponsored the transaction: a run that
  ends gives 0 or 1, and 0 if and only if the transaction, sent with an allowance of the live quote
  plus the margin, passed the paymaster's validation, was included with status 1 and its receipt came
  before the timer.  So none of its five balance checks can fail after a transaction that was mined.
\<close>

theorem smoke_is_green_iff_sponsored:
  assumes key: "env ''DEMO_KEY_1'' = Some k1" "walletOf k1 = Some client" "env ''DEMO_KEY_2'' = Some k2" "walletOf k2 = Some recipient"
    and w: "smoke_world mulDivUp net client recipient P t c"
    and run: "smoke_main mulDivUp walletOf selector net env c = (Inr n, c')"
  shows "n \<le> 1 \<and> (\<exists>quoted t1. quoteFee mulDivUp (sn_clock net) (gas_limit net) (max_fee net) P = Inr quoted
     \<and> token_approve client PAYMASTER (nat (allowanceWithMargin (int quoted) MARGIN_BPS)) t = Inr t1
     \<and> (n = 0 \<longleftrightarrow> went_through mulDivUp net client recipient (nat (allowanceWithMargin (int quoted) MARGIN_BPS)) P t1))"
proof -
  let ?Q = "\<lambda>n _. n \<le> 1 \<and> (\<exists>quoted t1. quoteFee mulDivUp (sn_clock net) (gas_limit net) (max_fee net) P = Inr quoted
     \<and> token_approve client PAYMASTER (nat (allowanceWithMargin (int quoted) MARGIN_BPS)) t = Inr t1
     \<and> (n = 0 \<longleftrightarrow> went_through mulDivUp net client recipient (nat (allowanceWithMargin (int quoted) MARGIN_BPS)) P t1))"
  note W = w [unfolded smoke_world_def]
  have tail: "wp (smoke_tail mulDivUp net client recipient (nat (allowanceWithMargin (int quoted) MARGIN_BPS))) ?Q (\<lambda>_. True)
      (c\<lparr>ch_net := m, ch_oltins := (ch_oltins c)(OLTIN_V3 \<mapsto> t1)\<rparr>)"
    if q: "quoteFee mulDivUp (sn_clock net) (gas_limit net) (max_fee net) P = Inr quoted"
      and a: "token_approve client PAYMASTER (nat (allowanceWithMargin (int quoted) MARGIN_BPS)) t = Inr t1" and g: "0 < gas_limit net" for quoted m t1
  proof -
    have "token_ok t1" using W approve_keeps [OF a [unfolded token_approve_def]] by (simp add: token_ok_def holders_def)
    then have "smoke_world mulDivUp net client recipient P t1 (c\<lparr>ch_net := m, ch_oltins := (ch_oltins c)(OLTIN_V3 \<mapsto> t1)\<rparr>)"
      using w by (simp add: smoke_world_def)
    from wp_smoke_tail [OF this g] show ?thesis by (rule wp_mono) (use q a in auto)
  qed
  have gas: "sn_bare net = Some b \<Longrightarrow> 0 < gas_limit net" for b by (simp add: gas_limit_def AA_OVERHEAD_def)
  have "wp (smoke_main mulDivUp walletOf selector net env) ?Q (\<lambda>_. True) c"
    unfolding smoke_main_def wp_core(3) Let_def
    apply (rule wp_key_env [where env = env and walletOf = walletOf, OF key(1,2)], rule wp_key_env [where env = env and walletOf = walletOf, OF key(3,4)], rule wp_steps(1))
    apply (simp only: wp_guards split: option.split)
    apply (intro conjI impI TrueI allI wp_steps(1))
    apply (simp only: wp_core)
    apply (rule wp_steps(2) [where P = P], use W in simp)
    apply (rule wp_steps(2) [where P = P], use W in simp)
    apply (rule wp_steps(4) [where P = P], use W in simp)
    apply (simp only: wp_core split: if_split)
    apply (intro conjI impI TrueI)
    apply (rule wp_steps(3) [where t = t], use W in simp)
    using tail gas apply simp
    done
  from wp_run [OF run this] show ?thesis by simp
qed

text \<open>
  The allowance is enough whenever the fee at inclusion is within the margin over the quote: then a
  transaction the paymaster still sponsors goes through.
\<close>

lemma sponsored_goes_through:
  assumes inc: "sn_inclusion net = Some (ts, refund)" and wait: "race net (Some 1) = Some 1"
    and pm: "pm_address P = PAYMASTER" "pm_oltinToken P = OLTIN_V3" "\<not> pm_paused P" "pm_totalFeesCollected P + fee < UINT256"
    and chk: "checkSponsorship mulDivUp ts client OLTIN_V3 (gas_limit net) (max_fee net) P = Inr fee"
    and tok: "token_ok t" "\<not> tk_paused t" "tk_allowances t client PAYMASTER = nat (allowanceWithMargin (int quoted) MARGIN_BPS)"
    and drift: "10000 * fee \<le> 12000 * quoted" and rich: "fee + ONE_GRAM \<le> tk_balances t client"
    and nz: "client \<noteq> address0" "recipient \<noteq> address0" "PAYMASTER \<noteq> address0" "client \<noteq> PAYMASTER"
  shows "went_through mulDivUp net client recipient allowance P t"
proof -
  let ?tx = "sponsored_tx net client allowance"
  have tx: "tx_from ?tx = client" "tx_to ?tx = OLTIN_V3" "tx_gasLimit ?tx = gas_limit net" "tx_maxFeePerGas ?tx = max_fee net"
    "tx_paymasterInput ?tx = ApprovalBased (Some (pm_oltinToken P, allowance, []))"
    by (simp_all add: sponsored_tx_def pm)
  have "\<exists>P' t'. validateAndPay mulDivUp BOOTLOADER True ts BOOTLOADER ?tx P t = Inr (fee, P', t')"
    by (rule validate_succeeds [OF tx(5) pm(3)]) (use tx chk tok nz pm rich margin_covers_drift [OF drift] in simp_all)
  then obtain P1 t1 where v: "validateAndPay mulDivUp BOOTLOADER True ts BOOTLOADER ?tx P t = Inr (fee, P1, t1)" by blast
  have m: "token_transferFrom PAYMASTER client PAYMASTER fee t = Inr t1"
    by (rule validate_run [OF v, unfolded tx]) (simp add: pm)
  note mv = token_transferFrom_move [OF tok(1) m]
  then have t1: "token_ok t1" "\<not> tk_paused t1" "ONE_GRAM \<le> tk_balances t1 client"
    using tok rich nz by (auto simp: moved_apply)
  have "\<exists>t'. token_transfer client recipient ONE_GRAM t1 = Inr t'"
    using t1 nz token_update_move [OF t1(1) nz(1,2), of ONE_GRAM] by (simp add: token_transfer_def transfer_internal_def)
  then show ?thesis using inc v wait by (auto simp: went_through_def sponsored_def)
qed

text \<open>A run with the connection up, past the preflight, ends with a verdict.\<close>

lemma wp_mine:
  assumes "PAYMASTER \<in> dom (ch_paymasters c)" and "OLTIN_V3 \<in> dom (ch_oltins c)"
    and "\<And>s c'. ch_net c' = ch_net c \<Longrightarrow> PAYMASTER \<in> dom (ch_paymasters c') \<Longrightarrow> OLTIN_V3 \<in> dom (ch_oltins c') \<Longrightarrow> s \<in> {None, Some 0, Some 1} \<Longrightarrow> Q s c'"
  shows "wp (mine mulDivUp net client recipient allowance) Q E c"
proof -
  obtain P t where c: "ch_paymasters c PAYMASTER = Some P" "ch_oltins c OLTIN_V3 = Some t" using assms by blast
  show ?thesis
  proof (cases "sponsored mulDivUp net client recipient allowance P t")
    case None
    then show ?thesis using c assms by (simp add: mine_def wp_def)
  next
    case (Some x)
    then obtain s P' t' where x: "sponsored mulDivUp net client recipient allowance P t = Some (s, P', t')" by (cases x) auto
    then show ?thesis using c sponsored_status [OF x] assms(3) by (auto simp: mine_def wp_def)
  qed
qed

lemma smoke_tail_ends:
  assumes w: "smoke_world mulDivUp net client recipient P t c" and n: "11 \<le> ch_net c"
  shows "\<exists>v c'. smoke_tail mulDivUp net client recipient allowance c = (Inr v, c')"
proof -
  note W = w [unfolded smoke_world_def]
  have reads: "wp (read_deltas client recipient) Q (\<lambda>_. False) d"
    if "5 \<le> ch_net d" "PAYMASTER \<in> dom (ch_paymasters d)" "OLTIN_V3 \<in> dom (ch_oltins d)" "\<And>r. Q r (d\<lparr>ch_net := ch_net d - 5\<rparr>)" for Q d
    using that by (auto simp: read_deltas_def wps Let_def numeral_eq_Suc)
  have race3: "race net s \<in> {None, Some 0, Some 1}" if "s \<in> {None, Some 0, Some 1}" for s
    using that W by (auto simp: race_def split: if_splits)
  have after: "wp (let receiptStatus = race net s in
     sbind (lifted (\<lambda>e. e) (classifyMining receiptStatus (receiptStatus = None))) (\<lambda>outcome.
     if outcome \<noteq> Mined then sret 1
     else sbind (read_deltas client recipient) (\<lambda>after. sret (f after)))) (\<lambda>_ _. True) (\<lambda>_. False) d"
    if d: "5 \<le> ch_net d" "PAYMASTER \<in> dom (ch_paymasters d)" "OLTIN_V3 \<in> dom (ch_oltins d)" and s: "s \<in> {None, Some 0, Some 1}" for s d and f :: "smoke_reading \<Rightarrow> nat"
  proof -
    have "wp (read_deltas client recipient) (\<lambda>x. wp (sret (f x)) (\<lambda>_ _. True) (\<lambda>_. False)) (\<lambda>_. False) d"
      by (rule reads) (use d in \<open>simp_all add: wp_core\<close>)
    then show ?thesis using race3 [OF s] by (elim insertE; simp add: classifyMining_def wp_core wp_guards)
  qed
  have "wp (smoke_tail mulDivUp net client recipient allowance) (\<lambda>_ _. True) (\<lambda>_. False) c"
    unfolding smoke_tail_def wp_core(3) wp_awaits
    apply (rule reads, use n in simp, use W in blast, use W in blast)
    using n apply (simp add: wp_core)
    apply (rule wp_mine, use W in force, use W in force)
    apply (rule after, use n in simp_all)
    done
  from wp_exists [OF this] show ?thesis by blast
qed

text \<open>A funded client, a paymaster that sponsors the token and a network that includes the transaction.\<close>

definition smoke_pm :: paymaster where
  "smoke_pm = open_pm\<lparr>pm_address := PAYMASTER, pm_oltinToken := OLTIN_V3, pm_sponsoredTarget := (\<lambda>_. False)(OLTIN_V3 := True)\<rparr>"

definition smoke_oltin :: oltin_token where
  "smoke_oltin = sample_oltin\<lparr>tk_balances := (\<lambda>_. 0)(''client'' := 3 * ONE_GRAM), tk_totalSupply := 3 * ONE_GRAM\<rparr>"

definition sample_net :: smoke_net where
  "sample_net = \<lparr>sn_bare = Some 158343, sn_gasPrice = None, sn_clock = 2000, sn_inclusion = Some (2060, 0),
     sn_receipt = (\<lambda>s. Some s), sn_first = True, sn_error = (\<lambda>_. (''TargetNotSponsored'', JNull))\<rparr>"

definition smoke_env :: env where
  "smoke_env = (\<lambda>_. None)(''DEMO_KEY_1'' := Some ''k1'', ''DEMO_KEY_2'' := Some ''k2'')"

definition smoke_keys :: "string \<Rightarrow> address option" where
  "smoke_keys = (\<lambda>_. None)(''k1'' := Some ''client'', ''k2'' := Some ''friend'')"

definition smoke_chain :: chain where
  "smoke_chain = \<lparr>ch_net = 40, ch_nonce = 0, ch_eth = (\<lambda>_. 0), ch_attestors = (\<lambda>_. None), ch_oltins = [OLTIN_V3 \<mapsto> smoke_oltin],
     ch_tokens = (\<lambda>_. None), ch_exchanges = (\<lambda>_. None), ch_stakings = (\<lambda>_. None), ch_paymasters = [PAYMASTER \<mapsto> smoke_pm]\<rparr>"

lemma smoke_sample:
  "gas_limit sample_net = 308343" "max_fee sample_net = 45250000" "sn_clock sample_net = 2000"
  by (simp_all add: gas_limit_def max_fee_def sample_net_def AA_OVERHEAD_def)

lemma smoke_check:
  "checkSponsorship sample_mulDivUp ts ''client'' OLTIN_V3 308343 45250000 smoke_pm = Inr 258679734705000"
  "quoteFee sample_mulDivUp ts 308343 45250000 smoke_pm = Inr 258679734705000"
  if "ts = 2000 \<or> ts = 2060"
proof -
  have "\<forall>n \<in> {13952520750000 :: nat, 251145373500000, 258679734705000}. n < UINT256" by (simp add: UINT256_def)
  then show "checkSponsorship sample_mulDivUp ts ''client'' OLTIN_V3 308343 45250000 smoke_pm = Inr 258679734705000"
    "quoteFee sample_mulDivUp ts 308343 45250000 smoke_pm = Inr 258679734705000"
    using that by (auto simp: checkSponsorship_def quoteFee_def guard_sponsorship_def revert_if_def pm_checked_def smoke_pm_def open_pm_def
        deployed_pm_def spent_today_def feeFor_def mulDivUp_call_def sample_mulDivUp_def ceil_div_def Let_def)
qed

lemma smoke_refusal:
  "checkSponsorship sample_mulDivUp 2000 ''client'' ''client'' 308343 45250000 smoke_pm = Inl (TargetNotSponsored ''client'')"
proof -
  have "(13952520750000 :: nat) < UINT256" "''client'' \<noteq> OLTIN_V3" by (simp_all add: UINT256_def OLTIN_V3_def)
  then show ?thesis by (simp add: checkSponsorship_def guard_sponsorship_def revert_if_def pm_checked_def smoke_pm_def open_pm_def deployed_pm_def Let_def)
qed

definition smoke_approved :: oltin_token where
  "smoke_approved = smoke_oltin\<lparr>tk_allowances := (\<lambda>_ _. 0)(''client'' := (\<lambda>_. 0)(PAYMASTER := 310415681646000))\<rparr>"

lemma smoke_approve: "token_approve ''client'' PAYMASTER 310415681646000 smoke_oltin = Inr smoke_approved"
proof -
  have "''client'' \<noteq> address0" "PAYMASTER \<noteq> address0" by (rule not_address0, simp) (rule address0_third, simp add: PAYMASTER_def)
  then show ?thesis by (simp add: token_approve_def approve_internal_def smoke_approved_def smoke_oltin_def sample_oltin_def)
qed

lemma smoke_tokens_ok: "token_ok smoke_oltin" "token_ok smoke_approved"
proof -
  have h: "holders smoke_oltin = {''client''}" "holders smoke_approved = {''client''}"
    by (auto simp: holders_def smoke_oltin_def smoke_approved_def ONE_GRAM_def)
  show "token_ok smoke_oltin" "token_ok smoke_approved"
    by (simp_all add: token_ok_def h) (simp_all add: smoke_oltin_def smoke_approved_def UINT256_def ONE_GRAM_def)
qed

lemma smoke_sample_world:
  "token_ok t \<Longrightarrow> smoke_world sample_mulDivUp sample_net ''client'' ''friend'' smoke_pm t (smoke_chain\<lparr>ch_net := n, ch_oltins := [OLTIN_V3 \<mapsto> t]\<rparr>)"
  by (simp add: smoke_world_def sample_mulDivUp_spec smoke_sample)
    (simp add: smoke_chain_def smoke_pm_def open_pm_def deployed_pm_def sample_net_def pm_config_ok_def PAYMASTER_def MAX_SURCHARGE_BPS_def MAX_MIN_FEE_OLTIN_def)

theorem smoke_is_green_iff_sponsored_witness:
  "\<exists>c'. smoke_main sample_mulDivUp smoke_keys ''0xd12eb37e'' sample_net smoke_env smoke_chain = (Inr 0, c')"
proof -
  have a: "nat (allowanceWithMargin 258679734705000 MARGIN_BPS) = 310415681646000"
    by (simp add: allowanceWithMargin_ceil MARGIN_BPS_def)
  have "\<exists>v c'. smoke_tail sample_mulDivUp sample_net ''client'' ''friend'' 310415681646000
      (smoke_chain\<lparr>ch_net := 34, ch_oltins := [OLTIN_V3 \<mapsto> smoke_approved]\<rparr>) = (Inr v, c')"
    by (rule smoke_tail_ends [OF smoke_sample_world]) (simp_all add: smoke_tokens_ok)
  then obtain v c' where tail: "smoke_tail sample_mulDivUp sample_net ''client'' ''friend'' 310415681646000
      (smoke_chain\<lparr>ch_net := 34, ch_oltins := [OLTIN_V3 \<mapsto> smoke_approved]\<rparr>) = (Inr v, c')" by blast
  have "smoke_chain\<lparr>ch_net := 40, ch_oltins := [OLTIN_V3 \<mapsto> smoke_oltin]\<rparr> = smoke_chain" by (simp add: smoke_chain_def)
  with smoke_sample_world [OF smoke_tokens_ok(1), of 40]
  have w: "smoke_world sample_mulDivUp sample_net ''client'' ''friend'' smoke_pm smoke_oltin smoke_chain" by simp
  have c: "ch_net smoke_chain = 40" "ch_paymasters smoke_chain PAYMASTER = Some smoke_pm" "ch_oltins smoke_chain OLTIN_V3 = Some smoke_oltin"
    by (simp_all add: smoke_chain_def)
  have k: "key_env smoke_keys smoke_env ''DEMO_KEY_1'' m = sret ''client''" "key_env smoke_keys smoke_env ''DEMO_KEY_2'' m = sret ''friend''" for m
    by (simp_all add: key_env_def smoke_env_def smoke_keys_def option_or_def)
  have e: "sn_bare sample_net = Some 158343" "sn_error sample_net e = (''TargetNotSponsored'', JNull)" "js_includes ''TargetNotSponsored'' ''TargetNotSponsored''" for e
    by (simp_all add: sample_net_def js_startsWith_def)
  have u: "(310415681646000 :: nat) < UINT256" by (simp add: UINT256_def)
  have co: "(ch_oltins smoke_chain)(OLTIN_V3 \<mapsto> smoke_approved) = [OLTIN_V3 \<mapsto> smoke_approved]" by (simp add: smoke_chain_def)
  have wp_tail: "wp (smoke_tail sample_mulDivUp sample_net ''client'' ''friend'' 310415681646000) Q E
      (smoke_chain\<lparr>ch_net := 34, ch_oltins := [OLTIN_V3 \<mapsto> smoke_approved]\<rparr>) = Q v c'" for Q E using tail by (simp add: wp_def)
  have "wp (smoke_main sample_mulDivUp smoke_keys ''0xd12eb37e'' sample_net smoke_env) (\<lambda>n d. n = v \<and> d = c') (\<lambda>_. False) smoke_chain"
    unfolding smoke_main_def
    by (simp add: wps k c e smoke_sample smoke_check smoke_refusal smoke_approve a u co Let_def wp_tail del: js_includes.simps)
  then have run: "smoke_main sample_mulDivUp smoke_keys ''0xd12eb37e'' sample_net smoke_env smoke_chain = (Inr v, c')"
    by (auto dest: wp_exists)
  have nz: "''client'' \<noteq> address0" "''friend'' \<noteq> address0" "PAYMASTER \<noteq> address0" "''client'' \<noteq> PAYMASTER"
    by (rule not_address0, simp)+ (rule address0_third, simp add: PAYMASTER_def, simp add: PAYMASTER_def)
  have "went_through sample_mulDivUp sample_net ''client'' ''friend'' 310415681646000 smoke_pm smoke_approved"
    by (rule sponsored_goes_through [where ts = 2060 and refund = 0 and fee = 258679734705000 and quoted = 258679734705000])
      (simp_all add: nz smoke_check smoke_sample a smoke_tokens_ok,
        simp_all add: sample_net_def race_def smoke_pm_def open_pm_def deployed_pm_def smoke_approved_def smoke_oltin_def sample_oltin_def UINT256_def ONE_GRAM_def)
  moreover have "smoke_env ''DEMO_KEY_1'' = Some ''k1''" "smoke_keys ''k1'' = Some ''client''" "smoke_env ''DEMO_KEY_2'' = Some ''k2''" "smoke_keys ''k2'' = Some ''friend''"
    by (simp_all add: smoke_env_def smoke_keys_def)
  ultimately have "v = 0"
    using smoke_is_green_iff_sponsored [where env = smoke_env and walletOf = smoke_keys and client = "''client''" and recipient = "''friend''", OF _ _ _ _ w run]
    by (auto simp: smoke_sample smoke_check smoke_approve a)
  with run show ?thesis by blast
qed

end
