(* ===== verification/SeedDemo.thy ===== *)
theory SeedDemo
  imports Deploy
begin

text \<open>
  The demo-bank seed \<^verbatim>\<open>scripts/seed-demo.ts\<close>: it mints UZD to a bank and three clients, gives the
  clients gas, buys gold for all of them at live prices and sells one gram back.  The script runs
  alone on the two tokens and the exchange at the addresses its environment names, while the feeds
  and the clock go on: what a call sees of them is a function of the awaited calls that are left.
\<close>

section \<open>The world and its calls\<close>

record seed_world =
  sw_net :: nat \<comment> \<open>how many more awaited calls the connection survives\<close>
  sw_mk :: market
  sw_eth :: "address \<Rightarrow> nat"

type_synonym 'a seeding = "(seed_world, 'a) action"

text \<open>The outside of a run: the three feeds (reserve, gold, currency) and the clock at each call.\<close>

record live =
  lv_feeds :: "nat \<Rightarrow> attestor \<times> attestor \<times> attestor"
  lv_clock :: "nat \<Rightarrow> int"

definition seen :: "live \<Rightarrow> nat \<Rightarrow> market \<Rightarrow> market" where
  "seen lv n mk = (case lv_feeds lv n of (r, x, u) \<Rightarrow> mk\<lparr>mk_reserve := r, mk_xau := x, mk_uzs := u\<rparr>)"

definition sw_read :: "live \<Rightarrow> (market \<Rightarrow> 'a) \<Rightarrow> 'a seeding" where
  "sw_read lv f s = (if sw_net s = 0 then (Inl ConnectionLost, s)
     else (Inr (f (seen lv (sw_net s) (sw_mk s))), s\<lparr>sw_net := sw_net s - 1\<rparr>))"

text \<open>A transaction, sent and then waited for; one that reverts makes the wait throw.\<close>

definition mined :: "live \<Rightarrow> (int \<Rightarrow> market \<Rightarrow> (revert, 'a \<times> market) result) \<Rightarrow> 'a seeding" where
  "mined lv f s = (if sw_net s = 0 then (Inl ConnectionLost, s)
     else case f (lv_clock lv (sw_net s)) (seen lv (sw_net s) (sw_mk s)) of
            Inl e \<Rightarrow> (Inl (Reverted e), s\<lparr>sw_net := sw_net s - 1\<rparr>)
          | Inr (x, mk) \<Rightarrow> if sw_net s = 1 then (Inl ConnectionLost, s\<lparr>sw_net := 0, sw_mk := mk\<rparr>)
              else (Inr x, s\<lparr>sw_net := sw_net s - 2, sw_mk := mk\<rparr>))"

definition on_uzd :: "(token \<Rightarrow> (revert, token) result) \<Rightarrow> int \<Rightarrow> market \<Rightarrow> (revert, unit \<times> market) result" where
  "on_uzd f ts mk = rbind (f (mk_uzd mk)) (\<lambda>t. Inr ((), mk\<lparr>mk_uzd := t\<rparr>))"

definition on_oltin :: "(oltin_token \<Rightarrow> (revert, oltin_token) result) \<Rightarrow> int \<Rightarrow> market \<Rightarrow> (revert, unit \<times> market) result" where
  "on_oltin f ts mk = rbind (f (mk_oltin mk)) (\<lambda>t. Inr ((), mk\<lparr>mk_oltin := t\<rparr>))"

definition sw_balance :: "address \<Rightarrow> nat seeding" where
  "sw_balance a s = (if sw_net s = 0 then (Inl ConnectionLost, s) else (Inr (sw_eth s a), s\<lparr>sw_net := sw_net s - 1\<rparr>))"

definition send_gas :: "address \<Rightarrow> address \<Rightarrow> nat \<Rightarrow> unit seeding" where
  "send_gas src to v s = (if sw_net s = 0 then (Inl ConnectionLost, s)
     else if sw_eth s src < v then (Inl InsufficientFunds, s\<lparr>sw_net := sw_net s - 1\<rparr>)
     else let e = (sw_eth s)(src := sw_eth s src - v); e' = e(to := e to + v) in
       if sw_net s = 1 then (Inl ConnectionLost, s\<lparr>sw_net := 0, sw_eth := e'\<rparr>)
       else (Inr (), s\<lparr>sw_net := sw_net s - 2, sw_eth := e'\<rparr>))"

section \<open>Amounts and prices\<close>

definition E18 :: nat where "E18 = 1000000000000000000"
definition BANK_UZD :: nat where "BANK_UZD = 4000000000 * E18"
definition CLIENT_UZD :: "nat list" where "CLIENT_UZD = [50000000 * E18, 20000000 * E18, 10000000 * E18]"
definition CLIENT_GAS :: nat where "CLIENT_GAS = 1000000000000000"
definition PROBE_UZD :: nat where "PROBE_UZD = 1000000 * E18"
definition MAIN_UZD :: nat where "MAIN_UZD = 3900000000 * E18"
definition SELL_GRAMS :: nat where "SELL_GRAMS = E18"

text \<open>Division of \<^verbatim>\<open>bigint\<close>s truncates, and throws for a zero divisor.\<close>

definition big_div :: "int \<Rightarrow> int \<Rightarrow> ('s, int) action" where
  "big_div x y = (if y = 0 then sthrow (Thrown ''Division by zero'') else sret (x sdiv y))"

definition expectedBuy :: "int \<Rightarrow> int \<Rightarrow> int \<Rightarrow> ('s, int) action" where
  "expectedBuy uzdIn xau uzs = big_div (uzdIn * uzs * int GRAMS_PER_OZ_1E8) (100000000 * xau)"

definition expectedSell :: "int \<Rightarrow> int \<Rightarrow> int \<Rightarrow> ('s, int) action" where
  "expectedSell oltinIn xau uzs = big_div (oltinIn * xau * 100000000) (int GRAMS_PER_OZ_1E8 * uzs)"

definition seed_minOut :: "int \<Rightarrow> int \<Rightarrow> int" where
  "seed_minOut slippageBps expected = (expected * (10000 - slippageBps)) sdiv 10000"

definition uint_big :: "int \<Rightarrow> ('s, nat) action" where
  "uint_big v = (if 0 \<le> v \<and> v < int UINT256 then sret (nat v) else sthrow BadArgument)"

definition livePrices :: "live \<Rightarrow> (int \<times> int \<times> int) seeding" where
  "livePrices lv =
     sbind (sw_read lv (\<lambda>mk. rd_answer (latestRoundData (mk_xau mk)))) (\<lambda>xau.
     sbind (sw_read lv (\<lambda>mk. rd_answer (latestRoundData (mk_uzs mk)))) (\<lambda>uzs.
     sbind (sw_read lv (\<lambda>mk. rd_answer (latestRoundData (mk_reserve mk)))) (\<lambda>reserve.
     sret (xau, uzs, reserve))))"

section \<open>The steps\<close>

definition require_env :: "env \<Rightarrow> string \<Rightarrow> ('s, string) action" where
  "require_env env name = (case env name of None \<Rightarrow> sthrow (Thrown (name @ '' not set in contracts/.env''))
     | Some v \<Rightarrow> if v = [] then sthrow (Thrown (name @ '' not set in contracts/.env'')) else sret v)"

definition wallet_env :: "(string \<Rightarrow> address option) \<Rightarrow> env \<Rightarrow> string \<Rightarrow> ('s, address) action" where
  "wallet_env walletOf env name = sbind (require_env env name) (\<lambda>k. option_or BadArgument (walletOf k))"

fun mint_clients :: "live \<Rightarrow> address \<Rightarrow> (address \<times> nat) list \<Rightarrow> unit seeding" where
  "mint_clients lv bank [] = sret ()"
| "mint_clients lv bank ((c, amount) # cs) =
     sbind (mined lv (on_uzd (uzd_mint bank c amount))) (\<lambda>_. mint_clients lv bank cs)"

definition seed_mint :: "live \<Rightarrow> address \<Rightarrow> address list \<Rightarrow> nat \<Rightarrow> unit seeding" where
  "seed_mint lv bank clients bankUzd =
     (if bankUzd > 0 then sret ()
      else sbind (mined lv (on_uzd (uzd_mint bank bank BANK_UZD))) (\<lambda>_. mint_clients lv bank (zip clients CLIENT_UZD)))"

fun fund_clients :: "address \<Rightarrow> address list \<Rightarrow> unit seeding" where
  "fund_clients bank [] = sret ()"
| "fund_clients bank (c # cs) =
     sbind (sw_balance c) (\<lambda>bal.
     sbind (if bal \<ge> CLIENT_GAS div 2 then sret () else send_gas bank c CLIENT_GAS) (\<lambda>_. fund_clients bank cs))"

text \<open>One purchase: the prices, the approval, and the buy with its floor; what it expected and got.\<close>

definition purchase ::
    "live \<Rightarrow> (nat \<Rightarrow> nat \<Rightarrow> nat \<Rightarrow> nat option) \<Rightarrow> exchange \<Rightarrow> int \<Rightarrow> address \<Rightarrow> nat \<Rightarrow> (int \<times> nat) seeding" where
  "purchase lv mulDiv X slippageBps who amount =
     sbind (livePrices lv) (\<lambda>(xau, uzs, _).
     sbind (expectedBuy (int amount) xau uzs) (\<lambda>expected.
     sbind (mined lv (on_uzd (token_approve who (ex_address X) amount))) (\<lambda>_.
     sbind (uint_big (seed_minOut slippageBps expected)) (\<lambda>least.
     sbind (mined lv (\<lambda>ts. buy mulDiv X ts who amount least)) (\<lambda>out. sret (expected, out))))))"

definition drift_bps :: "int \<Rightarrow> nat \<Rightarrow> ('s, int) action" where
  "drift_bps expected out =
     (if int out > expected then big_div ((int out - expected) * 10000) expected
      else big_div ((expected - int out) * 10000) expected)"

definition probe :: "live \<Rightarrow> (nat \<Rightarrow> nat \<Rightarrow> nat \<Rightarrow> nat option) \<Rightarrow> exchange \<Rightarrow> int \<Rightarrow> address \<Rightarrow> unit seeding" where
  "probe lv mulDiv X slippageBps bank =
     sbind (purchase lv mulDiv X slippageBps bank PROBE_UZD) (\<lambda>(expected, out).
     sbind (drift_bps expected out) (\<lambda>drift. sthrow_if (drift > 50) ''UNIT CHECK FAILED''))"

fun client_buys ::
    "live \<Rightarrow> (nat \<Rightarrow> nat \<Rightarrow> nat \<Rightarrow> nat option) \<Rightarrow> exchange \<Rightarrow> int \<Rightarrow> (address \<times> nat) list \<Rightarrow> unit seeding" where
  "client_buys lv mulDiv X slippageBps [] = sret ()"
| "client_buys lv mulDiv X slippageBps ((c, amount) # cs) =
     sbind (purchase lv mulDiv X slippageBps c amount) (\<lambda>_.
     sbind (sw_read lv (\<lambda>mk. tk_balances (mk_oltin mk) c)) (\<lambda>_. client_buys lv mulDiv X slippageBps cs))"

definition probe_sell :: "live \<Rightarrow> (nat \<Rightarrow> nat \<Rightarrow> nat \<Rightarrow> nat option) \<Rightarrow> exchange \<Rightarrow> int \<Rightarrow> address \<Rightarrow> unit seeding" where
  "probe_sell lv mulDiv X slippageBps c =
     sbind (livePrices lv) (\<lambda>(xau, uzs, _).
     sbind (expectedSell (int SELL_GRAMS) xau uzs) (\<lambda>expected.
     sbind (mined lv (on_oltin (token_approve c (ex_address X) SELL_GRAMS))) (\<lambda>_.
     sbind (sw_read lv (\<lambda>mk. tk_balances (mk_uzd mk) c)) (\<lambda>_.
     sbind (uint_big (seed_minOut slippageBps expected)) (\<lambda>least.
     sbind (mined lv (\<lambda>ts. sell mulDiv X ts c SELL_GRAMS least)) (\<lambda>_.
     sbind (sw_read lv (\<lambda>mk. tk_balances (mk_uzd mk) c)) (\<lambda>_. sret ())))))))"

fun read_all :: "live \<Rightarrow> address list \<Rightarrow> unit seeding" where
  "read_all lv [] = sret ()"
| "read_all lv (a # as) = sbind (sw_read lv (\<lambda>mk. tk_balances (mk_oltin mk) a)) (\<lambda>_. read_all lv as)"

definition final_state :: "live \<Rightarrow> exchange \<Rightarrow> address \<Rightarrow> address list \<Rightarrow> nat seeding" where
  "final_state lv X bank clients =
     sbind (sw_read lv (\<lambda>mk. tk_totalSupply (mk_oltin mk))) (\<lambda>supply.
     sbind (sw_read lv (treasuryBalance X)) (\<lambda>treasury.
     sbind (livePrices lv) (\<lambda>_.
     sbind (read_all lv (bank # clients)) (\<lambda>_.
     sbind (sthrow_if (supply = 0) ''seed failed: totalSupply is still 0'') (\<lambda>_.
     sbind (sthrow_if (treasury = 0) ''seed failed: treasury is still 0'') (\<lambda>_. sret 0))))))"

definition seed_run ::
    "live \<Rightarrow> (nat \<Rightarrow> nat \<Rightarrow> nat \<Rightarrow> nat option) \<Rightarrow> exchange \<Rightarrow> int \<Rightarrow> address \<Rightarrow> address list \<Rightarrow> nat seeding" where
  "seed_run lv mulDiv X slippageBps bank clients =
     sbind (sw_read lv (\<lambda>mk. tk_totalSupply (mk_oltin mk))) (\<lambda>_.
     sbind (sw_read lv (treasuryBalance X)) (\<lambda>_.
     sbind (sw_read lv (\<lambda>mk. tk_balances (mk_uzd mk) bank)) (\<lambda>bankUzd.
     sbind (seed_mint lv bank clients bankUzd) (\<lambda>_.
     sbind (fund_clients bank clients) (\<lambda>_.
     sbind (probe lv mulDiv X slippageBps bank) (\<lambda>_.
     sbind (purchase lv mulDiv X slippageBps bank MAIN_UZD) (\<lambda>_.
     sbind (client_buys lv mulDiv X slippageBps (zip clients CLIENT_UZD)) (\<lambda>_.
     sbind (probe_sell lv mulDiv X slippageBps (hd clients)) (\<lambda>_.
     final_state lv X bank clients)))))))))"

definition seed_main ::
    "live \<Rightarrow> (nat \<Rightarrow> nat \<Rightarrow> nat \<Rightarrow> nat option) \<Rightarrow> (string \<Rightarrow> address option) \<Rightarrow> exchange \<Rightarrow> env \<Rightarrow> nat seeding" where
  "seed_main lv mulDiv walletOf X env =
     sbind (option_or (Thrown ''SyntaxError'') (js_BigInt (env_or env ''SLIPPAGE_BPS'' ''200''))) (\<lambda>slippageBps.
     sbind (wallet_env walletOf env ''PRIVATE_KEY'') (\<lambda>bank.
     sbind (wallet_env walletOf env ''DEMO_KEY_1'') (\<lambda>c1.
     sbind (wallet_env walletOf env ''DEMO_KEY_2'') (\<lambda>c2.
     sbind (wallet_env walletOf env ''DEMO_KEY_3'') (\<lambda>c3.
     sbind (require_env env ''UZD_ADDRESS'') (\<lambda>_.
     sbind (require_env env ''EXCHANGE_ADDRESS'') (\<lambda>_.
     seed_run lv mulDiv X slippageBps bank [c1, c2, c3])))))))"

section \<open>A run on a ready market\<close>

text \<open>What a run on its own does not change, and the books it keeps.\<close>

definition staged ::
    "exchange \<Rightarrow> address \<Rightarrow> nat \<Rightarrow> nat \<Rightarrow> nat \<Rightarrow> (address \<Rightarrow> nat) \<Rightarrow> nat \<Rightarrow> (address \<Rightarrow> nat) \<Rightarrow> market \<Rightarrow> bool" where
  "staged X bank age scale w u k g mk \<longleftrightarrow>
     market_ok mk \<and> \<not> tk_paused (mk_uzd mk) \<and> \<not> tk_paused (mk_oltin mk)
     \<and> hasRole MINTER_ROLE bank (mk_uzd mk) \<and> hasRole MINTER_ROLE (ex_address X) (mk_oltin mk)
     \<and> ot_maxAgeReserve (mk_oltin mk) = age \<and> ot_reserveScale (mk_oltin mk) = scale
     \<and> tk_totalSupply (mk_uzd mk) = w \<and> tk_balances (mk_uzd mk) = u
     \<and> tk_totalSupply (mk_oltin mk) = k \<and> tk_balances (mk_oltin mk) = g"

text \<open>Feeds that may be posted again but keep their values and stay fresh.\<close>

definition steady :: "live \<Rightarrow> exchange \<Rightarrow> nat \<Rightarrow> nat \<Rightarrow> nat \<Rightarrow> nat \<Rightarrow> bool" where
  "steady lv X age grams xau uzs \<longleftrightarrow> (\<forall>n. case lv_feeds lv n of (r, x, u) \<Rightarrow>
     rd_answer (latestRoundData r) = int grams \<and> rd_answer (latestRoundData x) = int xau \<and> rd_answer (latestRoundData u) = int uzs
     \<and> fresh (lv_clock lv n) age r \<and> fresh (lv_clock lv n) (ex_maxAgeXau X) x \<and> fresh (lv_clock lv n) (ex_maxAgeUzs X) u)"

lemma steady_seen:
  assumes "steady lv X age grams xau uzs"
  shows "rd_answer (latestRoundData (mk_reserve (seen lv n mk))) = int grams"
    "rd_answer (latestRoundData (mk_xau (seen lv n mk))) = int xau" "rd_answer (latestRoundData (mk_uzs (seen lv n mk))) = int uzs"
    "fresh (lv_clock lv n) age (mk_reserve (seen lv n mk))"
    "fresh (lv_clock lv n) (ex_maxAgeXau X) (mk_xau (seen lv n mk))" "fresh (lv_clock lv n) (ex_maxAgeUzs X) (mk_uzs (seen lv n mk))"
  using assms [unfolded steady_def, rule_format, of n] by (auto simp: seen_def split: prod.splits)

lemma seen_tokens [simp]: "mk_uzd (seen lv n mk) = mk_uzd mk" "mk_oltin (seen lv n mk) = mk_oltin mk"
  by (simp_all add: seen_def split: prod.splits)

lemma seen_staged [simp]: "staged X bank age scale w u k g (seen lv n mk) = staged X bank age scale w u k g mk"
  by (simp add: staged_def market_ok_def)

lemma wp_sw_read:
  "1 \<le> sw_net s \<Longrightarrow> Q (f (seen lv (sw_net s) (sw_mk s))) (s\<lparr>sw_net := sw_net s - 1\<rparr>) \<Longrightarrow> wp (sw_read lv f) Q E s"
  by (simp add: wp_def sw_read_def)

lemma wp_mined:
  assumes "2 \<le> sw_net s" and "\<exists>mk. f (lv_clock lv (sw_net s)) (seen lv (sw_net s) (sw_mk s)) = Inr (x, mk) \<and> Q x (s\<lparr>sw_net := sw_net s - 2, sw_mk := mk\<rparr>)"
  shows "wp (mined lv f) Q E s"
  using assms by (auto simp: wp_def mined_def)

lemma wp_livePrices:
  assumes "steady lv X age grams xau uzs" and "3 \<le> sw_net s"
    and "Q (int xau, int uzs, int grams) (s\<lparr>sw_net := sw_net s - 3\<rparr>)"
  shows "wp (livePrices lv) Q E s"
  using assms(2,3) unfolding livePrices_def wp_core
  by (intro wp_sw_read) (simp_all add: steady_seen [OF assms(1), simplified] wp_core numeral_eq_Suc)

lemma approve_step:
  assumes "staged X bank age scale w u k g mk" and "who \<noteq> address0" and "spender \<noteq> address0"
  shows "\<exists>mk'. on_uzd (token_approve who spender v) ts mk = Inr ((), mk') \<and> staged X bank age scale w u k g mk'
      \<and> tk_allowances (mk_uzd mk') who spender = v"
    and "\<exists>mk'. on_oltin (token_approve who spender v) ts mk = Inr ((), mk') \<and> staged X bank age scale w u k g mk'
      \<and> tk_allowances (mk_oltin mk') who spender = v"
  using assms by (auto simp: on_uzd_def on_oltin_def token_approve_def approve_internal_def staged_def market_ok_def token_ok_def holders_def hasRole_def)

lemma mint_step:
  assumes st: "staged X bank age scale w u k g mk" and "c \<noteq> address0" and "0 < v" and "w + v < UINT256"
  shows "\<exists>mk'. on_uzd (uzd_mint bank c v) ts mk = Inr ((), mk') \<and> staged X bank age scale (w + v) (u(c := u c + v)) k g mk'"
proof -
  have ok: "token_ok (mk_uzd mk)" using st by (simp add: staged_def market_ok_def)
  let ?t = "(mk_uzd mk)\<lparr>tk_totalSupply := w + v, tk_balances := u(c := u c + v)\<rparr>"
  have m: "mint_internal c v (mk_uzd mk) = Inr ?t"
    using token_update_mint [OF ok assms(2), of v] assms st by (simp add: mint_internal_def staged_def)
  have r: "uzd_mint bank c v (mk_uzd mk) = Inr ?t"
    using st assms(2,3) m by (simp add: uzd_mint_def guard_binds staged_def)
  have "token_ok ?t" using mint_internal_effect [OF ok m] by blast
  then have "staged X bank age scale (w + v) (u(c := u c + v)) k g (mk\<lparr>mk_uzd := ?t\<rparr>)"
    using st by (simp add: staged_def market_ok_def hasRole_def)
  with r show ?thesis by (simp add: on_uzd_def)
qed

text \<open>A purchase and a sale on a ready market, with their exact effect on the books.\<close>

lemma buy_step:
  assumes spec: "mulDiv_spec mulDiv" and st: "staged X bank age scale w u k g mk" and sd: "steady lv X age grams xau uzs"
    and nz: "who \<noteq> address0" "ex_address X \<noteq> address0" and ne: "who \<noteq> ex_address X"
    and p: "0 < xau" "0 < uzs" "uzs * GRAMS_PER_OZ_1E8 < UINT256" "10 ^ 8 * xau < UINT256"
    and "0 < v" "0 < least" "least \<le> oltin_out xau uzs v" and al: "tk_allowances (mk_uzd mk) who (ex_address X) = v" "v \<le> u who"
    and cap: "0 < grams" "grams * scale < UINT256" "k + oltin_out xau uzs v \<le> grams * scale"
  shows "\<exists>mk'. buy mulDiv X (lv_clock lv n) who v least (seen lv n mk) = Inr (oltin_out xau uzs v, mk')
    \<and> staged X bank age scale w (moved who (ex_address X) v u) (k + oltin_out xau uzs v) (g(who := g who + oltin_out xau uzs v)) mk'"
proof -
  let ?mk = "seen lv n mk" and ?out = "oltin_out xau uzs v"
  note ss = steady_seen [OF sd, of n mk]
  have st': "staged X bank age scale w u k g ?mk" using st by simp
  note S = st' [unfolded staged_def]
  have pr: "price (mk_xau ?mk) = xau" "price (mk_uzs ?mk) = uzs" "price (mk_reserve ?mk) = grams" using ss by simp_all
  have "\<exists>mk'. buy mulDiv X (lv_clock lv n) who v least ?mk
                 = Inr (oltin_out (price (mk_xau ?mk)) (price (mk_uzs ?mk)) v, mk')"
    by (rule buy_succeeds [OF spec]) (use S nz p assms(11-13) al cap ss pr in simp_all)
  then obtain mk' where run: "buy mulDiv X (lv_clock lv n) who v least ?mk = Inr (?out, mk')" unfolding pr by blast
  have ok: "market_ok ?mk" using S by blast
  note e = buy_effect [OF spec ok ne run]
  from run obtain uzd' oltin' where
    tf: "token_transferFrom (ex_address X) who (ex_address X) v (mk_uzd ?mk) = Inr uzd'"
    and mint: "oltin_mint (lv_clock lv n) (mk_reserve ?mk) (ex_address X) who ?out (mk_oltin ?mk) = Inr oltin'"
    and mk': "mk' = ?mk\<lparr>mk_uzd := uzd', mk_oltin := oltin'\<rparr>"
    unfolding buy_def guard_binds rbind_Inr_iff by auto
  have oks: "token_ok (mk_uzd ?mk)" "token_ok (mk_oltin ?mk)" using ok by (simp_all add: market_ok_def)
  note U = token_transferFrom_move [OF oks(1) tf]
  have o: "oltin' = (mk_oltin ?mk)\<lparr>tk_totalSupply := tk_totalSupply (mk_oltin ?mk) + ?out,
      tk_balances := (tk_balances (mk_oltin ?mk))(who := tk_balances (mk_oltin ?mk) who + ?out)\<rparr>"
    using mint_internal_effect [OF oks(2)] oltin_mint_guard [OF mint] by blast
  have "staged X bank age scale w (moved who (ex_address X) v u) (k + ?out) (g(who := g who + ?out)) mk'"
    using S e(9-11,13,16,17) U by (simp add: staged_def mk' o hasRole_def)
  with run show ?thesis by blast
qed

lemma sell_step:
  assumes spec: "mulDiv_spec mulDiv" and st: "staged X bank age scale w u k g mk" and sd: "steady lv X age grams xau uzs"
    and nz: "who \<noteq> address0" "ex_address X \<noteq> address0" and ne: "who \<noteq> ex_address X"
    and p: "0 < xau" "0 < uzs" "xau * 10 ^ 8 < UINT256" "GRAMS_PER_OZ_1E8 * uzs < UINT256"
    and "0 < v" "least \<le> uzd_out xau uzs v" and al: "tk_allowances (mk_oltin mk) who (ex_address X) = v" "v \<le> g who"
    and rich: "uzd_out xau uzs v \<le> u (ex_address X)"
  shows "\<exists>mk'. sell mulDiv X (lv_clock lv n) who v least (seen lv n mk) = Inr (uzd_out xau uzs v, mk')
    \<and> market_ok mk' \<and> tk_balances (mk_uzd mk') = moved (ex_address X) who (uzd_out xau uzs v) u
    \<and> tk_totalSupply (mk_oltin mk') = k - v \<and> tk_balances (mk_oltin mk') = g(who := g who - v)"
proof -
  let ?mk = "seen lv n mk" and ?out = "uzd_out xau uzs v"
  note ss = steady_seen [OF sd, of n mk]
  have st': "staged X bank age scale w u k g ?mk" using st by simp
  note S = st' [unfolded staged_def]
  have pr: "price (mk_xau ?mk) = xau" "price (mk_uzs ?mk) = uzs" using ss by simp_all
  have "\<exists>mk'. sell mulDiv X (lv_clock lv n) who v least ?mk
                 = Inr (uzd_out (price (mk_xau ?mk)) (price (mk_uzs ?mk)) v, mk')"
    by (rule sell_succeeds [OF spec]) (use S nz p assms(11,12) al rich ss pr in \<open>simp_all add: treasuryBalance_def\<close>)
  then obtain mk' where run: "sell mulDiv X (lv_clock lv n) who v least ?mk = Inr (?out, mk')" unfolding pr by blast
  have ok: "market_ok ?mk" using S by blast
  note e = sell_effect [OF spec ok ne run]
  from run e(10-13) S show ?thesis by simp
qed

definition ready :: "live \<Rightarrow> (nat \<Rightarrow> nat \<Rightarrow> nat \<Rightarrow> nat option) \<Rightarrow> exchange \<Rightarrow> nat \<Rightarrow> nat \<Rightarrow> nat \<Rightarrow> nat \<Rightarrow> nat \<Rightarrow> bool" where
  "ready lv mulDiv X age scale grams xau uzs \<longleftrightarrow>
     mulDiv_spec mulDiv \<and> steady lv X age grams xau uzs \<and> ex_address X \<noteq> address0 \<and> 0 < xau \<and> 0 < uzs \<and> 0 < grams
     \<and> uzs * GRAMS_PER_OZ_1E8 < UINT256 \<and> 10 ^ 8 * xau < UINT256 \<and> grams * scale < UINT256"

text \<open>The script's estimates are the exchange's own amounts.\<close>

lemma estimates:
  assumes "0 < xau" and "0 < uzs"
  shows "expectedBuy (int v) (int xau) (int uzs) = sret (int (oltin_out xau uzs v))"
    and "expectedSell (int v) (int xau) (int uzs) = sret (int (uzd_out xau uzs v))"
  using assms
  by (simp_all add: expectedBuy_def expectedSell_def big_div_def oltin_out_def uzd_out_def sdiv_pos_nonneg zdiv_int mult.assoc GRAMS_PER_OZ_1E8_def)

definition least98 :: "nat \<Rightarrow> nat" where "least98 e = e * 9800 div 10000"

lemma least_at_default: "seed_minOut 200 (int e) = int (least98 e)"
  by (simp add: seed_minOut_def least98_def sdiv_pos_nonneg zdiv_int)

lemma least98_le: "least98 e \<le> e" by (auto simp: least98_def)
lemma least98_pos: "10000 \<le> 9800 * e \<Longrightarrow> 0 < least98 e" by (auto simp: least98_def div_greater_zero_iff)

lemma wp_uint_big: "v < UINT256 \<Longrightarrow> Q v s \<Longrightarrow> wp (uint_big (int v)) Q E s"
  by (simp add: uint_big_def wp_core)

lemma wp_purchase:
  assumes r: "ready lv mulDiv X age scale grams xau uzs" and st: "staged X bank age scale w u k g (sw_mk s)" and n: "7 \<le> sw_net s"
    and who: "who \<noteq> address0" "who \<noteq> ex_address X" and v: "0 < v" "v \<le> u who"
    and out: "10000 \<le> 9800 * oltin_out xau uzs v" "k + oltin_out xau uzs v \<le> grams * scale"
    and Q: "\<And>s'. sw_net s' = sw_net s - 7 \<Longrightarrow> sw_eth s' = sw_eth s
      \<Longrightarrow> staged X bank age scale w (moved who (ex_address X) v u) (k + oltin_out xau uzs v) (g(who := g who + oltin_out xau uzs v)) (sw_mk s')
      \<Longrightarrow> Q (int (oltin_out xau uzs v), oltin_out xau uzs v) s'"
  shows "wp (purchase lv mulDiv X 200 who v) Q E s"
proof -
  note R = r [unfolded ready_def]
  let ?out = "oltin_out xau uzs v"
  have least: "0 < least98 ?out" "least98 ?out \<le> ?out" "least98 ?out < UINT256"
    using out R least98_le [of ?out] least98_pos [OF out(1)] by simp_all
  obtain mk1 where a: "on_uzd (token_approve who (ex_address X) v) (lv_clock lv (sw_net s - 3)) (seen lv (sw_net s - 3) (sw_mk s)) = Inr ((), mk1)"
    and st1: "staged X bank age scale w u k g mk1" and al: "tk_allowances (mk_uzd mk1) who (ex_address X) = v"
    using approve_step(1) [of X bank age scale w u k g "seen lv (sw_net s - 3) (sw_mk s)" who "ex_address X"] st who R by auto
  obtain mk2 where b: "buy mulDiv X (lv_clock lv (sw_net s - 5)) who v (least98 ?out) (seen lv (sw_net s - 5) mk1) = Inr (?out, mk2)"
    and st2: "staged X bank age scale w (moved who (ex_address X) v u) (k + ?out) (g(who := g who + ?out)) mk2"
    using buy_step [OF _ st1, of mulDiv lv grams xau uzs who v "least98 ?out" "sw_net s - 5"] R who v al out least by auto
  have "wp (purchase lv mulDiv X 200 who v) Q E s"
    unfolding purchase_def wp_core
    apply (rule wp_livePrices [where age = age and X = X and grams = grams and xau = xau and uzs = uzs])
    using R apply blast
    using n apply simp
    apply (simp add: estimates R wp_core)
    apply (rule wp_mined)
    using n apply simp
    apply (rule exI, rule conjI, simp add: a)
    apply (simp only: wp_core least_at_default)
    apply (rule wp_uint_big, rule least(3))
    apply (simp only: wp_core)
    apply (rule wp_mined)
    using n apply simp
    apply (rule exI, rule conjI, simp add: b)
    using n st2 apply (simp add: wp_core Q)
    done
  then show ?thesis .
qed

lemma wp_probe_sell:
  assumes r: "ready lv mulDiv X age scale grams xau uzs" and st: "staged X bank age scale w u k g (sw_mk s)" and n: "9 \<le> sw_net s"
    and c: "c \<noteq> address0" "c \<noteq> ex_address X" and v: "SELL_GRAMS \<le> g c" and rich: "uzd_out xau uzs SELL_GRAMS \<le> u (ex_address X)"
    and Q: "\<And>s'. sw_net s' = sw_net s - 9 \<Longrightarrow> market_ok (sw_mk s')
      \<Longrightarrow> tk_balances (mk_uzd (sw_mk s')) = moved (ex_address X) c (uzd_out xau uzs SELL_GRAMS) u
      \<Longrightarrow> tk_totalSupply (mk_oltin (sw_mk s')) = k - SELL_GRAMS
      \<Longrightarrow> tk_balances (mk_oltin (sw_mk s')) = g(c := g c - SELL_GRAMS) \<Longrightarrow> Q () s'"
  shows "wp (probe_sell lv mulDiv X 200 c) Q E s"
proof -
  note R = r [unfolded ready_def]
  let ?out = "uzd_out xau uzs SELL_GRAMS"
  have ok: "token_ok (mk_uzd (sw_mk s))" and u: "tk_balances (mk_uzd (sw_mk s)) = u" using st by (simp_all add: staged_def market_ok_def)
  have "?out < UINT256" using rich balance_le_supply [OF ok, of "ex_address X"] ok u by (simp add: token_ok_def)
  then have least: "least98 ?out \<le> ?out" "least98 ?out < UINT256" using least98_le [of ?out] by simp_all
  obtain mk1 where a: "on_oltin (token_approve c (ex_address X) SELL_GRAMS) (lv_clock lv (sw_net s - 3)) (seen lv (sw_net s - 3) (sw_mk s)) = Inr ((), mk1)"
    and st1: "staged X bank age scale w u k g mk1" and al: "tk_allowances (mk_oltin mk1) c (ex_address X) = SELL_GRAMS"
    using approve_step(2) [of X bank age scale w u k g "seen lv (sw_net s - 3) (sw_mk s)" c "ex_address X"] st c R by auto
  have pos: "0 < SELL_GRAMS" by (simp add: SELL_GRAMS_def E18_def)
  obtain mk2 where b: "sell mulDiv X (lv_clock lv (sw_net s - 6)) c SELL_GRAMS (least98 ?out) (seen lv (sw_net s - 6) mk1) = Inr (?out, mk2)"
    and st2: "market_ok mk2" "tk_balances (mk_uzd mk2) = moved (ex_address X) c ?out u"
      "tk_totalSupply (mk_oltin mk2) = k - SELL_GRAMS" "tk_balances (mk_oltin mk2) = g(c := g c - SELL_GRAMS)"
    using sell_step [OF _ st1, of mulDiv lv grams xau uzs c SELL_GRAMS "least98 ?out" "sw_net s - 6"] R c v al rich least pos
    by (auto simp: mult.commute)
  show ?thesis
    unfolding probe_sell_def wp_core
    apply (rule wp_livePrices [where age = age and X = X and grams = grams and xau = xau and uzs = uzs])
    using R apply blast
    using n apply simp
    apply (simp add: estimates R wp_core)
    apply (rule wp_mined)
    using n apply simp
    apply (rule exI, rule conjI, simp add: a)
    apply (simp only: wp_core least_at_default)
    apply (rule wp_sw_read)
    using n apply simp
    apply (simp only: wp_core least_at_default)
    apply (rule wp_uint_big, rule least(2))
    apply (simp only: wp_core)
    apply (rule wp_mined)
    using n apply simp
    apply (rule exI, rule conjI, simp add: b)
    apply (simp only: wp_core)
    apply (rule wp_sw_read)
    using n apply simp
    using n st2 apply (simp add: wp_core Q)
    done
qed

lemma wp_probe:
  assumes r: "ready lv mulDiv X age scale grams xau uzs" and st: "staged X bank age scale w u k g (sw_mk s)" and n: "7 \<le> sw_net s"
    and who: "bank \<noteq> address0" "bank \<noteq> ex_address X" and v: "PROBE_UZD \<le> u bank"
    and out: "10000 \<le> 9800 * oltin_out xau uzs PROBE_UZD" "k + oltin_out xau uzs PROBE_UZD \<le> grams * scale"
    and Q: "\<And>s'. sw_net s' = sw_net s - 7 \<Longrightarrow> staged X bank age scale w (moved bank (ex_address X) PROBE_UZD u)
        (k + oltin_out xau uzs PROBE_UZD) (g(bank := g bank + oltin_out xau uzs PROBE_UZD)) (sw_mk s') \<Longrightarrow> Q () s'"
  shows "wp (probe lv mulDiv X 200 bank) Q E s"
  unfolding probe_def wp_core
  using out(1)
  by (intro wp_purchase [OF r st n who _ v out])
    (auto simp: PROBE_UZD_def E18_def drift_bps_def big_div_def wp_core wp_guards intro!: Q [unfolded PROBE_UZD_def E18_def])

lemma wp_mint:
  assumes "staged X bank age scale w u k g (sw_mk s)" and "2 \<le> sw_net s" and "c \<noteq> address0" and "0 < v" and "w + v < UINT256"
    and Q: "\<And>s'. sw_net s' = sw_net s - 2 \<Longrightarrow> sw_eth s' = sw_eth s \<Longrightarrow> staged X bank age scale (w + v) (u(c := u c + v)) k g (sw_mk s') \<Longrightarrow> Q () s'"
  shows "wp (mined lv (on_uzd (uzd_mint bank c v))) Q E s"
proof -
  obtain mk' where m: "on_uzd (uzd_mint bank c v) (lv_clock lv (sw_net s)) (seen lv (sw_net s) (sw_mk s)) = Inr ((), mk')"
    and st: "staged X bank age scale (w + v) (u(c := u c + v)) k g mk'"
    using mint_step [of X bank age scale w u k g "seen lv (sw_net s) (sw_mk s)" c v] assms(1,3-5) by auto
  show ?thesis by (rule wp_mined [OF assms(2)], rule exI, rule conjI, rule m) (simp add: Q st)
qed

lemma wp_fund_clients:
  assumes "3 * length cs \<le> sw_net s" and "length cs * CLIENT_GAS \<le> sw_eth s bank" and "bank \<notin> set cs"
    and "\<And>s'. sw_net s \<le> sw_net s' + 3 * length cs \<Longrightarrow> sw_mk s' = sw_mk s \<Longrightarrow> Q () s'"
  shows "wp (fund_clients bank cs) Q E s"
  using assms
proof (induction cs arbitrary: s)
  case Nil
  then show ?case by (simp add: wp_core)
next
  case (Cons c cs)
  have "wp (if sw_eth s c \<ge> CLIENT_GAS div 2 then sret () else send_gas bank c CLIENT_GAS) (\<lambda>_. wp (fund_clients bank cs) Q E) E (s\<lparr>sw_net := sw_net s - 1\<rparr>)"
  proof (cases "sw_eth s c \<ge> CLIENT_GAS div 2")
    case True
    have "wp (fund_clients bank cs) Q E (s\<lparr>sw_net := sw_net s - 1\<rparr>)"
      by (rule Cons.IH) (use Cons.prems in auto)
    with True show ?thesis by (simp add: wp_core)
  next
    case False
    let ?s = "s\<lparr>sw_net := sw_net s - 3, sw_eth := (sw_eth s)(bank := sw_eth s bank - CLIENT_GAS, c := sw_eth s c + CLIENT_GAS)\<rparr>"
    have ne: "c \<noteq> bank" using Cons.prems(3) by auto
    have "wp (fund_clients bank cs) Q E ?s"
      by (rule Cons.IH) (use Cons.prems ne in auto)
    moreover have "sw_net s - Suc 0 \<noteq> Suc 0" "sw_net s \<noteq> 0" "sw_net s \<noteq> Suc 0" using Cons.prems(1) by simp_all
    ultimately show ?thesis using False ne Cons.prems(2) by (simp add: wp_def send_gas_def Let_def numeral_eq_Suc)
  qed
  then show ?case using Cons.prems(1) by (simp add: wp_core wp_def [of "sw_balance c"] sw_balance_def)
qed

lemma wp_reads_all:
  assumes "length as \<le> sw_net s" and "Q () (s\<lparr>sw_net := sw_net s - length as\<rparr>)"
  shows "wp (read_all lv as) Q E s"
  using assms
proof (induction "as" arbitrary: s)
  case Nil
  then show ?case by (simp add: wp_core)
next
  case (Cons a as)
  show ?case unfolding read_all.simps wp_core
    by (rule wp_sw_read, use Cons.prems in simp, rule Cons.IH) (use Cons.prems in simp_all)
qed

lemma wp_final_state:
  assumes sd: "steady lv X age grams xau uzs" and n: "9 \<le> sw_net s" and len: "length clients = 3"
    and pos: "0 < tk_totalSupply (mk_oltin (sw_mk s))" "0 < tk_balances (mk_uzd (sw_mk s)) (ex_address X)"
    and Q: "\<And>s'. sw_mk s' = sw_mk s \<Longrightarrow> Q 0 s'"
  shows "wp (final_state lv X bank clients) Q E s"
  unfolding final_state_def wp_core
  apply (rule wp_sw_read)
  using n apply simp
  apply (rule wp_sw_read)
  using n apply simp
  apply (rule wp_livePrices [OF sd])
  using n apply simp
  apply (rule wp_reads_all)
  using n len apply simp
  using pos apply (simp add: wp_core wp_guards treasuryBalance_def Q)
  done

declare client_buys.simps [simp del] fund_clients.simps [simp del] mint_clients.simps [simp del]

text \<open>
  The UZD the buyers start with: what the mint gives a bank that holds none, or what an earlier run
  left when the bank holds some, as the script then skips the mint.
\<close>

definition seed_amounts :: "nat list" where "seed_amounts = [PROBE_UZD, MAIN_UZD] @ CLIENT_UZD"

definition seed_funds :: "address \<Rightarrow> address \<Rightarrow> address \<Rightarrow> address \<Rightarrow> (address \<Rightarrow> nat) \<Rightarrow> address \<Rightarrow> nat" where
  "seed_funds bank c1 c2 c3 u =
     (if u bank = 0 then u(bank := BANK_UZD, c1 := u c1 + CLIENT_UZD ! 0, c2 := u c2 + CLIENT_UZD ! 1, c3 := u c3 + CLIENT_UZD ! 2)
      else u)"

text \<open>
  A market on which the seed can run: fresh steady prices, the roles, the capacity, and a bank that
  is either to be given its UZD or, with its clients, still holds what the purchases need.
\<close>

definition seedable ::
    "live \<Rightarrow> (nat \<Rightarrow> nat \<Rightarrow> nat \<Rightarrow> nat option) \<Rightarrow> exchange \<Rightarrow> nat \<Rightarrow> nat \<Rightarrow> nat \<Rightarrow> nat \<Rightarrow> nat
       \<Rightarrow> address \<Rightarrow> address \<Rightarrow> address \<Rightarrow> address \<Rightarrow> nat \<Rightarrow> (address \<Rightarrow> nat) \<Rightarrow> nat \<Rightarrow> (address \<Rightarrow> nat) \<Rightarrow> seed_world \<Rightarrow> bool" where
  "seedable lv mulDiv X age scale grams xau uzs bank c1 c2 c3 w u k g s \<longleftrightarrow>
     ready lv mulDiv X age scale grams xau uzs \<and> staged X bank age scale w u k g (sw_mk s)
     \<and> distinct [ex_address X, bank, c1, c2, c3] \<and> address0 \<notin> {bank, c1, c2, c3}
     \<and> (u bank = 0 \<longrightarrow> w + 4080000000 * E18 < UINT256)
     \<and> PROBE_UZD + MAIN_UZD \<le> seed_funds bank c1 c2 c3 u bank \<and> CLIENT_UZD ! 0 \<le> seed_funds bank c1 c2 c3 u c1
     \<and> CLIENT_UZD ! 1 \<le> seed_funds bank c1 c2 c3 u c2 \<and> CLIENT_UZD ! 2 \<le> seed_funds bank c1 c2 c3 u c3
     \<and> 3 * CLIENT_GAS \<le> sw_eth s bank \<and> 76 \<le> sw_net s
     \<and> (\<forall>v \<in> set seed_amounts. 10000 \<le> 9800 * oltin_out xau uzs v)
     \<and> k + sum_list (map (oltin_out xau uzs) seed_amounts) \<le> grams * scale
     \<and> SELL_GRAMS \<le> g c1 + oltin_out xau uzs (CLIENT_UZD ! 0) \<and> uzd_out xau uzs SELL_GRAMS < 3981000000 * E18"

definition seeded ::
    "exchange \<Rightarrow> nat \<Rightarrow> nat \<Rightarrow> address \<Rightarrow> address \<Rightarrow> address \<Rightarrow> address \<Rightarrow> (address \<Rightarrow> nat) \<Rightarrow> nat \<Rightarrow> (address \<Rightarrow> nat) \<Rightarrow> market \<Rightarrow> bool" where
  "seeded X xau uzs bank c1 c2 c3 u k g mk \<longleftrightarrow> market_ok mk
     \<and> tk_balances (mk_uzd mk) bank + PROBE_UZD + MAIN_UZD = seed_funds bank c1 c2 c3 u bank
     \<and> treasuryBalance X mk + uzd_out xau uzs SELL_GRAMS = u (ex_address X) + 3981000000 * E18
     \<and> tk_balances (mk_uzd mk) c1 + CLIENT_UZD ! 0 = seed_funds bank c1 c2 c3 u c1 + uzd_out xau uzs SELL_GRAMS
     \<and> tk_balances (mk_uzd mk) c2 + CLIENT_UZD ! 1 = seed_funds bank c1 c2 c3 u c2
     \<and> tk_balances (mk_uzd mk) c3 + CLIENT_UZD ! 2 = seed_funds bank c1 c2 c3 u c3
     \<and> tk_balances (mk_oltin mk) bank = g bank + oltin_out xau uzs PROBE_UZD + oltin_out xau uzs MAIN_UZD
     \<and> tk_balances (mk_oltin mk) c1 + SELL_GRAMS = g c1 + oltin_out xau uzs (CLIENT_UZD ! 0)
     \<and> tk_balances (mk_oltin mk) c2 = g c2 + oltin_out xau uzs (CLIENT_UZD ! 1)
     \<and> tk_balances (mk_oltin mk) c3 = g c3 + oltin_out xau uzs (CLIENT_UZD ! 2)
     \<and> tk_totalSupply (mk_oltin mk) + SELL_GRAMS = k + sum_list (map (oltin_out xau uzs) seed_amounts)"

lemma wp_seed_run:
  assumes "seedable lv mulDiv X age scale grams xau uzs bank c1 c2 c3 w u k g s"
    and Q: "\<And>s'. seeded X xau uzs bank c1 c2 c3 u k g (sw_mk s') \<Longrightarrow> Q 0 s'"
  shows "wp (seed_run lv mulDiv X 200 bank [c1, c2, c3]) Q E s"
proof -
  note S = assms(1) [unfolded seedable_def]
  have r: "ready lv mulDiv X age scale grams xau uzs" and st: "staged X bank age scale w u k g (sw_mk s)" using S by blast+
  have sd: "steady lv X age grams xau uzs" using r by (simp add: ready_def)
  have ne: "bank \<noteq> ex_address X" "c1 \<noteq> ex_address X" "c2 \<noteq> ex_address X" "c3 \<noteq> ex_address X" "bank \<noteq> c1" "bank \<noteq> c2" "bank \<noteq> c3" "c1 \<noteq> c2" "c1 \<noteq> c3" "c2 \<noteq> c3"
    "c1 \<noteq> bank" "c2 \<noteq> bank" "c3 \<noteq> bank" "c2 \<noteq> c1" "c3 \<noteq> c1" "c3 \<noteq> c2" "ex_address X \<noteq> bank" "ex_address X \<noteq> c1" "ex_address X \<noteq> c2" "ex_address X \<noteq> c3"
    using S by auto
  have nz: "bank \<noteq> address0" "c1 \<noteq> address0" "c2 \<noteq> address0" "c3 \<noteq> address0" using S by auto
  have bal: "tk_balances (mk_uzd (sw_mk s)) bank = u bank" using st by (simp add: staged_def)
  define o1 o2 b1 b2 b3 where o: "o1 = oltin_out xau uzs PROBE_UZD" "o2 = oltin_out xau uzs MAIN_UZD"
    "b1 = oltin_out xau uzs (50000000 * E18)" "b2 = oltin_out xau uzs (20000000 * E18)" "b3 = oltin_out xau uzs (10000000 * E18)"
  have out: "10000 \<le> 9800 * o1" "10000 \<le> 9800 * o2" "10000 \<le> 9800 * b1" "10000 \<le> 9800 * b2" "10000 \<le> 9800 * b3"
    and cap: "k + o1 + o2 + b1 + b2 + b3 \<le> grams * scale" and sg: "SELL_GRAMS \<le> g c1 + b1"
    using S by (simp_all add: seed_amounts_def CLIENT_UZD_def o add.assoc)
  have z: "zip [c1, c2, c3] CLIENT_UZD = [(c1, 50000000 * E18), (c2, 20000000 * E18), (c3, 10000000 * E18)]" by (simp add: CLIENT_UZD_def)
  have e: "E18 = 1000000000000000000" by (rule E18_def)
  note amounts = BANK_UZD_def PROBE_UZD_def MAIN_UZD_def
  have n: "76 \<le> sw_net s" using S by (elim conjE)
  let ?X = "ex_address X"
  define uA where "uA = seed_funds bank c1 c2 c3 u"
  have A: "PROBE_UZD + MAIN_UZD \<le> uA bank" "50000000 * E18 \<le> uA c1" "20000000 * E18 \<le> uA c2" "10000000 * E18 \<le> uA c3"
    using S by (simp_all add: uA_def CLIENT_UZD_def)
  have AX: "uA ?X = u ?X" by (simp add: uA_def seed_funds_def ne)
  define uP where "uP = moved bank ?X PROBE_UZD uA"
  define uM where "uM = moved bank ?X MAIN_UZD uP"
  define u1 where "u1 = moved c1 ?X (50000000 * E18) uM"
  define u2 where "u2 = moved c2 ?X (20000000 * E18) u1"
  define u3 where "u3 = moved c3 ?X (10000000 * E18) u2"
  define gM where "gM = g(bank := g bank + o1 + o2)"
  define g3 where "g3 = gM(c1 := g c1 + b1, c2 := g c2 + b2, c3 := g c3 + b3)"
  note us = uP_def uM_def u1_def u2_def u3_def
  have v: "PROBE_UZD \<le> uA bank" "MAIN_UZD \<le> uP bank" "50000000 * E18 \<le> uM c1" "20000000 * E18 \<le> u1 c2" "10000000 * E18 \<le> u2 c3"
    using A by (simp_all add: us moved_apply ne)
  have f: "u3 bank + PROBE_UZD + MAIN_UZD = uA bank" "u3 ?X = u ?X + 3981000000 * E18" "u3 c1 + 50000000 * E18 = uA c1"
    "u3 c2 + 20000000 * E18 = uA c2" "u3 c3 + 10000000 * E18 = uA c3"
    using A by (simp_all add: us moved_apply ne AX) (simp add: amounts e)
  let ?w = "if u bank = 0 then w + 4080000000 * E18 else w"
  have gk: "g c1 \<le> k" using st balance_le_supply [of "mk_oltin (sw_mk s)" c1] by (simp add: staged_def market_ok_def)
  have last: "wp (probe_sell lv mulDiv X 200 c1) (\<lambda>_. wp (final_state lv X bank [c1, c2, c3]) Q E) E s1"
    if st1: "staged X bank age scale ?w u3 (k + o1 + o2 + b1 + b2 + b3) g3 (sw_mk s1)" and n1: "18 \<le> sw_net s1" for s1
  proof (rule wp_probe_sell [OF r st1])
    have sold: "uzd_out xau uzs SELL_GRAMS < 3981000000 * E18" using S by blast
    then show "uzd_out xau uzs SELL_GRAMS \<le> u3 ?X" by (simp add: f)
    fix s' :: seed_world assume net: "sw_net s' = sw_net s1 - 9" and mk: "market_ok (sw_mk s')"
      "tk_balances (mk_uzd (sw_mk s')) = moved ?X c1 (uzd_out xau uzs SELL_GRAMS) u3"
      "tk_totalSupply (mk_oltin (sw_mk s')) = k + o1 + o2 + b1 + b2 + b3 - SELL_GRAMS"
      "tk_balances (mk_oltin (sw_mk s')) = g3(c1 := g3 c1 - SELL_GRAMS)"
    have le: "SELL_GRAMS \<le> k + b1" using sg gk by simp
    have sd': "seeded X xau uzs bank c1 c2 c3 u k g (sw_mk s')"
      using mk(1) sold sg le
      by (simp add: seeded_def treasuryBalance_def mk f moved_apply ne g3_def gM_def seed_amounts_def CLIENT_UZD_def o [symmetric] uA_def [symmetric])
    show "wp (final_state lv X bank [c1, c2, c3]) Q E s'"
      by (rule wp_final_state [OF sd]) (use net n1 out le sold sd' Q in \<open>simp_all add: mk f moved_apply ne\<close>)
  qed (use n1 nz ne sg in \<open>simp_all add: g3_def\<close>)
  have client: "wp (client_buys lv mulDiv X 200 ((c, a) # cs)) Q' E s1"
    if st1: "staged X bank age scale ?w u' k' g' (sw_mk s1)" and n1: "m + 8 \<le> sw_net s1" and c: "c \<noteq> address0" "c \<noteq> ?X" and a: "0 < a" "a \<le> u' c"
      and out': "10000 \<le> 9800 * oltin_out xau uzs a" "k' + oltin_out xau uzs a \<le> grams * scale"
      and rest: "\<And>s2. m \<le> sw_net s2 \<Longrightarrow> staged X bank age scale ?w (moved c ?X a u') (k' + oltin_out xau uzs a) (g'(c := g' c + oltin_out xau uzs a)) (sw_mk s2)
          \<Longrightarrow> wp (client_buys lv mulDiv X 200 cs) Q' E s2" for c a cs u' k' g' s1 m Q'
    unfolding client_buys.simps wp_core
  proof (rule wp_purchase [OF r st1 _ c a out'])
    show "7 \<le> sw_net s1" using n1 by simp
    fix s2 :: seed_world assume "sw_net s2 = sw_net s1 - 7"
      and "staged X bank age scale ?w (moved c ?X a u') (k' + oltin_out xau uzs a) (g'(c := g' c + oltin_out xau uzs a)) (sw_mk s2)"
    then show "wp (sw_read lv (\<lambda>mk. tk_balances (mk_oltin mk) c)) (\<lambda>_. wp (client_buys lv mulDiv X 200 cs) Q' E) E s2"
      using n1 by (intro wp_sw_read rest) simp_all
  qed
  have pos: "0 < E18" by (simp add: e)
  have clients: "wp (client_buys lv mulDiv X 200 [(c1, 50000000 * E18), (c2, 20000000 * E18), (c3, 10000000 * E18)])
      (\<lambda>_. wp (probe_sell lv mulDiv X 200 c1) (\<lambda>_. wp (final_state lv X bank [c1, c2, c3]) Q E) E) E s1"
    if st1: "staged X bank age scale ?w uM (k + o1 + o2) gM (sw_mk s1)" and n1: "42 \<le> sw_net s1" for s1
    apply (rule client [OF st1, where m = 34])
    using n1 nz ne v pos out cap apply (simp_all add: o [symmetric] u1_def [symmetric])
    apply (rule client [where m = 26], assumption)
    using nz ne v pos out cap apply (simp_all add: o [symmetric] u2_def [symmetric] gM_def)
    apply (rule client [where m = 18], assumption)
    using nz ne v pos out cap apply (simp_all add: o [symmetric] u3_def [symmetric] wp_core client_buys.simps(1))
    apply (rule last)
    apply (simp_all add: g3_def gM_def fun_upd_twist ne add.assoc)
    done
  let ?rest = "\<lambda>s. wp (client_buys lv mulDiv X 200 [(c1, 50000000 * E18), (c2, 20000000 * E18), (c3, 10000000 * E18)])
      (\<lambda>_. wp (probe_sell lv mulDiv X 200 c1) (\<lambda>_. wp (final_state lv X bank [c1, c2, c3]) Q E) E) E s"
  have main_pos: "0 < MAIN_UZD" by (simp add: amounts e)
  have main: "wp (purchase lv mulDiv X 200 bank MAIN_UZD) (\<lambda>_. ?rest) E s1"
    if st1: "staged X bank age scale ?w uP (k + o1) (g(bank := g bank + o1)) (sw_mk s1)" and n1: "49 \<le> sw_net s1" for s1
  proof (rule wp_purchase [OF r st1])
    fix s2 :: seed_world assume "sw_net s2 = sw_net s1 - 7" and "staged X bank age scale ?w (moved bank ?X MAIN_UZD uP) (k + o1 + oltin_out xau uzs MAIN_UZD)
        ((g(bank := g bank + o1))(bank := (g(bank := g bank + o1)) bank + oltin_out xau uzs MAIN_UZD)) (sw_mk s2)"
    then show "?rest s2" using n1 by (intro clients) (simp_all add: uM_def gM_def o)
  qed (use n1 nz ne v out cap main_pos in \<open>simp_all add: o [symmetric]\<close>)
  have probed: "wp (probe lv mulDiv X 200 bank) (\<lambda>_. wp (purchase lv mulDiv X 200 bank MAIN_UZD) (\<lambda>_. ?rest) E) E s1"
    if st1: "staged X bank age scale ?w uA k g (sw_mk s1)" and n1: "56 \<le> sw_net s1" for s1
    by (rule wp_probe [OF r st1]) (use n1 nz ne v out cap in \<open>auto simp: o [symmetric] uP_def [symmetric] intro!: main\<close>)
  let ?go = "\<lambda>s. wp (fund_clients bank [c1, c2, c3]) (\<lambda>_. wp (probe lv mulDiv X 200 bank) (\<lambda>_. wp (purchase lv mulDiv X 200 bank MAIN_UZD) (\<lambda>_. ?rest) E) E) E s"
  have go: "?go s1" if st1: "staged X bank age scale ?w uA k g (sw_mk s1)" and n1: "65 \<le> sw_net s1" and eth: "3 * CLIENT_GAS \<le> sw_eth s1 bank" for s1
    by (rule wp_fund_clients) (use n1 eth ne st1 in \<open>auto intro!: probed\<close>)
  have minted: "wp (sbind (mined lv (on_uzd (uzd_mint bank bank BANK_UZD))) (\<lambda>_. mint_clients lv bank [(c1, 50000000 * E18), (c2, 20000000 * E18), (c3, 10000000 * E18)]))
      (\<lambda>_. ?go) E s1" if st1: "staged X bank age scale w u k g (sw_mk s1)" and n1: "73 \<le> sw_net s1" and eth: "3 * CLIENT_GAS \<le> sw_eth s1 bank" and none: "u bank = 0" for s1
  proof -
    have w: "w + 4080000000 * E18 < UINT256" using S none by blast
    have uA': "uA = u(bank := BANK_UZD, c1 := u c1 + 50000000 * E18, c2 := u c2 + 20000000 * E18, c3 := u c3 + 10000000 * E18)"
      using none by (simp add: uA_def seed_funds_def CLIENT_UZD_def)
    show ?thesis
      unfolding mint_clients.simps wp_core
      apply (rule wp_mint [OF st1])
      using n1 nz w e apply (simp_all add: BANK_UZD_def)
      apply (rule wp_mint, assumption)
      using n1 nz w e apply (simp_all add: BANK_UZD_def ne)
      apply (rule wp_mint, assumption)
      using n1 nz w e apply (simp_all add: BANK_UZD_def ne)
      apply (rule wp_mint, assumption)
      using n1 nz w e apply (simp_all add: BANK_UZD_def ne)
      apply (rule go)
      using eth none apply (simp_all add: BANK_UZD_def uA' add.commute)
      done
  qed
  have eth: "3 * CLIENT_GAS \<le> sw_eth s bank" using S by (elim conjE)
  have begun: "wp (seed_mint lv bank [c1, c2, c3] b) (\<lambda>_. ?go) E s1"
    if s1: "b = u bank" "sw_mk s1 = sw_mk s" "sw_eth s1 = sw_eth s" "73 \<le> sw_net s1" for b s1
  proof (cases "u bank = 0")
    case True
    with minted [of s1] st eth s1 show ?thesis by (simp add: seed_mint_def z)
  next
    case False
    then have "uA = u" by (simp add: uA_def seed_funds_def)
    then have "?go s1" using False st eth s1 by (intro go) simp_all
    with False s1(1) show ?thesis by (simp add: seed_mint_def wp_core)
  qed
  show ?thesis
    unfolding seed_run_def z wp_core list.sel
    apply (rule wp_sw_read)
    using n apply simp
    apply (rule wp_sw_read)
    using n apply simp
    apply (rule wp_sw_read)
    using n apply simp
    apply (rule begun)
    using n apply (simp_all add: bal)
    done
qed

section \<open>Running it again\<close>

lemma wp_sw_read_any: "(\<And>n m. Q (f (seen lv m (sw_mk s))) (s\<lparr>sw_net := n\<rparr>)) \<Longrightarrow> wp (sw_read lv f) Q (\<lambda>_. True) s"
  by (simp add: wp_def sw_read_def)

lemma wp_mined_any:
  "(\<And>n m ts x mk. f ts (seen lv m (sw_mk s)) = Inr (x, mk) \<Longrightarrow> Q x (s\<lparr>sw_net := n, sw_mk := mk\<rparr>)) \<Longrightarrow> wp (mined lv f) Q (\<lambda>_. True) s"
  by (auto simp: wp_def mined_def split: sum.splits)

lemma wp_fund_clients_any:
  "(\<And>s'. sw_mk s' = sw_mk s \<Longrightarrow> Q () s') \<Longrightarrow> wp (fund_clients bank cs) Q (\<lambda>_. True) s"
proof (induction cs arbitrary: s)
  case Nil
  then show ?case by (simp add: wp_core fund_clients.simps)
next
  case (Cons c cs)
  have "wp (fund_clients bank cs) Q (\<lambda>_. True) s1" if "sw_mk s1 = sw_mk s" for s1 by (rule Cons.IH) (use Cons.prems that in simp)
  then show ?case
    by (auto simp: fund_clients.simps wp_core wp_def [of "sw_balance c"] sw_balance_def wp_def [of "send_gas bank c CLIENT_GAS"] send_gas_def Let_def)
qed

text \<open>A purchase that goes through was paid for by the buyer, whatever the feeds did meanwhile.\<close>

lemma wp_purchase_paid:
  assumes spec: "mulDiv_spec mulDiv" and ok: "market_ok (sw_mk s)" and ne: "who \<noteq> ex_address X"
    and Q: "\<And>r s'. v \<le> tk_balances (mk_uzd (sw_mk s)) who \<Longrightarrow> market_ok (sw_mk s')
      \<Longrightarrow> tk_balances (mk_uzd (sw_mk s')) who + v = tk_balances (mk_uzd (sw_mk s)) who \<Longrightarrow> Q r s'"
  shows "wp (purchase lv mulDiv X sl who v) Q (\<lambda>_. True) s"
proof -
  have bought: "Q (e, out) (s\<lparr>sw_net := n, sw_mk := mk2\<rparr>)"
    if a: "on_uzd (token_approve who (ex_address X) v) ts1 (seen lv m1 (sw_mk s)) = Inr ((), mk1)"
      and b: "buy mulDiv X ts2 who v least (seen lv m2 mk1) = Inr (out, mk2)" for e out n mk1 mk2 ts1 ts2 m1 m2 least
  proof -
    obtain t where t: "token_approve who (ex_address X) v (mk_uzd (sw_mk s)) = Inr t" "mk1 = (seen lv m1 (sw_mk s))\<lparr>mk_uzd := t\<rparr>"
      using a by (auto simp: on_uzd_def rbind_Inr_iff)
    note k = approve_keeps(1,2) [OF t(1) [unfolded token_approve_def]]
    have ok1: "market_ok (seen lv m2 mk1)" using ok k by (simp add: market_ok_def t(2) token_ok_def holders_def)
    note e = buy_effect [OF spec ok1 ne b]
    show ?thesis by (rule Q) (use e(8,9,13) k ne in \<open>simp_all add: t(2) moved_apply\<close>)
  qed
  have "wp (purchase lv mulDiv X sl who v) Q (\<lambda>_. True) s"
    unfolding purchase_def livePrices_def wp_core
    apply (rule wp_sw_read_any)
    apply (rule wp_sw_read_any)
    apply (rule wp_sw_read_any)
    apply (simp add: wp_core expectedBuy_def big_div_def)
    apply (intro impI wp_mined_any)
    apply (simp add: wp_core uint_big_def)
    apply (intro impI wp_mined_any)
    apply (simp add: wp_core)
    apply (rule bought, assumption+)
    done
  then show ?thesis .
qed

lemma seed_rerun_fails:
  assumes spec: "mulDiv_spec mulDiv" and ok: "market_ok (sw_mk s)" and ne: "bank \<noteq> ex_address X"
    and part: "0 < tk_balances (mk_uzd (sw_mk s)) bank" "tk_balances (mk_uzd (sw_mk s)) bank < PROBE_UZD + MAIN_UZD"
  shows "wp (seed_run lv mulDiv X sl bank cs) (\<lambda>_ _. False) (\<lambda>_. True) s"
proof -
  have main: "wp (purchase lv mulDiv X sl bank MAIN_UZD) Q (\<lambda>_. True) s2"
    if "market_ok (sw_mk s2)" "tk_balances (mk_uzd (sw_mk s2)) bank < MAIN_UZD" for s2 Q
    by (rule wp_purchase_paid [OF spec that(1) ne]) (use that in simp)
  have probed: "wp (probe lv mulDiv X sl bank) (\<lambda>_. wp (purchase lv mulDiv X sl bank MAIN_UZD) Q (\<lambda>_. True)) (\<lambda>_. True) s1"
    if same: "sw_mk s1 = sw_mk s" for s1 Q
    unfolding probe_def wp_core
    by (rule wp_purchase_paid [OF spec _ ne])
      (use ok part same in \<open>auto simp: wp_core wp_guards drift_bps_def big_div_def intro!: main split: prod.splits\<close>)
  show ?thesis
    unfolding seed_run_def seed_mint_def wp_core
    apply (rule wp_sw_read_any)
    apply (rule wp_sw_read_any)
    apply (rule wp_sw_read_any)
    using part(1) apply (simp add: wp_core)
    apply (rule wp_fund_clients_any)
    apply (rule probed, simp)
    done
qed

definition seed_keys :: "(string \<Rightarrow> address option) \<Rightarrow> env \<Rightarrow> address \<Rightarrow> address \<Rightarrow> address \<Rightarrow> address \<Rightarrow> bool" where
  "seed_keys walletOf env bank c1 c2 c3 \<longleftrightarrow>
     (\<forall>(name, a) \<in> set [(''PRIVATE_KEY'', bank), (''DEMO_KEY_1'', c1), (''DEMO_KEY_2'', c2), (''DEMO_KEY_3'', c3)].
        \<exists>k. env name = Some k \<and> k \<noteq> [] \<and> walletOf k = Some a)
     \<and> (\<forall>name \<in> set [''UZD_ADDRESS'', ''EXCHANGE_ADDRESS'']. \<exists>a. env name = Some a \<and> a \<noteq> [])
     \<and> env ''SLIPPAGE_BPS'' = None"

lemma seed_main_run:
  assumes "seed_keys walletOf env bank c1 c2 c3"
  shows "seed_main lv mulDiv walletOf X env s = seed_run lv mulDiv X 200 bank [c1, c2, c3] s"
proof -
  have "list_all is_digit ''200''" "digits_val ''200'' = 200"
    by (simp_all add: is_digit_def digits_val_def digit_val_def code_def)
  then have "js_BigInt ''200'' = Some 200" using js_BigInt_digits [of "''200''"] by simp
  then show ?thesis using assms
    by (auto simp: seed_keys_def seed_main_def wallet_env_def require_env_def env_or_def option_or_def sbind_def sret_def)
qed

text \<open>
  C39.  The seed completes, from the start or after a run that died on the way.  With the keys and
  addresses set and the default slippage, on a market with fresh steady prices at which every
  purchase buys some gold and a gram costs less than the treasury takes in, the roles in place, room
  under the reserve, gas for the clients and a connection that stays up, let the bank hold no UZD, or let it and the three clients still hold what the purchases cost (as
  after a run that failed once the UZD was minted).  Then the run ends with exit code 0.  UZD is
  minted in the first case only, 4 billion to the bank and 80 million to the clients; the bank has
  paid the probe and the main purchase, each client its whole sum, and the treasury holds all of it
  less the price of the one gram that the first client sold back; every buyer has exactly the gold
  its UZD buys at the posted prices, the first client that gram less, and the supply grew by the sum
  of it.
\<close>

theorem seed_completes:
  assumes keys: "seed_keys walletOf env bank c1 c2 c3"
    and start: "seedable lv mulDiv X age scale grams xau uzs bank c1 c2 c3 w u k g s"
  shows "\<exists>s'. seed_main lv mulDiv walletOf X env s = (Inr 0, s') \<and> seeded X xau uzs bank c1 c2 c3 u k g (sw_mk s')"
proof -
  have "wp (seed_run lv mulDiv X 200 bank [c1, c2, c3]) (\<lambda>r s'. r = 0 \<and> seeded X xau uzs bank c1 c2 c3 u k g (sw_mk s')) (\<lambda>_. False) s"
    by (rule wp_seed_run [OF start]) simp
  then show ?thesis by (auto simp: seed_main_run [OF keys] dest: wp_exists)
qed

text \<open>
  The bank's remainder after a complete run is between nothing and the price of the purchases: a
  further run finds UZD, skips the mint, and cannot pay the main purchase.
\<close>

lemma seed_after_completion_stops:
  assumes keys: "seed_keys walletOf env bank c1 c2 c3" and "mulDiv_spec mulDiv" and "bank \<noteq> ex_address X"
    and "market_ok (sw_mk s)" and "tk_balances (mk_uzd (sw_mk s)) bank = 99000000 * E18"
  shows "\<exists>e s'. seed_main lv mulDiv walletOf X env s = (Inl e, s')"
proof -
  have "wp (seed_run lv mulDiv X 200 bank [c1, c2, c3]) (\<lambda>_ _. False) (\<lambda>_. True) s"
    by (rule seed_rerun_fails [OF assms(2,4,3)]) (simp_all add: assms(5) PROBE_UZD_def MAIN_UZD_def E18_def)
  then show ?thesis by (auto simp: seed_main_run [OF keys] wp_def split: prod.splits sum.splits)
qed

text \<open>A market as the deployment leaves it, at 4000 dollars an ounce and 12500 som a dollar.\<close>

definition seed_exchange :: exchange where
  "seed_exchange = \<lparr>ex_address = ''exchange'', ex_maxAgeXau = 3600, ex_maxAgeUzs = 259200\<rparr>"

definition seed_live :: live where
  "seed_live = \<lparr>lv_feeds = (\<lambda>_. (sample_feed\<lparr>att_answer := 5000\<rparr>, sample_feed\<lparr>att_answer := 400000000000\<rparr>, sample_feed\<lparr>att_answer := 8000\<rparr>)), lv_clock = (\<lambda>_. 200)\<rparr>"

definition seed_start :: seed_world where
  "seed_start = \<lparr>sw_net = 76,
     sw_mk = \<lparr>mk_oltin = sample_oltin, mk_uzd = \<lparr>tk_balances = (\<lambda>_. 0), tk_allowances = (\<lambda>_ _. 0), tk_totalSupply = 0, tk_paused = False,
         tk_roles = [(MINTER_ROLE, ''bank'')]\<rparr>,
       mk_reserve = sample_feed\<lparr>att_answer := 5000\<rparr>, mk_xau = sample_feed\<lparr>att_answer := 400000000000\<rparr>, mk_uzs = sample_feed\<lparr>att_answer := 8000\<rparr>\<rparr>,
     sw_eth = (\<lambda>_. 0)(''bank'' := 3 * CLIENT_GAS)\<rparr>"

definition seed_env :: env where
  "seed_env = map_of [(''PRIVATE_KEY'', ''k0''), (''DEMO_KEY_1'', ''k1''), (''DEMO_KEY_2'', ''k2''), (''DEMO_KEY_3'', ''k3''),
     (''UZD_ADDRESS'', ''uzd''), (''EXCHANGE_ADDRESS'', ''exchange'')]"

definition seed_wallets :: "string \<Rightarrow> address option" where
  "seed_wallets = map_of [(''k0'', ''bank''), (''k1'', ''anna''), (''k2'', ''bobur''), (''k3'', ''dina'')]"

lemma seed_start_ready:
  "seedable seed_live sample_mulDiv seed_exchange 3600 (10 ^ 18) 5000 400000000000 8000 ''bank'' ''anna'' ''bobur'' ''dina''
     0 (\<lambda>_. 0) 0 (\<lambda>_. 0) seed_start"
proof -
  have nz: "''exchange'' \<noteq> address0" "''bank'' \<noteq> address0" "''anna'' \<noteq> address0" "''bobur'' \<noteq> address0" "''dina'' \<noteq> address0"
    by (rule not_address0, simp)+
  have r: "ready seed_live sample_mulDiv seed_exchange 3600 (10 ^ 18) 5000 400000000000 8000"
    by (simp add: ready_def sample_mulDiv_spec nz steady_def seed_live_def seed_exchange_def fresh_def sample_feed_def latestRoundData_def
        GRAMS_PER_OZ_1E8_def UINT256_def)
  have st: "staged seed_exchange ''bank'' 3600 (10 ^ 18) 0 (\<lambda>_. 0) 0 (\<lambda>_. 0) (sw_mk seed_start)"
    using sample_oltin_ok by (simp add: staged_def market_ok_def seed_start_def seed_exchange_def sample_oltin_def hasRole_def token_ok_def holders_def)
  show ?thesis
    unfolding seedable_def
    apply (intro conjI r st)
    apply (simp_all add: seed_exchange_def nz [symmetric] seed_start_def seed_amounts_def CLIENT_UZD_def PROBE_UZD_def MAIN_UZD_def SELL_GRAMS_def E18_def
        BANK_UZD_def seed_funds_def oltin_out_def uzd_out_def GRAMS_PER_OZ_1E8_def)
    apply (simp add: UINT256_def)
    done
qed

text \<open>The same market after a run that died once the UZD was minted.\<close>

definition minted_funds :: "address \<Rightarrow> nat" where
  "minted_funds = (\<lambda>_. 0)(''bank'' := BANK_UZD, ''anna'' := 50000000 * E18, ''bobur'' := 20000000 * E18, ''dina'' := 10000000 * E18)"

definition resumed_uzd :: token where
  "resumed_uzd = \<lparr>tk_balances = minted_funds, tk_allowances = (\<lambda>_ _. 0), tk_totalSupply = 4080000000 * E18, tk_paused = False,
     tk_roles = [(MINTER_ROLE, ''bank'')]\<rparr>"

definition resumed_start :: seed_world where
  "resumed_start = seed_start\<lparr>sw_mk := (sw_mk seed_start)\<lparr>mk_uzd := resumed_uzd\<rparr>\<rparr>"

lemma resumed_uzd_ok: "token_ok resumed_uzd"
proof (rule token_okI [of "{''bank'', ''anna'', ''bobur'', ''dina''}"])
qed (auto simp: resumed_uzd_def minted_funds_def holders_def BANK_UZD_def E18_def UINT256_def)

lemma resumed_start_ready:
  "seedable seed_live sample_mulDiv seed_exchange 3600 (10 ^ 18) 5000 400000000000 8000 ''bank'' ''anna'' ''bobur'' ''dina''
     (4080000000 * E18) minted_funds 0 (\<lambda>_. 0) resumed_start"
proof -
  note F = seed_start_ready [unfolded seedable_def]
  have r: "ready seed_live sample_mulDiv seed_exchange 3600 (10 ^ 18) 5000 400000000000 8000" using F by blast
  have st0: "staged seed_exchange ''bank'' 3600 (10 ^ 18) 0 (\<lambda>_. 0) 0 (\<lambda>_. 0) (sw_mk seed_start)" using F by blast
  have st: "staged seed_exchange ''bank'' 3600 (10 ^ 18) (4080000000 * E18) minted_funds 0 (\<lambda>_. 0) (sw_mk resumed_start)"
    using st0 resumed_uzd_ok by (simp add: staged_def market_ok_def resumed_start_def resumed_uzd_def hasRole_def)
  have w: "sw_eth resumed_start = sw_eth seed_start" "sw_net resumed_start = sw_net seed_start" by (simp_all add: resumed_start_def)
  have "minted_funds ''bank'' \<noteq> 0" by (simp add: minted_funds_def BANK_UZD_def E18_def)
  then have f: "seed_funds ''bank'' ''anna'' ''bobur'' ''dina'' minted_funds = minted_funds" by (simp add: seed_funds_def)
  have enough: "PROBE_UZD + MAIN_UZD \<le> minted_funds ''bank''" "CLIENT_UZD ! 0 \<le> minted_funds ''anna''"
    "CLIENT_UZD ! 1 \<le> minted_funds ''bobur''" "CLIENT_UZD ! 2 \<le> minted_funds ''dina''"
    by (simp_all add: minted_funds_def BANK_UZD_def PROBE_UZD_def MAIN_UZD_def CLIENT_UZD_def E18_def)
  show ?thesis
    unfolding seedable_def w f using F r st enough \<open>minted_funds ''bank'' \<noteq> 0\<close> by (elim conjE) (intro conjI; (assumption | blast))
qed

text \<open>Both cases on concrete markets: the first run, and the one that resumes.\<close>

theorem seed_completes_witness:
  "(\<exists>s'. seed_main seed_live sample_mulDiv seed_wallets seed_exchange seed_env seed_start = (Inr 0, s')
       \<and> tk_balances (mk_uzd (sw_mk s')) ''bank'' + PROBE_UZD + MAIN_UZD = BANK_UZD)
   \<and> (\<exists>s'. seed_main seed_live sample_mulDiv seed_wallets seed_exchange seed_env resumed_start = (Inr 0, s')
       \<and> tk_balances (mk_uzd (sw_mk s')) ''bank'' + PROBE_UZD + MAIN_UZD = BANK_UZD)"
proof -
  have k: "seed_keys seed_wallets seed_env ''bank'' ''anna'' ''bobur'' ''dina''"
    by (simp add: seed_keys_def seed_env_def seed_wallets_def)
  have "minted_funds ''bank'' = BANK_UZD" by (simp add: minted_funds_def)
  with seed_completes [OF k seed_start_ready] seed_completes [OF k resumed_start_ready]
  show ?thesis by (auto simp: seeded_def seed_funds_def)
qed

end
