(* ===== verification/AppChain.thy ===== *)
theory AppChain
  imports Pages ExchangeContract StakingContract
begin

text \<open>
  The meeting of the web app and the contracts: the addresses and interfaces of \<^verbatim>\<open>lib/contracts.ts\<close>,
  the reads of \<^verbatim>\<open>lib/chain.ts\<close>, and what a signed write of the app does when the network executes it
  on the modelled contracts.  The client library encodes a call against the declared interface or
  refuses it; how it reads an address text is an argument.  Others act between the app's writes.
\<close>

section \<open>\<^verbatim>\<open>lib/contracts.ts\<close>\<close>

definition ZKSYNC_SEPOLIA_CHAIN_ID :: nat where "ZKSYNC_SEPOLIA_CHAIN_ID = 300"

definition CONTRACTS :: "contract_id \<Rightarrow> string" where
  "CONTRACTS c = (case c of
     ContractOLTIN \<Rightarrow> ''0x906bcf6c92ed1b30aA453c69eB40aeDbb3d5B3A5''
   | ContractUZD \<Rightarrow> ''0x51232fd0065bD2ca50551761Acef476E3CDf02aA''
   | ContractEXCHANGE \<Rightarrow> ''0x99D733E64eb60c3B3D5f3DeDe4CC4adC92BCd1c9''
   | ContractSTAKING \<Rightarrow> ''0xD3b6ffd1dE409e1C37BA5B867d6eC3897A721fAa'')"

datatype mutability = View | Nonpayable

datatype abi_entry =
    AbiFunction (abi_name: string) (abi_mutability: mutability) (abi_inputs: "(string \<times> string) list") (abi_outputs: "string list")
  | AbiEvent (abi_name: string) (abi_fields: "(string \<times> string \<times> bool) list")

definition ERC20_ABI :: "abi_entry list" where
  "ERC20_ABI =
     [AbiFunction ''balanceOf'' View [(''account'', ''address'')] [''uint256''],
      AbiFunction ''decimals'' View [] [''uint8''],
      AbiFunction ''symbol'' View [] [''string''],
      AbiFunction ''transfer'' Nonpayable [(''to'', ''address''), (''value'', ''uint256'')] [''bool''],
      AbiFunction ''approve'' Nonpayable [(''spender'', ''address''), (''value'', ''uint256'')] [''bool''],
      AbiEvent ''Transfer'' [(''from'', ''address'', True), (''to'', ''address'', True), (''value'', ''uint256'', False)]]"

definition STAKING_ABI :: "abi_entry list" where
  "STAKING_ABI =
     [AbiFunction ''stake'' Nonpayable [(''amount'', ''uint256'')] [],
      AbiFunction ''unstake'' Nonpayable [(''amount'', ''uint256'')] [],
      AbiFunction ''claim'' Nonpayable [] [''uint256''],
      AbiFunction ''compound'' Nonpayable [] [''uint256''],
      AbiFunction ''pendingReward'' View [(''user'', ''address'')] [''uint256''],
      AbiFunction ''getStakeInfo'' View [(''user'', ''address'')] [''uint256'', ''uint256'', ''uint256'', ''uint256'', ''uint256''],
      AbiFunction ''unlockedPrincipal'' View [(''user'', ''address'')] [''uint256'']]"

definition EXCHANGE_ABI :: "abi_entry list" where
  "EXCHANGE_ABI =
     [AbiFunction ''buy'' Nonpayable [(''uzdInWei'', ''uint256''), (''minOltinOut'', ''uint256'')] [''uint256''],
      AbiFunction ''sell'' Nonpayable [(''oltinInWei'', ''uint256''), (''minUzdOut'', ''uint256'')] [''uint256''],
      AbiFunction ''treasuryBalance'' View [] [''uint256'']]"

definition abi_of :: "contract_id \<Rightarrow> abi_entry list" where
  "abi_of c = (case c of ContractOLTIN \<Rightarrow> ERC20_ABI | ContractUZD \<Rightarrow> ERC20_ABI | ContractSTAKING \<Rightarrow> STAKING_ABI | ContractEXCHANGE \<Rightarrow> EXCHANGE_ABI)"

section \<open>The chain the app talks to\<close>

record app_chain =
  ac_exchange :: exchange
  ac_market :: market
  ac_staking :: staking

datatype abi_value = VAddress address | VUint nat

datatype call_error = NotEncodable | NoSuchFunction | CallReverted revert

text \<open>Encoding a call against the interface: the function by its name, each argument at its type.\<close>

definition encode_arg :: "(string \<Rightarrow> address option) \<Rightarrow> string \<Rightarrow> arg \<Rightarrow> abi_value option" where
  "encode_arg addressOf ty a = (case a of
     AddressArg s \<Rightarrow> if ty = ''address'' then map_option VAddress (addressOf s) else None
   | ContractArg c \<Rightarrow> if ty = ''address'' then map_option VAddress (addressOf (CONTRACTS c)) else None
   | AmountArg n \<Rightarrow> if ty = ''uint256'' \<and> 0 \<le> n \<and> n < int UINT256 then Some (VUint (nat n)) else None)"

fun encode_args :: "(string \<Rightarrow> address option) \<Rightarrow> (string \<times> string) list \<Rightarrow> arg list \<Rightarrow> abi_value list option" where
  "encode_args addressOf [] [] = Some []"
| "encode_args addressOf ((_, ty) # tys) (a # as) =
     (case encode_arg addressOf ty a of None \<Rightarrow> None | Some v \<Rightarrow> map_option (\<lambda>vs. v # vs) (encode_args addressOf tys as))"
| "encode_args addressOf _ _ = None"

definition encode_call :: "(string \<Rightarrow> address option) \<Rightarrow> chain_write \<Rightarrow> abi_value list option" where
  "encode_call addressOf w =
     (case find (\<lambda>e. is_AbiFunction e \<and> abi_name e = wr_function w) (abi_of (wr_to w)) of
        None \<Rightarrow> None | Some e \<Rightarrow> encode_args addressOf (abi_inputs e) (wr_args w))"

text \<open>What the contracts do with a call: the selector and the arguments choose the function.\<close>

definition on_erc20 :: "address \<Rightarrow> string \<Rightarrow> abi_value list \<Rightarrow> 'a token_scheme \<Rightarrow> (call_error, 'a token_scheme) result" where
  "on_erc20 from name vs t =
     (case vs of
        [VAddress a, VUint v] \<Rightarrow>
          if name = ''transfer'' then map_sum CallReverted (\<lambda>t. t) (token_transfer from a v t)
          else if name = ''approve'' then map_sum CallReverted (\<lambda>t. t) (token_approve from a v t)
          else Inl NoSuchFunction
      | _ \<Rightarrow> Inl NoSuchFunction)"

definition on_staking :: "nat \<Rightarrow> address \<Rightarrow> string \<Rightarrow> abi_value list \<Rightarrow> staking \<Rightarrow> oltin_token \<Rightarrow> (call_error, staking \<times> oltin_token) result" where
  "on_staking ts from name vs S t =
     (case vs of
        [VUint v] \<Rightarrow>
          if name = ''stake'' then map_sum CallReverted (\<lambda>x. x) (StakingContract.stake ts from v S t)
          else if name = ''unstake'' then map_sum CallReverted (\<lambda>x. x) (StakingContract.unstake ts from v S t)
          else Inl NoSuchFunction
      | [] \<Rightarrow>
          if name = ''claim'' then map_sum CallReverted snd (StakingContract.claim ts from S t)
          else if name = ''compound'' then map_sum CallReverted (\<lambda>x. (snd x, t)) (compound ts from S)
          else Inl NoSuchFunction
      | _ \<Rightarrow> Inl NoSuchFunction)"

definition on_exchange ::
    "(nat \<Rightarrow> nat \<Rightarrow> nat \<Rightarrow> nat option) \<Rightarrow> nat \<Rightarrow> address \<Rightarrow> string \<Rightarrow> abi_value list \<Rightarrow> exchange \<Rightarrow> market \<Rightarrow> (call_error, market) result" where
  "on_exchange mulDiv ts from name vs X mk =
     (case vs of
        [VUint v, VUint m] \<Rightarrow>
          if name = ''buy'' then map_sum CallReverted snd (buy mulDiv X (int ts) from v m mk)
          else if name = ''sell'' then map_sum CallReverted snd (sell mulDiv X (int ts) from v m mk)
          else Inl NoSuchFunction
      | _ \<Rightarrow> Inl NoSuchFunction)"

definition execute_write ::
    "(nat \<Rightarrow> nat \<Rightarrow> nat \<Rightarrow> nat option) \<Rightarrow> (string \<Rightarrow> address option) \<Rightarrow> nat \<Rightarrow> chain_write \<Rightarrow> app_chain \<Rightarrow> (call_error, app_chain) result" where
  "execute_write mulDiv addressOf ts w C =
     (case (addressOf (wr_from w), encode_call addressOf w) of
        (Some from, Some vs) \<Rightarrow>
          (case wr_to w of
             ContractOLTIN \<Rightarrow> rbind (on_erc20 from (wr_function w) vs (mk_oltin (ac_market C)))
               (\<lambda>t. Inr (C\<lparr>ac_market := (ac_market C)\<lparr>mk_oltin := t\<rparr>\<rparr>))
           | ContractUZD \<Rightarrow> rbind (on_erc20 from (wr_function w) vs (mk_uzd (ac_market C)))
               (\<lambda>t. Inr (C\<lparr>ac_market := (ac_market C)\<lparr>mk_uzd := t\<rparr>\<rparr>))
           | ContractSTAKING \<Rightarrow> rbind (on_staking ts from (wr_function w) vs (ac_staking C) (mk_oltin (ac_market C)))
               (\<lambda>(S, t). Inr (C\<lparr>ac_staking := S, ac_market := (ac_market C)\<lparr>mk_oltin := t\<rparr>\<rparr>))
           | ContractEXCHANGE \<Rightarrow> rbind (on_exchange mulDiv ts from (wr_function w) vs (ac_exchange C) (ac_market C))
               (\<lambda>mk. Inr (C\<lparr>ac_market := mk\<rparr>)))
      | _ \<Rightarrow> Inl NotEncodable)"

section \<open>Reads of \<^verbatim>\<open>lib/chain.ts\<close>\<close>

definition getOltinBalance :: "(string \<Rightarrow> address option) \<Rightarrow> string \<Rightarrow> app_chain \<Rightarrow> (call_error, nat) result" where
  "getOltinBalance addressOf a C = (case addressOf a of None \<Rightarrow> Inl NotEncodable | Some x \<Rightarrow> Inr (tk_balances (mk_oltin (ac_market C)) x))"

definition getUzdBalance :: "(string \<Rightarrow> address option) \<Rightarrow> string \<Rightarrow> app_chain \<Rightarrow> (call_error, nat) result" where
  "getUzdBalance addressOf a C = (case addressOf a of None \<Rightarrow> Inl NotEncodable | Some x \<Rightarrow> Inr (tk_balances (mk_uzd (ac_market C)) x))"

definition getStakeInfo :: "(string \<Rightarrow> address option) \<Rightarrow> nat \<Rightarrow> string \<Rightarrow> app_chain \<Rightarrow> (call_error, stakeView) result" where
  "getStakeInfo addressOf ts a C = (case addressOf a of None \<Rightarrow> Inl NotEncodable
     | Some x \<Rightarrow> map_sum CallReverted (\<lambda>v. v) (StakingContract.getStakeInfo ts x (ac_staking C)))"

section \<open>What the writes do\<close>

text \<open>The app's addresses are those of the modelled contracts, and the tokens' books are in order.\<close>

definition app_wired :: "(string \<Rightarrow> address option) \<Rightarrow> app_chain \<Rightarrow> bool" where
  "app_wired addressOf C \<longleftrightarrow>
     addressOf (CONTRACTS ContractEXCHANGE) = Some (ex_address (ac_exchange C))
   \<and> addressOf (CONTRACTS ContractSTAKING) = Some (sk_address (ac_staking C))
   \<and> market_ok (ac_market C) \<and> vault_ok (ac_staking C) (mk_oltin (ac_market C))"

text \<open>
  A truthful node: a write with a good receipt was executed, in some block, on the state
  \<open>before\<close> it, with the state \<open>after\<close> it as its result.  Nothing relates the two states of
  different writes: others act in between.
\<close>

definition truthful ::
    "(nat \<Rightarrow> nat \<Rightarrow> nat \<Rightarrow> nat option) \<Rightarrow> (string \<Rightarrow> address option) \<Rightarrow> node \<Rightarrow> (chain_write \<Rightarrow> app_chain) \<Rightarrow> (chain_write \<Rightarrow> app_chain) \<Rightarrow> bool" where
  "truthful mulDiv addressOf node before after \<longleftrightarrow>
     (\<forall>w. node w = Receipt True \<longrightarrow>
        app_wired addressOf (before w) \<and> (\<exists>ts. execute_write mulDiv addressOf ts w (before w) = Inr (after w)))"

lemma map_sum_Inr_iff [simp]: "map_sum f g r = Inr y \<longleftrightarrow> (\<exists>x. r = Inr x \<and> y = g x)"
  by (cases r) auto

lemmas abi_defs = encode_call_def abi_of_def ERC20_ABI_def STAKING_ABI_def EXCHANGE_ABI_def encode_arg_def

text \<open>Each write of \<^verbatim>\<open>lib/chain.ts\<close> names a function of the interface it is encoded with.\<close>

lemma encode_writes:
  "encode_call ao (transferOltin acc to amt) = encode_args ao [(''to'', ''address''), (''value'', ''uint256'')] [AddressArg to, AmountArg amt]"
  "c \<in> {ContractOLTIN, ContractUZD} \<Longrightarrow>
   encode_call ao (approveForExchange acc c amt) = encode_args ao [(''spender'', ''address''), (''value'', ''uint256'')] [ContractArg ContractEXCHANGE, AmountArg amt]"
  "encode_call ao (approveStakingForOltin acc amt) = encode_args ao [(''spender'', ''address''), (''value'', ''uint256'')] [ContractArg ContractSTAKING, AmountArg amt]"
  "encode_call ao (ChainClient.stake acc amt) = encode_args ao [(''amount'', ''uint256'')] [AmountArg amt]"
  "encode_call ao (ChainClient.unstake acc amt) = encode_args ao [(''amount'', ''uint256'')] [AmountArg amt]"
  "encode_call ao (claimStakingReward acc) = encode_args ao [] []"
  "encode_call ao (exchangeBuy acc amt m) = encode_args ao [(''uzdInWei'', ''uint256''), (''minOltinOut'', ''uint256'')] [AmountArg amt, AmountArg m]"
  "encode_call ao (exchangeSell acc amt m) = encode_args ao [(''oltinInWei'', ''uint256''), (''minUzdOut'', ''uint256'')] [AmountArg amt, AmountArg m]"
  by (auto simp: abi_defs transferOltin_def approveForExchange_def approveStakingForOltin_def ChainClient.stake_def
      ChainClient.unstake_def claimStakingReward_def exchangeBuy_def exchangeSell_def)

lemma encode_arg_Some:
  "encode_arg ao ty (AmountArg n) = Some v \<longleftrightarrow> ty = ''uint256'' \<and> 0 \<le> n \<and> n < int UINT256 \<and> v = VUint (nat n)"
  "encode_arg ao ty (AddressArg s) = Some v \<longleftrightarrow> ty = ''address'' \<and> (\<exists>x. ao s = Some x \<and> v = VAddress x)"
  "encode_arg ao ty (ContractArg c) = Some v \<longleftrightarrow> ty = ''address'' \<and> (\<exists>x. ao (CONTRACTS c) = Some x \<and> v = VAddress x)"
  by (auto simp: encode_arg_def)

lemma encode_args_Cons:
  "encode_args ao ((n, ty) # tys) (a # as) = Some vs \<longleftrightarrow>
     (\<exists>v rest. encode_arg ao ty a = Some v \<and> encode_args ao tys as = Some rest \<and> vs = v # rest)"
  by (auto split: option.splits)

text \<open>The selector and target of each write.\<close>

lemma write_parts:
  "wr_from (transferOltin acc to amt) = acc" "wr_to (transferOltin acc to amt) = ContractOLTIN" "wr_function (transferOltin acc to amt) = ''transfer''"
  "wr_from (approveForExchange acc c amt) = acc" "wr_to (approveForExchange acc c amt) = c" "wr_function (approveForExchange acc c amt) = ''approve''"
  "wr_from (approveStakingForOltin acc amt) = acc" "wr_to (approveStakingForOltin acc amt) = ContractOLTIN"
  "wr_function (approveStakingForOltin acc amt) = ''approve''"
  "wr_from (ChainClient.stake acc amt) = acc" "wr_to (ChainClient.stake acc amt) = ContractSTAKING" "wr_function (ChainClient.stake acc amt) = ''stake''"
  "wr_from (ChainClient.unstake acc amt) = acc" "wr_to (ChainClient.unstake acc amt) = ContractSTAKING" "wr_function (ChainClient.unstake acc amt) = ''unstake''"
  "wr_from (claimStakingReward acc) = acc" "wr_to (claimStakingReward acc) = ContractSTAKING" "wr_function (claimStakingReward acc) = ''claim''"
  "wr_from (exchangeBuy acc amt m) = acc" "wr_to (exchangeBuy acc amt m) = ContractEXCHANGE" "wr_function (exchangeBuy acc amt m) = ''buy''"
  "wr_from (exchangeSell acc amt m) = acc" "wr_to (exchangeSell acc amt m) = ContractEXCHANGE" "wr_function (exchangeSell acc amt m) = ''sell''"
  by (simp_all add: transferOltin_def approveForExchange_def approveStakingForOltin_def ChainClient.stake_def
      ChainClient.unstake_def claimStakingReward_def exchangeBuy_def exchangeSell_def)

lemmas executed = execute_write_def encode_writes write_parts encode_args_Cons encode_arg_Some rbind_Inr_iff on_erc20_def on_staking_def on_exchange_def

text \<open>An executed write was the contract's own call, made by the account's address with the typed amounts.\<close>

lemma executed_transfer:
  assumes "execute_write mulDiv ao ts (transferOltin acc to amt) C = Inr C'"
  shows "\<exists>user x t. ao acc = Some user \<and> ao to = Some x \<and> 0 \<le> amt
           \<and> token_transfer user x (nat amt) (mk_oltin (ac_market C)) = Inr t
           \<and> C' = C\<lparr>ac_market := (ac_market C)\<lparr>mk_oltin := t\<rparr>\<rparr>"
  using assms by (auto simp: executed simp del: encode_args.simps(2) split: option.splits)

lemma executed_approval:
  assumes "execute_write mulDiv ao ts (approveForExchange acc c amt) C = Inr C'" and "c = ContractOLTIN \<or> c = ContractUZD"
    and "ao (CONTRACTS ContractEXCHANGE) = Some X"
  shows "\<exists>user. ao acc = Some user \<and> 0 \<le> amt
           \<and> (c = ContractOLTIN \<longrightarrow> (\<exists>t. token_approve user X (nat amt) (mk_oltin (ac_market C)) = Inr t
                \<and> C' = C\<lparr>ac_market := (ac_market C)\<lparr>mk_oltin := t\<rparr>\<rparr>))
           \<and> (c = ContractUZD \<longrightarrow> (\<exists>t. token_approve user X (nat amt) (mk_uzd (ac_market C)) = Inr t
                \<and> C' = C\<lparr>ac_market := (ac_market C)\<lparr>mk_uzd := t\<rparr>\<rparr>))"
  using assms by (auto simp: executed simp del: encode_args.simps(2) split: option.splits)

lemma executed_buy:
  assumes "execute_write mulDiv ao ts (exchangeBuy acc amt m) C = Inr C'"
  shows "\<exists>user out mk. ao acc = Some user \<and> 0 \<le> amt \<and> 0 \<le> m
           \<and> buy mulDiv (ac_exchange C) (int ts) user (nat amt) (nat m) (ac_market C) = Inr (out, mk)
           \<and> C' = C\<lparr>ac_market := mk\<rparr>"
  using assms by (auto simp: executed simp del: encode_args.simps(2) split: option.splits)

lemma executed_sell:
  assumes "execute_write mulDiv ao ts (exchangeSell acc amt m) C = Inr C'"
  shows "\<exists>user out mk. ao acc = Some user \<and> 0 \<le> amt \<and> 0 \<le> m
           \<and> sell mulDiv (ac_exchange C) (int ts) user (nat amt) (nat m) (ac_market C) = Inr (out, mk)
           \<and> C' = C\<lparr>ac_market := mk\<rparr>"
  using assms by (auto simp: executed simp del: encode_args.simps(2) split: option.splits)

lemma executed_stake:
  assumes "execute_write mulDiv ao ts (ChainClient.stake acc amt) C = Inr C'"
  shows "\<exists>user S t. ao acc = Some user \<and> 0 \<le> amt
           \<and> StakingContract.stake ts user (nat amt) (ac_staking C) (mk_oltin (ac_market C)) = Inr (S, t)
           \<and> C' = C\<lparr>ac_staking := S, ac_market := (ac_market C)\<lparr>mk_oltin := t\<rparr>\<rparr>"
  using assms by (auto simp: executed simp del: encode_args.simps(2) split: option.splits)

lemma executed_unstake:
  assumes "execute_write mulDiv ao ts (ChainClient.unstake acc amt) C = Inr C'"
  shows "\<exists>user S t. ao acc = Some user \<and> 0 \<le> amt
           \<and> StakingContract.unstake ts user (nat amt) (ac_staking C) (mk_oltin (ac_market C)) = Inr (S, t)
           \<and> C' = C\<lparr>ac_staking := S, ac_market := (ac_market C)\<lparr>mk_oltin := t\<rparr>\<rparr>"
  using assms by (auto simp: executed simp del: encode_args.simps(2) split: option.splits)

lemma executed_claim:
  assumes "execute_write mulDiv ao ts (claimStakingReward acc) C = Inr C'"
  shows "\<exists>user paid S t. ao acc = Some user
           \<and> StakingContract.claim ts user (ac_staking C) (mk_oltin (ac_market C)) = Inr (paid, S, t)
           \<and> C' = C\<lparr>ac_staking := S, ac_market := (ac_market C)\<lparr>mk_oltin := t\<rparr>\<rparr>"
  using assms by (auto simp: executed split: option.splits)

section \<open>Every call keeps the books\<close>

lemma on_erc20_exec:
  assumes "on_erc20 from name vs t = Inr t'"
  shows "\<exists>c. token_exec c from t = Inr t'"
proof -
  from assms obtain a v where "token_transfer from a v t = Inr t' \<or> token_approve from a v t = Inr t'"
    by (auto simp: on_erc20_def split: list.splits abi_value.splits if_splits)
  then have "token_exec (Transfer a v) from t = Inr t' \<or> token_exec (Approve a v) from t = Inr t'" by simp
  then show ?thesis by blast
qed

lemma on_staking_cases:
  assumes "on_staking ts from name vs S t = Inr (S', t')"
  obtains (stake) v where "StakingContract.stake ts from v S t = Inr (S', t')"
    | (unstake) v where "StakingContract.unstake ts from v S t = Inr (S', t')"
    | (claim) paid where "StakingContract.claim ts from S t = Inr (paid, S', t')"
    | (compound) added where "compound ts from S = Inr (added, S')" and "t' = t"
  using assms by (auto simp: on_staking_def split: list.splits abi_value.splits if_splits)

lemma on_staking_exec:
  assumes "on_staking ts from name vs S t = Inr (S', t')"
  shows "\<exists>c. staking_exec ts c from S t = Inr (S', t')"
  using assms
proof (cases rule: on_staking_cases)
  case (stake v)
  then have "staking_exec ts (Stake v) from S t = Inr (S', t')" by simp
  then show ?thesis by blast
next
  case (unstake v)
  then have "staking_exec ts (Unstake v) from S t = Inr (S', t')" by simp
  then show ?thesis by blast
next
  case claim
  then have "staking_exec ts Claim from S t = Inr (S', t')" by simp
  then show ?thesis by blast
next
  case compound
  then have "staking_exec ts Compound from S t = Inr (S', t')" by simp
  then show ?thesis by blast
qed

lemma on_exchange_cases:
  assumes "on_exchange mulDiv ts from name vs X mk = Inr mk'"
  obtains v m out where "buy mulDiv X (int ts) from v m mk = Inr (out, mk')"
  | v m out where "sell mulDiv X (int ts) from v m mk = Inr (out, mk')"
  using assms by (auto simp: on_exchange_def split: list.splits abi_value.splits if_splits)

text \<open>On the OLTIN ledger a purchase is a mint and a sale is a burn by the exchange.\<close>

lemma trade_on_oltin:
  assumes "buy mulDiv X now_ts from v m mk = Inr (out, mk') \<or> sell mulDiv X now_ts from v m mk = Inr (out, mk')"
  shows "\<exists>c. oltin_exec now_ts (mk_reserve mk) c (ex_address X) (mk_oltin mk) = Inr (mk_oltin mk')"
  using assms
proof
  assume "buy mulDiv X now_ts from v m mk = Inr (out, mk')"
  then have "oltin_exec now_ts (mk_reserve mk) (Mint from out) (ex_address X) (mk_oltin mk) = Inr (mk_oltin mk')"
    unfolding buy_def guard_binds rbind_Inr_iff by auto
  then show ?thesis by blast
next
  assume "sell mulDiv X now_ts from v m mk = Inr (out, mk')"
  then have "oltin_exec now_ts (mk_reserve mk) (Inherited (BurnFrom from v)) (ex_address X) (mk_oltin mk) = Inr (mk_oltin mk')"
    unfolding sell_def guard_binds rbind_Inr_iff by auto
  then show ?thesis by blast
qed

lemma more_scale: "token.more t' = token.more t \<Longrightarrow> ot_reserveScale t' = ot_reserveScale t"
  by (cases t, cases t') simp

lemma moved_keeps:
  assumes "token_ok t" and "token_transfer s to v t = Inr t'"
  shows "token_ok t' \<and> tk_totalSupply t' = tk_totalSupply t \<and> token.more t' = token.more t"
  using transfer_internal_move [OF assms(1), of s to v t'] assms(2) by (auto simp: token_transfer_def)

lemma on_erc20_keeps:
  assumes "token_ok t" and "on_erc20 from name vs t = Inr t'"
  shows "token_ok t' \<and> tk_totalSupply t' = tk_totalSupply t \<and> token.more t' = token.more t"
proof -
  from assms(2) obtain a v where "token_transfer from a v t = Inr t' \<or> token_approve from a v t = Inr t'"
    by (auto simp: on_erc20_def split: list.splits abi_value.splits if_splits)
  then show ?thesis
  proof
    assume "token_approve from a v t = Inr t'"
    then have r: "approve_internal from a v t = Inr t'" by (simp add: token_approve_def)
    show ?thesis
      using token_ok_cong [OF approve_keeps(1) [OF r] approve_keeps(2) [OF r]] approve_keeps(2,5) [OF r] assms(1) by simp
  qed (rule moved_keeps [OF assms(1)])
qed

lemma on_staking_keeps:
  assumes ok: "vault_ok S t" and ne: "from \<noteq> sk_address S" and run: "on_staking ts from name vs S t = Inr (S', t')"
  shows "vault_ok S' t' \<and> sk_address S' = sk_address S \<and> tk_totalSupply t' = tk_totalSupply t \<and> token.more t' = token.more t"
proof -
  obtain c where c: "staking_exec ts c from S t = Inr (S', t')" using on_staking_exec [OF run] by blast
  have tok: "token_ok t" using ok by (simp add: vault_ok_def)
  have "tk_totalSupply t' = tk_totalSupply t \<and> token.more t' = token.more t"
  proof -
    from run have "(\<exists>v. token_transferFrom (sk_address S) from (sk_address S) v t = Inr t')
        \<or> (\<exists>v. token_transfer (sk_address S) from v t = Inr t') \<or> t' = t"
    proof (cases rule: on_staking_cases)
      case (stake v)
      then show ?thesis unfolding StakingContract.stake_def call_binds by auto
    next
      case (unstake v)
      then show ?thesis by (rule unstake_run) blast
    next
      case (claim paid)
      then show ?thesis by (rule claim_run) (auto split: if_splits)
    qed simp
    then show ?thesis using token_transferFrom_move [OF tok] moved_keeps [OF tok] by blast
  qed
  with staking_exec_preserves [OF ok ne c] show ?thesis by blast
qed

lemma on_exchange_keeps:
  assumes md: "mulDiv_spec mulDiv" and ok: "market_ok mk" and ne: "from \<noteq> ex_address X"
    and run: "on_exchange mulDiv ts from name vs X mk = Inr mk'"
  shows "market_ok mk' \<and> mk_reserve mk' = mk_reserve mk \<and> tk_totalSupply (mk_uzd mk') = tk_totalSupply (mk_uzd mk)
       \<and> ot_reserveScale (mk_oltin mk') = ot_reserveScale (mk_oltin mk)
       \<and> (tk_totalSupply (mk_oltin mk') \<le> tk_totalSupply (mk_oltin mk)
          \<or> tk_totalSupply (mk_oltin mk') \<le> price (mk_reserve mk) * ot_reserveScale (mk_oltin mk))"
  using run
proof (rule on_exchange_cases)
  fix v m out
  assume b: "buy mulDiv X (int ts) from v m mk = Inr (out, mk')"
  note e = buy_effect [OF md ok ne b]
  from b obtain uzd' oltin' where
    u: "token_transferFrom (ex_address X) from (ex_address X) v (mk_uzd mk) = Inr uzd'"
    and o': "oltin_mint (int ts) (mk_reserve mk) (ex_address X) from out (mk_oltin mk) = Inr oltin'"
    and mk': "mk' = mk\<lparr>mk_uzd := uzd', mk_oltin := oltin'\<rparr>"
    unfolding buy_def guard_binds rbind_Inr_iff by auto
  have oks: "token_ok (mk_uzd mk)" "token_ok (mk_oltin mk)" using ok by (simp_all add: market_ok_def)
  have "ot_reserveScale oltin' = ot_reserveScale (mk_oltin mk)"
    using mint_internal_effect [OF oks(2)] oltin_mint_guard [OF o'] by fastforce
  with token_transferFrom_move [OF oks(1) u] e(12,13) mk' show ?thesis by simp
next
  fix v m out
  assume b: "sell mulDiv X (int ts) from v m mk = Inr (out, mk')"
  note e = sell_effect [OF md ok ne b]
  from b obtain uzd' oltin' where
    u: "token_transfer (ex_address X) from out (mk_uzd mk) = Inr uzd'"
    and o': "token_burnFrom (ex_address X) from v (mk_oltin mk) = Inr oltin'"
    and mk': "mk' = mk\<lparr>mk_uzd := uzd', mk_oltin := oltin'\<rparr>"
    unfolding sell_def guard_binds rbind_Inr_iff by auto
  have oks: "token_ok (mk_uzd mk)" "token_ok (mk_oltin mk)" using ok by (simp_all add: market_ok_def)
  have "ot_reserveScale oltin' = ot_reserveScale (mk_oltin mk)"
    using more_scale token_burnFrom_effect [OF oks(2) o'] by blast
  with moved_keeps [OF oks(1) u] e(12,13) mk' show ?thesis by simp
qed

lemma app_step:
  assumes md: "mulDiv_spec mulDiv" and ok: "app_wired ao C" and apart: "ex_address (ac_exchange C) \<noteq> sk_address (ac_staking C)"
    and user: "ao (wr_from w) \<noteq> ao (CONTRACTS ContractEXCHANGE)" "ao (wr_from w) \<noteq> ao (CONTRACTS ContractSTAKING)"
    and run: "execute_write mulDiv ao ts w C = Inr C'"
  shows "app_wired ao C' \<and> ac_exchange C' = ac_exchange C \<and> sk_address (ac_staking C') = sk_address (ac_staking C)
       \<and> mk_reserve (ac_market C') = mk_reserve (ac_market C)
       \<and> ot_reserveScale (mk_oltin (ac_market C')) = ot_reserveScale (mk_oltin (ac_market C))
       \<and> tk_totalSupply (mk_uzd (ac_market C')) = tk_totalSupply (mk_uzd (ac_market C))
       \<and> (tk_totalSupply (mk_oltin (ac_market C')) \<le> tk_totalSupply (mk_oltin (ac_market C))
          \<or> tk_totalSupply (mk_oltin (ac_market C'))
              \<le> price (mk_reserve (ac_market C)) * ot_reserveScale (mk_oltin (ac_market C)))"
proof -
  let ?S = "ac_staking C" and ?mk = "ac_market C"
  from ok have mk: "market_ok ?mk" and v: "vault_ok ?S (mk_oltin ?mk)" by (simp_all add: app_wired_def)
  from run obtain from_ad vs where fr: "ao (wr_from w) = Some from_ad" and enc: "encode_call ao w = Some vs"
    by (auto simp: execute_write_def split: option.splits)
  have ne: "from_ad \<noteq> ex_address (ac_exchange C)" "from_ad \<noteq> sk_address ?S" using user fr ok by (auto simp: app_wired_def)
  show ?thesis
  proof (cases "wr_to w")
    case ContractOLTIN
    with run fr enc obtain t where t: "on_erc20 from_ad (wr_function w) vs (mk_oltin ?mk) = Inr t"
      and C': "C' = C\<lparr>ac_market := ?mk\<lparr>mk_oltin := t\<rparr>\<rparr>" by (auto simp: execute_write_def rbind_Inr_iff)
    obtain c where "token_exec c from_ad (mk_oltin ?mk) = Inr t" using on_erc20_exec [OF t] by blast
    then have "oltin_exec 0 (mk_reserve ?mk) (Inherited c) from_ad (mk_oltin ?mk) = Inr t" by simp
    then have "vault_ok ?S t" by (rule oltin_exec_vault [OF v ne(2)])
    moreover have "token_ok (mk_oltin ?mk)" using mk by (simp add: market_ok_def)
    ultimately show ?thesis
      using on_erc20_keeps [OF _ t] more_scale [of t "mk_oltin ?mk"] ok by (simp add: C' app_wired_def market_ok_def)
  next
    case ContractUZD
    with run fr enc obtain t where t: "on_erc20 from_ad (wr_function w) vs (mk_uzd ?mk) = Inr t"
      and C': "C' = C\<lparr>ac_market := ?mk\<lparr>mk_uzd := t\<rparr>\<rparr>" by (auto simp: execute_write_def rbind_Inr_iff)
    then show ?thesis using on_erc20_keeps [OF _ t] ok by (simp add: app_wired_def market_ok_def)
  next
    case ContractSTAKING
    with run fr enc obtain S t where t: "on_staking ts from_ad (wr_function w) vs ?S (mk_oltin ?mk) = Inr (S, t)"
      and C': "C' = C\<lparr>ac_staking := S, ac_market := ?mk\<lparr>mk_oltin := t\<rparr>\<rparr>" by (auto simp: execute_write_def rbind_Inr_iff)
    have "token_ok t" using on_staking_keeps [OF v ne(2) t] by (simp add: vault_ok_def)
    then show ?thesis
      using on_staking_keeps [OF v ne(2) t] more_scale [of t "mk_oltin ?mk"] ok by (simp add: C' app_wired_def market_ok_def)
  next
    case ContractEXCHANGE
    with run fr enc obtain mk' where t: "on_exchange mulDiv ts from_ad (wr_function w) vs (ac_exchange C) ?mk = Inr mk'"
      and C': "C' = C\<lparr>ac_market := mk'\<rparr>" by (auto simp: execute_write_def rbind_Inr_iff)
    obtain c where "oltin_exec (int ts) (mk_reserve ?mk) c (ex_address (ac_exchange C)) (mk_oltin ?mk) = Inr (mk_oltin mk')"
      using t by (rule on_exchange_cases) (use trade_on_oltin in blast)+
    then have "vault_ok ?S (mk_oltin mk')" by (rule oltin_exec_vault [OF v apart])
    then show ?thesis using on_exchange_keeps [OF md mk ne(1) t] ok by (simp add: C' app_wired_def)
  qed
qed

text \<open>Whatever the users of the app sign, in any order and at any times.\<close>

inductive app_reach ::
    "(nat \<Rightarrow> nat \<Rightarrow> nat \<Rightarrow> nat option) \<Rightarrow> (string \<Rightarrow> address option) \<Rightarrow> app_chain \<Rightarrow> app_chain \<Rightarrow> bool"
  for mulDiv ao C0 where
  start: "app_reach mulDiv ao C0 C0"
| call: "app_reach mulDiv ao C0 C \<Longrightarrow> ao (wr_from w) \<noteq> ao (CONTRACTS ContractEXCHANGE) \<Longrightarrow>
    ao (wr_from w) \<noteq> ao (CONTRACTS ContractSTAKING) \<Longrightarrow> execute_write mulDiv ao ts w C = Inr C' \<Longrightarrow> app_reach mulDiv ao C0 C'"

lemma app_reach_keeps:
  assumes "app_reach mulDiv ao C0 C" and md: "mulDiv_spec mulDiv" and "app_wired ao C0"
    and "ex_address (ac_exchange C0) \<noteq> sk_address (ac_staking C0)"
  shows "app_wired ao C \<and> ac_exchange C = ac_exchange C0 \<and> sk_address (ac_staking C) = sk_address (ac_staking C0)
       \<and> mk_reserve (ac_market C) = mk_reserve (ac_market C0)
       \<and> ot_reserveScale (mk_oltin (ac_market C)) = ot_reserveScale (mk_oltin (ac_market C0))
       \<and> tk_totalSupply (mk_uzd (ac_market C)) = tk_totalSupply (mk_uzd (ac_market C0))
       \<and> tk_totalSupply (mk_oltin (ac_market C)) \<le> max (tk_totalSupply (mk_oltin (ac_market C0)))
              (price (mk_reserve (ac_market C0)) * ot_reserveScale (mk_oltin (ac_market C0)))"
  using assms(1)
proof induction
  case start
  then show ?case using assms(3) by simp
next
  case (call C w ts C')
  have "app_wired ao C" "ex_address (ac_exchange C) \<noteq> sk_address (ac_staking C)" using call.IH assms(4) by simp_all
  from app_step [OF md this call.hyps(2-4)] call.IH show ?case by auto
qed

section \<open>Properties\<close>

text \<open>
  C10.  The contracts' books stay in order whatever the users of the app sign: after any calls, by any accounts
  that are not the contracts themselves, in any order and at any times, both tokens' balances still
  add up to their supplies, the vault still covers all principal and the whole reward pool, no UZD
  was created or destroyed, and the OLTIN supply is at most what it was or what the attested
  reserve covers.
\<close>

theorem app_users_keep_the_books:
  assumes "app_reach mulDiv ao C0 C" and "mulDiv_spec mulDiv" and "app_wired ao C0"
    and "ex_address (ac_exchange C0) \<noteq> sk_address (ac_staking C0)"
  shows "token_ok (mk_oltin (ac_market C)) \<and> token_ok (mk_uzd (ac_market C))
       \<and> sk_totalStaked (ac_staking C) + sk_rewardPool (ac_staking C)
            \<le> tk_balances (mk_oltin (ac_market C)) (sk_address (ac_staking C))
       \<and> tk_totalSupply (mk_uzd (ac_market C)) = tk_totalSupply (mk_uzd (ac_market C0))
       \<and> tk_totalSupply (mk_oltin (ac_market C)) \<le> max (tk_totalSupply (mk_oltin (ac_market C0)))
            (price (mk_reserve (ac_market C0)) * ot_reserveScale (mk_oltin (ac_market C0)))"
  using app_reach_keeps [OF assms] unfolding app_wired_def market_ok_def vault_ok_def by blast

text \<open>What the app's balance reads show for a token.\<close>

definition shown_balance :: "(string \<Rightarrow> address option) \<Rightarrow> contract_id \<Rightarrow> string \<Rightarrow> app_chain \<Rightarrow> (call_error, nat) result" where
  "shown_balance ao c a C = (if c = ContractUZD then getUzdBalance ao a C else getOltinBalance ao a C)"

definition other_side :: "side \<Rightarrow> side" where
  "other_side s = (case s of Buy \<Rightarrow> Sell | Sell \<Rightarrow> Buy)"

lemma trade_shown:
  assumes md: "mulDiv_spec mulDiv" and ok: "app_wired ao C" and user: "ao acc \<noteq> ao (CONTRACTS ContractEXCHANGE)"
    and run: "execute_write mulDiv ao ts (swap_write s acc amt m) C = Inr C'"
  shows "\<exists>p0 p1 g0 g1. shown_balance ao (spend_token s) acc C = Inr p0 \<and> shown_balance ao (spend_token s) acc C' = Inr p1
           \<and> shown_balance ao (spend_token (other_side s)) acc C = Inr g0
           \<and> shown_balance ao (spend_token (other_side s)) acc C' = Inr g1
           \<and> int p0 = int p1 + amt \<and> int g0 + m \<le> int g1"
proof (cases s)
  case Buy
  with run obtain u out mk where u: "ao acc = Some u" "0 \<le> amt" "0 \<le> m" and C': "C' = C\<lparr>ac_market := mk\<rparr>"
    and b: "buy mulDiv (ac_exchange C) (int ts) u (nat amt) (nat m) (ac_market C) = Inr (out, mk)"
    using executed_buy by (fastforce simp: swap_write_def)
  have ne: "u \<noteq> ex_address (ac_exchange C)" and mk: "market_ok (ac_market C)" using user u ok by (auto simp: app_wired_def)
  note e = buy_effect [OF md mk ne b]
  from e(2,8,9,10) ne u show ?thesis
    by (simp add: Buy C' shown_balance_def spend_token_def other_side_def getUzdBalance_def getOltinBalance_def moved_apply)
next
  case Sell
  with run obtain u out mk where u: "ao acc = Some u" "0 \<le> amt" "0 \<le> m" and C': "C' = C\<lparr>ac_market := mk\<rparr>"
    and b: "sell mulDiv (ac_exchange C) (int ts) u (nat amt) (nat m) (ac_market C) = Inr (out, mk)"
    using executed_sell by (fastforce simp: swap_write_def)
  have ne: "u \<noteq> ex_address (ac_exchange C)" and mk: "market_ok (ac_market C)" using user u ok by (auto simp: app_wired_def)
  note e = sell_effect [OF md mk ne b]
  from e(2,8,10,11) ne u show ?thesis
    by (simp add: Sell C' shown_balance_def spend_token_def other_side_def getUzdBalance_def getOltinBalance_def moved_apply)
qed

text \<open>
  C9.  A swap the exchange screen reports as done settled on the chain as it was shown: across the swap
  the account's balance of the spent token, as the app reads it, fell by exactly the typed amount,
  and its balance of the other token rose by at least 99 percent, rounded down, of the fresh quote
  the screen asked for, whatever anybody else did before and between the two writes.
\<close>

theorem swap_settles_as_shown:
  assumes "mulDiv_spec mulDiv" and "truthful mulDiv ao node before after"
    and "swap_mutation node d = (Inr (), ws)" and "xd_account d = Some acc" and "ao acc \<noteq> ao (CONTRACTS ContractEXCHANGE)"
  shows "\<exists>approval swap amt q s est p0 p1 g0 g1. ws = [approval, swap] \<and> xd_amountWei d = Some amt
       \<and> xd_getQuote d (xd_side d) (js_trim (xd_amount d)) = Some q \<and> qt_estimated_out_wei q = Some s \<and> js_BigInt s = Some est
       \<and> shown_balance ao (spend_token (xd_side d)) acc (before swap) = Inr p0
       \<and> shown_balance ao (spend_token (xd_side d)) acc (after swap) = Inr p1
       \<and> shown_balance ao (spend_token (other_side (xd_side d))) acc (before swap) = Inr g0
       \<and> shown_balance ao (spend_token (other_side (xd_side d))) acc (after swap) = Inr g1
       \<and> int p0 = int p1 + amt \<and> int g0 + est * 9900 div 10000 \<le> int g1"
proof -
  from swap_mutation_sound [OF assms(3)] assms(4) obtain amt q est m s where
    ws: "ws = [approveForExchange acc (spend_token (xd_side d)) amt, swap_write (xd_side d) acc amt m]"
    and good: "node (swap_write (xd_side d) acc amt m) = Receipt True"
    and amt: "xd_amountWei d = Some amt" and q: "xd_getQuote d (xd_side d) (js_trim (xd_amount d)) = Some q"
    "qt_estimated_out_wei q = Some s" "js_BigInt s = Some est"
    and m: "m * 10000 \<le> est * 9900" "est * 9900 < (m + 1) * 10000" by auto
  have "est * 9900 div 10000 = m" using int_div_pos_eq [of "est * 9900" 10000 m "est * 9900 - m * 10000"] m by simp
  moreover from assms(2) good obtain ts where ok: "app_wired ao (before (swap_write (xd_side d) acc amt m))"
    and run: "execute_write mulDiv ao ts (swap_write (xd_side d) acc amt m) (before (swap_write (xd_side d) acc amt m))
        = Inr (after (swap_write (xd_side d) acc amt m))" by (auto simp: truthful_def)
  ultimately show ?thesis using trade_shown [OF assms(1) ok assms(5) run] ws amt q by blast
qed

text \<open>The same for a transfer: the sender pays and the recipient gets exactly the typed amount.\<close>

lemma send_settles_as_typed:
  assumes "truthful mulDiv ao node before after" and "transfer_mutation node d p = (Inr (), ws)"
  shows "\<exists>w acc user rcpt x amt. ws = [w] \<and> sd_account d = Some acc \<and> ao acc = Some user
       \<and> sd_recipientAddress d = Some rcpt \<and> ao rcpt = Some x \<and> send_amountWei d p = Some (int amt)
       \<and> tk_balances (mk_oltin (ac_market (after w))) = moved user x amt (tk_balances (mk_oltin (ac_market (before w))))
       \<and> tk_balances (mk_uzd (ac_market (after w))) = tk_balances (mk_uzd (ac_market (before w)))
       \<and> ac_staking (after w) = ac_staking (before w)"
proof -
  from transfer_mutation_sound [OF assms(2)] obtain acc amt rcpt where ws: "ws = [transferOltin acc rcpt amt]"
    and acc: "sd_account d = Some acc" and rc: "sd_recipientAddress d = Some rcpt" and amt: "send_amountWei d p = Some amt" "0 < amt"
    and good: "node (transferOltin acc rcpt amt) = Receipt True" by auto
  let ?w = "transferOltin acc rcpt amt"
  from assms(1) good obtain ts where ok: "app_wired ao (before ?w)"
    and run: "execute_write mulDiv ao ts ?w (before ?w) = Inr (after ?w)" by (auto simp: truthful_def)
  from executed_transfer [OF run] obtain user x t where u: "ao acc = Some user" "ao rcpt = Some x"
    and t: "token_transfer user x (nat amt) (mk_oltin (ac_market (before ?w))) = Inr t"
    and aft: "after ?w = (before ?w)\<lparr>ac_market := (ac_market (before ?w))\<lparr>mk_oltin := t\<rparr>\<rparr>" by blast
  have "token_ok (mk_oltin (ac_market (before ?w)))" using ok by (simp add: app_wired_def market_ok_def)
  from tk.send_moves [OF this t] have "tk_balances (mk_oltin (ac_market (after ?w)))
      = moved user x (nat amt) (tk_balances (mk_oltin (ac_market (before ?w))))" by (simp add: aft)
  moreover have "amt = int (nat amt)" using amt(2) by simp
  moreover have "tk_balances (mk_uzd (ac_market (after ?w))) = tk_balances (mk_uzd (ac_market (before ?w)))"
    "ac_staking (after ?w) = ac_staking (before ?w)" by (simp_all add: aft)
  ultimately show ?thesis using ws acc rc u amt(1) by metis
qed

text \<open>A chain with a price, a reserve and a user who holds UZD, and the sample swap of the exchange screen on it.\<close>

definition sample_ao :: "string \<Rightarrow> address option" where
  "sample_ao s = (if s = ''0xA'' then Some ''user'' else if s = CONTRACTS ContractEXCHANGE then Some ''exchange''
     else if s = CONTRACTS ContractSTAKING then Some ''vault'' else None)"

definition sample_chain :: app_chain where
  "sample_chain = \<lparr>ac_exchange = sample_exchange,
     ac_market = sample_market\<lparr>mk_oltin := sample_oltin, mk_uzd :=
       \<lparr>tk_balances = (\<lambda>_. 0)(''user'' := 2000000000000000000), tk_allowances = (\<lambda>_ _. 1500000000000000000),
        tk_totalSupply = 2000000000000000000, tk_paused = False, tk_roles = []\<rparr>\<rparr>,
     ac_staking = sample_staking\<rparr>"

abbreviation "sample_approval_write \<equiv> approveForExchange ''0xA'' ContractUZD 1500000000000000000"
abbreviation "sample_buy_write \<equiv> exchangeBuy ''0xA'' 1500000000000000000 990"

lemma sample_ao [simp]:
  "sample_ao ''0xA'' = Some ''user''" "sample_ao (CONTRACTS ContractEXCHANGE) = Some ''exchange''"
  "sample_ao (CONTRACTS ContractSTAKING) = Some ''vault''"
  by (simp_all add: sample_ao_def CONTRACTS_def)

lemma sample_parts [simp]:
  "ac_exchange sample_chain = sample_exchange" "ac_staking sample_chain = sample_staking" "mk_oltin (ac_market sample_chain) = sample_oltin"
  "mk_xau (ac_market sample_chain) = mk_xau sample_market" "mk_uzs (ac_market sample_chain) = mk_uzs sample_market"
  "mk_reserve (ac_market sample_chain) = mk_reserve sample_market" "sk_address sample_staking = ''vault''"
  "tk_balances (mk_uzd (ac_market sample_chain)) = (\<lambda>_. 0)(''user'' := 2000000000000000000)" "\<not> tk_paused (mk_uzd (ac_market sample_chain))"
  "tk_allowances (mk_uzd (ac_market sample_chain)) = (\<lambda>_ _. 1500000000000000000)"
  "tk_totalSupply (mk_uzd (ac_market sample_chain)) = 2000000000000000000"
  by (simp_all add: sample_chain_def sample_staking_def)

lemma sample_wired: "app_wired sample_ao sample_chain"
proof -
  have "\<forall>b. tk_allowances sample_oltin ''vault'' b = 0" by (simp add: sample_oltin_def)
  then have v: "vault_ok sample_staking sample_oltin" by (rule staking_constructor_ok [OF sample_staking_deployed sample_oltin_ok])
  have h: "holders (mk_uzd (ac_market sample_chain)) = {''user''}" by (auto simp: holders_def)
  have "token_ok (mk_uzd (ac_market sample_chain))" by (simp add: token_ok_def h) (simp add: UINT256_def)
  with v sample_oltin_ok show ?thesis by (simp add: app_wired_def market_ok_def)
qed

lemma sample_chain_out: "oltin_out 400000000000 8000 1500000000000000000 = 933104304000"
  by (simp add: oltin_out_def GRAMS_PER_OZ_1E8_def)

lemma sample_chain_buy: "\<exists>C. execute_write sample_mulDiv sample_ao 200 sample_buy_write sample_chain = Inr C"
proof -
  note run = buy_succeeds [OF sample_mulDiv_spec, of "ac_market sample_chain" "''user''" sample_exchange 1500000000000000000 990 200]
  have fits: "8000 * GRAMS_PER_OZ_1E8 < UINT256" "10 ^ 8 * 400000000000 < UINT256" "5 * 10 ^ 18 < UINT256" "1500000000000000000 < int UINT256" "990 < int UINT256"
    by (simp_all add: GRAMS_PER_OZ_1E8_def UINT256_def)
  have st: "\<not> tk_paused sample_oltin" "hasRole MINTER_ROLE ''exchange'' sample_oltin" "ot_reserveScale sample_oltin = 10 ^ 18"
    "tk_totalSupply sample_oltin = 0" "ot_maxAgeReserve sample_oltin = 3600"
    by (simp_all add: sample_oltin_def hasRole_def)
  have fr: "fresh 200 3600 (mk_reserve sample_market)" using sample_fresh(3) by (simp add: sample_market_def sample_oltin_def)
  have "market_ok (ac_market sample_chain)" using sample_wired by (simp add: app_wired_def)
  with run sample_addresses sample_fresh(1,2) fr fits(1-3) st sample_chain_out obtain mk where
    "buy sample_mulDiv sample_exchange 200 ''user'' 1500000000000000000 990 (ac_market sample_chain) = Inr (933104304000, mk)" by auto
  then have "on_exchange sample_mulDiv 200 ''user'' ''buy'' [VUint 1500000000000000000, VUint 990] sample_exchange (ac_market sample_chain) = Inr mk"
    by (simp add: on_exchange_def)
  moreover have "encode_call sample_ao sample_buy_write = Some [VUint 1500000000000000000, VUint 990]"
    using fits(4,5) by (simp add: encode_writes encode_arg_def)
  ultimately show ?thesis by (simp add: execute_write_def write_parts)
qed

lemma sample_chain_approve: "\<exists>C. execute_write sample_mulDiv sample_ao 200 sample_approval_write sample_chain = Inr C"
proof -
  have "encode_call sample_ao sample_approval_write = Some [VAddress ''exchange'', VUint 1500000000000000000]"
    by (simp add: encode_writes encode_arg_def UINT256_def)
  moreover have "\<exists>t. token_approve ''user'' ''exchange'' 1500000000000000000 (mk_uzd (ac_market sample_chain)) = Inr t"
    using sample_addresses by (simp add: token_approve_def approve_internal_def)
  ultimately show ?thesis by (auto simp: execute_write_def write_parts on_erc20_def)
qed

theorem app_users_keep_the_books_witness:
  "\<exists>C. execute_write sample_mulDiv sample_ao 200 sample_buy_write sample_chain = Inr C
     \<and> tk_totalSupply (mk_uzd (ac_market C)) = 2000000000000000000
     \<and> tk_totalSupply (mk_oltin (ac_market C)) \<le> 5000000000000000000"
proof -
  obtain C where run: "execute_write sample_mulDiv sample_ao 200 sample_buy_write sample_chain = Inr C" using sample_chain_buy by blast
  have "app_reach sample_mulDiv sample_ao sample_chain C"
    by (rule call [OF start _ _ run]) (simp_all add: write_parts)
  from app_users_keep_the_books [OF this sample_mulDiv_spec sample_wired] run show ?thesis by (simp add: sample_oltin_def)
qed

theorem swap_settles_as_shown_witness:
  "\<exists>C g0 g1. execute_write sample_mulDiv sample_ao 200 sample_buy_write sample_chain = Inr C
     \<and> shown_balance sample_ao ContractUZD ''0xA'' C = Inr 500000000000000000
     \<and> shown_balance sample_ao ContractOLTIN ''0xA'' sample_chain = Inr g0
     \<and> shown_balance sample_ao ContractOLTIN ''0xA'' C = Inr g1 \<and> g0 + 990 \<le> g1"
proof -
  obtain C where run: "execute_write sample_mulDiv sample_ao 200 sample_buy_write sample_chain = Inr C" using sample_chain_buy by blast
  obtain A where appr: "execute_write sample_mulDiv sample_ao 200 sample_approval_write sample_chain = Inr A" using sample_chain_approve by blast
  let ?node = "\<lambda>w. if w = sample_approval_write \<or> w = sample_buy_write then Receipt True else TimedOut"
  let ?after = "\<lambda>w. if w = sample_buy_write then C else A"
  have ne: "sample_approval_write \<noteq> sample_buy_write" by (simp add: approveForExchange_def exchangeBuy_def)
  have tr: "truthful sample_mulDiv sample_ao ?node (\<lambda>_. sample_chain) ?after"
    using run appr ne sample_wired by (auto simp: truthful_def)
  have sw: "swap_mutation ?node sample_swap = (Inr (), [sample_approval_write, sample_buy_write])"
    by (simp add: swap_mutation_def sample_swap_def xd_amountWei_def TOKEN_DECIMALS_def sample_amount spendWei_def
      uzdWei_def truthy_def computeMinOut_def SLIPPAGE_BPS_def signed_divide_int_def then_do_def send_write_def
      spend_token_def swap_write_def)
  have d: "xd_account sample_swap = Some ''0xA''" "xd_side sample_swap = Buy" "xd_amountWei sample_swap = Some 1500000000000000000"
    "xd_getQuote sample_swap Buy b = Some \<lparr>qt_side = Some Buy, qt_estimated_out_wei = Some (show_nat 1000)\<rparr>" for b
    by (simp_all add: sample_swap_def xd_amountWei_def TOKEN_DECIMALS_def sample_amount)
  have p0: "shown_balance sample_ao ContractUZD ''0xA'' sample_chain = Inr 2000000000000000000"
    by (simp add: shown_balance_def getUzdBalance_def)
  from swap_settles_as_shown [OF sample_mulDiv_spec tr sw d(1)] p0 run d show ?thesis
    by (fastforce simp: spend_token_def other_side_def)
qed

end
