(* ===== verification/Texts.thy ===== *)
theory Texts
  imports Session
begin

text \<open>
  The texts of the web app in its three languages (\<^verbatim>\<open>lib/i18n.ts\<close>) and the hook that picks one
  (\<^verbatim>\<open>hooks/useTranslation.ts\<close>).  A text is its list of UTF-16 code units, since most of them are
  outside the 8-bit characters of a \<^typ>\<open>string\<close>; ASCII runs are written as strings.
\<close>

type_synonym ui_text = "nat list"

definition asc :: "string \<Rightarrow> ui_text" where
  "asc s = map code s"

lemma asc_Nil [simp]: "asc s = [] \<longleftrightarrow> s = []"
  by (simp add: asc_def)

section \<open>The tables\<close>

definition uz_texts :: "(string \<times> ui_text) list" where
  "uz_texts =
    [(''loading'', asc ''Yuklanmoqda...''),
     (''save'', asc ''Saqlash''),
     (''cancel'', asc ''Bekor qilish''),
     (''confirm'', asc ''Tasdiqlash''),
     (''back'', asc ''Orqaga''),
     (''errorLoading'', asc ''Yuklanishda xatolik''),
     (''walletCheckFailed'', asc ''Hamyonni tekshirib bo'' @ [699] @ asc ''lmadi''),
     (''retry'', asc ''Qayta urinish''),
     (''walletRegisterFailed'', asc ''Hamyonni bog'' @ [699] @ asc ''lab bo'' @ [699] @ asc ''lmadi''),
     (''walletConflict'', asc ''Bu hisob boshqa hamyonga bog'' @ [699] @ asc ''langan.''),
     (''startOver'', asc ''Qaytadan boshlash''),
     (''total'', asc ''Jami''),
     (''fee'', asc ''Komissiya''),
     (''to'', asc ''Kimga''),
     (''price'', asc ''Narx''),
     (''selectLanguage'', asc ''Tilni tanlang''),
     (''hello'', asc ''Salom''),
     (''welcome'', asc ''Xush kelibsiz''),
     (''totalBalance'', asc ''Umumiy balans''),
     (''received'', asc ''Qabul qilindi''),
     (''sent'', asc ''Yuborildi''),
     (''wallet'', asc ''Hamyon''),
     (''exchange'', asc ''Birja''),
     (''staking'', asc ''Steyking''),
     (''profile'', asc ''Profil''),
     (''send'', asc ''Yuborish''),
     (''receive'', asc ''Qabul qilish''),
     (''recentTransactions'', asc ''Oxirgi operatsiyalar''),
     (''noTransactions'', asc ''Hozircha operatsiyalar yoq''),
     (''goldPrice'', asc ''OLTIN narxi''),
     (''buy'', asc ''Sotib olish''),
     (''sell'', asc ''Sotish''),
     (''amount'', asc ''Miqdor''),
     (''orderCreated'', asc ''Buyurtma yaratildi''),
     (''annualYield'', asc ''Yillik daromad''),
     (''lockPeriod'', asc ''kun lock davri''),
     (''staked'', asc ''Steykingda''),
     (''rewards'', asc ''Mukofotlar''),
     (''stake'', asc ''Steykinga qoyish''),
     (''rewardsInfo'', asc ''Mukofot har soniya hisoblanadi (7% yillik), zanjirda. Har depozit 7 kunga bloklanadi.''),
     (''deposit'', asc ''Kiritish''),
     (''withdraw'', asc ''Chiqarish''),
     (''depositAmount'', asc ''Kiritish miqdori''),
     (''withdrawAmount'', asc ''Chiqarish miqdori''),
     (''depositSuccess'', asc ''Muvaffaqiyatli kiritildi''),
     (''withdrawSuccess'', asc ''Muvaffaqiyatli chiqarildi''),
     (''lockedUntil'', asc ''Bloklangan''),
     (''unlocked'', asc ''Ochiq''),
     (''sendOltin'', asc ''OLTIN yuborish''),
     (''recipient'', asc ''Qabul qiluvchi''),
     (''searchPlaceholder'', asc ''@username yoki OltinPay ID''),
     (''available'', asc ''Mavjud''),
     (''commission'', asc ''Komissiya''),
     (''continue'', asc ''Davom etish''),
     (''transferSuccess'', asc ''Muvaffaqiyatli yuborildi!''),
     (''backToWallet'', asc ''Hamyonga qaytish''),
     (''favorites'', asc ''Sevimlilar''),
     (''language'', asc ''Til''),
     (''allOperations'', asc ''Barcha operatsiyalar''),
     (''about'', asc ''Ilova haqida''),
     (''logout'', asc ''Chiqish''),
     (''setCustomId'', asc ''OltinPay ID ni sozlash''),
     (''demoBadge'', asc ''DEMO''),
     (''demoBadgeNote'', asc ''tokenlar real qiymatga ega emas''),
     (''demoBalanceTitle'', asc ''Demo balans''),
     (''demoBalanceSubtitle'', asc ''1 000 000 UZD va 1 OLTIN beramiz '' @ [8212, 32, 111, 699] @
      asc ''tkazmalar, steyking va OLTIN xaridini sinab ko'' @ [699] @ asc ''ring.''),
     (''demoBalanceDisclaimer'', asc ''Tushunaman: bu Sepolia test tarmog'' @ [699] @ asc ''idagi demo-tokenlar '' @ [8212] @
      asc '' real qiymatga ega emas.''),
     (''demoBalanceGet'', asc ''Demo balans olish''),
     (''demoBalanceClaiming'', asc ''Hisoblanmoqda'' @ [8230]),
     (''demoBalanceError'', asc ''Hisoblab bo'' @ [699] @ asc ''lmadi. Qayta urinib ko'' @ [699] @ asc ''ring.''),
     (''onboardWelcome'', asc ''OltinPay hamyoniga xush kelibsiz''),
     (''onboardWelcomeDescription'',
      asc ''Sizning hamyoningiz to.liq sizning tasarrufingizda. Maxfiy kalit faqat sizning qurilmangizda saqlanadi.''),
     (''onboardWelcomeBullet1'', asc ''12 so.zli urug. iborasi yaratiladi''),
     (''onboardWelcomeBullet2'', asc ''Iborani qog.ozga yozib oling''),
     (''onboardWelcomeBullet3'', asc ''PIN-kod kiriting va hamyon tayyor''),
     (''createWallet'', asc ''Hamyon yaratish''),
     (''seedTitle'', asc ''Sizning urug. iborangiz''),
     (''seedWarning'',
      asc ''Bu 12 so.zni qog.ozga yozib oling. Bu hamyoningizni tiklashning yagona usuli. Hech kimga ko.rsatmang.''),
     (''reveal'', asc ''Ko.rsatish''),
     (''hide'', asc ''Yashirish''),
     (''seedWrittenDown'', asc ''Yozib oldim''),
     (''verifyTitle'', asc ''Iborani tasdiqlang''),
     (''verifyDescription'', asc ''So.ralgan so.zlarni kiriting''),
     (''wordNumber'', asc ''So.z''),
     (''seedVerifyError'', asc ''So.zlar mos kelmadi. Qaytadan tekshiring.''),
     (''seedInvalid'', asc ''Noto.g.ri urug. iborasi''),
     (''next'', asc ''Davom etish''),
     (''pinTitle'', asc ''PIN-kod o.rnating''),
     (''pinDescription'', asc ''Hamyonni har safar ochish uchun kerak bo.ladi''),
     (''pin'', asc ''PIN''),
     (''pinConfirm'', asc ''PIN-ni takrorlang''),
     (''pinTooShort'', asc ''PIN kamida 4 ta belgi bo.lishi kerak''),
     (''pinMismatch'', asc ''PIN-lar mos kelmadi''),
     (''finish'', asc ''Tayyor''),
     (''restoreFromSeed'', asc ''Mavjud iboradan tiklash''),
     (''restoreTitle'', asc ''Hamyonni tiklash''),
     (''restoreDescription'', asc ''12 ta so.zni kiriting va yangi PIN o.rnating''),
     (''seedPlaceholder'', asc ''so.z so.z so.z ...''),
     (''restore'', asc ''Tiklash''),
     (''enterPin'', asc ''PIN-kod kiriting''),
     (''enterPinDescription'', asc ''Hamyoningizni ochish uchun''),
     (''unlock'', asc ''Ochish''),
     (''walletNotFound'', asc ''Hamyon topilmadi'')]"

definition ru_texts :: "(string \<times> ui_text) list" where
  "ru_texts =
    [(''loading'', [1047, 1072, 1075, 1088, 1091, 1079, 1082, 1072] @ asc ''...''),
     (''save'', [1057, 1086, 1093, 1088, 1072, 1085, 1080, 1090, 1100]),
     (''cancel'', [1054, 1090, 1084, 1077, 1085, 1072]),
     (''confirm'', [1055, 1086, 1076, 1090, 1074, 1077, 1088, 1076, 1080, 1090, 1100]),
     (''back'', [1053, 1072, 1079, 1072, 1076]),
     (''errorLoading'', [1054, 1096, 1080, 1073, 1082, 1072, 32, 1079, 1072, 1075, 1088, 1091, 1079, 1082, 1080]),
     (''walletCheckFailed'', [1053, 1077, 32, 1091, 1076, 1072, 1083, 1086, 1089, 1100, 32, 1087, 1088, 1086, 1074, 1077, 1088,
      1080, 1090, 1100, 32, 1082, 1086, 1096, 1077, 1083, 1105, 1082]),
     (''retry'', [1055, 1086, 1074, 1090, 1086, 1088, 1080, 1090, 1100]),
     (''walletRegisterFailed'', [1053, 1077, 32, 1091, 1076, 1072, 1083, 1086, 1089, 1100, 32, 1087, 1088, 1080, 1074, 1103,
      1079, 1072, 1090, 1100, 32, 1082, 1086, 1096, 1077, 1083, 1105, 1082]),
     (''walletConflict'', [1069, 1090, 1086, 1090, 32, 1072, 1082, 1082, 1072, 1091, 1085, 1090, 32, 1091, 1078, 1077, 32, 1087,
      1088, 1080, 1074, 1103, 1079, 1072, 1085, 32, 1082, 32, 1076, 1088, 1091, 1075, 1086, 1084, 1091, 32, 1082, 1086,
      1096, 1077, 1083, 1100, 1082, 1091, 46]),
     (''startOver'', [1053, 1072, 1095, 1072, 1090, 1100, 32, 1079, 1072, 1085, 1086, 1074, 1086]),
     (''total'', [1048, 1090, 1086, 1075, 1086]),
     (''fee'', [1050, 1086, 1084, 1080, 1089, 1089, 1080, 1103]),
     (''to'', [1050, 1086, 1084, 1091]),
     (''price'', [1062, 1077, 1085, 1072]),
     (''selectLanguage'', [1042, 1099, 1073, 1077, 1088, 1080, 1090, 1077, 32, 1103, 1079, 1099, 1082]),
     (''hello'', [1055, 1088, 1080, 1074, 1077, 1090]),
     (''welcome'', [1044, 1086, 1073, 1088, 1086, 32, 1087, 1086, 1078, 1072, 1083, 1086, 1074, 1072, 1090, 1100]),
     (''totalBalance'', [1054, 1073, 1097, 1080, 1081, 32, 1073, 1072, 1083, 1072, 1085, 1089]),
     (''received'', [1055, 1086, 1083, 1091, 1095, 1077, 1085, 1086]),
     (''sent'', [1054, 1090, 1087, 1088, 1072, 1074, 1083, 1077, 1085, 1086]),
     (''wallet'', [1050, 1086, 1096, 1077, 1083, 1105, 1082]),
     (''exchange'', [1041, 1080, 1088, 1078, 1072]),
     (''staking'', [1057, 1090, 1077, 1081, 1082, 1080, 1085, 1075]),
     (''profile'', [1055, 1088, 1086, 1092, 1080, 1083, 1100]),
     (''send'', [1054, 1090, 1087, 1088, 1072, 1074, 1080, 1090, 1100]),
     (''receive'', [1055, 1086, 1083, 1091, 1095, 1080, 1090, 1100]),
     (''recentTransactions'', [1055, 1086, 1089, 1083, 1077, 1076, 1085, 1080, 1077, 32, 1086, 1087, 1077, 1088, 1072, 1094,
      1080, 1080]),
     (''noTransactions'', [1055, 1086, 1082, 1072, 32, 1085, 1077, 1090, 32, 1086, 1087, 1077, 1088, 1072, 1094, 1080, 1081]),
     (''goldPrice'', [1062, 1077, 1085, 1072] @ asc '' OLTIN''),
     (''buy'', [1050, 1091, 1087, 1080, 1090, 1100]),
     (''sell'', [1055, 1088, 1086, 1076, 1072, 1090, 1100]),
     (''amount'', [1057, 1091, 1084, 1084, 1072]),
     (''orderCreated'', [1054, 1088, 1076, 1077, 1088, 32, 1089, 1086, 1079, 1076, 1072, 1085]),
     (''annualYield'', [1043, 1086, 1076, 1086, 1074, 1086, 1081, 32, 1076, 1086, 1093, 1086, 1076]),
     (''lockPeriod'', [1076, 1085, 1077, 1081, 32, 1073, 1083, 1086, 1082, 1080, 1088, 1086, 1074, 1082, 1080]),
     (''staked'', [1042, 32, 1089, 1090, 1077, 1081, 1082, 1080, 1085, 1075, 1077]),
     (''rewards'', [1053, 1072, 1075, 1088, 1072, 1076, 1099]),
     (''stake'', [1047, 1072, 1089, 1090, 1077, 1081, 1082, 1072, 1090, 1100]),
     (''rewardsInfo'', [1053, 1072, 1075, 1088, 1072, 1076, 1072, 32, 1085, 1072, 1095, 1080, 1089, 1083, 1103, 1077, 1090, 1089,
      1103, 32, 1082, 1072, 1078, 1076, 1091, 1102, 32, 1089, 1077, 1082, 1091, 1085, 1076, 1091] @ asc '' (7% '' @ [1075,
      1086, 1076, 1086, 1074, 1099, 1093] @ asc ''), on-chain. '' @ [1050, 1072, 1078, 1076, 1099, 1081, 32, 1076, 1077,
      1087, 1086, 1079, 1080, 1090, 32, 1079, 1072, 1073, 1083, 1086, 1082, 1080, 1088, 1086, 1074, 1072, 1085, 32, 1085,
      1072] @ asc '' 7 '' @ [1076, 1085, 1077, 1081, 46]),
     (''deposit'', [1042, 1085, 1077, 1089, 1090, 1080]),
     (''withdraw'', [1042, 1099, 1074, 1077, 1089, 1090, 1080]),
     (''depositAmount'', [1057, 1091, 1084, 1084, 1072, 32, 1074, 1085, 1077, 1089, 1077, 1085, 1080, 1103]),
     (''withdrawAmount'', [1057, 1091, 1084, 1084, 1072, 32, 1074, 1099, 1074, 1086, 1076, 1072]),
     (''depositSuccess'', [1059, 1089, 1087, 1077, 1096, 1085, 1086, 32, 1074, 1085, 1077, 1089, 1077, 1085, 1086]),
     (''withdrawSuccess'', [1059, 1089, 1087, 1077, 1096, 1085, 1086, 32, 1074, 1099, 1074, 1077, 1076, 1077, 1085, 1086]),
     (''lockedUntil'', [1047, 1072, 1073, 1083, 1086, 1082, 1080, 1088, 1086, 1074, 1072, 1085, 1086, 32, 1076, 1086]),
     (''unlocked'', [1056, 1072, 1079, 1073, 1083, 1086, 1082, 1080, 1088, 1086, 1074, 1072, 1085, 1086]),
     (''sendOltin'', [1054, 1090, 1087, 1088, 1072, 1074, 1080, 1090, 1100] @ asc '' OLTIN''),
     (''recipient'', [1055, 1086, 1083, 1091, 1095, 1072, 1090, 1077, 1083, 1100]),
     (''searchPlaceholder'', asc ''@username '' @ [1080, 1083, 1080] @ asc '' OltinPay ID''),
     (''available'', [1044, 1086, 1089, 1090, 1091, 1087, 1085, 1086]),
     (''commission'', [1050, 1086, 1084, 1080, 1089, 1089, 1080, 1103]),
     (''continue'', [1055, 1088, 1086, 1076, 1086, 1083, 1078, 1080, 1090, 1100]),
     (''transferSuccess'', [1059, 1089, 1087, 1077, 1096, 1085, 1086, 32, 1086, 1090, 1087, 1088, 1072, 1074, 1083, 1077, 1085,
      1086, 33]),
     (''backToWallet'', [1042, 1077, 1088, 1085, 1091, 1090, 1100, 1089, 1103, 32, 1074, 32, 1082, 1086, 1096, 1077, 1083, 1105,
      1082]),
     (''favorites'', [1048, 1079, 1073, 1088, 1072, 1085, 1085, 1099, 1077]),
     (''language'', [1071, 1079, 1099, 1082]),
     (''allOperations'', [1042, 1089, 1077, 32, 1086, 1087, 1077, 1088, 1072, 1094, 1080, 1080]),
     (''about'', [1054, 32, 1087, 1088, 1080, 1083, 1086, 1078, 1077, 1085, 1080, 1080]),
     (''logout'', [1042, 1099, 1081, 1090, 1080]),
     (''setCustomId'', [1059, 1089, 1090, 1072, 1085, 1086, 1074, 1080, 1090, 1100] @ asc '' OltinPay ID''),
     (''demoBadge'', asc ''DEMO''),
     (''demoBadgeNote'', [1090, 1086, 1082, 1077, 1085, 1099, 32, 1085, 1077, 32, 1080, 1084, 1077, 1102, 1090, 32, 1088, 1077,
      1072, 1083, 1100, 1085, 1086, 1081, 32, 1089, 1090, 1086, 1080, 1084, 1086, 1089, 1090, 1080]),
     (''demoBalanceTitle'', [1044, 1077, 1084, 1086, 45, 1073, 1072, 1083, 1072, 1085, 1089]),
     (''demoBalanceSubtitle'', [1053, 1072, 1095, 1080, 1089, 1083, 1080, 1084] @ asc '' 1 000 000 UZD '' @ [1080] @
      asc '' 1 OLTIN '' @ [8212, 32, 1087, 1086, 1087, 1088, 1086, 1073, 1091, 1081, 1090, 1077, 32, 1087, 1077, 1088, 1077,
      1074, 1086, 1076, 1099, 44, 32, 1089, 1090, 1077, 1081, 1082, 1080, 1085, 1075, 32, 1080, 32, 1087, 1086, 1082, 1091,
      1087, 1082, 1091] @ asc '' OLTIN.''),
     (''demoBalanceDisclaimer'', [1055, 1086, 1085, 1080, 1084, 1072, 1102, 58, 32, 1101, 1090, 1086, 32, 1076, 1077, 1084, 1086,
      45, 1090, 1086, 1082, 1077, 1085, 1099, 32, 1074, 32, 1090, 1077, 1089, 1090, 1086, 1074, 1086, 1081, 32, 1089, 1077,
      1090, 1080] @ asc '' Sepolia '' @ [8212, 32, 1085, 1077, 32, 1080, 1084, 1077, 1102, 1090, 32, 1088, 1077, 1072, 1083,
      1100, 1085, 1086, 1081, 32, 1089, 1090, 1086, 1080, 1084, 1086, 1089, 1090, 1080, 46]),
     (''demoBalanceGet'', [1055, 1086, 1083, 1091, 1095, 1080, 1090, 1100, 32, 1076, 1077, 1084, 1086, 45, 1073, 1072, 1083,
      1072, 1085, 1089]),
     (''demoBalanceClaiming'', [1053, 1072, 1095, 1080, 1089, 1083, 1103, 1077, 1084, 8230]),
     (''demoBalanceError'', [1053, 1077, 32, 1091, 1076, 1072, 1083, 1086, 1089, 1100, 32, 1085, 1072, 1095, 1080, 1089, 1083,
      1080, 1090, 1100, 46, 32, 1055, 1086, 1087, 1088, 1086, 1073, 1091, 1081, 1090, 1077, 32, 1077, 1097, 1105, 32, 1088,
      1072, 1079, 46]),
     (''onboardWelcome'', [1044, 1086, 1073, 1088, 1086, 32, 1087, 1086, 1078, 1072, 1083, 1086, 1074, 1072, 1090, 1100, 32,
      1074] @ asc '' OltinPay''),
     (''onboardWelcomeDescription'', [1050, 1086, 1096, 1077, 1083, 1105, 1082, 32, 1087, 1086, 1083, 1085, 1086, 1089, 1090,
      1100, 1102, 32, 1087, 1086, 1076, 32, 1074, 1072, 1096, 1080, 1084, 32, 1082, 1086, 1085, 1090, 1088, 1086, 1083,
      1077, 1084, 46, 32, 1055, 1088, 1080, 1074, 1072, 1090, 1085, 1099, 1081, 32, 1082, 1083, 1102, 1095, 32, 1093, 1088,
      1072, 1085, 1080, 1090, 1089, 1103, 32, 1090, 1086, 1083, 1100, 1082, 1086, 32, 1085, 1072, 32, 1074, 1072, 1096,
      1077, 1084, 32, 1091, 1089, 1090, 1088, 1086, 1081, 1089, 1090, 1074, 1077, 46]),
     (''onboardWelcomeBullet1'', [1057, 1075, 1077, 1085, 1077, 1088, 1080, 1088, 1091, 1077, 1090, 1089, 1103] @ asc '' 12-'' @
      [1089, 1083, 1086, 1074, 1085, 1072, 1103, 32, 1089, 1080, 1076, 45, 1092, 1088, 1072, 1079, 1072]),
     (''onboardWelcomeBullet2'', [1047, 1072, 1087, 1080, 1096, 1080, 1090, 1077, 32, 1077, 1105, 32, 1085, 1072, 32, 1073, 1091,
      1084, 1072, 1075, 1077]),
     (''onboardWelcomeBullet3'', [1059, 1089, 1090, 1072, 1085, 1086, 1074, 1080, 1090, 1077] @ asc '' PIN '' @ [8212, 32, 1080,
      32, 1082, 1086, 1096, 1077, 1083, 1105, 1082, 32, 1075, 1086, 1090, 1086, 1074]),
     (''createWallet'', [1057, 1086, 1079, 1076, 1072, 1090, 1100, 32, 1082, 1086, 1096, 1077, 1083, 1105, 1082]),
     (''seedTitle'', [1042, 1072, 1096, 1072, 32, 1089, 1080, 1076, 45, 1092, 1088, 1072, 1079, 1072]),
     (''seedWarning'', [1047, 1072, 1087, 1080, 1096, 1080, 1090, 1077, 32, 1101, 1090, 1080] @ asc '' 12 '' @ [1089, 1083, 1086,
      1074, 32, 1085, 1072, 32, 1073, 1091, 1084, 1072, 1075, 1077, 46, 32, 1069, 1090, 1086, 32, 1077, 1076, 1080, 1085,
      1089, 1090, 1074, 1077, 1085, 1085, 1099, 1081, 32, 1089, 1087, 1086, 1089, 1086, 1073, 32, 1074, 1086, 1089, 1089,
      1090, 1072, 1085, 1086, 1074, 1080, 1090, 1100, 32, 1082, 1086, 1096, 1077, 1083, 1105, 1082, 46, 32, 1053, 1080,
      1082, 1086, 1084, 1091, 32, 1085, 1077, 32, 1087, 1086, 1082, 1072, 1079, 1099, 1074, 1072, 1081, 1090, 1077, 46]),
     (''reveal'', [1055, 1086, 1082, 1072, 1079, 1072, 1090, 1100]),
     (''hide'', [1057, 1082, 1088, 1099, 1090, 1100]),
     (''seedWrittenDown'', [1071, 32, 1079, 1072, 1087, 1080, 1089, 1072, 1083]),
     (''verifyTitle'', [1055, 1086, 1076, 1090, 1074, 1077, 1088, 1076, 1080, 1090, 1077, 32, 1092, 1088, 1072, 1079, 1091]),
     (''verifyDescription'', [1042, 1074, 1077, 1076, 1080, 1090, 1077, 32, 1091, 1082, 1072, 1079, 1072, 1085, 1085, 1099, 1077,
      32, 1089, 1083, 1086, 1074, 1072, 32, 1080, 1079, 32, 1074, 1072, 1096, 1077, 1081, 32, 1092, 1088, 1072, 1079, 1099]),
     (''wordNumber'', [1057, 1083, 1086, 1074, 1086]),
     (''seedVerifyError'', [1057, 1083, 1086, 1074, 1072, 32, 1085, 1077, 32, 1089, 1086, 1074, 1087, 1072, 1076, 1072, 1102,
      1090, 46, 32, 1055, 1088, 1086, 1074, 1077, 1088, 1100, 1090, 1077, 32, 1077, 1097, 1105, 32, 1088, 1072, 1079, 46]),
     (''seedInvalid'', [1053, 1077, 1082, 1086, 1088, 1088, 1077, 1082, 1090, 1085, 1072, 1103, 32, 1089, 1080, 1076, 45, 1092,
      1088, 1072, 1079, 1072]),
     (''next'', [1055, 1088, 1086, 1076, 1086, 1083, 1078, 1080, 1090, 1100]),
     (''pinTitle'', [1059, 1089, 1090, 1072, 1085, 1086, 1074, 1080, 1090, 1077] @ asc '' PIN''),
     (''pinDescription'', [1055, 1086, 1085, 1072, 1076, 1086, 1073, 1080, 1090, 1089, 1103, 32, 1087, 1088, 1080, 32, 1082,
      1072, 1078, 1076, 1086, 1084, 32, 1086, 1090, 1082, 1088, 1099, 1090, 1080, 1080, 32, 1082, 1086, 1096, 1077, 1083,
      1100, 1082, 1072]),
     (''pin'', asc ''PIN''),
     (''pinConfirm'', [1055, 1086, 1074, 1090, 1086, 1088, 1080, 1090, 1077] @ asc '' PIN''),
     (''pinTooShort'', asc ''PIN '' @ [1076, 1086, 1083, 1078, 1077, 1085, 32, 1073, 1099, 1090, 1100, 32, 1085, 1077, 32, 1082,
      1086, 1088, 1086, 1095, 1077] @ asc '' 4 '' @ [1089, 1080, 1084, 1074, 1086, 1083, 1086, 1074]),
     (''pinMismatch'', asc ''PIN-'' @ [1082, 1086, 1076, 1099, 32, 1085, 1077, 32, 1089, 1086, 1074, 1087, 1072, 1076, 1072,
      1102, 1090]),
     (''finish'', [1043, 1086, 1090, 1086, 1074, 1086]),
     (''restoreFromSeed'', [1042, 1086, 1089, 1089, 1090, 1072, 1085, 1086, 1074, 1080, 1090, 1100, 32, 1080, 1079, 32, 1089,
      1080, 1076, 45, 1092, 1088, 1072, 1079, 1099]),
     (''restoreTitle'', [1042, 1086, 1089, 1089, 1090, 1072, 1085, 1086, 1074, 1083, 1077, 1085, 1080, 1077, 32, 1082, 1086,
      1096, 1077, 1083, 1100, 1082, 1072]),
     (''restoreDescription'', [1042, 1074, 1077, 1076, 1080, 1090, 1077] @ asc '' 12 '' @ [1089, 1083, 1086, 1074, 32, 1080, 32,
      1091, 1089, 1090, 1072, 1085, 1086, 1074, 1080, 1090, 1077, 32, 1085, 1086, 1074, 1099, 1081] @ asc '' PIN''),
     (''seedPlaceholder'', [1089, 1083, 1086, 1074, 1086, 32, 1089, 1083, 1086, 1074, 1086, 32, 1089, 1083, 1086, 1074, 1086] @
      asc '' ...''),
     (''restore'', [1042, 1086, 1089, 1089, 1090, 1072, 1085, 1086, 1074, 1080, 1090, 1100]),
     (''enterPin'', [1042, 1074, 1077, 1076, 1080, 1090, 1077] @ asc '' PIN''),
     (''enterPinDescription'', [1044, 1083, 1103, 32, 1076, 1086, 1089, 1090, 1091, 1087, 1072, 32, 1082, 32, 1082, 1086, 1096,
      1077, 1083, 1100, 1082, 1091]),
     (''unlock'', [1054, 1090, 1082, 1088, 1099, 1090, 1100]),
     (''walletNotFound'', [1050, 1086, 1096, 1077, 1083, 1105, 1082, 32, 1085, 1077, 32, 1085, 1072, 1081, 1076, 1077, 1085])]"

definition en_texts :: "(string \<times> ui_text) list" where
  "en_texts =
    [(''loading'', asc ''Loading...''),
     (''save'', asc ''Save''),
     (''cancel'', asc ''Cancel''),
     (''confirm'', asc ''Confirm''),
     (''back'', asc ''Back''),
     (''errorLoading'', asc ''Error loading data''),
     (''walletCheckFailed'', asc ''Could not check your wallet''),
     (''retry'', asc ''Try again''),
     (''walletRegisterFailed'', asc ''Could not link your wallet''),
     (''walletConflict'', asc ''This account is already linked to another wallet.''),
     (''startOver'', asc ''Start over''),
     (''total'', asc ''Total''),
     (''fee'', asc ''Fee''),
     (''to'', asc ''To''),
     (''price'', asc ''Price''),
     (''selectLanguage'', asc ''Select language''),
     (''hello'', asc ''Hello''),
     (''welcome'', asc ''Welcome''),
     (''totalBalance'', asc ''Total Balance''),
     (''received'', asc ''Received''),
     (''sent'', asc ''Sent''),
     (''wallet'', asc ''Wallet''),
     (''exchange'', asc ''Exchange''),
     (''staking'', asc ''Staking''),
     (''profile'', asc ''Profile''),
     (''send'', asc ''Send''),
     (''receive'', asc ''Receive''),
     (''recentTransactions'', asc ''Recent transactions''),
     (''noTransactions'', asc ''No transactions yet''),
     (''goldPrice'', asc ''OLTIN price''),
     (''buy'', asc ''Buy''),
     (''sell'', asc ''Sell''),
     (''amount'', asc ''Amount''),
     (''orderCreated'', asc ''Order created''),
     (''annualYield'', asc ''Annual yield''),
     (''lockPeriod'', asc ''days lock period''),
     (''staked'', asc ''Staked''),
     (''rewards'', asc ''Rewards''),
     (''stake'', asc ''Stake''),
     (''rewardsInfo'', asc ''Reward accrues every second (7% APY), on-chain. Each deposit is locked for 7 days.''),
     (''deposit'', asc ''Deposit''),
     (''withdraw'', asc ''Withdraw''),
     (''depositAmount'', asc ''Deposit amount''),
     (''withdrawAmount'', asc ''Withdraw amount''),
     (''depositSuccess'', asc ''Successfully deposited''),
     (''withdrawSuccess'', asc ''Successfully withdrawn''),
     (''lockedUntil'', asc ''Locked until''),
     (''unlocked'', asc ''Unlocked''),
     (''sendOltin'', asc ''Send OLTIN''),
     (''recipient'', asc ''Recipient''),
     (''searchPlaceholder'', asc ''@username or OltinPay ID''),
     (''available'', asc ''Available''),
     (''commission'', asc ''Commission''),
     (''continue'', asc ''Continue''),
     (''transferSuccess'', asc ''Successfully sent!''),
     (''backToWallet'', asc ''Back to wallet''),
     (''favorites'', asc ''Favorites''),
     (''language'', asc ''Language''),
     (''allOperations'', asc ''All operations''),
     (''about'', asc ''About''),
     (''logout'', asc ''Logout''),
     (''setCustomId'', asc ''Set OltinPay ID''),
     (''demoBadge'', asc ''DEMO''),
     (''demoBadgeNote'', asc ''tokens have no real value''),
     (''demoBalanceTitle'', asc ''Demo balance''),
     (''demoBalanceSubtitle'',
      asc ''We will credit 1,000,000 UZD and 1 OLTIN so you can try transfers, staking and buying more OLTIN.''),
     (''demoBalanceDisclaimer'', asc ''I understand these are demo tokens on the Sepolia testnet '' @ [8212] @
      asc '' with no real value.''),
     (''demoBalanceGet'', asc ''Get demo balance''),
     (''demoBalanceClaiming'', asc ''Crediting'' @ [8230]),
     (''demoBalanceError'', asc ''Could not credit. Please try again.''),
     (''onboardWelcome'', asc ''Welcome to OltinPay''),
     (''onboardWelcomeDescription'', asc ''Your wallet, your keys. The private key is stored only on your device.''),
     (''onboardWelcomeBullet1'', asc ''12-word seed phrase will be generated''),
     (''onboardWelcomeBullet2'', asc ''Write it down on paper''),
     (''onboardWelcomeBullet3'', asc ''Set a PIN and the wallet is ready''),
     (''createWallet'', asc ''Create wallet''),
     (''seedTitle'', asc ''Your seed phrase''),
     (''seedWarning'', asc ''Write these 12 words on paper. This is the only way to recover your wallet. Never share it.''),
     (''reveal'', asc ''Reveal''),
     (''hide'', asc ''Hide''),
     (''seedWrittenDown'', asc ''I wrote it down''),
     (''verifyTitle'', asc ''Verify your phrase''),
     (''verifyDescription'', asc ''Enter the requested words from your seed phrase''),
     (''wordNumber'', asc ''Word''),
     (''seedVerifyError'', asc ''Words don.t match. Please check again.''),
     (''seedInvalid'', asc ''Invalid seed phrase''),
     (''next'', asc ''Continue''),
     (''pinTitle'', asc ''Set your PIN''),
     (''pinDescription'', asc ''Required to unlock the wallet on every open''),
     (''pin'', asc ''PIN''),
     (''pinConfirm'', asc ''Repeat PIN''),
     (''pinTooShort'', asc ''PIN must be at least 4 characters''),
     (''pinMismatch'', asc ''PINs don.t match''),
     (''finish'', asc ''Finish''),
     (''restoreFromSeed'', asc ''Restore from seed phrase''),
     (''restoreTitle'', asc ''Restore wallet''),
     (''restoreDescription'', asc ''Enter your 12 words and set a new PIN''),
     (''seedPlaceholder'', asc ''word word word ...''),
     (''restore'', asc ''Restore''),
     (''enterPin'', asc ''Enter PIN''),
     (''enterPinDescription'', asc ''To unlock your wallet''),
     (''unlock'', asc ''Unlock''),
     (''walletNotFound'', asc ''Wallet not found'')]"

definition translation_table :: "string \<Rightarrow> (string \<times> ui_text) list option" where
  "translation_table lang =
     (if lang = ''uz'' then Some uz_texts else if lang = ''ru'' then Some ru_texts
      else if lang = ''en'' then Some en_texts else None)"

definition TranslationKey :: "string list" where
  "TranslationKey = map fst uz_texts"

section \<open>Picking a text\<close>

text \<open>
  \<^verbatim>\<open>language || 'uz'\<close>, and \<^verbatim>\<open>translations[lang]?.[key] || translations.uz[key] || key\<close>.  A language that
  names an inherited property of the object has none of the keys either, like one that is not there.
\<close>

definition lang_of :: "string option \<Rightarrow> string" where
  "lang_of language = (if truthy language then the language else ''uz'')"

definition shown_or :: "ui_text option \<Rightarrow> ui_text \<Rightarrow> ui_text" where
  "shown_or v d = (case v of None \<Rightarrow> d | Some x \<Rightarrow> if x = [] then d else x)"

definition useTranslation :: "string option \<Rightarrow> string \<Rightarrow> ui_text" where
  "useTranslation language key =
     shown_or (case translation_table (lang_of language) of None \<Rightarrow> None | Some tab \<Rightarrow> map_of tab key)
       (shown_or (map_of uz_texts key) (asc key))"

lemma same_keys: "map fst ru_texts = map fst uz_texts" "map fst en_texts = map fst uz_texts"
  by (simp_all add: uz_texts_def ru_texts_def en_texts_def)

lemma no_empty_text:
  "list_all (\<lambda>e. snd e \<noteq> []) uz_texts" "list_all (\<lambda>e. snd e \<noteq> []) ru_texts" "list_all (\<lambda>e. snd e \<noteq> []) en_texts"
  by (simp_all add: uz_texts_def ru_texts_def en_texts_def)

lemma table_has_key:
  assumes "translation_table lang = Some tab" and "key \<in> set TranslationKey"
  shows "\<exists>x. map_of tab key = Some x \<and> x \<noteq> []"
proof -
  from assms(1) consider "tab = uz_texts" | "tab = ru_texts" | "tab = en_texts"
    by (auto simp: translation_table_def split: if_splits)
  then have keys: "map fst tab = map fst uz_texts" and full: "list_all (\<lambda>e. snd e \<noteq> []) tab"
    using same_keys no_empty_text by (cases; simp only:)+
  have "key \<in> fst ` set tab" using assms(2) keys by (metis TranslationKey_def list.set_map)
  then obtain x where "map_of tab key = Some x" by (metis map_of_eq_None_iff not_None_eq)
  with full show ?thesis by (auto simp: list_all_iff dest!: map_of_SomeD)
qed

text \<open>
  Every declared key has a text: in one of the three languages it is that language's own entry, in
  any other the Uzbek one, and never the bare key.
\<close>

lemma every_key_has_its_text:
  assumes "key \<in> set TranslationKey"
  shows "useTranslation language key \<noteq> []
       \<and> (\<forall>tab. translation_table (lang_of language) = Some tab \<longrightarrow> map_of tab key = Some (useTranslation language key))
       \<and> (translation_table (lang_of language) = None \<longrightarrow> map_of uz_texts key = Some (useTranslation language key))"
proof -
  have uz: "translation_table ''uz'' = Some uz_texts" by (simp add: translation_table_def)
  obtain x where x: "map_of uz_texts key = Some x" "x \<noteq> []" using table_has_key [OF uz assms] by blast
  show ?thesis
  proof (cases "translation_table (lang_of language)")
    case None
    with x show ?thesis by (simp add: useTranslation_def shown_or_def)
  next
    case (Some tab)
    obtain y where "map_of tab key = Some y" "y \<noteq> []" using table_has_key [OF Some assms] by blast
    with Some show ?thesis by (simp add: useTranslation_def shown_or_def)
  qed
qed

end
