(* ===== verification/Profile.thy ===== *)
theory Profile
  imports Texts ApiClient
begin

text \<open>
  The profile, receive and language screens of the web app with the navigation bar
  (\<^verbatim>\<open>app/profile/page.tsx\<close>, \<^verbatim>\<open>app/receive/page.tsx\<close>, \<^verbatim>\<open>LanguageSelector\<close>, \<^verbatim>\<open>BottomNav\<close>) and the hook that
  wraps Telegram's object (\<^verbatim>\<open>hooks/useTelegram.ts\<close>).  The calls on Telegram's object are listed in the
  order they are made.  The wallet session is in the state of the profile page because its logout could
  reach it.
\<close>

section \<open>Telegram\<close>

record tg_user =
  tu_first_name :: string
  tu_last_name :: "string option"
  tu_username :: "string option"
  tu_photo_url :: "string option"

record telegram =
  tg_initData :: string
  tg_unsafe_user :: "tg_user option"
  tg_colorScheme :: string
  tg_platform :: string
  tg_haptics :: bool      \<comment> \<open>whether the client has \<^verbatim>\<open>HapticFeedback\<close>\<close>

datatype tg_call = TgReady | TgExpand | TgHeaderColor string | TgBackgroundColor string
  | TgImpact string | TgNotification string | TgSelection | TgClose

datatype haptic = HLight | HMedium | HHeavy | HSuccess | HError | HWarning | HSelection

text \<open>The mount effect: the object, if the page runs inside Telegram, and whether it is ready.\<close>

definition telegram_mount :: "telegram option \<Rightarrow> (telegram option \<times> bool) \<times> tg_call list" where
  "telegram_mount tg =
     (case tg of None \<Rightarrow> ((None, False), [])
      | Some _ \<Rightarrow> ((tg, True), [TgReady, TgExpand, TgHeaderColor ''#0D0D0D'', TgBackgroundColor ''#0D0D0D'']))"

definition hapticFeedback :: "telegram option \<Rightarrow> haptic \<Rightarrow> tg_call list" where
  "hapticFeedback webApp type =
     (case webApp of None \<Rightarrow> []
      | Some w \<Rightarrow> if \<not> tg_haptics w then [] else
         (case type of
            HLight \<Rightarrow> [TgImpact ''light''] | HMedium \<Rightarrow> [TgImpact ''medium''] | HHeavy \<Rightarrow> [TgImpact ''heavy'']
          | HSuccess \<Rightarrow> [TgNotification ''success''] | HError \<Rightarrow> [TgNotification ''error'']
          | HWarning \<Rightarrow> [TgNotification ''warning''] | HSelection \<Rightarrow> [TgSelection]))"

definition or_default :: "string option \<Rightarrow> string \<Rightarrow> string" where
  "or_default v d = (if truthy v then the v else d)"

record telegram_view =
  tv_initData :: string
  tv_user :: "tg_user option"
  tv_colorScheme :: string
  tv_platform :: string

definition useTelegram :: "telegram option \<Rightarrow> telegram_view" where
  "useTelegram webApp =
     \<lparr>tv_initData = or_default (map_option tg_initData webApp) [],
      tv_user = (case webApp of None \<Rightarrow> None | Some w \<Rightarrow> tg_unsafe_user w),
      tv_colorScheme = or_default (map_option tg_colorScheme webApp) ''dark'',
      tv_platform = or_default (map_option tg_platform webApp) ''unknown''\<rparr>"

section \<open>The language screen and the navigation bar\<close>

definition LANGUAGES :: "string list" where "LANGUAGES = [''uz'', ''ru'', ''en'']"

definition handleSelect :: "string \<Rightarrow> app \<Rightarrow> app" where
  "handleSelect lcode p =
     (let p1 = with_store (setLanguage lcode) p in p1\<lparr>ap_local := (ap_local p1)(''oltinpay_lang'' \<mapsto> lcode)\<rparr>)"

definition navItems :: "(string \<times> string) list" where
  "navItems = [(''/wallet'', ''wallet''), (''/exchange'', ''exchange''), (''/staking'', ''staking''), (''/profile'', ''profile'')]"

definition isActive :: "string \<Rightarrow> string \<Rightarrow> bool" where
  "isActive pathname href \<longleftrightarrow> pathname = href \<or> js_startsWith pathname (href @ ''/'')"

section \<open>The profile page\<close>

record profile =
  pf_app :: app
  pf_session :: wallet_session
  pf_webApp :: "telegram option"
  pf_copied :: bool
  pf_photoUrl :: "string option"
  pf_pending :: "string option"      \<comment> \<open>the language of the update in flight\<close>
  pf_clipboard :: "string option"
  pf_stale :: "string list"          \<comment> \<open>invalidated query keys\<close>

definition profile_user :: "profile \<Rightarrow> user option" where
  "profile_user s = as_user (ap_store (pf_app s))"

definition profile_tgUser :: "profile \<Rightarrow> tg_user option" where
  "profile_tgUser s = tv_user (useTelegram (pf_webApp s))"

definition photo_effect :: "profile \<Rightarrow> profile" where
  "photo_effect s =
     (case profile_tgUser s of None \<Rightarrow> s
      | Some u \<Rightarrow> if truthy (tu_photo_url u) then s\<lparr>pf_photoUrl := tu_photo_url u\<rparr> else s)"

definition photo_error :: "profile \<Rightarrow> profile" where
  "photo_error s = s\<lparr>pf_photoUrl := None\<rparr>"

definition handleLanguageChange :: "string \<Rightarrow> profile \<Rightarrow> profile \<times> endpoint option" where
  "handleLanguageChange lang s =
     (if pf_pending s \<noteq> None then (s, None)
      else (s\<lparr>pf_pending := Some lang\<rparr>, Some (updateMe (Some lang))))"

definition language_reply :: "(api_failure, json) result \<Rightarrow> profile \<Rightarrow> profile \<times> tg_call list" where
  "language_reply r s =
     (case pf_pending s of None \<Rightarrow> (s, [])
      | Some lang \<Rightarrow>
         (case r of
            Inl _ \<Rightarrow> (s\<lparr>pf_pending := None\<rparr>, [])
          | Inr _ \<Rightarrow>
             (let p = with_store (setLanguage lang) (pf_app s) in
              (s\<lparr>pf_pending := None, pf_app := p\<lparr>ap_local := (ap_local p)(''oltinpay_lang'' \<mapsto> lang)\<rparr>,
                 pf_stale := ''user'' # pf_stale s\<rparr>,
               hapticFeedback (pf_webApp s) HSuccess))))"

definition has_oltin_id :: "user option \<Rightarrow> bool" where
  "has_oltin_id u = (case u of None \<Rightarrow> False | Some x \<Rightarrow> us_oltin_id x \<noteq> [])"

definition copyOltinId :: "profile \<Rightarrow> profile \<times> tg_call list" where
  "copyOltinId s =
     (if has_oltin_id (profile_user s)
      then (s\<lparr>pf_clipboard := Some (CHR ''@'' # us_oltin_id (the (profile_user s))), pf_copied := True\<rparr>,
            hapticFeedback (pf_webApp s) HSuccess)
      else (s, []))"

definition copied_timer :: "profile \<Rightarrow> profile" where
  "copied_timer s = s\<lparr>pf_copied := False\<rparr>"

definition handleLogout :: "profile \<Rightarrow> profile \<times> tg_call list" where
  "handleLogout s =
     (s\<lparr>pf_app := with_store logout (pf_app s)\<rparr>,
      hapticFeedback (pf_webApp s) HMedium @ (if pf_webApp s = None then [] else [TgClose]))"

definition displayName :: "tg_user option \<Rightarrow> string" where
  "displayName u =
     (case u of None \<Rightarrow> ''User''
      | Some x \<Rightarrow> if tu_first_name x = [] then ''User''
          else tu_first_name x @ (if truthy (tu_last_name x) then CHR '' '' # the (tu_last_name x) else []))"

definition isCustomOltinId :: "user option \<Rightarrow> bool" where
  "isCustomOltinId u \<longleftrightarrow> has_oltin_id u \<and> \<not> js_startsWith (us_oltin_id (the u)) ''user_''"

definition menuItems :: "(string \<times> string) list" where
  "menuItems = [(''/favorites'', ''favorites''), (''/history'', ''allOperations'')]"

text \<open>What the page shows: the photo, the name, the id line, the check mark, the Telegram line, the link to
  choose an id, and the language buttons with which one is lit and whether they are disabled.\<close>

record profile_screen =
  ps_photo :: "string option"
  ps_name :: string
  ps_id :: string
  ps_copied :: bool
  ps_telegram :: "string option"
  ps_setIdLink :: "string option"
  ps_languages :: "(string \<times> bool) list"
  ps_disabled :: bool
  ps_links :: "string list"

definition profile_view :: "profile \<Rightarrow> profile_screen" where
  "profile_view s =
     \<lparr>ps_photo = (if truthy (pf_photoUrl s) then pf_photoUrl s else None),
      ps_name = displayName (profile_tgUser s),
      ps_id = CHR ''@'' # (if has_oltin_id (profile_user s) then us_oltin_id (the (profile_user s)) else ''...''),
      ps_copied = pf_copied s,
      ps_telegram = (case profile_tgUser s of None \<Rightarrow> None
        | Some u \<Rightarrow> if truthy (tu_username u) then Some (''Telegram: @'' @ the (tu_username u)) else None),
      ps_setIdLink = (if isCustomOltinId (profile_user s) then None else Some ''/set-oltin-id''),
      ps_languages = map (\<lambda>c. (c, as_language (ap_store (pf_app s)) = Some c)) LANGUAGES,
      ps_disabled = (pf_pending s \<noteq> None),
      ps_links = map fst menuItems @ [''/about'']\<rparr>"

section \<open>The receive page\<close>

definition receive_labels :: "(string \<times> (string \<times> ui_text) list) list" where
  "receive_labels =
    [(''yourOltinId'',
      [(''uz'', asc ''Sizning OLTIN ID''),
       (''ru'', [1042, 1072, 1096] @ asc '' OLTIN ID''),
       (''en'', asc ''Your OLTIN ID'')]),
     (''shareToReceive'',
      [(''uz'', asc ''Pul olish uchun ID ni ulashing''),
       (''ru'', [1055, 1086, 1076, 1077, 1083, 1080, 1090, 1077, 1089, 1100] @ asc '' ID '' @ [1095, 1090, 1086, 1073, 1099, 32, 1087, 1086, 1083, 1091, 1095, 1080, 1090, 1100, 32, 1089, 1088, 1077, 1076, 1089, 1090, 1074, 1072]),
       (''en'', asc ''Share your ID to receive funds'')]),
     (''copied'',
      [(''uz'', asc ''Nusxalandi!''),
       (''ru'', [1057, 1082, 1086, 1087, 1080, 1088, 1086, 1074, 1072, 1085, 1086, 33]),
       (''en'', asc ''Copied!'')]),
     (''copyId'',
      [(''uz'', asc ''ID ni nusxalash''),
       (''ru'', [1057, 1082, 1086, 1087, 1080, 1088, 1086, 1074, 1072, 1090, 1100] @ asc '' ID''),
       (''en'', asc ''Copy ID'')]),
     (''howToReceive'',
      [(''uz'', asc ''Qanday qilib pul olish''),
       (''ru'', [1050, 1072, 1082, 32, 1087, 1086, 1083, 1091, 1095, 1080, 1090, 1100, 32, 1089, 1088, 1077, 1076, 1089, 1090, 1074, 1072]),
       (''en'', asc ''How to receive'')]),
     (''step1'',
      [(''uz'', asc ''OLTIN ID ni jonatuvchiga yuboring''),
       (''ru'', [1054, 1090, 1087, 1088, 1072, 1074, 1100, 1090, 1077] @ asc '' OLTIN ID '' @ [1086, 1090, 1087, 1088, 1072, 1074, 1080, 1090, 1077, 1083, 1102]),
       (''en'', asc ''Share your OLTIN ID with sender'')]),
     (''step2'',
      [(''uz'', asc ''Jonatuvchi ID ni kiritadi''),
       (''ru'', [1054, 1090, 1087, 1088, 1072, 1074, 1080, 1090, 1077, 1083, 1100, 32, 1074, 1074, 1086, 1076, 1080, 1090] @ asc '' ID''),
       (''en'', asc ''Sender enters your ID'')]),
     (''step3'',
      [(''uz'', asc ''Mablaglar hisobga tushadi''),
       (''ru'', [1057, 1088, 1077, 1076, 1089, 1090, 1074, 1072, 32, 1087, 1086, 1089, 1090, 1091, 1087, 1103, 1090, 32, 1085, 1072, 32, 1089, 1095, 1105, 1090]),
       (''en'', asc ''Funds arrive to your account'')])]"

definition getLabel :: "string \<Rightarrow> string \<Rightarrow> ui_text" where
  "getLabel language key =
     (case map_of receive_labels key of None \<Rightarrow> asc key
      | Some row \<Rightarrow> shown_or (map_of row language) (shown_or (map_of row ''en'') (asc key)))"

definition receive_id :: "user option \<Rightarrow> string" where
  "receive_id u = (if has_oltin_id u then CHR ''@'' # us_oltin_id (the u) else [])"

record receive_page =
  rv_copied :: bool
  rv_clipboard :: "string option"

definition copyToClipboard :: "telegram option \<Rightarrow> user option \<Rightarrow> receive_page \<Rightarrow> receive_page \<times> tg_call list" where
  "copyToClipboard webApp u s =
     (if receive_id u = [] then (s, [])
      else (s\<lparr>rv_clipboard := Some (receive_id u), rv_copied := True\<rparr>, hapticFeedback webApp HSuccess))"

definition receive_timer :: "receive_page \<Rightarrow> receive_page" where
  "receive_timer s = s\<lparr>rv_copied := False\<rparr>"

definition receive_view :: "string option \<Rightarrow> user option \<Rightarrow> receive_page \<Rightarrow> string \<times> ui_text list" where
  "receive_view language u s =
     (let l = getLabel (lang_of language) in
      (receive_id u, [l ''yourOltinId'', l (if rv_copied s then ''copied'' else ''copyId''), l ''howToReceive'', l ''step1'',
         l ''step2'', l ''step3'', l ''shareToReceive'']))"

section \<open>Properties\<close>

text \<open>At most one tab is lit, whatever the path.\<close>

lemma active_first_two: "isActive pathname href \<Longrightarrow> 2 \<le> length href \<Longrightarrow> take 2 pathname = take 2 href"
proof -
  assume a: "isActive pathname href" and l: "2 \<le> length href"
  show ?thesis
  proof (cases "pathname = href")
    case False
    then have "take (Suc (length href)) pathname = href @ ''/''" using a by (simp add: isActive_def js_startsWith_def)
    then have "take 2 (take (Suc (length href)) pathname) = take 2 (href @ ''/'')" by simp
    with l show ?thesis by (simp add: min_def)
  qed simp
qed

lemma one_tab_is_lit:
  assumes "(a, la) \<in> set navItems" and "(b, lb) \<in> set navItems" and "isActive pathname a" and "isActive pathname b"
  shows "a = b"
proof -
  have two: "2 \<le> length x" if "(x, l) \<in> set navItems" for x l using that by (auto simp: navItems_def)
  have "take 2 a = take 2 b"
    using active_first_two [OF assms(3) two [OF assms(1)]] active_first_two [OF assms(4) two [OF assms(2)]] by simp
  with assms(1,2) show ?thesis by (auto simp: navItems_def)
qed

text \<open>
  A language change on the profile page takes effect exactly when the backend accepted it, and is
  then what a reload restores; while it is in flight no second one is sent.
\<close>

lemma language_change_follows_the_reply:
  assumes "handleLanguageChange lang s = (s', Some e)" and "language_reply r s' = (s'', calls)"
  shows "e = updateMe (Some lang) \<and> pf_pending s = None \<and> handleLanguageChange other s' = (s', None) \<and> pf_pending s'' = None
       \<and> (case r of
            Inr _ \<Rightarrow> as_language (ap_store (pf_app s'')) = Some lang
                      \<and> as_language (getInitialState (ap_local (pf_app s''))) = Some lang
          | Inl _ \<Rightarrow> pf_app s'' = pf_app s)"
  using assms
  by (auto simp: handleLanguageChange_def language_reply_def with_store_def setLanguage_def getInitialState_def Let_def
      split: if_splits sum.splits prod.splits)

lemma init_language_keeps:
  "ap_authError (init_language l p) = ap_authError p"
  by (auto simp: init_language_def with_store_def split: option.splits prod.splits)

lemma sync_token_keeps:
  "ap_store (sync_token p) = ap_store p" "ap_local (sync_token p) = ap_local p" "ap_authError (sync_token p) = ap_authError p"
  "ap_isLoading (sync_token p) = ap_isLoading p"
  by (simp_all add: sync_token_def)

text \<open>Opening the app again: a new page on the same device, its address without a language.\<close>

definition reopen :: "string option \<times> (string \<Rightarrow> (string, auth_result) result) \<Rightarrow> app \<Rightarrow> app" where
  "reopen o1 p = init_app None (fst o1) (snd o1) (fresh_app (ap_local p))"

text \<open>The app runs in a language and the device keeps it.\<close>

definition settled :: "string \<Rightarrow> app \<Rightarrow> bool" where
  "settled lang p \<longleftrightarrow> as_language (ap_store p) = Some lang \<and> ap_local p ''oltinpay_lang'' = Some lang"

text \<open>An opening at which an account, if one is authenticated, has the given language or none.\<close>

definition account_agrees :: "string \<Rightarrow> string option \<times> (string \<Rightarrow> (string, auth_result) result) \<Rightarrow> bool" where
  "account_agrees lang o1 \<longleftrightarrow>
     (\<forall>r u. truthy (fst o1) \<and> snd o1 (the (fst o1)) = Inr r \<and> ar_user r = Some u \<longrightarrow> us_language u \<in> {[], lang})"

lemma settled_handleSelect: "settled lang (handleSelect lang p)"
  by (simp add: settled_def handleSelect_def with_store_def setLanguage_def Let_def)

lemma settled_init_language: "settled lang (init_language None (fresh_app ls))" if "ls ''oltinpay_lang'' = Some lang" "lang \<noteq> []"
  using that by (simp add: settled_def init_language_def fresh_app_def getInitialState_def with_store_def setLanguage_def truthy_def Let_def)

lemma settled_authenticate:
  assumes "settled lang p" and "account_agrees lang (tg, reply)" and "ap_authError p = None"
  shows "settled lang (authenticate tg reply p)"
    and "ap_authError (authenticate tg reply p)
         = (if truthy tg then case reply (the tg) of Inl e \<Rightarrow> Some e | Inr _ \<Rightarrow> None else None)"
  using assms
  by (auto simp: settled_def account_agrees_def authenticate_def with_store_def setLanguage_def setUser_def setToken_def
      initFromStorage_def Let_def split: sum.splits option.splits)

lemma reopen_settled:
  assumes "settled lang p" and "lang \<noteq> []" and "account_agrees lang o1"
  shows "settled lang (reopen o1 p)"
    and "app_view (reopen o1 p) = (case ap_authError (reopen o1 p) of None \<Rightarrow> GateScreen
           | Some e \<Rightarrow> if e = [] then GateScreen else AuthErrorScreen e)"
    and "ap_authError (reopen o1 p) = (if truthy (fst o1) then case snd o1 (the (fst o1)) of Inl e \<Rightarrow> Some e | Inr _ \<Rightarrow> None else None)"
proof -
  let ?q = "init_language None (fresh_app (ap_local p))"
  have q: "settled lang ?q" by (rule settled_init_language) (use assms in \<open>simp_all add: settled_def\<close>)
  have e: "ap_authError ?q = None" by (simp add: init_language_keeps fresh_app_def)
  note a = settled_authenticate [OF q _ e, of "fst o1" "snd o1"]
  show s: "settled lang (reopen o1 p)"
    using a(1) assms(3) by (simp add: reopen_def init_app_def settled_def sync_token_keeps)
  then show "app_view (reopen o1 p) = (case ap_authError (reopen o1 p) of None \<Rightarrow> GateScreen
           | Some e \<Rightarrow> if e = [] then GateScreen else AuthErrorScreen e)"
    using assms(2) by (auto simp: app_view_def settled_def truthy_def reopen_def init_app_def sync_token_keeps split: option.split)
  show "ap_authError (reopen o1 p) = (if truthy (fst o1) then case snd o1 (the (fst o1)) of Inl e \<Rightarrow> Some e | Inr _ \<Rightarrow> None else None)"
    using a(2) assms(3) by (simp add: reopen_def init_app_def sync_token_keeps)
qed

lemma fold_reopen_settled:
  "settled lang p \<Longrightarrow> lang \<noteq> [] \<Longrightarrow> \<forall>o1 \<in> set opens. account_agrees lang o1 \<Longrightarrow> settled lang (fold reopen opens p)"
  by (induction opens arbitrary: p) (simp_all add: reopen_settled(1))

lemma settled_texts:
  assumes "settled lang p" and "lang \<in> set LANGUAGES" and "key \<in> set TranslationKey"
  shows "\<exists>tab. translation_table lang = Some tab \<and> map_of tab key = Some (useTranslation (as_language (ap_store p)) key)"
proof -
  obtain tab where "translation_table lang = Some tab" using assms(2) by (auto simp: LANGUAGES_def translation_table_def)
  moreover have "lang \<noteq> []" using assms(2) by (auto simp: LANGUAGES_def)
  ultimately show ?thesis
    using every_key_has_its_text [OF assms(3), of "Some lang"] assms(1) by (simp add: settled_def lang_of_def truthy_def)
qed

lemma language_accepted:
  assumes "handleLanguageChange lang s = (s', Some e)"
  shows "e = updateMe (Some lang)" and "settled lang (pf_app (fst (language_reply (Inr b) s')))"
    and "pf_app (fst (language_reply (Inl f) s')) = pf_app s" and "pf_pending (fst (language_reply r s')) = None"
  using assms
  by (auto simp: handleLanguageChange_def language_reply_def settled_def with_store_def setLanguage_def Let_def
      split: if_splits sum.splits)

text \<open>
  C40.  A chosen language stays.  Let a user press one of the three languages on the profile page:
  the backend is asked to store exactly that language.  If it refuses, the app's state is what it was;
  if it accepts, the app runs in the language at once.  From there, and likewise from a choice on the
  language screen, let the app be opened again any number of times, inside Telegram or outside,
  authenticated or failing to, by an address without a language, and let the account, whenever one
  is authenticated, have the chosen language (as the backend accepted it) or none.  Then after every
  opening the app still runs in that language, the device still keeps it, every text shown is that
  language's own entry, and the last opening shows the wallet gate, or the authentication's error if
  it failed, never the language screen again.
\<close>

theorem chosen_language_stays:
  assumes "lang \<in> set LANGUAGES" and "handleLanguageChange lang s = (s', Some e)" and "\<forall>o1 \<in> set opens. account_agrees lang o1"
  shows "e = updateMe (Some lang) \<and> (\<forall>f. pf_app (fst (language_reply (Inl f) s')) = pf_app s)
    \<and> (\<forall>b p0. \<forall>p \<in> {pf_app (fst (language_reply (Inr b) s')), handleSelect lang p0}.
         as_language (ap_store (fold reopen opens p)) = Some lang \<and> ap_local (fold reopen opens p) ''oltinpay_lang'' = Some lang
         \<and> (\<forall>key \<in> set TranslationKey. \<exists>tab. translation_table lang = Some tab
               \<and> map_of tab key = Some (useTranslation (as_language (ap_store (fold reopen opens p))) key))
         \<and> (\<forall>before last. opens = before @ [last] \<longrightarrow>
               app_view (fold reopen opens p) =
                 (if truthy (fst last) then
                    (case snd last (the (fst last)) of Inl err \<Rightarrow> if err = [] then GateScreen else AuthErrorScreen err | Inr _ \<Rightarrow> GateScreen)
                  else GateScreen)))"
proof -
  have ne: "lang \<noteq> []" using assms(1) by (auto simp: LANGUAGES_def)
  have stays: "as_language (ap_store (fold reopen opens p)) = Some lang \<and> ap_local (fold reopen opens p) ''oltinpay_lang'' = Some lang
         \<and> (\<forall>key \<in> set TranslationKey. \<exists>tab. translation_table lang = Some tab
               \<and> map_of tab key = Some (useTranslation (as_language (ap_store (fold reopen opens p))) key))
         \<and> (\<forall>before last. opens = before @ [last] \<longrightarrow>
               app_view (fold reopen opens p) =
                 (if truthy (fst last) then
                    (case snd last (the (fst last)) of Inl err \<Rightarrow> if err = [] then GateScreen else AuthErrorScreen err | Inr _ \<Rightarrow> GateScreen)
                  else GateScreen))" if p: "settled lang p" for p
  proof -
    have s: "settled lang (fold reopen opens p)" by (rule fold_reopen_settled [OF p ne assms(3)])
    have "app_view (fold reopen opens p) =
        (if truthy (fst last) then
           (case snd last (the (fst last)) of Inl err \<Rightarrow> if err = [] then GateScreen else AuthErrorScreen err | Inr _ \<Rightarrow> GateScreen)
         else GateScreen)" if o: "opens = before @ [last]" for before last
    proof -
      have "settled lang (fold reopen before p)" by (rule fold_reopen_settled [OF p ne]) (use assms(3) o in auto)
      from reopen_settled(2,3) [OF this ne, of last] show ?thesis using assms(3) o by (simp split: sum.split)
    qed
    with s settled_texts [OF s assms(1)] show ?thesis by (simp add: settled_def)
  qed
  show ?thesis
    using language_accepted(1,3) [OF assms(2)] stays language_accepted(2) [OF assms(2)] settled_handleSelect by blast
qed

text \<open>Russian, chosen on the profile page and opened twice: outside Telegram, then inside with the account's answer.\<close>

definition sample_profile :: profile where
  "sample_profile = \<lparr>pf_app = fresh_app (\<lambda>_. None), pf_session = initial_session, pf_webApp = None, pf_copied = False,
     pf_photoUrl = None, pf_pending = None, pf_clipboard = None, pf_stale = []\<rparr>"

definition sample_opens :: "(string option \<times> (string \<Rightarrow> (string, auth_result) result)) list" where
  "sample_opens = [(None, \<lambda>_. Inl ''offline''),
     (Some ''init'', \<lambda>_. Inr \<lparr>ar_access_token = ''jwt'', ar_user = Some \<lparr>us_id = ''1'', us_oltin_id = ''ali'', us_language = ''ru''\<rparr>\<rparr>)]"

theorem chosen_language_stays_witness:
  "\<exists>s' b. handleLanguageChange ''ru'' sample_profile = (s', Some (updateMe (Some ''ru'')))
     \<and> (let q = fold reopen sample_opens (pf_app (fst (language_reply (Inr b) s'))) in
          as_language (ap_store q) = Some ''ru'' \<and> app_view q = GateScreen
          \<and> useTranslation (as_language (ap_store q)) ''fee'' = [1050, 1086, 1084, 1080, 1089, 1089, 1080, 1103])"
proof -
  obtain s' e where c: "handleLanguageChange ''ru'' sample_profile = (s', Some e)"
    by (simp add: handleLanguageChange_def sample_profile_def)
  have l: "''ru'' \<in> set LANGUAGES" by (simp add: LANGUAGES_def)
  have a: "\<forall>o1 \<in> set sample_opens. account_agrees ''ru'' o1" by (simp add: sample_opens_def account_agrees_def truthy_def)
  have k: "''fee'' \<in> set TranslationKey" by (simp add: TranslationKey_def uz_texts_def)
  have v: "map_of ru_texts ''fee'' = Some [1050, 1086, 1084, 1080, 1089, 1089, 1080, 1103]" "translation_table ''ru'' = Some ru_texts"
    by (simp_all add: ru_texts_def translation_table_def)
  note T = chosen_language_stays [OF l c a]
  let ?q = "fold reopen sample_opens (pf_app (fst (language_reply (Inr (JObj [])) s')))"
  have q: "as_language (ap_store ?q) = Some ''ru''"
    "\<exists>tab. translation_table ''ru'' = Some tab \<and> map_of tab ''fee'' = Some (useTranslation (as_language (ap_store ?q)) ''fee'')"
    using T k by blast+
  have "sample_opens = [hd sample_opens] @ [last sample_opens]" by (simp add: sample_opens_def)
  with T have g: "app_view ?q = (if truthy (fst (last sample_opens)) then
        (case snd (last sample_opens) (the (fst (last sample_opens))) of Inl err \<Rightarrow> if err = [] then GateScreen else AuthErrorScreen err
         | Inr _ \<Rightarrow> GateScreen) else GateScreen)" by blast
  have "app_view ?q = GateScreen" unfolding g by (simp add: sample_opens_def)
  with q v c T show ?thesis by (intro exI [of _ s'] exI [of _ "JObj []"]) (auto simp: Let_def)
qed

text \<open>
  An account with another language overrides the device: every authentication that gives a user with
  a language sets it, also when the device had one.
\<close>

lemma account_language_wins:
  assumes "truthy tg" and "reply (the tg) = Inr r" and "ar_user r = Some u" and "us_language u \<in> set LANGUAGES"
    and "key \<in> set TranslationKey"
  shows "let p' = init_app langParam tg reply (fresh_app (ap_local (handleSelect chosen p))) in
         app_view p' = GateScreen
       \<and> as_language (ap_store p') = Some (us_language u) \<and> ap_local p' ''oltinpay_lang'' = Some (us_language u)
       \<and> (\<exists>tab. translation_table (us_language u) = Some tab
            \<and> map_of tab key = Some (useTranslation (as_language (ap_store p')) key))"
proof -
  let ?f = "fresh_app (ap_local (handleSelect chosen p))"
  let ?q = "init_language langParam ?f"
  have ne: "us_language u \<noteq> []" using assms(4) by (auto simp: LANGUAGES_def)
  let ?a = "authenticate tg reply ?q"
  have au: "as_language (ap_store ?a) = Some (us_language u)" "ap_local ?a ''oltinpay_lang'' = Some (us_language u)"
    "ap_authError ?a = ap_authError ?q"
    using assms(1-3) ne by (simp_all add: authenticate_def Let_def with_store_def setLanguage_def)
  have "ap_authError ?q = None" by (simp add: init_language_keeps fresh_app_def)
  with au ne have "app_view (init_app langParam tg reply ?f) = GateScreen"
    by (simp add: app_view_def init_app_def sync_token_keeps truthy_def)
  moreover have "as_language (ap_store (init_app langParam tg reply ?f)) = Some (us_language u)"
    "ap_local (init_app langParam tg reply ?f) ''oltinpay_lang'' = Some (us_language u)"
    using au by (simp_all add: init_app_def sync_token_keeps)
  moreover obtain tab where "translation_table (us_language u) = Some tab"
    using assms(4) by (auto simp: LANGUAGES_def translation_table_def)
  moreover from this have "map_of tab key = Some (useTranslation (Some (us_language u)) key)"
    using every_key_has_its_text [OF assms(5), of "Some (us_language u)"] ne by (simp add: lang_of_def truthy_def)
  ultimately show ?thesis by (simp add: Let_def)
qed

lemma account_language_wins_witness:
  "as_language (ap_store (init_app (Some ''uz'') (Some ''init'')
      (\<lambda>_. Inr \<lparr>ar_access_token = ''jwt'', ar_user = Some \<lparr>us_id = ''1'', us_oltin_id = ''ali'', us_language = ''ru''\<rparr>\<rparr>)
      (fresh_app (ap_local (handleSelect ''en'' (fresh_app (\<lambda>_. None))))))) = Some ''ru''
   \<and> useTranslation (Some ''ru'') ''fee'' = [1050, 1086, 1084, 1080, 1089, 1089, 1080, 1103]"
proof -
  let ?u = "\<lparr>us_id = ''1'', us_oltin_id = ''ali'', us_language = ''ru''\<rparr>"
  have k: "''fee'' \<in> set TranslationKey" by (simp add: TranslationKey_def uz_texts_def)
  have v: "map_of ru_texts ''fee'' = Some [1050, 1086, 1084, 1080, 1089, 1089, 1080, 1103]" by (simp add: ru_texts_def)
  show ?thesis
    using account_language_wins [of "Some ''init''" "\<lambda>_. Inr \<lparr>ar_access_token = ''jwt'', ar_user = Some ?u\<rparr>"
        "\<lparr>ar_access_token = ''jwt'', ar_user = Some ?u\<rparr>" ?u "''fee''" "Some ''uz''" "''en''" "fresh_app (\<lambda>_. None)"] k v
    by (auto simp: truthy_def LANGUAGES_def Let_def translation_table_def)
qed

text \<open>
  Logging out does not close the wallet: outside Telegram nothing but the token and the language is
  cleared, so after the next choice of a language the gate is shown again with the same unlocked account
  and the API client still sending the old token.
\<close>

lemma logout_leaves_the_wallet_open:
  assumes "handleLogout s = (s', calls)" and "pf_webApp s = None" and "ap_isLoading (pf_app s) = False" and "ap_authError (pf_app s) = None"
    and "lang \<in> set LANGUAGES"
  shows "calls = [] \<and> pf_session s' = pf_session s \<and> app_view (sync_token (pf_app s')) = LanguageScreen
       \<and> app_view (handleSelect lang (sync_token (pf_app s'))) = GateScreen
       \<and> ap_apiToken (handleSelect lang (sync_token (pf_app s'))) = ap_apiToken (pf_app s)"
  using assms
  by (auto simp: handleLogout_def hapticFeedback_def with_store_def logout_def app_view_def sync_token_def truthy_def handleSelect_def
      setLanguage_def LANGUAGES_def Let_def split: prod.splits)

end
