(* ===== verification/Spec2Isabelle.thy ===== *)
theory Spec2Isabelle
  imports Keepers History WalletGate Screens ApiClient Console ConsoleUi Migration Redeploy Legacy Smoke SeedDemo AppChain Profile
begin

text \<open>
  OltinPay: a verification development.

  \<^bold>\<open>The program.\<close>  OltinPay sells tokenised gold.  On chain (\<^verbatim>\<open>src/contracts/contracts\<close>), OLTIN is
  minted only against an attested reserve of grams, an exchange mints and redeems it for the UZD
  stablecoin at two attested prices, a staking contract pays rewards on locked OLTIN, and a paymaster
  pays the gas of its users in ETH against a fee in OLTIN.  Off chain, three keeper processes
  (\<^verbatim>\<open>src/contracts/scripts\<close>) read outside sources and post the three feeds; deployment scripts
  (\<^verbatim>\<open>src/contracts/deploy\<close>) build and rewire the stack; a Telegram web app
  (\<^verbatim>\<open>src/oltinpay/oltinpay-webapp\<close>) holds the user's key and signs transfers, swaps and stakes; a
  console (\<^verbatim>\<open>src/oltinpay/oltinpay-console\<close>) serves the bank operator and the proof of reserve.

  \<^bold>\<open>How the parts meet.\<close>  A keeper ends in \<^verbatim>\<open>postAnswer\<close> of the attestor; mint, buy, sell and
  the paymaster's users read \<^verbatim>\<open>latestRoundData\<close> or the token through the same definitions; the
  deployment scripts run the constructors and administrative calls of the modelled contracts on a chain of
  them; the screens reach the chain only through the writes of \<^verbatim>\<open>lib/chain.ts\<close>; the gate and
  onboarding reach the phrase only through the operations of \<^verbatim>\<open>lib/wallet.ts\<close>.  Three of these
  meetings are locales, each interpreted on the model's own definitions: \<open>aggregator\<close> (what a consumer
  of a feed relies on), \<open>ledger\<close> (what a contract that moves tokens relies on), \<open>blob_store\<close> (what the
  wallet screens rely on of the stored blob); \<open>feed_keeper\<close> holds what the keepers share.

  \<^bold>\<open>Conventions.\<close>  A \<^verbatim>\<open>bigint\<close> is an \<^typ>\<open>int\<close>, a Solidity \<^verbatim>\<open>uint256\<close> a \<^typ>\<open>nat\<close> with
  the bound \<open>UINT256\<close> checked where the compiler checks it, a string a list of code units (below 256
  as a \<^typ>\<open>string\<close>; any 16-bit ones, surrogates included, where a typed text is escaped into a
  request), a contract a record, a call a function that returns the new state or an error, a component of the
  user interface a record with a step per event.  Code outside the repository is an argument: hashing and
  key derivation, viem's formatting, the backend's replies, \<open>mulDiv\<close> of the OpenZeppelin library,
  the explorer.  What a property needs of it is a named hypothesis, and its witness instantiates it.

  \<^bold>\<open>The theories.\<close>
  \<^item> \<open>OltinPrelude\<close>, \<open>JsNumber\<close>, \<open>JsonValue\<close>, \<open>Utf8\<close>: the ECMAScript values, their UTF-16 and
    UTF-8 encodings, and the lemmas all parts share.
  \<^item> \<open>Attestor\<close>: the feed (\<^verbatim>\<open>Attestor.sol\<close>) with its roles, and the \<open>aggregator\<close> contract.
  \<^item> \<open>KeeperDecision\<close>, \<open>KeeperParse\<close>, \<open>GoldPrice\<close> (\<^verbatim>\<open>keeper-lib.ts\<close>): post, skip or refuse; parsing
    of decimals and of the central bank's reply; the median of the token quotes.  \<open>Keepers\<close>: the three
    processes and their runner, end to end on the feed.
  \<^item> \<open>Erc20\<close>, \<open>Tokens\<close>: the OpenZeppelin base as the build info records it, \<^verbatim>\<open>OltinTokenV3.sol\<close> and
    \<^verbatim>\<open>UZD.sol\<close>; the books add up and the supply grows only against the reserve.
  \<^item> \<open>ExchangeContract\<close>, \<open>StakingContract\<close>, \<open>Paymaster\<close>: the three other contracts, every external call;
    exact settlement, no profit on a round trip and redeemability; solvency, the lock and the rewards;
    the day's budget, the fee and the agreement of preflight and validation.
  \<^item> \<open>Deploy\<close>, \<open>Migration\<close>, \<open>Redeploy\<close>: the deployment scripts as programs that may lose the connection
    before any call; a weakest-precondition calculus for them; what holds wherever they stop, what a run that
    ends has wired or deployed, and what running it again changes.
  \<^item> \<open>Legacy\<close>: the second gold token (\<^verbatim>\<open>OltinTokenV2.sol\<close>) and the scripts that fund the reward pool and
    copy old balances to it; each call may fail alone, and a run may be repeated.
  \<^item> \<open>Smoke\<close>: the gasless smoke, a live transfer sponsored by the paymaster, and the verdict it gives.
  \<^item> \<open>SeedDemo\<close>: the demo seed, which mints, buys and sells on the exchange while the feeds go on; it
    completes with exact books, from an empty bank or resumed after a run that died.
  \<^item> \<open>TokenFormat\<close>, \<open>History\<close>, \<open>ApiClient\<close>, \<open>ChainClient\<close> (\<^verbatim>\<open>lib/format.ts\<close>, \<^verbatim>\<open>lib/staking.ts\<close>,
    \<^verbatim>\<open>lib/history.ts\<close>, \<^verbatim>\<open>lib/api.ts\<close>, \<^verbatim>\<open>lib/chain.ts\<close>): amounts, the feed of transactions, requests, writes.
  \<^item> \<open>WalletLib\<close>, \<open>Session\<close>, \<open>Onboarding\<close>, \<open>WalletGate\<close>: the sealed phrase, the stores, the pages that
    create and restore the wallet, and the gate as a state machine with its effects and late replies.
  \<^item> \<open>Pages\<close>, \<open>Screens\<close>: the mutations of the send, exchange, staking and wallet pages, and what they show.
  \<^item> \<open>Texts\<close>, \<open>Profile\<close>: the texts in three languages and the choice among them, which stays
    when the app is opened again; the profile, receive and
    language screens, the navigation bar and Telegram's object (\<^verbatim>\<open>lib/i18n.ts\<close>, \<^verbatim>\<open>hooks/\<close>).
  \<^item> \<open>AppChain\<close>: the web app's writes executed on the contracts (\<^verbatim>\<open>lib/contracts.ts\<close>); what the
    app shows before and after a swap, and the books under whatever its users sign.
  \<^item> \<open>Console\<close>, \<open>ConsoleUi\<close>: the operator gate, the signing proxy, the bank panel and the dashboard.

  \<^bold>\<open>Bounds and fuel.\<close>  No definition runs on fuel: loops are structural recursions or \<open>function\<close>s
  with a measure.  A script is bounded by the number of awaited calls its connection survives, a field
  of the chain, so that every interruption is a value of it.

  \<^bold>\<open>Not modelled.\<close>  Gas, events and block production; console output and explorer verification; React's
  rendering, styles, icons and routing; the clock within one handler; the Python backend and its
  database; the query options and the page shell; the first token with its scripts, the mocks and the tests.  The rounding of a Number to a double
  is outside \<open>JsNumber\<close>.  A component of the manifest that is only partly modelled says so there.
\<close>

end
